(* ===== verification/Prelude.thy ===== *)
theory Prelude
  imports Main "HOL-Library.Word" "HOL-Library.Monad_Syntax"
begin

text \<open>
  Shared vocabulary of the development.

  \<^item> machine integers \<open>u8 .. u64\<close> are words; \<open>usize\<close> counts are \<open>nat\<close>;
  \<^item> a byte buffer (\<open>BytesMut\<close>, \<open>Bytes\<close>, \<open>[u8; N]\<close>, \<open>&[u8]\<close>) is the list of its bytes;
  \<^item> a computation that may panic has an \<open>option\<close> type, where \<open>None\<close> is the panic;
  \<^item> a computation that returns a Rust \<open>Result\<close> has a sum type, where \<open>Inl\<close> is \<open>Err\<close>;
  \<^item> a method on \<open>&mut self\<close> that may do both returns \<open>(('e + 'a) \<times> 's) option\<close>: the
    result together with the state it leaves, on the error path too.

  The theory also holds big-endian words, saturating arithmetic, and the list lemmas the
  codecs use.
\<close>

unbundle bit_operations_syntax

named_theorems buf_simps \<open>evaluation rules of the byte cursors\<close>
named_theorems codec_defs \<open>definitions of the wire codecs\<close>
named_theorems const_defs \<open>numeric constants of the source\<close>

type_synonym u8 = "8 word"
type_synonym u16 = "16 word"
type_synonym u32 = "32 word"
type_synonym u64 = "64 word"
type_synonym usize = nat
type_synonym bytes = "u8 list"

datatype ip_addr = IpAddrV4 u32 | IpAddrV6 "128 word"

type_synonym ('s, 'e, 'a) outcome = "(('e + 'a) \<times> 's) option"

section \<open>Big-endian integers\<close>

definition be_bytes :: "nat \<Rightarrow> 'a::len word \<Rightarrow> bytes" where
  "be_bytes n w = map (\<lambda>i. ucast (drop_bit (8 * i) w)) (rev [0..<n])"

definition be_word :: "bytes \<Rightarrow> 'a::len word" where
  "be_word bs = foldl (\<lambda>acc b. push_bit 8 acc OR ucast b) 0 bs"

text \<open>The integers Rust writes with \<open>as u8\<close> from a \<open>bool\<close>.\<close>

definition bool_u8 :: "bool \<Rightarrow> u8" where
  "bool_u8 b = (if b then 1 else 0)"

definition sat_add :: "'a::len word \<Rightarrow> 'a word \<Rightarrow> 'a word" where
  "sat_add a b = (if unat a + unat b < 2 ^ LENGTH('a) then a + b else - 1)"

definition sat_sub :: "'a::len word \<Rightarrow> 'a word \<Rightarrow> 'a word" where
  "sat_sub a b = (if b \<le> a then a - b else 0)"

text \<open>The unsigned value of a length stored in a \<open>u16\<close> field (\<open>len as u16\<close>).\<close>

abbreviation len_u16 :: "'a list \<Rightarrow> u16" where
  "len_u16 xs \<equiv> of_nat (length xs)"

lemma length_be_bytes [simp]: "length (be_bytes n w) = n"
  by (simp add: be_bytes_def)

lemma be_bytes_0 [simp]: "be_bytes 0 w = []"
  by (simp add: be_bytes_def)

lemma be_bytes_Suc: "be_bytes (Suc n) w = ucast (drop_bit (8 * n) w) # be_bytes n w"
  by (simp add: be_bytes_def)

lemma be_word_Nil [simp]: "be_word [] = 0"
  by (simp add: be_word_def)

lemma be_word_acc:
  "foldl (\<lambda>acc b. push_bit 8 acc OR ucast b) a bs =
     push_bit (8 * length bs) a OR (be_word bs :: 'a::len word)"
proof (induction bs arbitrary: a)
  case Nil
  then show ?case by (simp add: be_word_def)
next
  case (Cons b bs)
  have "be_word (b # bs) = push_bit (8 * length bs) (ucast b) OR (be_word bs :: 'a word)"
    using Cons.IH [of "ucast b"] by (simp add: be_word_def)
  then show ?case
    using Cons.IH [of "push_bit 8 a OR ucast b"]
    by (simp add: push_bit_or or.assoc push_bit_push_bit add.commute)
qed

lemma be_word_Cons:
  "be_word (b # bs) = push_bit (8 * length bs) (ucast b) OR (be_word bs :: 'a::len word)"
  using be_word_acc [of "ucast b" bs] by (simp add: be_word_def)

lemma be_word_be_bytes_take: "be_word (be_bytes n w) = take_bit (8 * n) (w :: 'a::len word)"
proof (induction n)
  case 0
  then show ?case by simp
next
  case (Suc n)
  have "push_bit (8 * n) (ucast (ucast (drop_bit (8 * n) w) :: u8)) OR take_bit (8 * n) w
      = take_bit (8 * Suc n) w"
    by (rule bit_word_eqI)
      (auto simp: bit_simps not_less less_diff_conv2)
  then show ?case
    by (simp add: be_bytes_Suc be_word_Cons Suc.IH)
qed

lemma be_word_be_bytes:
  "LENGTH('a) \<le> 8 * n \<Longrightarrow> be_word (be_bytes n w) = (w :: 'a::len word)"
  by (simp add: be_word_be_bytes_take take_bit_word_eq_self)

lemma be_word16 [simp]: "be_word (be_bytes 2 w) = (w :: u16)"
  by (simp add: be_word_be_bytes)

lemma be_word64 [simp]: "be_word (be_bytes 8 w) = (w :: u64)"
  by (simp add: be_word_be_bytes)

lemma unat_u16_less [simp]: "unat (w :: u16) < 65536"
  using unsigned_less [of w] by simp

lemma unat_len_u16 [simp]: "length xs < 65536 \<Longrightarrow> unat (len_u16 xs) = length xs"
  by (simp add: unat_of_nat)

lemma unat_of_nat_u8 [simp]: "n < 256 \<Longrightarrow> unat (of_nat n :: u8) = n"
  by (simp add: unat_of_nat)

lemma unat_of_nat_bounded: "n \<le> unat (b :: 'a::len word) \<Longrightarrow> unat (of_nat n :: 'a word) = n"
  by (metis le_unat_uoi)

lemma unat_plus_one: "a < (b :: 'a::len word) \<Longrightarrow> unat (a + 1) = Suc (unat a)"
  using unat_of_nat_bounded [of "Suc (unat a)" b] by (simp add: word_less_nat_alt Suc_le_eq add.commute)

lemma bool_u8_neq_0 [simp]:
  "bool_u8 b \<noteq> 0 \<longleftrightarrow> b" "bool_u8 b = 0 \<longleftrightarrow> \<not> b" "bool_u8 b = 1 \<longleftrightarrow> b"
  by (simp_all add: bool_u8_def)

section \<open>Lists\<close>

lemma take_append_exact [simp]: "n = length xs \<Longrightarrow> take n (xs @ ys) = xs"
  by simp

lemma drop_append_exact [simp]: "n = length xs \<Longrightarrow> drop n (xs @ ys) = ys"
  by simp

lemma split_at: "n \<le> length xs \<Longrightarrow> \<exists>ys zs. xs = ys @ zs \<and> length ys = n"
  by (metis append_take_drop_id length_take min.absorb2)

end
