(* ===== verification/Exec_Monad.thy ===== *)
theory Exec_Monad
  imports Prelude
begin

text \<open>
  Methods on \<open>&mut self\<close> that return a \<open>Result\<close>, call each other with \<open>?\<close> and may panic.
  A run of a method ends with a value or an error, both with the state it leaves, or with a
  panic; \<open>OutOfFuel\<close> is the cut-off of a loop that is given a bound. The combinators are the
  ways the source composes such calls: \<open>and_then\<close> is \<open>let x = m?; ...\<close>, \<open>ignoring\<close> is
  \<open>let _ = m;\<close>, \<open>attempt\<close> is \<open>match m { Ok .. Err .. }\<close>, \<open>check\<close> is an early return.

  \<open>steps F R m s\<close> says that whatever way the run of \<open>m\<close> from \<open>s\<close> ends, the state it leaves is
  related to \<open>s\<close> by \<open>R\<close>, and that it does not run out of fuel unless \<open>F\<close> holds. The locale \<open>step_rel\<close> has the composition rules for a preorder \<open>R\<close>;
  the components extend it.
\<close>

datatype ('s, 'e, 'a) exec = Ret 'a 's | Err 'e 's | Panic | OutOfFuel

type_synonym ('s, 'e, 'a) proc = "'s \<Rightarrow> ('s, 'e, 'a) exec"

named_theorems exec_defs \<open>the combinators\<close>
named_theorems steps_intros \<open>composition rules of steps\<close>

definition ret :: "'a \<Rightarrow> ('s, 'e, 'a) proc" where [exec_defs]:
  "ret a s = Ret a s"

definition throw :: "'e \<Rightarrow> ('s, 'e, 'a) proc" where [exec_defs]:
  "throw e s = Err e s"

definition panic :: "('s, 'e, 'a) proc" where [exec_defs]:
  "panic s = Panic"

definition and_then :: "('s, 'e, 'a) proc \<Rightarrow> ('a \<Rightarrow> ('s, 'e, 'b) proc) \<Rightarrow> ('s, 'e, 'b) proc" where [exec_defs]:
  "and_then m k s = (case m s of Ret a s' \<Rightarrow> k a s' | Err e s' \<Rightarrow> Err e s' | Panic \<Rightarrow> Panic | OutOfFuel \<Rightarrow> OutOfFuel)"

definition attempt :: "('s, 'e, 'a) proc \<Rightarrow> ('e + 'a \<Rightarrow> ('s, 'f, 'b) proc) \<Rightarrow> ('s, 'f, 'b) proc" where [exec_defs]:
  "attempt m k s = (case m s of Ret a s' \<Rightarrow> k (Inr a) s' | Err e s' \<Rightarrow> k (Inl e) s' | Panic \<Rightarrow> Panic | OutOfFuel \<Rightarrow> OutOfFuel)"

text \<open>\<open>m?; k\<close>, and \<open>let _ = m; k\<close>.\<close>

definition then_do :: "('s, 'e, 'a) proc \<Rightarrow> ('s, 'e, 'b) proc \<Rightarrow> ('s, 'e, 'b) proc" where [exec_defs]:
  "then_do m k = and_then m (\<lambda>_. k)"

definition ignoring :: "('s, 'e, 'a) proc \<Rightarrow> ('s, 'e, 'b) proc \<Rightarrow> ('s, 'e, 'b) proc" where [exec_defs]:
  "ignoring m k = attempt m (\<lambda>_. k)"

definition gets :: "('s \<Rightarrow> 'a) \<Rightarrow> ('s, 'e, 'a) proc" where [exec_defs]:
  "gets f s = Ret (f s) s"

definition modify :: "('s \<Rightarrow> 's) \<Rightarrow> ('s, 'e, unit) proc" where [exec_defs]:
  "modify f s = Ret () (f s)"

definition with_state :: "('s \<Rightarrow> ('s, 'e, 'a) proc) \<Rightarrow> ('s, 'e, 'a) proc" where [exec_defs]:
  "with_state f s = f s s"

definition check :: "('s \<Rightarrow> bool) \<Rightarrow> 'e \<Rightarrow> ('s, 'e, unit) proc" where [exec_defs]:
  "check b e s = (if b s then Ret () s else Err e s)"

definition do_when :: "bool \<Rightarrow> ('s, 'e, unit) proc \<Rightarrow> ('s, 'e, unit) proc" where [exec_defs]:
  "do_when b m = (if b then m else ret ())"

definition debug_assert :: "('s \<Rightarrow> bool) \<Rightarrow> ('s, 'e, unit) proc" where [exec_defs]:
  "debug_assert b s = (if b s then Ret () s else Panic)"

definition of_option :: "'a option \<Rightarrow> ('s, 'e, 'a) proc" where [exec_defs]:
  "of_option x = (case x of Some a \<Rightarrow> ret a | None \<Rightarrow> panic)"

definition of_result :: "'e + 'a \<Rightarrow> ('s, 'e, 'a) proc" where [exec_defs]:
  "of_result x = (case x of Inr a \<Rightarrow> ret a | Inl e \<Rightarrow> throw e)"

text \<open>The state a run leaves, if any.\<close>

fun exec_state :: "('s, 'e, 'a) exec \<Rightarrow> 's option" where
  "exec_state (Ret _ s) = Some s"
| "exec_state (Err _ s) = Some s"
| "exec_state Panic = None"
| "exec_state OutOfFuel = None"

definition steps :: "bool \<Rightarrow> ('s \<Rightarrow> 's \<Rightarrow> bool) \<Rightarrow> ('s, 'e, 'a) proc \<Rightarrow> 's \<Rightarrow> bool" where
  "steps F R m s \<longleftrightarrow> (case m s of Ret _ s' \<Rightarrow> R s s' | Err _ s' \<Rightarrow> R s s' | Panic \<Rightarrow> True | OutOfFuel \<Rightarrow> F)"

lemma stepsI: "(m s = OutOfFuel \<Longrightarrow> F) \<Longrightarrow> (\<And>s'. exec_state (m s) = Some s' \<Longrightarrow> R s s') \<Longrightarrow> steps F R m s"
  by (cases "m s") (auto simp: steps_def)

lemma stepsD: "steps F R m s \<Longrightarrow> exec_state (m s) = Some s' \<Longrightarrow> R s s'"
  by (cases "m s") (auto simp: steps_def)

lemma steps_RetD: "steps F R m s \<Longrightarrow> m s = Ret a s' \<Longrightarrow> R s s'"
  by (simp add: steps_def)

lemma steps_ErrD: "steps F R m s \<Longrightarrow> m s = Err e s' \<Longrightarrow> R s s'"
  by (simp add: steps_def)

lemma steps_mono: "steps F R m s \<Longrightarrow> (\<And>s'. R s s' \<Longrightarrow> Q s s') \<Longrightarrow> steps F Q m s"
  by (auto simp: steps_def split: exec.splits)

lemma steps_weaken: "steps False R m s \<Longrightarrow> steps F R m s"
  by (auto simp: steps_def split: exec.splits)

lemma steps_fuel: "steps False R m s \<Longrightarrow> m s \<noteq> OutOfFuel"
  by (auto simp: steps_def)

lemma steps_conj: "steps F R m s \<Longrightarrow> steps F Q m s \<Longrightarrow> steps F (\<lambda>a b. R a b \<and> Q a b) m s"
  by (auto simp: steps_def split: exec.splits)

lemma exec_splits_Ret:
  "and_then m k s = Ret b s'' \<longleftrightarrow> (\<exists>a s'. m s = Ret a s' \<and> k a s' = Ret b s'')"
  by (auto simp: and_then_def split: exec.splits)

lemma then_do_Ret: "then_do m k s = Ret b s'' \<longleftrightarrow> (\<exists>a s'. m s = Ret a s' \<and> k s' = Ret b s'')"
  by (simp add: then_do_def exec_splits_Ret)

lemma ignoring_Ret: "ignoring m k s = Ret b s'' \<longleftrightarrow> (\<exists>s'. exec_state (m s) = Some s' \<and> k s' = Ret b s'')"
  by (cases "m s") (auto simp: ignoring_def attempt_def)

lemma check_Ret [simp]: "check b e s = Ret u s' \<longleftrightarrow> b s \<and> s' = s"
  by (auto simp: check_def)

lemma gets_Ret [simp]: "gets f s = Ret u s' \<longleftrightarrow> u = f s \<and> s' = s"
  by (auto simp: gets_def)

lemma modify_Ret [simp]: "modify f s = Ret u s' \<longleftrightarrow> s' = f s"
  by (auto simp: modify_def)

locale step_rel =
  fixes R :: "'s \<Rightarrow> 's \<Rightarrow> bool"
  assumes refl: "R s s"
    and trans: "R s s' \<Longrightarrow> R s' s'' \<Longrightarrow> R s s''"
begin

lemma steps_ret [steps_intros]: "steps F R (ret a) s"
  and steps_throw [steps_intros]: "steps F R (throw e) s"
  and steps_panic [steps_intros]: "steps F R panic s"
  and steps_gets [steps_intros]: "steps F R (gets f) s"
  and steps_check [steps_intros]: "steps F R (check b e) s"
  and steps_debug_assert [steps_intros]: "steps F R (debug_assert b) s"
  and steps_of_option [steps_intros]: "steps F R (of_option x) s"
  and steps_of_result [steps_intros]: "steps F R (of_result y) s"
  by (auto simp: steps_def exec_defs refl split: option.splits sum.splits)

lemma steps_modify: "R s (f s) \<Longrightarrow> steps F R (modify f) s"
  by (simp add: steps_def modify_def)

lemma steps_and_then [steps_intros]:
  assumes "steps F R m s" and "\<And>a s'. m s = Ret a s' \<Longrightarrow> steps F R (k a) s'"
  shows "steps F R (and_then m k) s"
  using assms by (auto simp: steps_def and_then_def split: exec.splits intro: trans)

lemma steps_then_do [steps_intros]:
  assumes "steps F R m s" and "\<And>a s'. m s = Ret a s' \<Longrightarrow> steps F R k s'"
  shows "steps F R (then_do m k) s"
  using assms by (simp add: then_do_def steps_and_then)

lemma steps_attempt [steps_intros]:
  assumes "steps F R m s" and "\<And>a s'. m s = Ret a s' \<Longrightarrow> steps F R (k (Inr a)) s'"
    and "\<And>e s'. m s = Err e s' \<Longrightarrow> steps F R (k (Inl e)) s'"
  shows "steps F R (attempt m k) s"
  using assms by (auto simp: steps_def attempt_def split: exec.splits intro: trans)

lemma steps_ignoring [steps_intros]:
  assumes "steps F R m s" and "\<And>s'. exec_state (m s) = Some s' \<Longrightarrow> steps F R k s'"
  shows "steps F R (ignoring m k) s"
  unfolding ignoring_def by (rule steps_attempt) (use assms in auto)

lemma steps_with_state [steps_intros]: "steps F R (f s) s \<Longrightarrow> steps F R (with_state f) s"
  by (simp add: steps_def with_state_def)

lemma steps_do_when [steps_intros]: "(b \<Longrightarrow> steps F R m s) \<Longrightarrow> steps F R (do_when b m) s"
  by (simp add: do_when_def steps_ret)

lemma steps_if [steps_intros]: "(b \<Longrightarrow> steps F R m s) \<Longrightarrow> (\<not> b \<Longrightarrow> steps F R n s) \<Longrightarrow> steps F R (if b then m else n) s"
  by simp

lemma steps_option [steps_intros]:
  "(x = None \<Longrightarrow> steps F R m s) \<Longrightarrow> (\<And>a. x = Some a \<Longrightarrow> steps F R (k a) s) \<Longrightarrow>
    steps F R (case x of None \<Rightarrow> m | Some a \<Rightarrow> k a) s"
  by (cases x) simp_all

lemma steps_sum [steps_intros]:
  "(\<And>e. x = Inl e \<Longrightarrow> steps F R (h e) s) \<Longrightarrow> (\<And>a. x = Inr a \<Longrightarrow> steps F R (k a) s) \<Longrightarrow>
    steps F R (case x of Inl e \<Rightarrow> h e | Inr a \<Rightarrow> k a) s"
  by (cases x) simp_all

lemma steps_pair [steps_intros]:
  "(\<And>a b. x = (a, b) \<Longrightarrow> steps F R (k a b) s) \<Longrightarrow> steps F R (case x of (a, b) \<Rightarrow> k a b) s"
  by (cases x) simp

lemma steps_let [steps_intros]: "steps F R (f x) s \<Longrightarrow> steps F R (let y = x in f y) s"
  by simp

end

end
