(* ===== verification/Key_Update.thy ===== *)
theory Key_Update
  imports Prelude
begin

text \<open>
  Periodic TLS key updates of a server connection (lightway-core/src/connection/key_update.rs).
  \<open>Instant::now()\<close> is an argument. Times are counted in nanoseconds, as \<open>Duration\<close> does.
\<close>

type_synonym instant = nat
type_synonym duration = nat

abbreviation millis :: "nat \<Rightarrow> duration" where
  "millis n \<equiv> n * 1000000"

datatype key_update =
    KuDisabled
  | KuInitializing (ku_interval: duration)
  | KuWaiting (ku_interval: duration) (ku_last: instant)
  | KuPending (ku_interval: duration)

definition ku_new :: "duration \<Rightarrow> key_update" where
  "ku_new interval = (if interval = 0 then KuDisabled else KuInitializing interval)"

definition ku_is_pending :: "key_update \<Rightarrow> bool" where
  "ku_is_pending k \<longleftrightarrow> (case k of KuPending _ \<Rightarrow> True | _ \<Rightarrow> False)"

definition ku_online :: "instant \<Rightarrow> key_update \<Rightarrow> key_update" where
  "ku_online now k =
     (case k of
        KuDisabled \<Rightarrow> k
      | KuInitializing interval \<Rightarrow> KuWaiting interval now
      | KuWaiting _ _ \<Rightarrow> k
      | KuPending _ \<Rightarrow> k)"

text \<open>\<open>last.elapsed()\<close> saturates at zero when the clock reads earlier than \<open>last\<close>.\<close>

definition elapsed :: "instant \<Rightarrow> instant \<Rightarrow> duration" where
  "elapsed now lst = now - lst"

definition ku_required :: "instant \<Rightarrow> key_update \<Rightarrow> bool \<times> key_update" where
  "ku_required now k =
     (case k of
        KuDisabled \<Rightarrow> (False, k)
      | KuInitializing _ \<Rightarrow> (False, k)
      | KuPending _ \<Rightarrow> (False, k)
      | KuWaiting interval lst \<Rightarrow>
          if elapsed now lst < interval then (False, k) else (True, KuPending interval))"

definition ku_complete :: "instant \<Rightarrow> key_update \<Rightarrow> bool \<times> key_update" where
  "ku_complete now k =
     (case k of
        KuDisabled \<Rightarrow> (False, k)
      | KuInitializing _ \<Rightarrow> (False, k)
      | KuWaiting _ _ \<Rightarrow> (False, k)
      | KuPending interval \<Rightarrow> (True, KuWaiting interval now))"

lemmas ku_defs = ku_new_def ku_is_pending_def ku_online_def ku_required_def ku_complete_def elapsed_def

section \<open>Runs\<close>

text \<open>
  The calls a connection makes, each with the time of its clock reading, and the times at which
  \<open>required\<close> told it to start an update.
\<close>

datatype ku_call = KuOnline | KuRequired | KuComplete

fun ku_run :: "(instant \<times> ku_call) list \<Rightarrow> key_update \<Rightarrow> instant list \<times> key_update" where
  "ku_run [] k = ([], k)"
| "ku_run ((now, KuOnline) # cs) k = ku_run cs (ku_online now k)"
| "ku_run ((now, KuRequired) # cs) k =
     (case ku_required now k of (started, k') \<Rightarrow>
        case ku_run cs k' of (ts, k'') \<Rightarrow> (if started then now # ts else ts, k''))"
| "ku_run ((now, KuComplete) # cs) k = ku_run cs (snd (ku_complete now k))"

text \<open>The earliest time at which the next update can start, seen from time \<open>t\<close>.\<close>

definition ku_earliest :: "instant \<Rightarrow> key_update \<Rightarrow> instant" where
  "ku_earliest t k = (case k of KuDisabled \<Rightarrow> t | KuWaiting i lst \<Rightarrow> lst + i | KuInitializing i \<Rightarrow> t + i | KuPending i \<Rightarrow> t + i)"

definition ku_has_interval :: "duration \<Rightarrow> key_update \<Rightarrow> bool" where
  "ku_has_interval interval k \<longleftrightarrow> k = KuDisabled \<or> ku_interval k = interval"

lemma ku_online_earliest:
  assumes "t \<le> now"
  shows "ku_earliest t k \<le> ku_earliest now (ku_online now k)"
    "ku_has_interval i k \<Longrightarrow> ku_has_interval i (ku_online now k)"
  using assms by (auto simp: ku_earliest_def ku_has_interval_def ku_online_def split: key_update.splits)

lemma ku_complete_earliest:
  assumes "t \<le> now"
  shows "ku_earliest t k \<le> ku_earliest now (snd (ku_complete now k))"
    "ku_has_interval i k \<Longrightarrow> ku_has_interval i (snd (ku_complete now k))"
  using assms by (auto simp: ku_earliest_def ku_has_interval_def ku_complete_def split: key_update.splits)

lemma ku_required_earliest:
  assumes "t \<le> now" "ku_has_interval i k" "0 < i" "ku_required now k = (started, k')"
  shows "ku_has_interval i k'"
    "if started then ku_earliest t k \<le> now \<and> ku_earliest now k' = now + i else ku_earliest t k \<le> ku_earliest now k'"
  using assms
  by (auto simp: ku_earliest_def ku_has_interval_def ku_required_def elapsed_def split: key_update.splits if_splits)

lemma ku_run_spacing:
  "sorted (t # map fst cs) \<Longrightarrow> 0 < i \<Longrightarrow> ku_has_interval i k \<Longrightarrow>
    sorted_wrt (\<lambda>a b. a + i \<le> b) (fst (ku_run cs k)) \<and> (\<forall>s \<in> set (fst (ku_run cs k)). ku_earliest t k \<le> s)"
proof (induction cs arbitrary: t k)
  case (Cons c cs)
  obtain now call where c: "c = (now, call)" by fastforce
  have t: "t \<le> now" and srt: "sorted (now # map fst cs)" using Cons.prems(1) c by auto
  show ?case
  proof (cases call)
    case KuOnline
    then show ?thesis
      using Cons.IH [OF srt Cons.prems(2) ku_online_earliest(2) [OF t Cons.prems(3)]]
        order_trans [OF ku_online_earliest(1) [OF t]] c
      by simp
  next
    case KuComplete
    then show ?thesis
      using Cons.IH [OF srt Cons.prems(2) ku_complete_earliest(2) [OF t Cons.prems(3)]]
        order_trans [OF ku_complete_earliest(1) [OF t]] c
      by simp
  next
    case KuRequired
    obtain started k' where r: "ku_required now k = (started, k')" by fastforce
    note e = ku_required_earliest [OF t Cons.prems(3,2) r]
    show ?thesis
      using Cons.IH [OF srt Cons.prems(2) e(1)] e(2) c KuRequired r
      by (cases started) (force split: prod.splits)+
  qed
qed simp

text \<open>
  C38. TLS key updates are spaced: whatever the order of the calls, two updates never start less
  than the configured interval apart, an update never starts while one is in flight, and none
  starts when the interval is zero.
\<close>

theorem key_update_spacing:
  assumes "sorted (map fst cs)"
  shows "sorted_wrt (\<lambda>a b. a + interval \<le> b) (fst (ku_run cs (ku_new interval)))
    \<and> (interval = 0 \<longrightarrow> fst (ku_run cs (ku_new interval)) = [])
    \<and> fst (ku_required now (KuPending i)) = False"
proof (cases "interval = 0")
  case True
  have "ku_run cs KuDisabled = ([], KuDisabled)"
  proof (induction cs)
    case (Cons c cs)
    then show ?case by (cases c; cases "snd c") (simp_all add: ku_defs)
  qed simp
  then show ?thesis using True by (simp add: ku_new_def ku_required_def)
next
  case False
  then show ?thesis
    using ku_run_spacing [of 0 cs interval "ku_new interval"] assms
    by (simp add: ku_has_interval_def ku_new_def ku_required_def)
qed

theorem key_update_spacing_witness:
  "fst (ku_run [(1, KuOnline), (20, KuRequired), (21, KuRequired), (25, KuComplete), (36, KuRequired)] (ku_new 10)) = [20, 36]
    \<and> sorted_wrt (\<lambda>a b. a + 10 \<le> b)
        (fst (ku_run [(1, KuOnline), (20, KuRequired), (21, KuRequired), (25, KuComplete), (36, KuRequired)] (ku_new 10)))"
  using key_update_spacing [of "[(1, KuOnline), (20, KuRequired), (21, KuRequired), (25, KuComplete), (36, KuRequired)]" 10]
  by (simp add: ku_defs)

end
