(* ===== verification/Borrowed_Bytes.thy ===== *)
theory Borrowed_Bytes
  imports Prelude
begin

text \<open>
  \<open>BorrowedBytesMut\<close> (lightway-core/src/borrowed_bytesmut.rs): a cursor over a borrowed
  \<open>BytesMut\<close> that only moves the underlying buffer on \<open>commit\<close>. The methods the source
  derives from \<open>Buf\<close> (\<open>get_u8\<close>, \<open>get_u16\<close>, \<open>get_u64\<close>, \<open>copy_to_bytes\<close>,
  \<open>copy_to_slice\<close>) read the chunk and advance; each \<open>assert!\<close> of the source and each read
  out of range is the panic \<open>None\<close>. The plain \<open>BytesMut\<close> readers that
  \<open>Header::try_from_wire\<close> uses are the \<open>bm_\<close> operations.
\<close>

record bbm =
  bbm_cursor :: usize
  bbm_bytes :: bytes
  bbm_committed :: bool

definition bbm_from :: "bytes \<Rightarrow> bbm" where
  "bbm_from src = \<lparr>bbm_cursor = 0, bbm_bytes = src, bbm_committed = False\<rparr>"

definition bbm_len :: "bbm \<Rightarrow> usize" where
  "bbm_len b = length (bbm_bytes b) - bbm_cursor b"

text \<open>\<open>chunk\<close> and \<open>Deref::deref\<close>: the bytes not yet consumed.\<close>

definition bbm_chunk :: "bbm \<Rightarrow> bytes" where
  "bbm_chunk b = drop (bbm_cursor b) (bbm_bytes b)"

definition bbm_advance :: "bbm \<Rightarrow> usize \<Rightarrow> bbm option" where
  "bbm_advance b cnt =
     (if bbm_committed b then None
      else if \<not> cnt \<le> bbm_len b then None
      else Some (b\<lparr>bbm_cursor := bbm_cursor b + cnt\<rparr>))"

definition bbm_commit :: "bbm \<Rightarrow> bytes option" where
  "bbm_commit b =
     (if \<not> (\<not> bbm_committed b \<or> bbm_cursor b = 0) then None
      else if length (bbm_bytes b) < bbm_cursor b then None
      else Some (drop (bbm_cursor b) (bbm_bytes b)))"

definition bbm_commit_and_split_to :: "bbm \<Rightarrow> usize \<Rightarrow> (bytes \<times> bbm) option" where
  "bbm_commit_and_split_to b cnt =
     (if bbm_committed b then None
      else if length (bbm_bytes b) < bbm_cursor b then None
      else let bs = drop (bbm_cursor b) (bbm_bytes b) in
        if length bs < cnt then None
        else Some (take cnt bs,
          \<lparr>bbm_cursor = 0, bbm_bytes = drop cnt bs, bbm_committed = True\<rparr>))"

text \<open>\<open>&buf[..n]\<close>, which panics when \<open>n\<close> is out of range.\<close>

definition bbm_slice :: "bbm \<Rightarrow> usize \<Rightarrow> bytes option" where
  "bbm_slice b n = (if n \<le> length (bbm_chunk b) then Some (take n (bbm_chunk b)) else None)"

text \<open>The \<open>Buf\<close> readers: panic when fewer bytes remain than they read.\<close>

definition bbm_read :: "usize \<Rightarrow> bbm \<Rightarrow> (bytes \<times> bbm) option" where
  "bbm_read n b = do {
     bs \<leftarrow> bbm_slice b n;
     b' \<leftarrow> bbm_advance b n;
     Some (bs, b') }"

definition bbm_get_u8 :: "bbm \<Rightarrow> (u8 \<times> bbm) option" where
  "bbm_get_u8 b = do { (bs, b') \<leftarrow> bbm_read 1 b; Some (be_word bs, b') }"

definition bbm_get_u16 :: "bbm \<Rightarrow> (u16 \<times> bbm) option" where
  "bbm_get_u16 b = do { (bs, b') \<leftarrow> bbm_read 2 b; Some (be_word bs, b') }"

definition bbm_get_u64 :: "bbm \<Rightarrow> (u64 \<times> bbm) option" where
  "bbm_get_u64 b = do { (bs, b') \<leftarrow> bbm_read 8 b; Some (be_word bs, b') }"

text \<open>The same readers on \<open>BytesMut\<close> itself, which consume the buffer.\<close>

definition bm_read :: "usize \<Rightarrow> bytes \<Rightarrow> (bytes \<times> bytes) option" where
  "bm_read n bs = (if n \<le> length bs then Some (take n bs, drop n bs) else None)"

definition bm_get_u8 :: "bytes \<Rightarrow> (u8 \<times> bytes) option" where
  "bm_get_u8 bs = do { (x, bs') \<leftarrow> bm_read 1 bs; Some (be_word x, bs') }"

text \<open>A cursor in range that has not been committed: the state every frame decoder starts in.\<close>

definition bbm_fresh :: "bbm \<Rightarrow> bool" where
  "bbm_fresh b \<longleftrightarrow> \<not> bbm_committed b \<and> bbm_cursor b \<le> length (bbm_bytes b)"

text \<open>A state in which \<open>commit\<close> does not panic, leaving the chunk as the new buffer.\<close>

definition bbm_committable :: "bbm \<Rightarrow> bool" where
  "bbm_committable b \<longleftrightarrow>
     (\<not> bbm_committed b \<or> bbm_cursor b = 0) \<and> bbm_cursor b \<le> length (bbm_bytes b)"

section \<open>Evaluation rules\<close>

text \<open>\<open>bbm_skip\<close> names the successful outcome of \<open>advance\<close>.\<close>

definition bbm_skip :: "usize \<Rightarrow> bbm \<Rightarrow> bbm" where
  "bbm_skip n b = b\<lparr>bbm_cursor := bbm_cursor b + n\<rparr>"

lemma length_bbm_chunk: "length (bbm_chunk b) = bbm_len b"
  by (simp add: bbm_chunk_def bbm_len_def)

lemma bbm_len_chunk [buf_simps]: "bbm_len b = length (bbm_chunk b)"
  by (simp add: length_bbm_chunk)

lemma bbm_from_fresh [simp]: "bbm_fresh (bbm_from bs)"
  by (simp add: bbm_fresh_def bbm_from_def)

lemma bbm_from_chunk [simp]: "bbm_chunk (bbm_from bs) = bs"
  by (simp add: bbm_chunk_def bbm_from_def)

lemma bbm_from_bytes [simp]: "bbm_bytes (bbm_from bs) = bs"
  by (simp add: bbm_from_def)

lemma bbm_skip_chunk [simp]: "bbm_chunk (bbm_skip n b) = drop n (bbm_chunk b)"
  by (simp add: bbm_chunk_def bbm_skip_def add.commute)

lemma bbm_skip_bytes [simp]:
  "bbm_bytes (bbm_skip n b) = bbm_bytes b"
  "bbm_committed (bbm_skip n b) = bbm_committed b"
  by (simp_all add: bbm_skip_def)

lemma bbm_skip_fresh [simp]:
  "bbm_fresh b \<Longrightarrow> n \<le> length (bbm_chunk b) \<Longrightarrow> bbm_fresh (bbm_skip n b)"
  by (auto simp: bbm_fresh_def bbm_skip_def bbm_chunk_def)

lemma bbm_skip_skip [simp]: "bbm_skip m (bbm_skip n b) = bbm_skip (n + m) b"
  by (simp add: bbm_skip_def add.assoc)

lemma bbm_fresh_committable [simp]: "bbm_fresh b \<Longrightarrow> bbm_committable b"
  by (simp add: bbm_fresh_def bbm_committable_def)

lemma bbm_fresh_committed [simp]: "bbm_fresh b \<Longrightarrow> \<not> bbm_committed b"
  by (simp add: bbm_fresh_def)

lemma bbm_advance_Some [buf_simps]:
  "bbm_fresh b \<Longrightarrow> n \<le> length (bbm_chunk b) \<Longrightarrow> bbm_advance b n = Some (bbm_skip n b)"
  by (simp add: bbm_advance_def bbm_fresh_def bbm_skip_def length_bbm_chunk)

lemma bbm_slice_Some [buf_simps]:
  "n \<le> length (bbm_chunk b) \<Longrightarrow> bbm_slice b n = Some (take n (bbm_chunk b))"
  by (simp add: bbm_slice_def)

lemma bbm_read_Some [buf_simps]:
  "bbm_fresh b \<Longrightarrow> n \<le> length (bbm_chunk b) \<Longrightarrow>
     bbm_read n b = Some (take n (bbm_chunk b), bbm_skip n b)"
  by (simp add: bbm_read_def buf_simps)

lemma bbm_get_u8_Some [buf_simps]:
  "bbm_fresh b \<Longrightarrow> 1 \<le> length (bbm_chunk b) \<Longrightarrow>
     bbm_get_u8 b = Some (be_word (take 1 (bbm_chunk b)), bbm_skip 1 b)"
  by (simp add: bbm_get_u8_def buf_simps)

lemma bbm_get_u16_Some [buf_simps]:
  "bbm_fresh b \<Longrightarrow> 2 \<le> length (bbm_chunk b) \<Longrightarrow>
     bbm_get_u16 b = Some (be_word (take 2 (bbm_chunk b)), bbm_skip 2 b)"
  by (simp add: bbm_get_u16_def buf_simps)

lemma bbm_get_u64_Some [buf_simps]:
  "bbm_fresh b \<Longrightarrow> 8 \<le> length (bbm_chunk b) \<Longrightarrow>
     bbm_get_u64 b = Some (be_word (take 8 (bbm_chunk b)), bbm_skip 8 b)"
  by (simp add: bbm_get_u64_def buf_simps)

text \<open>\<open>bbm_split\<close> names the state \<open>commit_and_split_to\<close> leaves.\<close>

definition bbm_split :: "usize \<Rightarrow> bbm \<Rightarrow> bbm" where
  "bbm_split n b =
     \<lparr>bbm_cursor = 0, bbm_bytes = drop n (bbm_chunk b), bbm_committed = True\<rparr>"

lemma bbm_split_chunk [simp]: "bbm_chunk (bbm_split n b) = drop n (bbm_chunk b)"
  by (simp add: bbm_split_def bbm_chunk_def)

lemma bbm_split_committable [simp]: "bbm_committable (bbm_split n b)"
  by (simp add: bbm_split_def bbm_committable_def)

lemma bbm_commit_and_split_to_Some [buf_simps]:
  "bbm_fresh b \<Longrightarrow> n \<le> length (bbm_chunk b) \<Longrightarrow>
     bbm_commit_and_split_to b n = Some (take n (bbm_chunk b), bbm_split n b)"
  by (auto simp: bbm_commit_and_split_to_def bbm_fresh_def bbm_split_def bbm_chunk_def Let_def)

lemma bbm_commit_Some [buf_simps]:
  "bbm_committable b \<Longrightarrow> bbm_commit b = Some (bbm_chunk b)"
  by (auto simp: bbm_commit_def bbm_committable_def bbm_chunk_def)

lemma bm_get_u8_Cons [buf_simps]: "bm_get_u8 (x # xs) = Some (x, xs)"
  by (simp add: bm_get_u8_def bm_read_def be_word_Cons)

lemma bm_read_Some [buf_simps]:
  "n \<le> length bs \<Longrightarrow> bm_read n bs = Some (take n bs, drop n bs)"
  by (simp add: bm_read_def)

lemma be_word_single [simp]: "be_word [b] = (b :: u8)"
  by (simp add: be_word_Cons)

text \<open>
  \<open>commit_and_split_to\<close> hands out exactly the bytes \<open>[cursor, cursor + cnt)\<close>, leaves
  the bytes from \<open>cursor + cnt\<close> on as the underlying buffer, and a later \<open>commit\<close> is
  allowed and changes nothing, while a second split, or any further read, panics: a payload
  can be taken from a borrowed buffer once.
\<close>

lemma commit_and_split_once:
  assumes "bbm_fresh b" and "cnt \<le> bbm_len b"
  shows "\<exists>b'. bbm_commit_and_split_to b cnt = Some (take cnt (bbm_chunk b), b')
    \<and> bbm_commit b' = Some (drop (bbm_cursor b + cnt) (bbm_bytes b))
    \<and> bbm_bytes b' = drop (bbm_cursor b + cnt) (bbm_bytes b)
    \<and> (\<forall>n. bbm_commit_and_split_to b' n = None)
    \<and> (\<forall>n. bbm_advance b' n = None)"
proof -
  have "bbm_commit_and_split_to b cnt = Some (take cnt (bbm_chunk b), bbm_split cnt b)"
    using assms by (simp add: buf_simps)
  moreover have "bbm_bytes (bbm_split cnt b) = drop (bbm_cursor b + cnt) (bbm_bytes b)"
    by (simp add: bbm_split_def bbm_chunk_def add.commute)
  moreover have "bbm_commit (bbm_split cnt b) = Some (bbm_bytes (bbm_split cnt b))"
    by (simp add: buf_simps) (simp add: bbm_split_def)
  ultimately show ?thesis
    by (auto simp: bbm_split_def bbm_commit_and_split_to_def bbm_advance_def)
qed

lemma commit_and_split_once_witness:
  "\<exists>b'. bbm_commit_and_split_to (bbm_skip 1 (bbm_from [7, 8, 9])) 1 = Some ([8], b')
     \<and> bbm_commit b' = Some [9]"
  using commit_and_split_once [of "bbm_skip 1 (bbm_from [7, 8, 9])" 1]
  by (auto simp: bbm_fresh_def bbm_skip_def bbm_from_def bbm_len_def bbm_chunk_def)

end
