(* ===== verification/Wire_Codec.thy ===== *)
theory Wire_Codec
  imports Borrowed_Bytes
begin

text \<open>
  The contract every frame payload of lightway-core/src/wire keeps, as a locale. A codec has
  an encoder (\<open>append_to_wire\<close>), a decoder on a \<open>BorrowedBytesMut\<close>
  (\<open>try_from_wire\<close>) and the set of values that fit the wire format. The laws are: the
  encoder appends to its buffer and does not panic on those values; the decoder never panics, leaves the underlying
  buffer alone when it fails and a committable cursor when it succeeds; it returns only
  admissible values; it undoes the encoder whatever follows on the wire; and a proper prefix
  of an encoding is \<open>InsufficientData\<close>, never a wrong value. Clients get that encodings
  are prefix-free and that a decoded value survives being written and read again.
\<close>

datatype from_wire_error =
    InsufficientData
  | InvalidMagicNumber u8 u8
  | InvalidEnumEncoding
  | UnknownFrameType
  | InvalidStringEncoding
  | FieldTooLarge
  | InvalidProtocolVersion u8 u8
  | InvalidBool
  | InvalidExpressDataPath
  | InvalidExpressData
  | ReplayedExpressData

type_synonym 'a decoder = "bbm \<Rightarrow> (bbm, from_wire_error, 'a) outcome"

section \<open>UTF-8\<close>

text \<open>
  \<open>String::from_utf8\<close> of the standard library accepts exactly the well-formed byte
  sequences of the Unicode standard (table 3-7); a Rust \<open>String\<close> is such a sequence.
\<close>

definition utf8_cont :: "u8 \<Rightarrow> bool" where
  "utf8_cont b \<longleftrightarrow> 0x80 \<le> b \<and> b \<le> 0xBF"

fun valid_utf8 :: "bytes \<Rightarrow> bool" where
  "valid_utf8 [] = True"
| "valid_utf8 (a # bs) =
     (if a < 0x80 then valid_utf8 bs
      else if 0xC2 \<le> a \<and> a \<le> 0xDF then
        (case bs of b # bs' \<Rightarrow> utf8_cont b \<and> valid_utf8 bs' | _ \<Rightarrow> False)
      else if 0xE0 \<le> a \<and> a \<le> 0xEF then
        (case bs of
           b # c # bs' \<Rightarrow>
             (if a = 0xE0 then 0xA0 else 0x80) \<le> b \<and> b \<le> (if a = 0xED then 0x9F else 0xBF)
             \<and> utf8_cont c \<and> valid_utf8 bs'
         | _ \<Rightarrow> False)
      else if 0xF0 \<le> a \<and> a \<le> 0xF4 then
        (case bs of
           b # c # d # bs' \<Rightarrow>
             (if a = 0xF0 then 0x90 else 0x80) \<le> b \<and> b \<le> (if a = 0xF4 then 0x8F else 0xBF)
             \<and> utf8_cont c \<and> utf8_cont d \<and> valid_utf8 bs'
         | _ \<Rightarrow> False)
      else False)"

definition string_from_utf8 :: "bytes \<Rightarrow> from_wire_error + bytes" where
  "string_from_utf8 bs = (if valid_utf8 bs then Inr bs else Inl InvalidStringEncoding)"

section \<open>The codec contract\<close>

definition dec_post :: "('a \<Rightarrow> bool) \<Rightarrow> bbm \<Rightarrow> from_wire_error + 'a \<Rightarrow> bbm \<Rightarrow> bool" where
  "dec_post ok b r b' \<longleftrightarrow>
     (case r of
        Inl e \<Rightarrow> bbm_bytes b' = bbm_bytes b \<and> \<not> bbm_committed b'
      | Inr x \<Rightarrow> ok x \<and> bbm_committable b'
          \<and> (\<exists>n \<le> length (bbm_chunk b). bbm_chunk b' = drop n (bbm_chunk b)))"

lemma dec_post_Inl [simp]:
  "dec_post ok b (Inl e) b' \<longleftrightarrow> bbm_bytes b' = bbm_bytes b \<and> \<not> bbm_committed b'"
  by (simp add: dec_post_def)

lemma dec_post_skip [simp]:
  "bbm_fresh b \<Longrightarrow> n \<le> length (bbm_chunk b) \<Longrightarrow>
     dec_post ok b (Inr x) (bbm_skip n b) \<longleftrightarrow> ok x"
  by (auto simp: dec_post_def)

lemma dec_post_split [simp]:
  "bbm_fresh b \<Longrightarrow> m + n \<le> length (bbm_chunk b) \<Longrightarrow>
     dec_post ok b (Inr x) (bbm_split m (bbm_skip n b)) \<longleftrightarrow> ok x"
  by (auto simp: dec_post_def)

text \<open>A payload after a tag byte: what its decoder guarantees of the rest, seen from the tag.\<close>

lemma dec_post_map:
  "dec_post ok b r b' \<Longrightarrow> (\<And>x. ok x \<Longrightarrow> ok' (f x)) \<Longrightarrow> dec_post ok' b (map_sum (\<lambda>e. e) f r) b'"
  by (cases r) (auto simp: dec_post_def)

lemma dec_post_tag:
  assumes "dec_post ok (bbm_skip n b) r b'" and "n \<le> length (bbm_chunk b)"
  shows "dec_post ok b r b'"
proof (cases r)
  case (Inl e)
  then show ?thesis using assms by simp
next
  case (Inr x)
  with assms(1) obtain m where "m \<le> length (bbm_chunk b) - n"
    and "bbm_chunk b' = drop (n + m) (bbm_chunk b)" and "ok x \<and> bbm_committable b'"
    by (auto simp: dec_post_def add.commute)
  then show ?thesis
    using Inr assms(2) by (auto simp: dec_post_def intro: exI [of _ "n + m"])
qed

locale wire_codec =
  fixes enc :: "'a \<Rightarrow> bytes \<Rightarrow> bytes option" and dec :: "'a decoder" and ok :: "'a \<Rightarrow> bool"
  assumes enc_total: "ok x \<Longrightarrow> \<exists>w. \<forall>buf. enc x buf = Some (buf @ w)"
    and dec_total: "bbm_fresh b \<Longrightarrow> \<exists>r b'. dec b = Some (r, b') \<and> dec_post ok b r b'"
    and dec_enc: "ok x \<Longrightarrow> bbm_fresh b \<Longrightarrow> enc x [] = Some w \<Longrightarrow>
      bbm_chunk b = w @ rest \<Longrightarrow> \<exists>b'. dec b = Some (Inr x, b') \<and> bbm_chunk b' = rest"
    and dec_partial: "ok x \<Longrightarrow> bbm_fresh b \<Longrightarrow> enc x [] = Some w \<Longrightarrow>
      bbm_chunk b = take n w \<Longrightarrow> n < length w \<Longrightarrow>
      \<exists>b'. dec b = Some (Inl InsufficientData, b')"
begin

lemma codec_no_panic: "bbm_fresh b \<Longrightarrow> dec b \<noteq> None"
  using dec_total by fastforce

lemma codec_append: "ok x \<Longrightarrow> enc x [] = Some w \<Longrightarrow> enc x buf = Some (buf @ w)"
  using enc_total by fastforce

lemma codec_post: "bbm_fresh b \<Longrightarrow> dec b = Some (r, b') \<Longrightarrow> dec_post ok b r b'"
  using dec_total by fastforce

lemma codec_error_frame:
  "bbm_fresh b \<Longrightarrow> dec b = Some (Inl e, b') \<Longrightarrow>
     bbm_bytes b' = bbm_bytes b \<and> \<not> bbm_committed b'"
  using codec_post by fastforce

lemma codec_ok:
  "bbm_fresh b \<Longrightarrow> dec b = Some (Inr x, b') \<Longrightarrow> ok x \<and> bbm_committable b'"
  using codec_post [of b "Inr x" b'] by (simp add: dec_post_def)

text \<open>No encoding is a prefix of another: concatenated payloads can be told apart.\<close>

lemma codec_prefix_free:
  assumes "ok x" "enc x [] = Some v" and "ok y" "enc y [] = Some w" and eq: "v @ r = w @ s"
  shows "x = y \<and> r = s"
proof -
  let ?b = "bbm_from (v @ r)"
  from assms(1,2) obtain b1 where "dec ?b = Some (Inr x, b1)" "bbm_chunk b1 = r"
    using dec_enc [of x ?b v r] by auto
  moreover from assms(3,4) obtain b2 where "dec ?b = Some (Inr y, b2)" "bbm_chunk b2 = s"
    using dec_enc [of y ?b w s] by (auto simp: eq)
  ultimately show ?thesis by simp
qed

text \<open>What a peer decoded can be encoded again without panicking, and decodes to itself.\<close>

lemma codec_reencode:
  assumes "bbm_fresh b" and "dec b = Some (Inr x, b')"
  shows "\<exists>w. enc x buf = Some (buf @ w)
    \<and> (\<exists>c'. dec (bbm_from (w @ rest)) = Some (Inr x, c') \<and> bbm_chunk c' = rest)"
proof -
  have "ok x" using assms codec_ok by blast
  then obtain w where w: "\<And>buf. enc x buf = Some (buf @ w)"
    using enc_total by blast
  then show ?thesis
    using dec_enc [of x "bbm_from (w @ rest)" w rest] \<open>ok x\<close> by auto
qed

end

end
