(* ===== verification/Version.thy ===== *)
theory Version
  imports Prelude
begin

text \<open>
  Protocol versions (lightway-core/src/version.rs). \<open>Version(u8, u8)\<close> derives
  \<open>PartialOrd\<close>, which compares the fields in order, so the type is an instance of
  \<open>linorder\<close> with the lexicographic order. \<open>VersionRangeInclusive\<close> is what the server
  context negotiates with; its setters return the error messages of the source as values.
\<close>

datatype version = Version (major: u8) (minor: u8)

instantiation version :: linorder
begin

definition less_eq_version :: "version \<Rightarrow> version \<Rightarrow> bool" where
  "less_eq_version a b \<longleftrightarrow> major a < major b \<or> major a = major b \<and> minor a \<le> minor b"

definition less_version :: "version \<Rightarrow> version \<Rightarrow> bool" where
  "less_version a b \<longleftrightarrow> major a < major b \<or> major a = major b \<and> minor a < minor b"

instance
proof
  fix x y z :: version
  show "x < y \<longleftrightarrow> x \<le> y \<and> \<not> y \<le> x"
    by (auto simp: less_eq_version_def less_version_def)
  show "x \<le> x"
    by (simp add: less_eq_version_def)
  show "x \<le> y \<Longrightarrow> y \<le> z \<Longrightarrow> x \<le> z"
    by (auto simp: less_eq_version_def)
  show "x \<le> y \<Longrightarrow> y \<le> x \<Longrightarrow> x = y"
    by (auto simp: less_eq_version_def version.expand)
  show "x \<le> y \<or> y \<le> x"
    by (auto simp: less_eq_version_def)
qed

end

definition version_MINIMUM :: version where
  "version_MINIMUM = Version 1 1"

definition version_MAXIMUM :: version where
  "version_MAXIMUM = Version 1 3"

definition version_try_new :: "u8 \<Rightarrow> u8 \<Rightarrow> version option" where
  "version_try_new ma mi =
     (let v = Version ma mi in
      if v < version_MINIMUM \<or> v > version_MAXIMUM then None else Some v)"

record version_range =
  range_min :: version
  range_max :: version

datatype version_range_error =
    MinimumTooLow version
  | MinimumAboveMaximum version version
  | MaximumTooHigh version
  | MaximumBelowMinimum version version

definition version_range_all :: version_range where
  "version_range_all = \<lparr>range_min = version_MINIMUM, range_max = version_MAXIMUM\<rparr>"

definition version_range_valid :: "version_range \<Rightarrow> bool" where
  "version_range_valid r \<longleftrightarrow> range_min r \<le> range_max r"

definition version_range_contains :: "version_range \<Rightarrow> version \<Rightarrow> bool" where
  "version_range_contains r v \<longleftrightarrow> v \<ge> range_min r \<and> v \<le> range_max r"

definition version_range_maximum :: "version_range \<Rightarrow> version" where
  "version_range_maximum r = range_max r"

definition version_range_set_minimum ::
  "version_range \<Rightarrow> version \<Rightarrow> version_range_error + version_range" where
  "version_range_set_minimum r v =
     (if v < version_MINIMUM then Inl (MinimumTooLow v)
      else if v > range_max r then Inl (MinimumAboveMaximum v (range_max r))
      else Inr \<lparr>range_min = v, range_max = range_max r\<rparr>)"

definition version_range_set_maximum ::
  "version_range \<Rightarrow> version \<Rightarrow> version_range_error + version_range" where
  "version_range_set_maximum r v =
     (if v > version_MAXIMUM then Inl (MaximumTooHigh v)
      else if v < range_min r then Inl (MaximumBelowMinimum v (range_min r))
      else Inr \<lparr>range_min = range_min r, range_max = v\<rparr>)"

text \<open>The invariant of a negotiable range: it is inside what the build supports.\<close>

definition version_range_ok :: "version_range \<Rightarrow> bool" where
  "version_range_ok r \<longleftrightarrow>
     version_MINIMUM \<le> range_min r \<and> range_min r \<le> range_max r
     \<and> range_max r \<le> version_MAXIMUM"

lemma version_try_new_Some:
  "version_try_new a b = Some v \<longleftrightarrow>
     v = Version a b \<and> version_MINIMUM \<le> v \<and> v \<le> version_MAXIMUM"
  by (auto simp: version_try_new_def Let_def not_less)

lemma version_range_ok_all: "version_range_ok version_range_all"
  by (simp add: version_range_ok_def version_range_all_def version_MINIMUM_def
      version_MAXIMUM_def less_eq_version_def)

lemma version_range_ok_set_minimum:
  "version_range_ok r \<Longrightarrow> version_range_set_minimum r v = Inr r' \<Longrightarrow> version_range_ok r'"
  by (auto simp: version_range_ok_def version_range_set_minimum_def split: if_splits)

lemma version_range_ok_set_maximum:
  "version_range_ok r \<Longrightarrow> version_range_set_maximum r v = Inr r' \<Longrightarrow> version_range_ok r'"
  by (auto simp: version_range_ok_def version_range_set_maximum_def split: if_splits)

text \<open>Configuring a range: any sequence of setter calls, stopping at the first error.\<close>

datatype range_update = SetMinimum version | SetMaximum version

fun version_range_configure ::
  "version_range \<Rightarrow> range_update list \<Rightarrow> version_range_error + version_range" where
  "version_range_configure r [] = Inr r"
| "version_range_configure r (SetMinimum v # us) =
     (case version_range_set_minimum r v of
        Inl e \<Rightarrow> Inl e | Inr r' \<Rightarrow> version_range_configure r' us)"
| "version_range_configure r (SetMaximum v # us) =
     (case version_range_set_maximum r v of
        Inl e \<Rightarrow> Inl e | Inr r' \<Rightarrow> version_range_configure r' us)"

lemma version_range_configure_ok:
  "version_range_ok r \<Longrightarrow> version_range_configure r us = Inr r' \<Longrightarrow> version_range_ok r'"
  by (induction r us rule: version_range_configure.induct)
    (auto split: sum.splits
      dest: version_range_ok_set_minimum version_range_ok_set_maximum)

text \<open>
  However a version range is configured from the maximal one, every version it contains
  is one that \<open>Version::try_new\<close> accepts, and the maximum it offers is contained in it.
\<close>

lemma version_range_configured_supported:
  assumes "version_range_configure version_range_all us = Inr r"
  shows "(\<forall>v. version_range_contains r v \<longrightarrow> version_try_new (major v) (minor v) = Some v)
    \<and> version_range_contains r (version_range_maximum r)"
  using version_range_configure_ok [OF version_range_ok_all assms]
  by (auto simp: version_range_contains_def version_try_new_Some version_range_ok_def
      version_range_maximum_def)

lemma version_range_configured_supported_witness:
  "version_range_configure version_range_all [SetMinimum (Version 1 2)]
     = Inr \<lparr>range_min = Version 1 2, range_max = Version 1 3\<rparr>
   \<and> version_try_new 1 3 = Some (Version 1 3)"
proof -
  have cfg: "version_range_configure version_range_all [SetMinimum (Version 1 2)]
     = Inr \<lparr>range_min = Version 1 2, range_max = Version 1 3\<rparr>"
    by (simp add: version_range_all_def version_range_set_minimum_def version_MINIMUM_def
        version_MAXIMUM_def less_version_def)
  have "version_range_contains \<lparr>range_min = Version 1 2, range_max = Version 1 3\<rparr> (Version 1 3)"
    by (simp add: version_range_contains_def less_eq_version_def)
  with version_range_configured_supported [OF cfg] cfg show ?thesis
    by force
qed

end
