(* ===== verification/Wire_Auth.thy ===== *)
theory Wire_Auth
  imports Wire_Codec Version
begin

text \<open>
  Authentication payloads: \<open>AuthMethod\<close> and \<open>AuthRequest\<close> (wire/auth_request.rs) and
  \<open>AuthSuccessWithConfigV4\<close> (wire/auth_success_with_config_ipv4.rs), with the
  \<open>SessionId\<close> of wire.rs the latter carries. A Rust \<open>String\<close> is its UTF-8 bytes; a
  session id is its eight bytes. Both codecs are instances of \<open>wire_codec\<close>.
\<close>

section \<open>Session identifiers\<close>

type_synonym session_id = bytes

definition SESSION_EMPTY :: session_id where "SESSION_EMPTY = replicate 8 0"
definition SESSION_REJECTED :: session_id where "SESSION_REJECTED = replicate 8 0xff"

definition session_is_reserved :: "session_id \<Rightarrow> bool" where
  "session_is_reserved s \<longleftrightarrow> s = SESSION_EMPTY \<or> s = SESSION_REJECTED"

section \<open>Authentication requests\<close>

datatype auth_method_kind = KUserPass | KToken | KVersionedToken | KCustomCallback

datatype auth_method =
    UserPass (up_user: bytes) (up_password: bytes)
  | Token (tok_token: bytes)
  | VersionedToken (vt_version: version) (vt_token: bytes)
  | CustomCallback (cc_data: bytes)

record auth_request =
  ar_auth_method :: auth_method

definition MAX_USER_PASS_LENGTH :: usize where [const_defs]: "MAX_USER_PASS_LENGTH = 50"
definition MAX_TOKEN_BYTES :: usize where [const_defs]: "MAX_TOKEN_BYTES = 1350 - 1 - 2"
definition MAX_VERSIONED_TOKEN_BYTES :: usize where
  [const_defs]: "MAX_VERSIONED_TOKEN_BYTES = 1350 - 1 - 2 - 2"
definition MAX_CUSTOM_DATA_BYTES :: usize where
  [const_defs]: "MAX_CUSTOM_DATA_BYTES = 1350 - 1 - 2"

fun auth_method_kind_u8 :: "auth_method_kind \<Rightarrow> u8" where
  "auth_method_kind_u8 KUserPass = 1"
| "auth_method_kind_u8 KToken = 2"
| "auth_method_kind_u8 KVersionedToken = 3"
| "auth_method_kind_u8 KCustomCallback = 23"

definition auth_method_kind_try_from :: "u8 \<Rightarrow> auth_method_kind option" where
  "auth_method_kind_try_from b =
     (if b = 1 then Some KUserPass else if b = 2 then Some KToken
      else if b = 3 then Some KVersionedToken else if b = 23 then Some KCustomCallback
      else None)"

fun auth_method_kind_of :: "auth_method \<Rightarrow> auth_method_kind" where
  "auth_method_kind_of (UserPass _ _) = KUserPass"
| "auth_method_kind_of (Token _) = KToken"
| "auth_method_kind_of (VersionedToken _ _) = KVersionedToken"
| "auth_method_kind_of (CustomCallback _) = KCustomCallback"

definition user_pass_try_from_wire :: "auth_method decoder" where [codec_defs]:
  "user_pass_try_from_wire buf =
     (if bbm_len buf < 2 + 2 * MAX_USER_PASS_LENGTH then Some (Inl InsufficientData, buf)
      else do {
        (user_len, buf) \<leftarrow> bbm_get_u8 buf;
        (pass_len, buf) \<leftarrow> bbm_get_u8 buf;
        if unat user_len > MAX_USER_PASS_LENGTH \<or> unat pass_len > MAX_USER_PASS_LENGTH
        then Some (Inl FieldTooLarge, buf)
        else do {
          u \<leftarrow> bbm_slice buf (unat user_len);
          case string_from_utf8 u of
            Inl e \<Rightarrow> Some (Inl e, buf)
          | Inr user \<Rightarrow> do {
              buf \<leftarrow> bbm_advance buf MAX_USER_PASS_LENGTH;
              p \<leftarrow> bbm_slice buf (unat pass_len);
              case string_from_utf8 p of
                Inl e \<Rightarrow> Some (Inl e, buf)
              | Inr password \<Rightarrow> do {
                  buf \<leftarrow> bbm_advance buf MAX_USER_PASS_LENGTH;
                  Some (Inr (UserPass user password), buf) } } } })"

definition token_try_from_wire :: "auth_method decoder" where [codec_defs]:
  "token_try_from_wire buf =
     (if bbm_len buf < 2 then Some (Inl InsufficientData, buf)
      else do {
        (token_len, buf) \<leftarrow> bbm_get_u16 buf;
        if unat token_len > MAX_TOKEN_BYTES then Some (Inl FieldTooLarge, buf)
        else if bbm_len buf < unat token_len then Some (Inl InsufficientData, buf)
        else do {
          t \<leftarrow> bbm_slice buf (unat token_len);
          case string_from_utf8 t of
            Inl e \<Rightarrow> Some (Inl e, buf)
          | Inr token \<Rightarrow> do {
              buf \<leftarrow> bbm_advance buf (unat token_len);
              Some (Inr (Token token), buf) } } })"

definition versioned_token_try_from_wire :: "auth_method decoder" where [codec_defs]:
  "versioned_token_try_from_wire buf =
     (if bbm_len buf < 4 then Some (Inl InsufficientData, buf)
      else do {
        (major, buf) \<leftarrow> bbm_get_u8 buf;
        (minor, buf) \<leftarrow> bbm_get_u8 buf;
        case version_try_new major minor of
          None \<Rightarrow> Some (Inl (InvalidProtocolVersion major minor), buf)
        | Some version \<Rightarrow> do {
            (token_len, buf) \<leftarrow> bbm_get_u16 buf;
            if unat token_len > MAX_VERSIONED_TOKEN_BYTES then Some (Inl FieldTooLarge, buf)
            else if bbm_len buf < unat token_len then Some (Inl InsufficientData, buf)
            else do {
              t \<leftarrow> bbm_slice buf (unat token_len);
              case string_from_utf8 t of
                Inl e \<Rightarrow> Some (Inl e, buf)
              | Inr token \<Rightarrow> do {
                  buf \<leftarrow> bbm_advance buf (unat token_len);
                  Some (Inr (VersionedToken version token), buf) } } } })"

definition custom_callback_try_from_wire :: "auth_method decoder" where [codec_defs]:
  "custom_callback_try_from_wire buf =
     (if bbm_len buf < 2 then Some (Inl InsufficientData, buf)
      else do {
        (data_len, buf) \<leftarrow> bbm_get_u16 buf;
        if unat data_len > MAX_CUSTOM_DATA_BYTES then Some (Inl FieldTooLarge, buf)
        else if bbm_len buf < unat data_len then Some (Inl InsufficientData, buf)
        else do {
          (data, buf) \<leftarrow> bbm_read (unat data_len) buf;
          Some (Inr (CustomCallback data), buf) } })"

definition auth_method_try_from_wire :: "auth_method decoder" where
  "auth_method_try_from_wire buf =
     (if bbm_len buf = 0 then Some (Inl InsufficientData, buf)
      else do {
        (k, buf) \<leftarrow> bbm_get_u8 buf;
        case auth_method_kind_try_from k of
          None \<Rightarrow> Some (Inl InvalidEnumEncoding, buf)
        | Some KUserPass \<Rightarrow> user_pass_try_from_wire buf
        | Some KToken \<Rightarrow> token_try_from_wire buf
        | Some KVersionedToken \<Rightarrow> versioned_token_try_from_wire buf
        | Some KCustomCallback \<Rightarrow> custom_callback_try_from_wire buf })"

fun auth_method_payload :: "auth_method \<Rightarrow> bytes option" where
  "auth_method_payload (UserPass user password) =
     (if \<not> length user \<le> MAX_USER_PASS_LENGTH \<or> \<not> length password \<le> MAX_USER_PASS_LENGTH
      then None
      else Some ([of_nat (length user), of_nat (length password)]
        @ user @ replicate (MAX_USER_PASS_LENGTH - length user) 0
        @ password @ replicate (MAX_USER_PASS_LENGTH - length password) 0))"
| "auth_method_payload (Token token) =
     (if \<not> length token \<le> MAX_TOKEN_BYTES then None
      else Some (be_bytes 2 (len_u16 token) @ token))"
| "auth_method_payload (VersionedToken version token) =
     (if \<not> length token \<le> MAX_VERSIONED_TOKEN_BYTES then None
      else Some ([major version, minor version] @ be_bytes 2 (len_u16 token) @ token))"
| "auth_method_payload (CustomCallback data) =
     (if \<not> length data \<le> MAX_CUSTOM_DATA_BYTES then None
      else Some (be_bytes 2 (len_u16 data) @ data))"

definition auth_method_append_to_wire :: "auth_method \<Rightarrow> bytes \<Rightarrow> bytes option" where
  "auth_method_append_to_wire m buf = do {
     payload \<leftarrow> auth_method_payload m;
     Some (buf @ auth_method_kind_u8 (auth_method_kind_of m) # payload) }"

definition auth_request_try_from_wire :: "auth_request decoder" where
  "auth_request_try_from_wire buf = do {
     (r, buf) \<leftarrow> auth_method_try_from_wire buf;
     case r of
       Inl e \<Rightarrow> Some (Inl e, buf)
     | Inr auth_method \<Rightarrow> Some (Inr \<lparr>ar_auth_method = auth_method\<rparr>, buf) }"

definition auth_request_append_to_wire :: "auth_request \<Rightarrow> bytes \<Rightarrow> bytes option" where
  "auth_request_append_to_wire r buf = auth_method_append_to_wire (ar_auth_method r) buf"

fun auth_method_ok :: "auth_method \<Rightarrow> bool" where
  "auth_method_ok (UserPass user password) \<longleftrightarrow>
     length user \<le> MAX_USER_PASS_LENGTH \<and> length password \<le> MAX_USER_PASS_LENGTH
     \<and> valid_utf8 user \<and> valid_utf8 password"
| "auth_method_ok (Token token) \<longleftrightarrow> length token \<le> MAX_TOKEN_BYTES \<and> valid_utf8 token"
| "auth_method_ok (VersionedToken version token) \<longleftrightarrow>
     version_MINIMUM \<le> version \<and> version \<le> version_MAXIMUM
     \<and> length token \<le> MAX_VERSIONED_TOKEN_BYTES \<and> valid_utf8 token"
| "auth_method_ok (CustomCallback data) \<longleftrightarrow> length data \<le> MAX_CUSTOM_DATA_BYTES"

abbreviation auth_request_ok :: "auth_request \<Rightarrow> bool" where
  "auth_request_ok r \<equiv> auth_method_ok (ar_auth_method r)"

section \<open>Authentication success\<close>

record auth_success =
  as_local_ip :: bytes
  as_peer_ip :: bytes
  as_dns_ip :: bytes
  as_mtu :: bytes
  as_session :: session_id

definition MAX_STR_SIZE :: usize where [const_defs]: "MAX_STR_SIZE = 23"
definition AUTH_SUCCESS_WIRE_SIZE :: usize where
  [const_defs]: "AUTH_SUCCESS_WIRE_SIZE = 4 * (MAX_STR_SIZE + 1) + 8"

text \<open>\<open>iter().position(|b| b == &0)\<close>\<close>

fun null_position :: "bytes \<Rightarrow> usize option" where
  "null_position [] = None"
| "null_position (b # bs) = (if b = 0 then Some 0 else map_option Suc (null_position bs))"

definition try_fixed_len_string_from_wire :: "bytes decoder" where
  "try_fixed_len_string_from_wire buf =
     (if bbm_len buf < MAX_STR_SIZE then Some (Inl InsufficientData, buf)
      else do {
        field \<leftarrow> bbm_slice buf (MAX_STR_SIZE + 1);
        let null_idx = (case null_position field of None \<Rightarrow> MAX_STR_SIZE | Some i \<Rightarrow> i);
        let null_idx = min MAX_STR_SIZE null_idx;
        raw \<leftarrow> bbm_slice buf null_idx;
        case string_from_utf8 raw of
          Inl e \<Rightarrow> Some (Inl e, buf)
        | Inr s \<Rightarrow>
            if \<not> length s \<le> MAX_STR_SIZE then None
            else do {
              buf \<leftarrow> bbm_advance buf (MAX_STR_SIZE + 1);
              Some (Inr s, buf) } })"

definition auth_success_try_from_wire :: "auth_success decoder" where
  "auth_success_try_from_wire buf =
     (if bbm_len buf < AUTH_SUCCESS_WIRE_SIZE then Some (Inl InsufficientData, buf)
      else do {
        (r, buf) \<leftarrow> try_fixed_len_string_from_wire buf;
        case r of Inl e \<Rightarrow> Some (Inl e, buf) | Inr local_ip \<Rightarrow> do {
        (r, buf) \<leftarrow> try_fixed_len_string_from_wire buf;
        case r of Inl e \<Rightarrow> Some (Inl e, buf) | Inr peer_ip \<Rightarrow> do {
        (r, buf) \<leftarrow> try_fixed_len_string_from_wire buf;
        case r of Inl e \<Rightarrow> Some (Inl e, buf) | Inr dns_ip \<Rightarrow> do {
        (r, buf) \<leftarrow> try_fixed_len_string_from_wire buf;
        case r of Inl e \<Rightarrow> Some (Inl e, buf) | Inr mtu \<Rightarrow> do {
        (session, buf) \<leftarrow> bbm_read 8 buf;
        Some (Inr \<lparr>as_local_ip = local_ip, as_peer_ip = peer_ip, as_dns_ip = dns_ip,
                   as_mtu = mtu, as_session = session\<rparr>, buf) } } } } })"

definition append_fixed_len_string_to_wire :: "bytes \<Rightarrow> bytes \<Rightarrow> bytes option" where
  "append_fixed_len_string_to_wire s buf =
     (if MAX_STR_SIZE < length s then None
      else let pad = MAX_STR_SIZE - length s + 1 in Some (buf @ s @ replicate pad 0))"

definition auth_success_append_to_wire :: "auth_success \<Rightarrow> bytes \<Rightarrow> bytes option" where
  "auth_success_append_to_wire a buf =
     (if \<not> length (as_local_ip a) \<le> MAX_STR_SIZE \<or> \<not> length (as_peer_ip a) \<le> MAX_STR_SIZE
         \<or> \<not> length (as_dns_ip a) \<le> MAX_STR_SIZE \<or> \<not> length (as_mtu a) \<le> MAX_STR_SIZE then None
      else do {
        buf \<leftarrow> append_fixed_len_string_to_wire (as_local_ip a) buf;
        buf \<leftarrow> append_fixed_len_string_to_wire (as_peer_ip a) buf;
        buf \<leftarrow> append_fixed_len_string_to_wire (as_dns_ip a) buf;
        buf \<leftarrow> append_fixed_len_string_to_wire (as_mtu a) buf;
        Some (buf @ as_session a) })"

definition fixed_string_ok :: "bytes \<Rightarrow> bool" where
  "fixed_string_ok s \<longleftrightarrow> length s \<le> MAX_STR_SIZE \<and> valid_utf8 s \<and> 0 \<notin> set s"

definition auth_success_ok :: "auth_success \<Rightarrow> bool" where
  "auth_success_ok a \<longleftrightarrow>
     fixed_string_ok (as_local_ip a) \<and> fixed_string_ok (as_peer_ip a)
     \<and> fixed_string_ok (as_dns_ip a) \<and> fixed_string_ok (as_mtu a)
     \<and> length (as_session a) = 8"


section \<open>The laws of the authentication methods\<close>

lemma string_from_utf8_ok [simp]: "valid_utf8 bs \<Longrightarrow> string_from_utf8 bs = Inr bs"
  by (simp add: string_from_utf8_def)

lemma string_from_utf8_bad [simp]: "\<not> valid_utf8 bs \<Longrightarrow> string_from_utf8 bs = Inl InvalidStringEncoding"
  by (simp add: string_from_utf8_def)

definition auth_kind_ok :: "auth_method_kind \<Rightarrow> auth_method \<Rightarrow> bool" where
  "auth_kind_ok k m \<longleftrightarrow> auth_method_kind_of m = k \<and> auth_method_ok m"

definition auth_payload_append :: "auth_method \<Rightarrow> bytes \<Rightarrow> bytes option" where
  "auth_payload_append m buf = map_option (\<lambda>p. buf @ p) (auth_method_payload m)"

lemma auth_method_kind_inv [simp]:
  "auth_method_kind_of m = KUserPass \<longleftrightarrow> (\<exists>u p. m = UserPass u p)"
  "auth_method_kind_of m = KToken \<longleftrightarrow> (\<exists>t. m = Token t)"
  "auth_method_kind_of m = KVersionedToken \<longleftrightarrow> (\<exists>v t. m = VersionedToken v t)"
  "auth_method_kind_of m = KCustomCallback \<longleftrightarrow> (\<exists>d. m = CustomCallback d)"
  by (cases m; simp)+

lemma auth_payload_total:
  "auth_kind_ok k m \<Longrightarrow> \<exists>w. \<forall>buf. auth_payload_append m buf = Some (buf @ w)"
  by (cases m) (auto simp: auth_kind_ok_def auth_payload_append_def)

lemma version_try_new_ok:
  "version_MINIMUM \<le> v \<Longrightarrow> v \<le> version_MAXIMUM \<Longrightarrow> version_try_new (major v) (minor v) = Some v"
  by (simp add: version_try_new_Some)

lemma user_pass_total:
  "bbm_fresh b \<Longrightarrow> \<exists>r b'. user_pass_try_from_wire b = Some (r, b')
     \<and> dec_post (auth_kind_ok KUserPass) b r b'"
  by (auto simp: codec_defs const_defs buf_simps auth_kind_ok_def string_from_utf8_def
      version_try_new_Some split: option.splits)

lemma user_pass_enc:
  "auth_kind_ok KUserPass x \<Longrightarrow> bbm_fresh b \<Longrightarrow> auth_payload_append x [] = Some w \<Longrightarrow>
     bbm_chunk b = w @ rest \<Longrightarrow>
     \<exists>b'. user_pass_try_from_wire b = Some (Inr x, b') \<and> bbm_chunk b' = rest"
  by (auto simp: codec_defs const_defs buf_simps auth_kind_ok_def auth_payload_append_def
      version_try_new_ok)

lemma user_pass_partial:
  "auth_kind_ok KUserPass x \<Longrightarrow> bbm_fresh b \<Longrightarrow> auth_payload_append x [] = Some w \<Longrightarrow>
     bbm_chunk b = take n w \<Longrightarrow> n < length w \<Longrightarrow>
     \<exists>b'. user_pass_try_from_wire b = Some (Inl InsufficientData, b')"
  by  (auto simp: codec_defs const_defs buf_simps auth_kind_ok_def
      auth_payload_append_def version_try_new_ok)

interpretation user_pass: wire_codec auth_payload_append user_pass_try_from_wire "auth_kind_ok KUserPass"
  by unfold_locales (fact auth_payload_total user_pass_total user_pass_enc user_pass_partial)+

lemma token_total:
  "bbm_fresh b \<Longrightarrow> \<exists>r b'. token_try_from_wire b = Some (r, b')
     \<and> dec_post (auth_kind_ok KToken) b r b'"
  by (auto simp: codec_defs const_defs buf_simps auth_kind_ok_def string_from_utf8_def
      version_try_new_Some split: option.splits)

lemma token_enc:
  "auth_kind_ok KToken x \<Longrightarrow> bbm_fresh b \<Longrightarrow> auth_payload_append x [] = Some w \<Longrightarrow>
     bbm_chunk b = w @ rest \<Longrightarrow>
     \<exists>b'. token_try_from_wire b = Some (Inr x, b') \<and> bbm_chunk b' = rest"
  by (auto simp: codec_defs const_defs buf_simps auth_kind_ok_def auth_payload_append_def
      version_try_new_ok)

lemma token_partial:
  "auth_kind_ok KToken x \<Longrightarrow> bbm_fresh b \<Longrightarrow> auth_payload_append x [] = Some w \<Longrightarrow>
     bbm_chunk b = take n w \<Longrightarrow> n < length w \<Longrightarrow>
     \<exists>b'. token_try_from_wire b = Some (Inl InsufficientData, b')"
  by (cases "n < 2") (auto simp: codec_defs const_defs buf_simps auth_kind_ok_def
      auth_payload_append_def version_try_new_ok)

interpretation token: wire_codec auth_payload_append token_try_from_wire "auth_kind_ok KToken"
  by unfold_locales (fact auth_payload_total token_total token_enc token_partial)+

lemma versioned_token_total:
  "bbm_fresh b \<Longrightarrow> \<exists>r b'. versioned_token_try_from_wire b = Some (r, b')
     \<and> dec_post (auth_kind_ok KVersionedToken) b r b'"
  by (auto simp: codec_defs const_defs buf_simps auth_kind_ok_def string_from_utf8_def
      version_try_new_Some split: option.splits)

lemma versioned_token_enc:
  "auth_kind_ok KVersionedToken x \<Longrightarrow> bbm_fresh b \<Longrightarrow> auth_payload_append x [] = Some w \<Longrightarrow>
     bbm_chunk b = w @ rest \<Longrightarrow>
     \<exists>b'. versioned_token_try_from_wire b = Some (Inr x, b') \<and> bbm_chunk b' = rest"
  by (auto simp: codec_defs const_defs buf_simps auth_kind_ok_def auth_payload_append_def
      version_try_new_ok)

lemma versioned_token_partial:
  "auth_kind_ok KVersionedToken x \<Longrightarrow> bbm_fresh b \<Longrightarrow> auth_payload_append x [] = Some w \<Longrightarrow>
     bbm_chunk b = take n w \<Longrightarrow> n < length w \<Longrightarrow>
     \<exists>b'. versioned_token_try_from_wire b = Some (Inl InsufficientData, b')"
  by (cases "n < 4") (auto simp: codec_defs const_defs buf_simps auth_kind_ok_def
      auth_payload_append_def version_try_new_ok take_Cons')

interpretation versioned_token: wire_codec auth_payload_append versioned_token_try_from_wire "auth_kind_ok KVersionedToken"
  by unfold_locales (fact auth_payload_total versioned_token_total versioned_token_enc versioned_token_partial)+

lemma custom_callback_total:
  "bbm_fresh b \<Longrightarrow> \<exists>r b'. custom_callback_try_from_wire b = Some (r, b')
     \<and> dec_post (auth_kind_ok KCustomCallback) b r b'"
  by (auto simp: codec_defs const_defs buf_simps auth_kind_ok_def string_from_utf8_def
      version_try_new_Some split: option.splits)

lemma custom_callback_enc:
  "auth_kind_ok KCustomCallback x \<Longrightarrow> bbm_fresh b \<Longrightarrow> auth_payload_append x [] = Some w \<Longrightarrow>
     bbm_chunk b = w @ rest \<Longrightarrow>
     \<exists>b'. custom_callback_try_from_wire b = Some (Inr x, b') \<and> bbm_chunk b' = rest"
  by (auto simp: codec_defs const_defs buf_simps auth_kind_ok_def auth_payload_append_def
      version_try_new_ok)

lemma custom_callback_partial:
  "auth_kind_ok KCustomCallback x \<Longrightarrow> bbm_fresh b \<Longrightarrow> auth_payload_append x [] = Some w \<Longrightarrow>
     bbm_chunk b = take n w \<Longrightarrow> n < length w \<Longrightarrow>
     \<exists>b'. custom_callback_try_from_wire b = Some (Inl InsufficientData, b')"
  by (cases "n < 2") (auto simp: codec_defs const_defs buf_simps auth_kind_ok_def
      auth_payload_append_def version_try_new_ok)

interpretation custom_callback: wire_codec auth_payload_append custom_callback_try_from_wire "auth_kind_ok KCustomCallback"
  by unfold_locales (fact auth_payload_total custom_callback_total custom_callback_enc custom_callback_partial)+

section \<open>The tagged method\<close>

definition auth_payload_try_from_wire :: "auth_method_kind \<Rightarrow> auth_method decoder" where
  "auth_payload_try_from_wire k =
     (case k of KUserPass \<Rightarrow> user_pass_try_from_wire | KToken \<Rightarrow> token_try_from_wire
      | KVersionedToken \<Rightarrow> versioned_token_try_from_wire
      | KCustomCallback \<Rightarrow> custom_callback_try_from_wire)"

interpretation auth_payload: wire_codec auth_payload_append "auth_payload_try_from_wire k" "auth_kind_ok k"
  for k
  by (cases k)
    (simp_all add: auth_payload_try_from_wire_def user_pass.wire_codec_axioms
      token.wire_codec_axioms versioned_token.wire_codec_axioms custom_callback.wire_codec_axioms)

lemma auth_method_kind_roundtrip [simp]: "auth_method_kind_try_from (auth_method_kind_u8 k) = Some k"
  by (cases k) (simp_all add: auth_method_kind_try_from_def)

lemma auth_method_try_from_wire_Nil [buf_simps]:
  "bbm_chunk b = [] \<Longrightarrow> auth_method_try_from_wire b = Some (Inl InsufficientData, b)"
  by (simp add: auth_method_try_from_wire_def buf_simps)

lemma auth_method_try_from_wire_Cons [buf_simps]:
  "bbm_fresh b \<Longrightarrow> bbm_chunk b = t # bs \<Longrightarrow>
     auth_method_try_from_wire b =
       (case auth_method_kind_try_from t of
          None \<Rightarrow> Some (Inl InvalidEnumEncoding, bbm_skip 1 b)
        | Some k \<Rightarrow> auth_payload_try_from_wire k (bbm_skip 1 b))"
  by (simp add: auth_method_try_from_wire_def buf_simps auth_payload_try_from_wire_def
      split: option.split auth_method_kind.split)

lemma auth_method_append:
  "auth_method_ok x \<Longrightarrow> \<exists>w. \<forall>buf. auth_method_append_to_wire x buf = Some (buf @ w)"
  by (cases x) (auto simp: auth_method_append_to_wire_def)

lemma auth_method_total:
  assumes "bbm_fresh b"
  shows "\<exists>r b'. auth_method_try_from_wire b = Some (r, b') \<and> dec_post auth_method_ok b r b'"
proof (cases "bbm_chunk b")
  case Nil
  then show ?thesis using assms by (simp add: buf_simps)
next
  case (Cons t bs)
  show ?thesis
  proof (cases "auth_method_kind_try_from t")
    case None
    then show ?thesis using assms Cons by (simp add: buf_simps)
  next
    case (Some k)
    obtain r b' where dec: "auth_payload_try_from_wire k (bbm_skip 1 b) = Some (r, b')"
      and post: "dec_post (auth_kind_ok k) (bbm_skip 1 b) r b'"
      using auth_payload.dec_total [of "bbm_skip 1 b" k] assms Cons by auto
    have "dec_post auth_method_ok b (map_sum (\<lambda>e. e) (\<lambda>x. x) r) b'"
      by (rule dec_post_map [OF dec_post_tag [OF post]]) (use Cons in \<open>auto simp: auth_kind_ok_def\<close>)
    then show ?thesis using assms Cons Some dec by (simp add: buf_simps sum.map_ident)
  qed
qed

lemma auth_method_wire:
  "auth_method_append_to_wire x [] = Some w \<Longrightarrow>
     \<exists>p. w = auth_method_kind_u8 (auth_method_kind_of x) # p \<and> auth_payload_append x [] = Some p"
  by (cases "auth_method_payload x") (auto simp: auth_method_append_to_wire_def auth_payload_append_def)

lemma auth_method_enc:
  assumes "auth_method_ok x" "bbm_fresh b" "auth_method_append_to_wire x [] = Some w"
    "bbm_chunk b = w @ rest"
  shows "\<exists>b'. auth_method_try_from_wire b = Some (Inr x, b') \<and> bbm_chunk b' = rest"
proof -
  obtain p where "w = auth_method_kind_u8 (auth_method_kind_of x) # p"
    "auth_payload_append x [] = Some p" using auth_method_wire assms(3) by blast
  then show ?thesis
    using assms auth_payload.dec_enc [of "auth_method_kind_of x" x "bbm_skip 1 b" p rest]
    by (simp add: buf_simps auth_kind_ok_def)
qed

lemma auth_method_partial:
  assumes "auth_method_ok x" "bbm_fresh b" "auth_method_append_to_wire x [] = Some w"
    "bbm_chunk b = take n w" "n < length w"
  shows "\<exists>b'. auth_method_try_from_wire b = Some (Inl InsufficientData, b')"
proof (cases n)
  case 0
  then show ?thesis using assms by (simp add: buf_simps)
next
  case (Suc m)
  obtain p where "w = auth_method_kind_u8 (auth_method_kind_of x) # p"
    "auth_payload_append x [] = Some p" using auth_method_wire assms(3) by blast
  then show ?thesis
    using Suc assms auth_payload.dec_partial [of "auth_method_kind_of x" x "bbm_skip 1 b" p m]
    by (simp add: buf_simps auth_kind_ok_def)
qed

interpretation auth_method: wire_codec auth_method_append_to_wire auth_method_try_from_wire auth_method_ok
  by unfold_locales (fact auth_method_append auth_method_total auth_method_enc auth_method_partial)+

lemma auth_request_total:
  assumes "bbm_fresh b"
  shows "\<exists>r b'. auth_request_try_from_wire b = Some (r, b') \<and> dec_post auth_request_ok b r b'"
proof -
  obtain r b' where "auth_method_try_from_wire b = Some (r, b')" "dec_post auth_method_ok b r b'"
    using auth_method_total assms by blast
  then show ?thesis
    by (cases r) (auto simp: auth_request_try_from_wire_def dec_post_def)
qed

lemma auth_request_enc:
  assumes "auth_request_ok x" "bbm_fresh b" "auth_request_append_to_wire x [] = Some w"
    "bbm_chunk b = w @ rest"
  shows "\<exists>b'. auth_request_try_from_wire b = Some (Inr x, b') \<and> bbm_chunk b' = rest"
  using auth_method_enc [of "ar_auth_method x" b w rest] assms
  by (auto simp: auth_request_try_from_wire_def auth_request_append_to_wire_def)

lemma auth_request_partial:
  assumes "auth_request_ok x" "bbm_fresh b" "auth_request_append_to_wire x [] = Some w"
    "bbm_chunk b = take n w" "n < length w"
  shows "\<exists>b'. auth_request_try_from_wire b = Some (Inl InsufficientData, b')"
  using auth_method_partial [of "ar_auth_method x" b w n] assms
  by (auto simp: auth_request_try_from_wire_def auth_request_append_to_wire_def)

interpretation auth_request: wire_codec auth_request_append_to_wire auth_request_try_from_wire
  "\<lambda>r. auth_request_ok r"
  by unfold_locales
    (use auth_method_append in \<open>fastforce simp: auth_request_append_to_wire_def\<close>,
      (fact auth_request_total auth_request_enc auth_request_partial)+)

section \<open>The laws of the authentication success frame\<close>

lemma null_position_None: "null_position bs = None \<longleftrightarrow> 0 \<notin> set bs"
  by (induction bs) auto

lemma null_position_Some: "null_position bs = Some i \<Longrightarrow> i < length bs \<and> 0 \<notin> set (take i bs)"
  by (induction bs arbitrary: i) (auto split: if_splits)

lemma null_position_append: "0 \<notin> set s \<Longrightarrow> null_position (s @ 0 # bs) = Some (length s)"
  by (induction s) auto

definition fixed_len_string :: "bytes \<Rightarrow> bytes" where
  "fixed_len_string field =
     take (min 23 (case null_position field of None \<Rightarrow> 23 | Some i \<Rightarrow> i)) field"

lemma fixed_len_string_no_null:
  assumes "length field = 24"
  shows "0 \<notin> set (fixed_len_string field)"
proof (cases "null_position field")
  case None
  then show ?thesis
    by (auto simp: fixed_len_string_def null_position_None dest: in_set_takeD)
next
  case (Some i)
  then have "min 23 i = i" "0 \<notin> set (take i field)"
    using null_position_Some [OF Some] assms by auto
  then show ?thesis using Some by (simp add: fixed_len_string_def)
qed

lemma fixed_len_string_ok:
  "length field = 24 \<Longrightarrow> valid_utf8 (fixed_len_string field) \<Longrightarrow> fixed_string_ok (fixed_len_string field)"
  using fixed_len_string_no_null [of field]
  by (simp add: fixed_string_ok_def const_defs) (simp add: fixed_len_string_def)

lemma try_fixed_len_string_step [buf_simps]:
  "bbm_fresh b \<Longrightarrow> 24 \<le> length (bbm_chunk b) \<Longrightarrow>
     try_fixed_len_string_from_wire b =
       (let s = fixed_len_string (take 24 (bbm_chunk b)) in
        if valid_utf8 s then Some (Inr s, bbm_skip 24 b) else Some (Inl InvalidStringEncoding, b))"
  by (auto simp: try_fixed_len_string_from_wire_def buf_simps const_defs Let_def fixed_len_string_def
      string_from_utf8_def min_def split: option.splits)

lemma auth_success_total:
  "bbm_fresh b \<Longrightarrow> \<exists>r b'. auth_success_try_from_wire b = Some (r, b')
     \<and> dec_post auth_success_ok b r b'"
  by (auto simp: auth_success_try_from_wire_def const_defs buf_simps Let_def auth_success_ok_def
      intro!: fixed_len_string_ok)

lemma fixed_len_string_padded [simp]:
  "fixed_string_ok s \<Longrightarrow> fixed_len_string (s @ replicate (24 - length s) 0) = s"
proof -
  assume s: "fixed_string_ok s"
  then have "24 - length s = Suc (23 - length s)"
    by (auto simp: fixed_string_ok_def const_defs)
  then have "null_position (s @ replicate (24 - length s) 0) = Some (length s)"
    using s by (simp add: null_position_append fixed_string_ok_def)
  then show ?thesis
    using s by (simp add: fixed_len_string_def fixed_string_ok_def const_defs)
qed

definition padded :: "bytes \<Rightarrow> bytes" where
  "padded s = s @ replicate (24 - length s) 0"

lemma padded_simps [simp]:
  "fixed_string_ok s \<Longrightarrow> length (padded s) = 24"
  "fixed_string_ok s \<Longrightarrow> fixed_len_string (padded s) = s"
  by (simp_all add: padded_def) (simp add: fixed_string_ok_def const_defs)

lemma append_fixed_len_string_padded:
  "fixed_string_ok s \<Longrightarrow> append_fixed_len_string_to_wire s buf = Some (buf @ padded s)"
  by (auto simp: append_fixed_len_string_to_wire_def padded_def fixed_string_ok_def const_defs
      Let_def Suc_diff_le simp flip: replicate_Suc)

lemma auth_success_append_wire:
  "auth_success_ok x \<Longrightarrow> auth_success_append_to_wire x buf =
     Some (buf @ padded (as_local_ip x) @ padded (as_peer_ip x) @ padded (as_dns_ip x)
       @ padded (as_mtu x) @ as_session x)"
  by (auto simp: auth_success_append_to_wire_def auth_success_ok_def append_fixed_len_string_padded)
    (auto simp: fixed_string_ok_def)

lemma auth_success_enc:
  "auth_success_ok x \<Longrightarrow> bbm_fresh b \<Longrightarrow> auth_success_append_to_wire x [] = Some w \<Longrightarrow>
     bbm_chunk b = w @ rest \<Longrightarrow>
     \<exists>b'. auth_success_try_from_wire b = Some (Inr x, b') \<and> bbm_chunk b' = rest"
  by (auto simp: auth_success_append_wire auth_success_ok_def auth_success_try_from_wire_def
      const_defs buf_simps Let_def) (auto simp: fixed_string_ok_def)

lemma auth_success_partial:
  "auth_success_ok x \<Longrightarrow> bbm_fresh b \<Longrightarrow> auth_success_append_to_wire x [] = Some w \<Longrightarrow>
     bbm_chunk b = take n w \<Longrightarrow> n < length w \<Longrightarrow>
     \<exists>b'. auth_success_try_from_wire b = Some (Inl InsufficientData, b')"
  by (auto simp: auth_success_append_wire auth_success_ok_def auth_success_try_from_wire_def
      const_defs buf_simps)

interpretation auth_success: wire_codec auth_success_append_to_wire auth_success_try_from_wire
  auth_success_ok
  by unfold_locales
    (use auth_success_append_wire in blast,
      (fact auth_success_total auth_success_enc auth_success_partial)+)

end
