(* ===== verification/Ip_Text.thy ===== *)
theory Ip_Text
  imports Wire_Auth
begin

text \<open>
  The decimal text that carries the inside IP configuration (lightway-core/src/context/ip_pool.rs
  and the two authentication handlers of connection.rs): \<open>Ipv4Addr::to_string\<close> and
  \<open>Ipv4Addr::from_str\<close>, \<open>format!("{}", n)\<close> and \<open>usize::from_str\<close> of the standard library, as
  ASCII bytes.
\<close>

function show_nat :: "nat \<Rightarrow> bytes" where
  "show_nat n = (if n < 10 then [of_nat (48 + n)] else show_nat (n div 10) @ [of_nat (48 + n mod 10)])"
  by pat_completeness auto

termination
  by (relation "measure id") auto

declare show_nat.simps [simp del]

definition is_digit :: "u8 \<Rightarrow> bool" where
  "is_digit b \<longleftrightarrow> 48 \<le> unat b \<and> unat b \<le> 57"

definition digits_val :: "bytes \<Rightarrow> nat" where
  "digits_val = foldl (\<lambda>acc b. 10 * acc + (unat b - 48)) 0"

text \<open>
  \<open>Parser::read_number(10, Some(3), false)\<close>: one to three digits, no leading zero, at most 255.
\<close>

definition read_octet :: "bytes \<Rightarrow> (u8 \<times> bytes) option" where
  "read_octet s =
     (let ds = takeWhile is_digit s in
      if length ds = 0 \<or> length ds > 3 then None
      else if hd ds = 48 \<and> length ds > 1 then None
      else if digits_val ds > 255 then None
      else Some (of_nat (digits_val ds), dropWhile is_digit s))"

fun read_octets :: "nat \<Rightarrow> bytes \<Rightarrow> (bytes \<times> bytes) option" where
  "read_octets 0 s = Some ([], s)"
| "read_octets (Suc k) s = do {
     (o1, s) \<leftarrow> read_octet s;
     if k = 0 then Some ([o1], s)
     else case s of
         b # s \<Rightarrow> if b = 46 then do { (os, s) \<leftarrow> read_octets k s; Some (o1 # os, s) } else None
       | [] \<Rightarrow> None }"

definition ipv4_from_str :: "bytes \<Rightarrow> u32 option" where
  "ipv4_from_str s =
     (if length s > 15 then None
      else case read_octets 4 s of
          Some (os, []) \<Rightarrow> Some (be_word os)
        | _ \<Rightarrow> None)"

definition ipv4_to_string :: "u32 \<Rightarrow> bytes" where
  "ipv4_to_string ip =
     (case map (\<lambda>b. show_nat (unat b)) (be_bytes 4 ip) of
        [a, b, c, d] \<Rightarrow> a @ [46] @ b @ [46] @ c @ [46] @ d
      | _ \<Rightarrow> [])"

definition usize_from_str :: "bytes \<Rightarrow> usize option" where
  "usize_from_str s =
     (let ds = (case s of b # r \<Rightarrow> if b = 43 then r else s | [] \<Rightarrow> s) in
      if ds = [] then None
      else if \<not> (\<forall>b \<in> set ds. is_digit b) then None
      else if digits_val ds \<ge> 2 ^ 64 then None
      else Some (digits_val ds))"

record inside_ip_config =
  client_ip :: u32
  server_ip :: u32
  dns_ip :: u32

definition inside_ip_config_try_from :: "auth_success \<Rightarrow> inside_ip_config option" where
  "inside_ip_config_try_from v = do {
     client \<leftarrow> ipv4_from_str (as_local_ip v);
     server \<leftarrow> ipv4_from_str (as_peer_ip v);
     dns \<leftarrow> ipv4_from_str (as_dns_ip v);
     Some \<lparr>client_ip = client, server_ip = server, dns_ip = dns\<rparr> }"

section \<open>Printing and parsing\<close>

lemma is_digit_show: "b \<in> set (show_nat n) \<Longrightarrow> is_digit b"
proof (induction n rule: show_nat.induct)
  case (1 n)
  have dig: "m < 10 \<Longrightarrow> is_digit (of_nat (48 + m))" for m :: nat
  proof -
    assume "m < 10"
    then have "unat (of_nat (48 + m) :: u8) = 48 + m" by (intro unat_of_nat_u8) simp
    then show "is_digit (of_nat (48 + m))" using \<open>m < 10\<close> by (simp add: is_digit_def del: of_nat_add)
  qed
  show ?case
  proof (cases "n < 10")
    case True
    then show ?thesis using 1 dig [of n] by (simp add: show_nat.simps [of n] del: of_nat_add)
  next
    case False
    then have "b \<in> set (show_nat (n div 10)) \<or> b = of_nat (48 + n mod 10)"
      using 1 by (auto simp: show_nat.simps [of n] simp del: of_nat_add)
    then show ?thesis using 1 False dig [of "n mod 10"] by auto
  qed
qed

lemma digits_val_snoc: "digits_val (ds @ [b]) = 10 * digits_val ds + (unat b - 48)"
  by (simp add: digits_val_def)

lemma digits_val_show: "digits_val (show_nat n) = n"
proof (induction n rule: show_nat.induct)
  case (1 n)
  have u: "m < 10 \<Longrightarrow> unat (of_nat (48 + m) :: u8) = 48 + m" for m :: nat
    by (intro unat_of_nat_u8) simp
  show ?case
  proof (cases "n < 10")
    case True
    then show ?thesis using u [of n] by (simp add: show_nat.simps [of n] digits_val_def del: of_nat_add)
  next
    case False
    then show ?thesis
      using 1 u [of "n mod 10"] by (simp add: show_nat.simps [of n] digits_val_snoc del: of_nat_add)
  qed
qed

lemma show_nat_nonempty [simp]: "show_nat n \<noteq> []"
  by (subst show_nat.simps) simp

lemma length_show: "n < 10 ^ Suc k \<Longrightarrow> length (show_nat n) \<le> Suc k"
proof (induction k arbitrary: n)
  case (Suc k)
  then show ?case
    by (cases "n < 10") (auto simp: show_nat.simps [of n] less_mult_imp_div_less mult.commute)
qed (simp add: show_nat.simps)

lemma hd_show: "0 < n \<Longrightarrow> hd (show_nat n) \<noteq> 48"
proof (induction n rule: show_nat.induct)
  case (1 n)
  show ?case
  proof (cases "n < 10")
    case True
    then have "unat (of_nat (48 + n) :: u8) = 48 + n" by (intro unat_of_nat_u8) simp
    then have "unat (of_nat (48 + n) :: u8) \<noteq> unat (48 :: u8)" using \<open>0 < n\<close> by simp
    then have "of_nat (48 + n) \<noteq> (48 :: u8)" by metis
    then show ?thesis using True by (simp add: show_nat.simps [of n])
  next
    case False
    then show ?thesis using 1 by (simp add: show_nat.simps [of n])
  qed
qed

lemma takeWhile_show:
  "rest = [] \<or> \<not> is_digit (hd rest) \<Longrightarrow> takeWhile is_digit (show_nat n @ rest) = show_nat n
    \<and> dropWhile is_digit (show_nat n @ rest) = rest"
  by (cases rest) (auto simp: takeWhile_append2 dropWhile_append2 is_digit_show takeWhile_eq_all_conv)

lemma unat_u8_less: "unat (b :: u8) < 256"
proof -
  have "unat b < 2 ^ LENGTH(8)" by (rule unsigned_less)
  then show ?thesis by simp
qed

lemma read_octet_show:
  assumes "rest = [] \<or> \<not> is_digit (hd rest)"
  shows "read_octet (show_nat (unat (b :: u8)) @ rest) = Some (b, rest)"
proof -
  have "unat b < 256" by (rule unat_u8_less)
  then have "length (show_nat (unat b)) \<le> 3" using length_show [of "unat b" 2] by simp
  moreover have "\<not> (hd (show_nat (unat b)) = 48 \<and> length (show_nat (unat b)) > 1)"
    using hd_show [of "unat b"] by (cases "unat b = 0") (simp_all add: show_nat.simps [of 0])
  ultimately show ?thesis
    using takeWhile_show [OF assms, of "unat b"] \<open>unat b < 256\<close>
    by (auto simp: read_octet_def digits_val_show Let_def)
qed

lemma dot_not_digit [simp]: "\<not> is_digit 46"
  by (simp add: is_digit_def)

lemma be_bytes4: "\<exists>a b c d. be_bytes 4 (ip :: u32) = [a, b, c, d]"
  by (simp add: be_bytes_def numeral_eq_Suc)

lemma read_octets_show:
  "read_octets 4 (show_nat (unat (a :: u8)) @ [46] @ show_nat (unat (b :: u8)) @ [46] @ show_nat (unat (c :: u8))
     @ [46] @ show_nat (unat (d :: u8))) = Some ([a, b, c, d], [])"
  using read_octet_show [of "[]" d] by (simp add: numeral_eq_Suc read_octet_show)

lemma length_show_u8: "length (show_nat (unat (b :: u8))) \<le> 3"
  using length_show [of "unat b" 2] unat_u8_less [of b] by simp

lemma ipv4_text:
  "ipv4_from_str (ipv4_to_string ip) = Some ip \<and> length (ipv4_to_string ip) \<le> 15
    \<and> (\<forall>b \<in> set (ipv4_to_string ip). is_digit b \<or> b = 46)"
proof -
  obtain a b c d where o: "be_bytes 4 ip = [a, b, c, d]" using be_bytes4 by blast
  have "be_word [a, b, c, d] = ip" using be_word_be_bytes [of 4 ip] o by simp
  moreover have "length (ipv4_to_string ip) \<le> 15"
    using length_show_u8 [of a] length_show_u8 [of b] length_show_u8 [of c] length_show_u8 [of d]
    by (simp add: ipv4_to_string_def o)
  ultimately show ?thesis
    using read_octets_show [of a b c d] by (auto simp: ipv4_from_str_def ipv4_to_string_def o is_digit_show)
qed

lemma usize_text: "n < 2 ^ 64 \<Longrightarrow> usize_from_str (show_nat n) = Some n"
proof -
  assume n: "n < 2 ^ 64"
  have "hd (show_nat n) \<noteq> 43" using is_digit_show [of "hd (show_nat n)" n] by (auto simp: is_digit_def)
  then have "(case show_nat n of b # r \<Rightarrow> if b = 43 then r else show_nat n | [] \<Rightarrow> show_nat n) = show_nat n"
    by (cases "show_nat n") auto
  then show ?thesis using n by (simp add: usize_from_str_def digits_val_show is_digit_show Let_def)
qed

end
