(* ===== verification/Wire_Payloads.thy ===== *)
theory Wire_Payloads
  imports Wire_Codec
begin

text \<open>
  The payloads of variable or fixed size that carry no strings: ping, pong, data, data_frag,
  auth_failure, server_config, encoding_request and encoding_response (one file each under
  lightway-core/src/wire). \<open>append_to_wire\<close> takes the buffer it extends, as in the source.
  The record fields are the struct fields; constants are the associated constants. Each codec
  is an instance of the locale \<open>wire_codec\<close>.
\<close>

section \<open>Ping and Pong\<close>

record ping =
  ping_id :: u16
  ping_payload :: bytes

record pong =
  pong_id :: u16
  pong_payload :: bytes

definition PING_WIRE_OVERHEAD :: usize where [const_defs]: "PING_WIRE_OVERHEAD = 4"
definition PONG_WIRE_OVERHEAD :: usize where [const_defs]: "PONG_WIRE_OVERHEAD = 4"
definition KEEPALIVE_ID :: u16 where [const_defs]: "KEEPALIVE_ID = 0"

definition ping_try_from_wire :: "ping decoder" where [codec_defs]:
  "ping_try_from_wire buf =
     (if bbm_len buf < PING_WIRE_OVERHEAD then Some (Inl InsufficientData, buf)
      else do {
        (id, buf) \<leftarrow> bbm_get_u16 buf;
        (payload_length, buf) \<leftarrow> bbm_get_u16 buf;
        if bbm_len buf < unat payload_length then Some (Inl InsufficientData, buf)
        else do {
          (payload, buf) \<leftarrow> bbm_read (unat payload_length) buf;
          Some (Inr \<lparr>ping_id = id, ping_payload = payload\<rparr>, buf) } })"

definition ping_append_to_wire :: "ping \<Rightarrow> bytes \<Rightarrow> bytes option" where [codec_defs]:
  "ping_append_to_wire p buf =
     Some (buf @ be_bytes 2 (ping_id p) @ be_bytes 2 (len_u16 (ping_payload p)) @ ping_payload p)"

definition pong_try_from_wire :: "pong decoder" where [codec_defs]:
  "pong_try_from_wire buf =
     (if bbm_len buf < PONG_WIRE_OVERHEAD then Some (Inl InsufficientData, buf)
      else do {
        (id, buf) \<leftarrow> bbm_get_u16 buf;
        (payload_length, buf) \<leftarrow> bbm_get_u16 buf;
        if bbm_len buf < unat payload_length then Some (Inl InsufficientData, buf)
        else do {
          (payload, buf) \<leftarrow> bbm_read (unat payload_length) buf;
          Some (Inr \<lparr>pong_id = id, pong_payload = payload\<rparr>, buf) } })"

definition pong_append_to_wire :: "pong \<Rightarrow> bytes \<Rightarrow> bytes option" where [codec_defs]:
  "pong_append_to_wire p buf =
     Some (buf @ be_bytes 2 (pong_id p) @ be_bytes 2 (len_u16 (pong_payload p)) @ pong_payload p)"

definition ping_ok :: "ping \<Rightarrow> bool" where
  "ping_ok p \<longleftrightarrow> length (ping_payload p) < 2 ^ 16"

definition pong_ok :: "pong \<Rightarrow> bool" where
  "pong_ok p \<longleftrightarrow> length (pong_payload p) < 2 ^ 16"

section \<open>Data and DataFrag\<close>

record data =
  data_data :: bytes

definition FRAME_KIND_SIZE :: usize where [const_defs]: "FRAME_KIND_SIZE = 1"
definition DATA_WIRE_OVERHEAD :: usize where [const_defs]: "DATA_WIRE_OVERHEAD = 2"

text \<open>A \<open>usize\<close> subtraction that would underflow is a panic (debug assertion).\<close>

definition data_maximum_packet_size_for_plpmtu :: "usize \<Rightarrow> usize option" where
  "data_maximum_packet_size_for_plpmtu plpmtu =
     (if \<not> plpmtu > FRAME_KIND_SIZE + DATA_WIRE_OVERHEAD then None
      else Some (plpmtu - DATA_WIRE_OVERHEAD - FRAME_KIND_SIZE))"

definition data_try_from_wire :: "data decoder" where [codec_defs]:
  "data_try_from_wire buf =
     (if bbm_len buf < DATA_WIRE_OVERHEAD then Some (Inl InsufficientData, buf)
      else do {
        (data_len, buf) \<leftarrow> bbm_get_u16 buf;
        if bbm_len buf < unat data_len then Some (Inl InsufficientData, buf)
        else do {
          (d, buf) \<leftarrow> bbm_commit_and_split_to buf (unat data_len);
          Some (Inr \<lparr>data_data = d\<rparr>, buf) } })"

definition data_append_to_wire :: "data \<Rightarrow> bytes \<Rightarrow> bytes option" where [codec_defs]:
  "data_append_to_wire d buf =
     (if \<not> length (data_data d) \<le> 65535 then None
      else Some (buf @ be_bytes 2 (len_u16 (data_data d)) @ data_data d))"

definition data_ok :: "data \<Rightarrow> bool" where
  "data_ok d \<longleftrightarrow> length (data_data d) < 2 ^ 16"

record data_frag =
  df_id :: u16
  df_offset :: usize
  df_more_fragments :: bool
  df_data :: bytes

definition MORE_FRAGMENTS_MASK :: u16 where [const_defs]: "MORE_FRAGMENTS_MASK = 0x2000"
definition OFFSET_MASK :: u16 where [const_defs]: "OFFSET_MASK = 0x1fff"
definition OFFSET_SHIFT :: nat where [const_defs]: "OFFSET_SHIFT = 3"
definition DATA_FRAG_WIRE_OVERHEAD :: usize where [const_defs]: "DATA_FRAG_WIRE_OVERHEAD = 6"

definition offset_mf_from_parts :: "usize \<Rightarrow> bool \<Rightarrow> u16 option" where
  "offset_mf_from_parts offset more_fragments =
     (if \<not> offset \<le> 65535 then None
      else if offset AND (2 ^ OFFSET_SHIFT - 1) \<noteq> 0 then None
      else let mf_bit = if more_fragments then MORE_FRAGMENTS_MASK else 0
           in Some (mf_bit OR drop_bit OFFSET_SHIFT (of_nat offset)))"

definition offset_mf_into_parts :: "u16 \<Rightarrow> usize \<times> bool" where
  "offset_mf_into_parts w =
     (unat (push_bit OFFSET_SHIFT (w AND OFFSET_MASK)), w AND MORE_FRAGMENTS_MASK \<noteq> 0)"

definition data_frag_maximum_packet_size_for_plpmtu :: "usize \<Rightarrow> usize option" where
  "data_frag_maximum_packet_size_for_plpmtu plpmtu =
     (if \<not> plpmtu > FRAME_KIND_SIZE + DATA_FRAG_WIRE_OVERHEAD then None
      else let size = plpmtu - DATA_FRAG_WIRE_OVERHEAD - FRAME_KIND_SIZE;
               size = size - size mod 2 ^ OFFSET_SHIFT
           in if \<not> size > 0 then None else Some size)"

definition data_frag_try_from_wire :: "data_frag decoder" where [codec_defs]:
  "data_frag_try_from_wire buf =
     (if bbm_len buf < DATA_FRAG_WIRE_OVERHEAD then Some (Inl InsufficientData, buf)
      else do {
        (data_len, buf) \<leftarrow> bbm_get_u16 buf;
        (fragment_id, buf) \<leftarrow> bbm_get_u16 buf;
        (offset_and_mf, buf) \<leftarrow> bbm_get_u16 buf;
        if bbm_len buf < unat data_len then Some (Inl InsufficientData, buf)
        else do {
          let (offset, more_fragments) = offset_mf_into_parts offset_and_mf;
          (d, buf) \<leftarrow> bbm_commit_and_split_to buf (unat data_len);
          Some (Inr \<lparr>df_id = fragment_id, df_offset = offset,
                     df_more_fragments = more_fragments, df_data = d\<rparr>, buf) } })"

definition data_frag_append_to_wire :: "data_frag \<Rightarrow> bytes \<Rightarrow> bytes option" where [codec_defs]:
  "data_frag_append_to_wire f buf =
     (if \<not> length (df_data f) \<le> 65535 then None
      else do {
        offset_and_mf \<leftarrow> offset_mf_from_parts (df_offset f) (df_more_fragments f);
        Some (buf @ be_bytes 2 (len_u16 (df_data f)) @ be_bytes 2 (df_id f)
          @ be_bytes 2 offset_and_mf @ df_data f) })"

definition df_start_offset :: "data_frag \<Rightarrow> usize" where
  "df_start_offset f = df_offset f"

definition df_end_offset :: "data_frag \<Rightarrow> usize" where
  "df_end_offset f = df_offset f + length (df_data f)"

definition data_frag_ok :: "data_frag \<Rightarrow> bool" where
  "data_frag_ok f \<longleftrightarrow>
     length (df_data f) < 2 ^ 16 \<and> df_offset f < 2 ^ 16 \<and> 8 dvd df_offset f"

section \<open>AuthFailure, ServerConfig\<close>

definition AUTH_FAILURE_WIRE_SIZE :: usize where [const_defs]: "AUTH_FAILURE_WIRE_SIZE = 52"

definition auth_failure_try_from_wire :: "unit decoder" where [codec_defs]:
  "auth_failure_try_from_wire buf =
     (if bbm_len buf < AUTH_FAILURE_WIRE_SIZE then Some (Inl InsufficientData, buf)
      else do {
        buf \<leftarrow> bbm_advance buf AUTH_FAILURE_WIRE_SIZE;
        Some (Inr (), buf) })"

definition auth_failure_append_to_wire :: "unit \<Rightarrow> bytes \<Rightarrow> bytes option" where [codec_defs]:
  "auth_failure_append_to_wire u buf = Some (buf @ replicate AUTH_FAILURE_WIRE_SIZE 0)"

record server_config =
  sc_data :: bytes

definition MAX_SERVER_CONFIG_BYTES :: usize where
  [const_defs]: "MAX_SERVER_CONFIG_BYTES = 1350 - 2"

definition server_config_try_from_wire :: "server_config decoder" where [codec_defs]:
  "server_config_try_from_wire buf =
     (if bbm_len buf < 2 then Some (Inl InsufficientData, buf)
      else do {
        (data_len, buf) \<leftarrow> bbm_get_u16 buf;
        if unat data_len > MAX_SERVER_CONFIG_BYTES then Some (Inl FieldTooLarge, buf)
        else if bbm_len buf < unat data_len then Some (Inl InsufficientData, buf)
        else do {
          (d, buf) \<leftarrow> bbm_commit_and_split_to buf (unat data_len);
          Some (Inr \<lparr>sc_data = d\<rparr>, buf) } })"

definition server_config_append_to_wire :: "server_config \<Rightarrow> bytes \<Rightarrow> bytes option" where [codec_defs]:
  "server_config_append_to_wire c buf =
     (if \<not> length (sc_data c) \<le> MAX_SERVER_CONFIG_BYTES then None
      else Some (buf @ be_bytes 2 (len_u16 (sc_data c)) @ sc_data c))"

definition server_config_ok :: "server_config \<Rightarrow> bool" where
  "server_config_ok c \<longleftrightarrow> length (sc_data c) \<le> MAX_SERVER_CONFIG_BYTES"

section \<open>EncodingRequest and EncodingResponse\<close>

record encoding_request =
  ereq_id :: u64
  ereq_enable :: bool

record encoding_response =
  eres_id :: u64
  eres_enable :: bool

definition ENCODING_WIRE_SIZE :: usize where [const_defs]: "ENCODING_WIRE_SIZE = 9"

definition encoding_request_try_from_wire :: "encoding_request decoder" where [codec_defs]:
  "encoding_request_try_from_wire buf =
     (if bbm_len buf < ENCODING_WIRE_SIZE then Some (Inl InsufficientData, buf)
      else do {
        (id, buf) \<leftarrow> bbm_get_u64 buf;
        (enable, buf) \<leftarrow> bbm_get_u8 buf;
        if enable = 0 then Some (Inr \<lparr>ereq_id = id, ereq_enable = False\<rparr>, buf)
        else if enable = 1 then Some (Inr \<lparr>ereq_id = id, ereq_enable = True\<rparr>, buf)
        else Some (Inl InvalidBool, buf) })"

definition encoding_request_append_to_wire :: "encoding_request \<Rightarrow> bytes \<Rightarrow> bytes option" where
  [codec_defs]: "encoding_request_append_to_wire e buf =
     Some (buf @ be_bytes 8 (ereq_id e) @ [bool_u8 (ereq_enable e)])"

definition encoding_response_try_from_wire :: "encoding_response decoder" where [codec_defs]:
  "encoding_response_try_from_wire buf =
     (if bbm_len buf < ENCODING_WIRE_SIZE then Some (Inl InsufficientData, buf)
      else do {
        (id, buf) \<leftarrow> bbm_get_u64 buf;
        (enable, buf) \<leftarrow> bbm_get_u8 buf;
        if enable = 0 then Some (Inr \<lparr>eres_id = id, eres_enable = False\<rparr>, buf)
        else if enable = 1 then Some (Inr \<lparr>eres_id = id, eres_enable = True\<rparr>, buf)
        else Some (Inl InvalidBool, buf) })"

definition encoding_response_append_to_wire :: "encoding_response \<Rightarrow> bytes \<Rightarrow> bytes option" where
  [codec_defs]: "encoding_response_append_to_wire e buf =
     Some (buf @ be_bytes 8 (eres_id e) @ [bool_u8 (eres_enable e)])"

section \<open>Helper lemmas\<close>

lemma offset_mf_parts:
  assumes "offset < 65536" and "8 dvd offset"
  shows "\<exists>w. offset_mf_from_parts offset mf = Some w \<and> offset_mf_into_parts w = (offset, mf)"
proof -
  let ?o = "of_nat offset :: u16"
  obtain k where k: "offset = 8 * k"
    using assms(2) by (auto elim: dvdE)
  have "?o = push_bit 3 (of_nat k)"
    by (simp add: k push_bit_eq_mult)
  then have o8: "take_bit 3 ?o = 0"
    by (simp add: take_bit_push_bit)
  have split: "push_bit 3 (drop_bit 3 ?o) = ?o"
    using bits_ident [of 3 ?o] o8 by simp
  have bits: "bit (0x1fff :: u16) n \<longleftrightarrow> n < 13" "bit (0x2000 :: u16) n \<longleftrightarrow> n = 13" for n
    using bit_mask_iff [of 13 n, where ?'a = "16 word"] bit_exp_iff [of 13 n, where ?'a = "16 word"]
    by (auto simp: mask_eq_exp_minus_1)
  have low: "((if mf then 0x2000 else 0) OR drop_bit 3 ?o) AND 0x1fff = drop_bit 3 ?o"
    by (rule bit_word_eqI)
      (auto simp: bit_and_iff bit_or_iff bit_drop_bit_eq bits
        simp del: bit_numeral_word_iff dest: bit_imp_le_length)
  have high: "((if mf then 0x2000 else 0) OR drop_bit 3 ?o) AND 0x2000 = (if mf then 0x2000 else 0)"
    by (rule bit_word_eqI)
      (auto simp: bit_and_iff bit_or_iff bit_drop_bit_eq bits
        simp del: bit_numeral_word_iff dest: bit_imp_le_length)
  have guard: "offset AND (2 ^ OFFSET_SHIFT - 1) = 0"
    unfolding mask_eq_exp_minus_1 [symmetric] take_bit_eq_mask [symmetric]
    using assms(2) by (simp add: const_defs take_bit_eq_mod)
  have "offset_mf_into_parts ((if mf then 0x2000 else 0) OR drop_bit 3 ?o) = (offset, mf)"
    unfolding offset_mf_into_parts_def const_defs low high split
    using assms(1) by (simp add: unat_of_nat)
  then show ?thesis
    using assms(1) guard by (cases mf) (simp_all add: offset_mf_from_parts_def Let_def const_defs)
qed

lemma offset_mf_into_parts_ok:
  "offset_mf_into_parts w = (offset, mf) \<Longrightarrow> offset < 65536 \<and> 8 dvd offset"
proof -
  assume a: "offset_mf_into_parts w = (offset, mf)"
  have "take_bit 3 (unat (push_bit 3 (w AND OFFSET_MASK)))
      = unat (take_bit 3 (push_bit 3 (w AND OFFSET_MASK)))"
    by (rule unsigned_take_bit_eq [symmetric])
  also have "\<dots> = 0"
    by (simp add: take_bit_push_bit)
  finally have "unat (push_bit 3 (w AND OFFSET_MASK)) mod 8 = 0"
    by (simp add: take_bit_eq_mod)
  then show ?thesis
    using a by (auto simp: offset_mf_into_parts_def OFFSET_SHIFT_def mod_eq_0_iff_dvd)
qed

section \<open>The laws\<close>

lemma ping_append:
  "ping_ok x \<Longrightarrow> \<exists>w. \<forall>buf. ping_append_to_wire x buf = Some (buf @ w)"
  by (auto simp: codec_defs const_defs ping_ok_def)

lemma ping_total:
  "bbm_fresh b \<Longrightarrow> \<exists>r b'. ping_try_from_wire b = Some (r, b') \<and> dec_post ping_ok b r b'"
  by (auto simp: codec_defs const_defs buf_simps ping_ok_def)

lemma ping_enc:
  "ping_ok x \<Longrightarrow> bbm_fresh b \<Longrightarrow> ping_append_to_wire x [] = Some w \<Longrightarrow>
     bbm_chunk b = w @ rest \<Longrightarrow>
     \<exists>b'. ping_try_from_wire b = Some (Inr x, b') \<and> bbm_chunk b' = rest"
  by (auto simp: codec_defs const_defs buf_simps ping_ok_def)

lemma ping_partial:
  "ping_ok x \<Longrightarrow> bbm_fresh b \<Longrightarrow> ping_append_to_wire x [] = Some w \<Longrightarrow>
     bbm_chunk b = take n w \<Longrightarrow> n < length w \<Longrightarrow>
     \<exists>b'. ping_try_from_wire b = Some (Inl InsufficientData, b')"
  by (cases "n < 4") (auto simp: codec_defs const_defs buf_simps ping_ok_def)

interpretation ping: wire_codec ping_append_to_wire ping_try_from_wire ping_ok
  by unfold_locales (fact ping_append ping_total ping_enc ping_partial)+

lemma pong_append:
  "pong_ok x \<Longrightarrow> \<exists>w. \<forall>buf. pong_append_to_wire x buf = Some (buf @ w)"
  by (auto simp: codec_defs const_defs pong_ok_def)

lemma pong_total:
  "bbm_fresh b \<Longrightarrow> \<exists>r b'. pong_try_from_wire b = Some (r, b') \<and> dec_post pong_ok b r b'"
  by (auto simp: codec_defs const_defs buf_simps pong_ok_def)

lemma pong_enc:
  "pong_ok x \<Longrightarrow> bbm_fresh b \<Longrightarrow> pong_append_to_wire x [] = Some w \<Longrightarrow>
     bbm_chunk b = w @ rest \<Longrightarrow>
     \<exists>b'. pong_try_from_wire b = Some (Inr x, b') \<and> bbm_chunk b' = rest"
  by (auto simp: codec_defs const_defs buf_simps pong_ok_def)

lemma pong_partial:
  "pong_ok x \<Longrightarrow> bbm_fresh b \<Longrightarrow> pong_append_to_wire x [] = Some w \<Longrightarrow>
     bbm_chunk b = take n w \<Longrightarrow> n < length w \<Longrightarrow>
     \<exists>b'. pong_try_from_wire b = Some (Inl InsufficientData, b')"
  by (cases "n < 4") (auto simp: codec_defs const_defs buf_simps pong_ok_def)

interpretation pong: wire_codec pong_append_to_wire pong_try_from_wire pong_ok
  by unfold_locales (fact pong_append pong_total pong_enc pong_partial)+

lemma data_append:
  "data_ok x \<Longrightarrow> \<exists>w. \<forall>buf. data_append_to_wire x buf = Some (buf @ w)"
  by (auto simp: codec_defs const_defs data_ok_def)

lemma data_total:
  "bbm_fresh b \<Longrightarrow> \<exists>r b'. data_try_from_wire b = Some (r, b') \<and> dec_post data_ok b r b'"
  by (auto simp: codec_defs const_defs buf_simps data_ok_def)

lemma data_enc:
  "data_ok x \<Longrightarrow> bbm_fresh b \<Longrightarrow> data_append_to_wire x [] = Some w \<Longrightarrow>
     bbm_chunk b = w @ rest \<Longrightarrow>
     \<exists>b'. data_try_from_wire b = Some (Inr x, b') \<and> bbm_chunk b' = rest"
  by (auto simp: codec_defs const_defs buf_simps data_ok_def)

lemma data_partial:
  "data_ok x \<Longrightarrow> bbm_fresh b \<Longrightarrow> data_append_to_wire x [] = Some w \<Longrightarrow>
     bbm_chunk b = take n w \<Longrightarrow> n < length w \<Longrightarrow>
     \<exists>b'. data_try_from_wire b = Some (Inl InsufficientData, b')"
  by (auto simp: codec_defs const_defs buf_simps data_ok_def)

interpretation data: wire_codec data_append_to_wire data_try_from_wire data_ok
  by unfold_locales (fact data_append data_total data_enc data_partial)+

lemma data_frag_append:
  "data_frag_ok x \<Longrightarrow> \<exists>w. \<forall>buf. data_frag_append_to_wire x buf = Some (buf @ w)"
  using offset_mf_parts [of "df_offset x" "df_more_fragments x"]
  by (auto simp: codec_defs data_frag_ok_def)

lemma data_frag_total:
  "bbm_fresh b \<Longrightarrow> \<exists>r b'. data_frag_try_from_wire b = Some (r, b') \<and> dec_post data_frag_ok b r b'"
  by (auto simp: codec_defs const_defs buf_simps data_frag_ok_def
      split: prod.splits dest: offset_mf_into_parts_ok)

lemma data_frag_enc:
  "data_frag_ok x \<Longrightarrow> bbm_fresh b \<Longrightarrow> data_frag_append_to_wire x [] = Some w \<Longrightarrow>
     bbm_chunk b = w @ rest \<Longrightarrow>
     \<exists>b'. data_frag_try_from_wire b = Some (Inr x, b') \<and> bbm_chunk b' = rest"
  using offset_mf_parts [of "df_offset x" "df_more_fragments x"]
  by (auto simp: codec_defs const_defs buf_simps data_frag_ok_def)

lemma data_frag_partial:
  "data_frag_ok x \<Longrightarrow> bbm_fresh b \<Longrightarrow> data_frag_append_to_wire x [] = Some w \<Longrightarrow>
     bbm_chunk b = take n w \<Longrightarrow> n < length w \<Longrightarrow>
     \<exists>b'. data_frag_try_from_wire b = Some (Inl InsufficientData, b')"
  by (cases "n < 6") (auto simp: codec_defs const_defs buf_simps data_frag_ok_def split: bind_splits)

interpretation data_frag: wire_codec data_frag_append_to_wire data_frag_try_from_wire data_frag_ok
  by unfold_locales (fact data_frag_append data_frag_total data_frag_enc data_frag_partial)+

lemma auth_failure_append:
  "(\<lambda>_. True) x \<Longrightarrow> \<exists>w. \<forall>buf. auth_failure_append_to_wire x buf = Some (buf @ w)"
  by (auto simp: codec_defs const_defs)

lemma auth_failure_total:
  "bbm_fresh b \<Longrightarrow> \<exists>r b'. auth_failure_try_from_wire b = Some (r, b') \<and> dec_post (\<lambda>_. True) b r b'"
  by (auto simp: codec_defs const_defs buf_simps)

lemma auth_failure_enc:
  "(\<lambda>_. True) x \<Longrightarrow> bbm_fresh b \<Longrightarrow> auth_failure_append_to_wire x [] = Some w \<Longrightarrow>
     bbm_chunk b = w @ rest \<Longrightarrow>
     \<exists>b'. auth_failure_try_from_wire b = Some (Inr x, b') \<and> bbm_chunk b' = rest"
  by (auto simp: codec_defs const_defs buf_simps)

lemma auth_failure_partial:
  "(\<lambda>_. True) x \<Longrightarrow> bbm_fresh b \<Longrightarrow> auth_failure_append_to_wire x [] = Some w \<Longrightarrow>
     bbm_chunk b = take n w \<Longrightarrow> n < length w \<Longrightarrow>
     \<exists>b'. auth_failure_try_from_wire b = Some (Inl InsufficientData, b')"
  by (auto simp: codec_defs const_defs buf_simps)

interpretation auth_failure: wire_codec auth_failure_append_to_wire auth_failure_try_from_wire "\<lambda>_. True"
  by unfold_locales (fact auth_failure_append auth_failure_total auth_failure_enc auth_failure_partial)+

lemma server_config_append:
  "server_config_ok x \<Longrightarrow> \<exists>w. \<forall>buf. server_config_append_to_wire x buf = Some (buf @ w)"
  by (auto simp: codec_defs const_defs server_config_ok_def)

lemma server_config_total:
  "bbm_fresh b \<Longrightarrow> \<exists>r b'. server_config_try_from_wire b = Some (r, b') \<and> dec_post server_config_ok b r b'"
  by (auto simp: codec_defs const_defs buf_simps server_config_ok_def)

lemma server_config_enc:
  "server_config_ok x \<Longrightarrow> bbm_fresh b \<Longrightarrow> server_config_append_to_wire x [] = Some w \<Longrightarrow>
     bbm_chunk b = w @ rest \<Longrightarrow>
     \<exists>b'. server_config_try_from_wire b = Some (Inr x, b') \<and> bbm_chunk b' = rest"
  by (auto simp: codec_defs const_defs buf_simps server_config_ok_def)

lemma server_config_partial:
  "server_config_ok x \<Longrightarrow> bbm_fresh b \<Longrightarrow> server_config_append_to_wire x [] = Some w \<Longrightarrow>
     bbm_chunk b = take n w \<Longrightarrow> n < length w \<Longrightarrow>
     \<exists>b'. server_config_try_from_wire b = Some (Inl InsufficientData, b')"
  by (auto simp: codec_defs const_defs buf_simps server_config_ok_def)

interpretation server_config: wire_codec server_config_append_to_wire server_config_try_from_wire server_config_ok
  by unfold_locales (fact server_config_append server_config_total server_config_enc server_config_partial)+

lemma encoding_request_append:
  "(\<lambda>_. True) x \<Longrightarrow> \<exists>w. \<forall>buf. encoding_request_append_to_wire x buf = Some (buf @ w)"
  by (auto simp: codec_defs const_defs)

lemma encoding_request_total:
  "bbm_fresh b \<Longrightarrow> \<exists>r b'. encoding_request_try_from_wire b = Some (r, b') \<and> dec_post (\<lambda>_. True) b r b'"
  by (auto simp: codec_defs const_defs buf_simps)

lemma encoding_request_enc:
  "(\<lambda>_. True) x \<Longrightarrow> bbm_fresh b \<Longrightarrow> encoding_request_append_to_wire x [] = Some w \<Longrightarrow>
     bbm_chunk b = w @ rest \<Longrightarrow>
     \<exists>b'. encoding_request_try_from_wire b = Some (Inr x, b') \<and> bbm_chunk b' = rest"
  by (auto simp: codec_defs const_defs buf_simps)

lemma encoding_request_partial:
  "(\<lambda>_. True) x \<Longrightarrow> bbm_fresh b \<Longrightarrow> encoding_request_append_to_wire x [] = Some w \<Longrightarrow>
     bbm_chunk b = take n w \<Longrightarrow> n < length w \<Longrightarrow>
     \<exists>b'. encoding_request_try_from_wire b = Some (Inl InsufficientData, b')"
  by (auto simp: codec_defs const_defs buf_simps)

interpretation encoding_request: wire_codec encoding_request_append_to_wire encoding_request_try_from_wire "\<lambda>_. True"
  by unfold_locales (fact encoding_request_append encoding_request_total encoding_request_enc encoding_request_partial)+

lemma encoding_response_append:
  "(\<lambda>_. True) x \<Longrightarrow> \<exists>w. \<forall>buf. encoding_response_append_to_wire x buf = Some (buf @ w)"
  by (auto simp: codec_defs const_defs)

lemma encoding_response_total:
  "bbm_fresh b \<Longrightarrow> \<exists>r b'. encoding_response_try_from_wire b = Some (r, b') \<and> dec_post (\<lambda>_. True) b r b'"
  by (auto simp: codec_defs const_defs buf_simps)

lemma encoding_response_enc:
  "(\<lambda>_. True) x \<Longrightarrow> bbm_fresh b \<Longrightarrow> encoding_response_append_to_wire x [] = Some w \<Longrightarrow>
     bbm_chunk b = w @ rest \<Longrightarrow>
     \<exists>b'. encoding_response_try_from_wire b = Some (Inr x, b') \<and> bbm_chunk b' = rest"
  by (auto simp: codec_defs const_defs buf_simps)

lemma encoding_response_partial:
  "(\<lambda>_. True) x \<Longrightarrow> bbm_fresh b \<Longrightarrow> encoding_response_append_to_wire x [] = Some w \<Longrightarrow>
     bbm_chunk b = take n w \<Longrightarrow> n < length w \<Longrightarrow>
     \<exists>b'. encoding_response_try_from_wire b = Some (Inl InsufficientData, b')"
  by (auto simp: codec_defs const_defs buf_simps)

interpretation encoding_response: wire_codec encoding_response_append_to_wire encoding_response_try_from_wire "\<lambda>_. True"
  by unfold_locales (fact encoding_response_append encoding_response_total encoding_response_enc encoding_response_partial)+

end
