(* ===== verification/Expresslane_Types.thy ===== *)
theory Expresslane_Types
  imports Wire_Codec
begin

text \<open>
  The wire version and the key of ExpressLane (lightway-expresslane/src/version.rs, key.rs)
  and the configuration frame that negotiates them (lightway-core/src/wire/expresslane_config.rs).
  A key is the list of its 32 bytes.
\<close>

section \<open>Versions\<close>

datatype expresslane_version = ELUnknown | ELVersion1 | ELVersion2

fun el_version_u8 :: "expresslane_version \<Rightarrow> u8" where
  "el_version_u8 ELUnknown = 0"
| "el_version_u8 ELVersion1 = 1"
| "el_version_u8 ELVersion2 = 2"

definition el_version_from_u8 :: "u8 \<Rightarrow> expresslane_version" where
  "el_version_from_u8 value =
     (if value = 1 then ELVersion1 else if value = 2 then ELVersion2 else ELUnknown)"

text \<open>The derived \<open>Ord\<close> of the enum is the order of the discriminants.\<close>

instantiation expresslane_version :: linorder
begin

definition less_eq_expresslane_version :: "expresslane_version \<Rightarrow> expresslane_version \<Rightarrow> bool" where
  "a \<le> b \<longleftrightarrow> el_version_u8 a \<le> el_version_u8 b"

definition less_expresslane_version :: "expresslane_version \<Rightarrow> expresslane_version \<Rightarrow> bool" where
  "a < b \<longleftrightarrow> el_version_u8 a < el_version_u8 b"

instance
proof
  fix x y :: expresslane_version
  assume "x \<le> y" and "y \<le> x"
  then have "el_version_u8 x = el_version_u8 y"
    by (simp add: less_eq_expresslane_version_def)
  then show "x = y"
    by (cases x; cases y) simp_all
qed (auto simp: less_eq_expresslane_version_def less_expresslane_version_def)

end

definition EL_VERSION_MAX :: expresslane_version where
  "EL_VERSION_MAX = ELVersion2"

lemma el_version_roundtrip [simp]: "el_version_from_u8 (el_version_u8 v) = v"
  by (cases v) (simp_all add: el_version_from_u8_def)

definition negotiate_version :: "expresslane_version \<Rightarrow> expresslane_version" where
  "negotiate_version peer =
     (case peer of ELUnknown \<Rightarrow> EL_VERSION_MAX | v \<Rightarrow> min EL_VERSION_MAX v)"

section \<open>Keys\<close>

type_synonym expresslane_key = bytes

definition EXPRESSLANE_KEY_SIZE :: usize where [const_defs]: "EXPRESSLANE_KEY_SIZE = 32"

definition EL_KEY_INVALID :: expresslane_key where
  "EL_KEY_INVALID = replicate EXPRESSLANE_KEY_SIZE 0"

definition el_key_is_invalid :: "expresslane_key \<Rightarrow> bool" where
  "el_key_is_invalid k \<longleftrightarrow> k = EL_KEY_INVALID"

section \<open>The configuration frame\<close>

record expresslane_config =
  ec_version :: expresslane_version
  ec_enabled :: bool
  ec_ack :: bool
  ec_counter :: u64
  ec_key :: expresslane_key

definition expresslane_config_default :: expresslane_config where
  "expresslane_config_default = \<lparr>ec_version = ELUnknown, ec_enabled = False, ec_ack = False,
     ec_counter = 0, ec_key = EL_KEY_INVALID\<rparr>"

definition EXPRESSLANE_CONFIG_WIRE_OVERHEAD :: usize where
  [const_defs]: "EXPRESSLANE_CONFIG_WIRE_OVERHEAD = 44"

text \<open>The bitfield \<open>|E|A|unused|\<close>, most significant bit first.\<close>

definition ec_header_byte :: "bool \<Rightarrow> bool \<Rightarrow> u8" where
  "ec_header_byte enabled ack = (if enabled then 0x80 else 0) OR (if ack then 0x40 else 0)"

definition ec_header_enabled :: "u8 \<Rightarrow> bool" where
  "ec_header_enabled h \<longleftrightarrow> bit h 7"

definition ec_header_ack :: "u8 \<Rightarrow> bool" where
  "ec_header_ack h \<longleftrightarrow> bit h 6"

definition expresslane_config_try_from_wire :: "expresslane_config decoder" where [codec_defs]:
  "expresslane_config_try_from_wire buf =
     (if bbm_len buf < EXPRESSLANE_CONFIG_WIRE_OVERHEAD then Some (Inl InsufficientData, buf)
      else do {
        (version, buf) \<leftarrow> bbm_get_u8 buf;
        (header, buf) \<leftarrow> bbm_get_u8 buf;
        (reserved, buf) \<leftarrow> bbm_get_u16 buf;
        (counter, buf) \<leftarrow> bbm_get_u64 buf;
        (key, buf) \<leftarrow> bbm_read 32 buf;
        Some (Inr \<lparr>ec_version = el_version_from_u8 version, ec_enabled = ec_header_enabled header,
                   ec_ack = ec_header_ack header, ec_counter = counter, ec_key = key\<rparr>, buf) })"

definition expresslane_config_append_to_wire ::
  "expresslane_config \<Rightarrow> bytes \<Rightarrow> bytes option" where [codec_defs]:
  "expresslane_config_append_to_wire c buf =
     Some (buf @ [el_version_u8 (ec_version c), ec_header_byte (ec_enabled c) (ec_ack c)]
       @ be_bytes 2 (0 :: u16) @ be_bytes 8 (ec_counter c) @ ec_key c)"

definition expresslane_config_ok :: "expresslane_config \<Rightarrow> bool" where
  "expresslane_config_ok c \<longleftrightarrow> length (ec_key c) = 32"

section \<open>The laws\<close>

lemma ec_header_roundtrip [simp]:
  "ec_header_enabled (ec_header_byte e a) = e" "ec_header_ack (ec_header_byte e a) = a"
  by (cases e; cases a; simp add: ec_header_enabled_def ec_header_ack_def ec_header_byte_def bit_or_iff)+

lemma expresslane_config_append:
  "expresslane_config_ok x \<Longrightarrow> \<exists>w. \<forall>buf. expresslane_config_append_to_wire x buf = Some (buf @ w)"
  by (auto simp: codec_defs)

lemma expresslane_config_total:
  "bbm_fresh b \<Longrightarrow> \<exists>r b'. expresslane_config_try_from_wire b = Some (r, b')
     \<and> dec_post expresslane_config_ok b r b'"
  by (auto simp: codec_defs const_defs buf_simps expresslane_config_ok_def)

lemma expresslane_config_enc:
  "expresslane_config_ok x \<Longrightarrow> bbm_fresh b \<Longrightarrow> expresslane_config_append_to_wire x [] = Some w \<Longrightarrow>
     bbm_chunk b = w @ rest \<Longrightarrow>
     \<exists>b'. expresslane_config_try_from_wire b = Some (Inr x, b') \<and> bbm_chunk b' = rest"
  by (auto simp: codec_defs const_defs buf_simps expresslane_config_ok_def)

lemma expresslane_config_partial:
  "expresslane_config_ok x \<Longrightarrow> bbm_fresh b \<Longrightarrow> expresslane_config_append_to_wire x [] = Some w \<Longrightarrow>
     bbm_chunk b = take n w \<Longrightarrow> n < length w \<Longrightarrow>
     \<exists>b'. expresslane_config_try_from_wire b = Some (Inl InsufficientData, b')"
  by (auto simp: codec_defs const_defs buf_simps expresslane_config_ok_def)

interpretation expresslane_config: wire_codec expresslane_config_append_to_wire
  expresslane_config_try_from_wire expresslane_config_ok
  by unfold_locales
    (fact expresslane_config_append expresslane_config_total expresslane_config_enc
      expresslane_config_partial)+

end
