(* ===== verification/Wire_Frame.thy ===== *)
theory Wire_Frame
  imports Wire_Payloads Wire_Auth Expresslane_Types
begin

text \<open>
  The frame layer of lightway-core/src/wire.rs: the 16 byte packet header, the frame kinds,
  and \<open>Frame\<close> with its encoder and decoder. The decoder reads through a
  \<open>BorrowedBytesMut\<close> and commits only after the whole frame is read, so its model returns
  the \<open>BytesMut\<close> that is left in every case. Frames are a \<open>wire_codec\<close> again, which
  gives the round trip for a stream of frames.
\<close>

section \<open>The packet header\<close>

record header =
  hdr_version :: version
  hdr_aggressive_mode :: bool
  hdr_expresslane_data :: bool
  hdr_session :: session_id

definition HEADER_WIRE_SIZE :: usize where [const_defs]: "HEADER_WIRE_SIZE = 16"

text \<open>The ASCII codes of \<open>'H'\<close> and \<open>'e'\<close>.\<close>

definition header_try_from_wire :: "bytes \<Rightarrow> (bytes, from_wire_error, header) outcome" where
  "header_try_from_wire buf =
     (if length buf < HEADER_WIRE_SIZE then Some (Inl InsufficientData, buf)
      else do {
        (he0, buf) \<leftarrow> bm_get_u8 buf;
        (he1, buf) \<leftarrow> bm_get_u8 buf;
        if he0 \<noteq> 0x48 \<or> he1 \<noteq> 0x65 then Some (Inl (InvalidMagicNumber he0 he1), buf)
        else do {
          (major_version, buf) \<leftarrow> bm_get_u8 buf;
          (minor_version, buf) \<leftarrow> bm_get_u8 buf;
          (aggressive, buf) \<leftarrow> bm_get_u8 buf;
          (express, buf) \<leftarrow> bm_get_u8 buf;
          (reserved, buf) \<leftarrow> bm_read 2 buf;
          (session, buf) \<leftarrow> bm_read 8 buf;
          case version_try_new major_version minor_version of
            None \<Rightarrow> Some (Inl (InvalidProtocolVersion major_version minor_version), buf)
          | Some version \<Rightarrow>
              Some (Inr \<lparr>hdr_version = version, hdr_aggressive_mode = (aggressive \<noteq> 0),
                         hdr_expresslane_data = (express \<noteq> 0), hdr_session = session\<rparr>, buf) } })"

definition header_append_to_wire :: "header \<Rightarrow> bytes \<Rightarrow> bytes" where
  "header_append_to_wire h buf =
     buf @ [0x48, 0x65, major (hdr_version h), minor (hdr_version h),
            bool_u8 (hdr_aggressive_mode h), bool_u8 (hdr_expresslane_data h), 0, 0]
     @ hdr_session h"

definition header_ok :: "header \<Rightarrow> bool" where
  "header_ok h \<longleftrightarrow>
     version_MINIMUM \<le> hdr_version h \<and> hdr_version h \<le> version_MAXIMUM
     \<and> length (hdr_session h) = 8"

section \<open>Frames\<close>

datatype frame_kind =
    FKNoOp | FKPing | FKPong | FKAuthRequest | FKData | FKAuthSuccessWithConfigV4
  | FKAuthFailure | FKGoodbye | FKServerConfig | FKDataFrag | FKEncodedData
  | FKEncodedDataFrag | FKEncodingRequest | FKEncodingResponse | FKExpresslaneConfig

datatype frame =
    NoOp
  | Ping ping
  | Pong pong
  | AuthRequest auth_request
  | Data data
  | AuthSuccessWithConfigV4 auth_success
  | AuthFailure unit
  | Goodbye
  | ServerConfig server_config
  | DataFrag data_frag
  | EncodedData data
  | EncodedDataFrag data_frag
  | EncodingRequest encoding_request
  | EncodingResponse encoding_response
  | ExpresslaneConfig expresslane_config

fun frame_kind_u8 :: "frame_kind \<Rightarrow> u8" where
  "frame_kind_u8 FKNoOp = 1"
| "frame_kind_u8 FKPing = 2"
| "frame_kind_u8 FKPong = 3"
| "frame_kind_u8 FKAuthRequest = 4"
| "frame_kind_u8 FKData = 5"
| "frame_kind_u8 FKAuthSuccessWithConfigV4 = 6"
| "frame_kind_u8 FKAuthFailure = 7"
| "frame_kind_u8 FKGoodbye = 12"
| "frame_kind_u8 FKServerConfig = 14"
| "frame_kind_u8 FKDataFrag = 15"
| "frame_kind_u8 FKEncodedData = 16"
| "frame_kind_u8 FKEncodedDataFrag = 17"
| "frame_kind_u8 FKEncodingRequest = 18"
| "frame_kind_u8 FKEncodingResponse = 19"
| "frame_kind_u8 FKExpresslaneConfig = 20"

text \<open>The derived \<open>TryFromPrimitive\<close> of the enum.\<close>

definition all_frame_kinds :: "frame_kind list" where
  "all_frame_kinds = [FKNoOp, FKPing, FKPong, FKAuthRequest, FKData, FKAuthSuccessWithConfigV4,
     FKAuthFailure, FKGoodbye, FKServerConfig, FKDataFrag, FKEncodedData, FKEncodedDataFrag,
     FKEncodingRequest, FKEncodingResponse, FKExpresslaneConfig]"

definition frame_kind_try_from :: "u8 \<Rightarrow> frame_kind option" where
  "frame_kind_try_from b = find (\<lambda>k. frame_kind_u8 k = b) all_frame_kinds"

fun frame_kind_of :: "frame \<Rightarrow> frame_kind" where
  "frame_kind_of NoOp = FKNoOp"
| "frame_kind_of (Ping _) = FKPing"
| "frame_kind_of (Pong _) = FKPong"
| "frame_kind_of (AuthRequest _) = FKAuthRequest"
| "frame_kind_of (Data _) = FKData"
| "frame_kind_of (AuthSuccessWithConfigV4 _) = FKAuthSuccessWithConfigV4"
| "frame_kind_of (AuthFailure _) = FKAuthFailure"
| "frame_kind_of Goodbye = FKGoodbye"
| "frame_kind_of (ServerConfig _) = FKServerConfig"
| "frame_kind_of (DataFrag _) = FKDataFrag"
| "frame_kind_of (EncodedData _) = FKEncodedData"
| "frame_kind_of (EncodedDataFrag _) = FKEncodedDataFrag"
| "frame_kind_of (EncodingRequest _) = FKEncodingRequest"
| "frame_kind_of (EncodingResponse _) = FKEncodingResponse"
| "frame_kind_of (ExpresslaneConfig _) = FKExpresslaneConfig"

text \<open>\<open>Self::Variant(Payload::try_from_wire(&mut buf)?)\<close>\<close>

definition variant :: "('a \<Rightarrow> frame) \<Rightarrow> 'a decoder \<Rightarrow> frame decoder" where
  "variant mk dec buf = map_option (\<lambda>(r, buf). (map_sum (\<lambda>e. e) mk r, buf)) (dec buf)"

fun frame_payload_try_from_wire :: "frame_kind \<Rightarrow> frame decoder" where
  "frame_payload_try_from_wire FKNoOp = (\<lambda>buf. Some (Inr NoOp, buf))"
| "frame_payload_try_from_wire FKPing = variant Ping ping_try_from_wire"
| "frame_payload_try_from_wire FKPong = variant Pong pong_try_from_wire"
| "frame_payload_try_from_wire FKAuthRequest = variant AuthRequest auth_request_try_from_wire"
| "frame_payload_try_from_wire FKData = variant Data data_try_from_wire"
| "frame_payload_try_from_wire FKAuthSuccessWithConfigV4 =
     variant AuthSuccessWithConfigV4 auth_success_try_from_wire"
| "frame_payload_try_from_wire FKAuthFailure = variant AuthFailure auth_failure_try_from_wire"
| "frame_payload_try_from_wire FKGoodbye = (\<lambda>buf. Some (Inr Goodbye, buf))"
| "frame_payload_try_from_wire FKServerConfig = variant ServerConfig server_config_try_from_wire"
| "frame_payload_try_from_wire FKDataFrag = variant DataFrag data_frag_try_from_wire"
| "frame_payload_try_from_wire FKEncodedData = variant EncodedData data_try_from_wire"
| "frame_payload_try_from_wire FKEncodedDataFrag = variant EncodedDataFrag data_frag_try_from_wire"
| "frame_payload_try_from_wire FKEncodingRequest =
     variant EncodingRequest encoding_request_try_from_wire"
| "frame_payload_try_from_wire FKEncodingResponse =
     variant EncodingResponse encoding_response_try_from_wire"
| "frame_payload_try_from_wire FKExpresslaneConfig =
     variant ExpresslaneConfig expresslane_config_try_from_wire"

text \<open>
  \<open>Frame::try_from_wire\<close>. On an error the borrowed buffer is dropped uncommitted, and what
  is left is the underlying buffer the cursor holds.
\<close>

definition frame_try_from_wire :: "bytes \<Rightarrow> (bytes, from_wire_error, frame) outcome" where
  "frame_try_from_wire bytes =
     (if bytes = [] then Some (Inl InsufficientData, bytes)
      else do {
        (k, buf) \<leftarrow> bbm_get_u8 (bbm_from bytes);
        case frame_kind_try_from k of
          None \<Rightarrow> Some (Inl UnknownFrameType, bbm_bytes buf)
        | Some ty \<Rightarrow> do {
            (r, buf) \<leftarrow> frame_payload_try_from_wire ty buf;
            case r of
              Inl e \<Rightarrow> Some (Inl e, bbm_bytes buf)
            | Inr frame \<Rightarrow> do {
                rest \<leftarrow> bbm_commit buf;
                Some (Inr frame, rest) } } })"

fun frame_payload_append :: "frame \<Rightarrow> bytes \<Rightarrow> bytes option" where
  "frame_payload_append NoOp buf = Some buf"
| "frame_payload_append (Ping ping) buf = ping_append_to_wire ping buf"
| "frame_payload_append (Pong pong) buf = pong_append_to_wire pong buf"
| "frame_payload_append (AuthRequest auth) buf = auth_request_append_to_wire auth buf"
| "frame_payload_append (Data d) buf = data_append_to_wire d buf"
| "frame_payload_append (AuthSuccessWithConfigV4 cfg) buf = auth_success_append_to_wire cfg buf"
| "frame_payload_append (AuthFailure auth) buf = auth_failure_append_to_wire auth buf"
| "frame_payload_append Goodbye buf = Some buf"
| "frame_payload_append (ServerConfig sc) buf = server_config_append_to_wire sc buf"
| "frame_payload_append (DataFrag df) buf = data_frag_append_to_wire df buf"
| "frame_payload_append (EncodedData d) buf = data_append_to_wire d buf"
| "frame_payload_append (EncodedDataFrag df) buf = data_frag_append_to_wire df buf"
| "frame_payload_append (EncodingRequest er) buf = encoding_request_append_to_wire er buf"
| "frame_payload_append (EncodingResponse er) buf = encoding_response_append_to_wire er buf"
| "frame_payload_append (ExpresslaneConfig conf) buf = expresslane_config_append_to_wire conf buf"

definition frame_append_to_wire :: "frame \<Rightarrow> bytes \<Rightarrow> bytes option" where
  "frame_append_to_wire f buf = frame_payload_append f (buf @ [frame_kind_u8 (frame_kind_of f)])"

text \<open>The frames every encoder assertion admits and every string of which is UTF-8.\<close>

fun frame_ok :: "frame \<Rightarrow> bool" where
  "frame_ok (Ping p) = ping_ok p"
| "frame_ok (Pong p) = pong_ok p"
| "frame_ok (AuthRequest r) = auth_request_ok r"
| "frame_ok (Data d) = data_ok d"
| "frame_ok (AuthSuccessWithConfigV4 a) = auth_success_ok a"
| "frame_ok (ServerConfig c) = server_config_ok c"
| "frame_ok (DataFrag f) = data_frag_ok f"
| "frame_ok (EncodedData d) = data_ok d"
| "frame_ok (EncodedDataFrag f) = data_frag_ok f"
| "frame_ok (ExpresslaneConfig c) = expresslane_config_ok c"
| "frame_ok _ = True"

section \<open>The laws of the payloads, frame by frame\<close>

lemma frame_kind_roundtrip [simp]: "frame_kind_try_from (frame_kind_u8 k) = Some k"
  by (cases k) (simp_all add: frame_kind_try_from_def all_frame_kinds_def)

lemma variant_codec:
  assumes c: "wire_codec enc dec ok"
    and ok: "\<And>x. ok' (mk x) = ok x" and inj: "\<And>f. ok' f \<Longrightarrow> \<exists>x. f = mk x"
    and enc: "\<And>x buf. enc' (mk x) buf = enc x buf"
  shows "wire_codec enc' (variant mk dec) ok'"
proof
  fix f assume "ok' f"
  then show "\<exists>w. \<forall>buf. enc' f buf = Some (buf @ w)"
    using inj [of f] wire_codec.enc_total [OF c] by (auto simp: ok enc)
next
  fix b assume "bbm_fresh b"
  then obtain r b' where "dec b = Some (r, b')" "dec_post ok b r b'"
    using wire_codec.dec_total [OF c] by blast
  then show "\<exists>r b'. variant mk dec b = Some (r, b') \<and> dec_post ok' b r b'"
    using dec_post_map [of ok b r b' ok' mk] by (auto simp: variant_def ok)
next
  fix f b w rest
  assume "ok' f" "bbm_fresh b" "enc' f [] = Some w" "bbm_chunk b = w @ rest"
  moreover then obtain x where "f = mk x" using inj by blast
  ultimately show "\<exists>b'. variant mk dec b = Some (Inr f, b') \<and> bbm_chunk b' = rest"
    using wire_codec.dec_enc [OF c, of x b w rest] by (auto simp: variant_def ok enc)
next
  fix f b w n
  assume "ok' f" "bbm_fresh b" "enc' f [] = Some w" "bbm_chunk b = take n w" "n < length w"
  moreover then obtain x where "f = mk x" using inj by blast
  ultimately show "\<exists>b'. variant mk dec b = Some (Inl InsufficientData, b')"
    using wire_codec.dec_partial [OF c, of x b w n] by (auto simp: variant_def ok enc)
qed

lemma constant_codec:
  assumes "\<And>buf. enc f buf = Some buf" and "\<And>g. ok g \<longleftrightarrow> g = f"
  shows "wire_codec enc (\<lambda>buf. Some (Inr f, buf)) ok"
  using assms by unfold_locales (auto simp: dec_post_def intro: exI [of _ "0 :: nat"])

definition frame_kind_ok :: "frame_kind \<Rightarrow> frame \<Rightarrow> bool" where
  "frame_kind_ok k f \<longleftrightarrow> frame_kind_of f = k \<and> frame_ok f"

lemma frame_kind_inv:
  "frame_kind_of f = FKNoOp \<longleftrightarrow> f = NoOp"
  "frame_kind_of f = FKGoodbye \<longleftrightarrow> f = Goodbye"
  "frame_kind_of f = FKPing \<longleftrightarrow> (\<exists>x. f = Ping x)"
  "frame_kind_of f = FKPong \<longleftrightarrow> (\<exists>x. f = Pong x)"
  "frame_kind_of f = FKAuthRequest \<longleftrightarrow> (\<exists>x. f = AuthRequest x)"
  "frame_kind_of f = FKData \<longleftrightarrow> (\<exists>x. f = Data x)"
  "frame_kind_of f = FKAuthSuccessWithConfigV4 \<longleftrightarrow> (\<exists>x. f = AuthSuccessWithConfigV4 x)"
  "frame_kind_of f = FKAuthFailure \<longleftrightarrow> (\<exists>x. f = AuthFailure x)"
  "frame_kind_of f = FKServerConfig \<longleftrightarrow> (\<exists>x. f = ServerConfig x)"
  "frame_kind_of f = FKDataFrag \<longleftrightarrow> (\<exists>x. f = DataFrag x)"
  "frame_kind_of f = FKEncodedData \<longleftrightarrow> (\<exists>x. f = EncodedData x)"
  "frame_kind_of f = FKEncodedDataFrag \<longleftrightarrow> (\<exists>x. f = EncodedDataFrag x)"
  "frame_kind_of f = FKEncodingRequest \<longleftrightarrow> (\<exists>x. f = EncodingRequest x)"
  "frame_kind_of f = FKEncodingResponse \<longleftrightarrow> (\<exists>x. f = EncodingResponse x)"
  "frame_kind_of f = FKExpresslaneConfig \<longleftrightarrow> (\<exists>x. f = ExpresslaneConfig x)"
  by (cases f; simp)+

lemmas payload_codecs =
  ping.wire_codec_axioms
  pong.wire_codec_axioms
  auth_request.wire_codec_axioms
  data.wire_codec_axioms
  auth_success.wire_codec_axioms
  auth_failure.wire_codec_axioms
  server_config.wire_codec_axioms
  data_frag.wire_codec_axioms
  encoding_request.wire_codec_axioms
  encoding_response.wire_codec_axioms
  expresslane_config.wire_codec_axioms

lemma frame_payload_codec:
  "wire_codec frame_payload_append (frame_payload_try_from_wire k) (frame_kind_ok k)"
  by (cases k;
      simp only: frame_payload_try_from_wire.simps;
      (rule payload_codecs [THEN variant_codec] | rule constant_codec);
      auto simp: frame_kind_ok_def frame_kind_inv)

interpretation frame_payload:
  wire_codec frame_payload_append "frame_payload_try_from_wire k" "frame_kind_ok k" for k
  by (rule frame_payload_codec)

section \<open>Frames on a buffer\<close>

lemma frame_try_from_wire_Nil [simp]: "frame_try_from_wire [] = Some (Inl InsufficientData, [])"
  by (simp add: frame_try_from_wire_def)

lemma frame_try_from_wire_Cons:
  "frame_try_from_wire (t # bs) =
     (case frame_kind_try_from t of
        None \<Rightarrow> Some (Inl UnknownFrameType, t # bs)
      | Some k \<Rightarrow> do {
          (r, buf) \<leftarrow> frame_payload_try_from_wire k (bbm_skip 1 (bbm_from (t # bs)));
          case r of
            Inl e \<Rightarrow> Some (Inl e, bbm_bytes buf)
          | Inr frame \<Rightarrow> do { rest \<leftarrow> bbm_commit buf; Some (Inr frame, rest) } })"
  by (simp add: frame_try_from_wire_def buf_simps cong: option.case_cong)

lemma frame_total:
  "\<exists>r rest. frame_try_from_wire bs = Some (r, rest)
     \<and> (case r of Inl e \<Rightarrow> rest = bs
        | Inr f \<Rightarrow> frame_ok f \<and> (\<exists>n. 0 < n \<and> n \<le> length bs \<and> rest = drop n bs))"
proof (cases bs)
  case Nil
  then show ?thesis by simp
next
  case (Cons t cs)
  show ?thesis
  proof (cases "frame_kind_try_from t")
    case None
    then show ?thesis using Cons by (simp add: frame_try_from_wire_Cons)
  next
    case (Some k)
    let ?b = "bbm_skip 1 (bbm_from (t # cs))"
    obtain r b' where "frame_payload_try_from_wire k ?b = Some (r, b')"
      and "dec_post (frame_kind_ok k) ?b r b'"
      using frame_payload.dec_total [of ?b k] by auto
    then show ?thesis using Cons Some
      by (cases r)
        (auto simp: frame_try_from_wire_Cons dec_post_def buf_simps frame_kind_ok_def intro: exI [of _ "Suc _"])
  qed
qed

lemma frame_wire:
  assumes "frame_ok f"
  shows "\<exists>p. frame_payload_append f [] = Some p
    \<and> (\<forall>buf. frame_append_to_wire f buf = Some (buf @ frame_kind_u8 (frame_kind_of f) # p))"
proof -
  have "frame_kind_ok (frame_kind_of f) f" using assms by (simp add: frame_kind_ok_def)
  then obtain p where "\<forall>buf. frame_payload_append f buf = Some (buf @ p)"
    using frame_payload.enc_total by blast
  then show ?thesis by (simp add: frame_append_to_wire_def)
qed

lemma frame_try_from_wire_append:
  assumes "frame_ok f" "frame_append_to_wire f [] = Some w"
  shows "frame_try_from_wire (w @ rest) = Some (Inr f, rest)"
proof -
  obtain p where p: "frame_payload_append f [] = Some p" "w = frame_kind_u8 (frame_kind_of f) # p"
    using frame_wire assms by fastforce
  have "frame_kind_ok (frame_kind_of f) f" using assms by (simp add: frame_kind_ok_def)
  then obtain b' where
    b': "frame_payload_try_from_wire (frame_kind_of f) (bbm_skip 1 (bbm_from (w @ rest))) = Some (Inr f, b')"
    "bbm_chunk b' = rest"
    using frame_payload.dec_enc [of _ f "bbm_skip 1 (bbm_from (w @ rest))" p rest] p by auto
  then have "bbm_committable b'"
    using frame_payload.codec_ok [OF _ b'(1)] p by simp
  then show ?thesis using p b' by (simp add: frame_try_from_wire_Cons buf_simps)
qed

lemma frame_try_from_wire_prefix:
  assumes "frame_ok f" "frame_append_to_wire f [] = Some w" "n < length w"
  shows "frame_try_from_wire (take n w) = Some (Inl InsufficientData, take n w)"
proof (cases n)
  case (Suc m)
  obtain p where p: "frame_payload_append f [] = Some p" "w = frame_kind_u8 (frame_kind_of f) # p"
    using frame_wire assms by fastforce
  have "frame_kind_ok (frame_kind_of f) f" using assms by (simp add: frame_kind_ok_def)
  then obtain b' where
    b': "frame_payload_try_from_wire (frame_kind_of f) (bbm_skip 1 (bbm_from (take n w)))
      = Some (Inl InsufficientData, b')"
    using frame_payload.dec_partial [of _ f "bbm_skip 1 (bbm_from (take n w))" p m] p assms(3) Suc
    by auto
  then show ?thesis
    using frame_payload.codec_error_frame [OF _ b'] p Suc by (simp add: frame_try_from_wire_Cons)
qed simp

text \<open>
  C5. The frame decoder is safe on untrusted input: on every byte string it returns without
  panicking; an error leaves the receive buffer exactly as it was, so that it can be retried
  when more bytes arrive; a success consumes at least one byte and at most the buffer, and the
  frame it yields can be encoded again without tripping an assertion and decodes to itself.
\<close>

theorem frame_try_from_wire_safe:
  "\<exists>r rest. frame_try_from_wire bs = Some (r, rest)
     \<and> (case r of
          Inl e \<Rightarrow> rest = bs
        | Inr f \<Rightarrow>
            (\<exists>n. 0 < n \<and> n \<le> length bs \<and> rest = drop n bs)
            \<and> (\<exists>w. (\<forall>buf. frame_append_to_wire f buf = Some (buf @ w))
                \<and> frame_try_from_wire w = Some (Inr f, [])))"
proof -
  obtain r rest where r: "frame_try_from_wire bs = Some (r, rest)"
    and post: "case r of Inl e \<Rightarrow> rest = bs
        | Inr f \<Rightarrow> frame_ok f \<and> (\<exists>n. 0 < n \<and> n \<le> length bs \<and> rest = drop n bs)"
    using frame_total by blast
  show ?thesis
  proof (cases r)
    case (Inl e)
    then show ?thesis using r post by simp
  next
    case (Inr f)
    then obtain w where "\<forall>buf. frame_append_to_wire f buf = Some (buf @ w)"
      using frame_wire [of f] post by auto
    moreover then have "frame_try_from_wire w = Some (Inr f, [])"
      using frame_try_from_wire_append [of f w "[]"] Inr post by simp
    ultimately show ?thesis using r post Inr by auto
  qed
qed

text \<open>
  C6. Frame round trip: every frame within the wire limits is encoded without a panic, by
  appending; the decoder returns the same frame and leaves exactly what followed it; and on
  every proper prefix it asks for more data and consumes nothing, so a frame split over
  several reads is never misparsed.
\<close>

theorem frame_roundtrip:
  assumes "frame_ok f"
  shows "\<exists>w. (\<forall>buf. frame_append_to_wire f buf = Some (buf @ w))
    \<and> (\<forall>rest. frame_try_from_wire (w @ rest) = Some (Inr f, rest))
    \<and> (\<forall>n < length w. frame_try_from_wire (take n w) = Some (Inl InsufficientData, take n w))"
proof -
  obtain w where w: "\<forall>buf. frame_append_to_wire f buf = Some (buf @ w)"
    using frame_wire [OF assms] by blast
  then show ?thesis
    using frame_try_from_wire_append [OF assms, of w] frame_try_from_wire_prefix [OF assms, of w]
    by auto
qed

theorem frame_roundtrip_witness:
  "\<exists>w. (\<forall>buf. frame_append_to_wire (Ping \<lparr>ping_id = 7, ping_payload = [1, 2]\<rparr>) buf = Some (buf @ w))
    \<and> (\<forall>rest. frame_try_from_wire (w @ rest) = Some (Inr (Ping \<lparr>ping_id = 7, ping_payload = [1, 2]\<rparr>), rest))"
  using frame_roundtrip [of "Ping \<lparr>ping_id = 7, ping_payload = [1, 2]\<rparr>"]
  by (auto simp: ping_ok_def)

section \<open>A stream of frames\<close>

text \<open>
  The decoding part of the loop of \<open>Connection::handle_messages\<close>: take frames off the
  receive buffer until the decoder returns an error. The result is the frames, the error that
  ended the loop, and the bytes left in the buffer.
\<close>

function read_frames :: "bytes \<Rightarrow> (frame list \<times> from_wire_error \<times> bytes) option" where
  "read_frames buf =
     (case frame_try_from_wire buf of
        None \<Rightarrow> None
      | Some (Inl e, buf') \<Rightarrow> Some ([], e, buf')
      | Some (Inr f, buf') \<Rightarrow> do {
          (fs, e, buf'') \<leftarrow> read_frames buf';
          Some (f # fs, e, buf'') })"
  by pat_completeness auto

termination
proof (relation "measure length")
  fix buf :: bytes and x r buf' f
  assume "frame_try_from_wire buf = Some x" "(r, buf') = x" "r = Inr f"
  then show "(buf', buf) \<in> measure length"
    using frame_total [of buf] by auto
qed simp

declare read_frames.simps [simp del]

fun encode_frames :: "frame list \<Rightarrow> bytes \<Rightarrow> bytes option" where
  "encode_frames [] buf = Some buf"
| "encode_frames (f # fs) buf = do { buf \<leftarrow> frame_append_to_wire f buf; encode_frames fs buf }"

lemma encode_frames_wire:
  "list_all frame_ok fs \<Longrightarrow> \<exists>w. \<forall>buf. encode_frames fs buf = Some (buf @ w)"
proof (induction fs)
  case (Cons f fs)
  then obtain w where "\<forall>buf. encode_frames fs buf = Some (buf @ w)" by auto
  moreover obtain p where "\<forall>buf. frame_append_to_wire f buf = Some (buf @ frame_kind_u8 (frame_kind_of f) # p)"
    using frame_wire [of f] Cons.prems by auto
  ultimately show ?case by auto
qed simp

lemma encode_frames_Cons:
  assumes "list_all frame_ok (f # fs)" "encode_frames (f # fs) [] = Some w"
  obtains u v where "w = u @ v" "frame_append_to_wire f [] = Some u" "encode_frames fs [] = Some v"
proof -
  from frame_wire [of f] assms(1) obtain u where u: "\<forall>buf. frame_append_to_wire f buf = Some (buf @ u)"
    by auto
  from encode_frames_wire [of fs] assms(1) obtain v where v: "\<forall>buf. encode_frames fs buf = Some (buf @ v)"
    by auto
  show thesis using that [of u v] u v assms(2) by auto
qed

lemma read_frames_more [simp]:
  "frame_try_from_wire buf = Some (Inr f, buf') \<Longrightarrow>
     read_frames buf = do { (fs, e, buf'') \<leftarrow> read_frames buf'; Some (f # fs, e, buf'') }"
  by (subst read_frames.simps) simp

lemma read_frames_stop [simp]:
  "frame_try_from_wire buf = Some (Inl e, buf') \<Longrightarrow> read_frames buf = Some ([], e, buf')"
  by (subst read_frames.simps) simp

lemma read_frames_take:
  assumes "list_all frame_ok fs" "encode_frames fs [] = Some w" "n \<le> length w"
  shows "\<exists>gs hs v. fs = gs @ hs \<and> encode_frames hs [] = Some (v @ drop n w)
    \<and> read_frames (take n w) = Some (gs, InsufficientData, v)"
  using assms
proof (induction fs arbitrary: w n)
  case Nil
  then show ?case by auto
next
  case (Cons f fs)
  obtain u v where uv: "w = u @ v" "frame_append_to_wire f [] = Some u" "encode_frames fs [] = Some v"
    using encode_frames_Cons Cons.prems by blast
  have f: "frame_ok f" using Cons.prems by simp
  show ?case
  proof (cases "n < length u")
    case True
    then have "frame_try_from_wire (take n w) = Some (Inl InsufficientData, take n w)"
      using frame_try_from_wire_prefix [OF f uv(2) True] uv(1) by simp
    then show ?thesis
      using Cons.prems(2) by (intro exI [of _ "[]"] exI [of _ "f # fs"] exI [of _ "take n w"]) simp
  next
    case False
    have "n - length u \<le> length v" using Cons.prems(3) uv(1) by simp
    then obtain gs hs x where ih: "fs = gs @ hs" "encode_frames hs [] = Some (x @ drop (n - length u) v)"
      "read_frames (take (n - length u) v) = Some (gs, InsufficientData, x)"
      using Cons.IH [of v "n - length u"] Cons.prems uv by auto
    have "take n w = u @ take (n - length u) v" "drop n w = drop (n - length u) v"
      using False uv(1) by simp_all
    moreover have "frame_try_from_wire (u @ take (n - length u) v) = Some (Inr f, take (n - length u) v)"
      using frame_try_from_wire_append [OF f uv(2)] .
    ultimately show ?thesis
      using ih by (intro exI [of _ "f # gs"] exI [of _ hs] exI [of _ x]) simp
  qed
qed



section \<open>The header\<close>

lemma header_bytes:
  "16 \<le> length buf \<Longrightarrow> \<exists>a b c d e f g h rest. buf = a # b # c # d # e # f # g # h # rest \<and> 8 \<le> length rest"
  by (auto simp: Suc_le_length_iff numeral_eq_Suc)

lemma header_length: "header_ok h \<Longrightarrow> length (header_append_to_wire h []) = HEADER_WIRE_SIZE"
  by (simp add: header_append_to_wire_def header_ok_def const_defs)

lemma header_decodes:
  "header_ok h \<Longrightarrow> header_try_from_wire (header_append_to_wire h [] @ rest) = Some (Inr h, rest)"
  by (simp add: header_append_to_wire_def header_try_from_wire_def header_ok_def const_defs
      buf_simps version_try_new_ok)

text \<open>
  The packet header round trips with any bytes after it, is 16 bytes long, and the decoder
  never panics; what it accepts starts with the magic \<open>He\<close>, has a supported version and an
  8 byte session id, and is consumed entirely.
\<close>

lemma header_roundtrip:
  assumes "header_ok h"
  shows "length (header_append_to_wire h []) = HEADER_WIRE_SIZE
    \<and> header_try_from_wire (header_append_to_wire h [] @ rest) = Some (Inr h, rest)
    \<and> (\<forall>buf. \<exists>r buf'. header_try_from_wire buf = Some (r, buf')
        \<and> (case r of Inl e \<Rightarrow> True | Inr g \<Rightarrow> header_ok g \<and> take 2 buf = [0x48, 0x65] \<and> buf' = drop 16 buf))"
proof (intro conjI allI header_length header_decodes assms)
  fix buf :: bytes
  show "\<exists>r buf'. header_try_from_wire buf = Some (r, buf')
    \<and> (case r of Inl e \<Rightarrow> True | Inr g \<Rightarrow> header_ok g \<and> take 2 buf = [0x48, 0x65] \<and> buf' = drop 16 buf)"
  proof (cases "length buf < 16")
    case True
    then show ?thesis by (simp add: header_try_from_wire_def const_defs)
  next
    case False
    then show ?thesis
      using header_bytes [of buf]
      by (auto simp: header_try_from_wire_def const_defs buf_simps header_ok_def
          version_try_new_Some split: option.split)
  qed
qed

lemma header_roundtrip_witness:
  "header_try_from_wire
     (header_append_to_wire \<lparr>hdr_version = Version 1 2, hdr_aggressive_mode = True,
        hdr_expresslane_data = False, hdr_session = SESSION_EMPTY\<rparr> [] @ [9])
   = Some (Inr \<lparr>hdr_version = Version 1 2, hdr_aggressive_mode = True,
        hdr_expresslane_data = False, hdr_session = SESSION_EMPTY\<rparr>, [9])"
  using header_roundtrip [of "\<lparr>hdr_version = Version 1 2, hdr_aggressive_mode = True,
        hdr_expresslane_data = False, hdr_session = SESSION_EMPTY\<rparr>" "[9]"]
  by (simp add: header_ok_def SESSION_EMPTY_def version_MINIMUM_def version_MAXIMUM_def
      less_eq_version_def word_le_nat_alt)

end
