(* ===== verification/Plugin.thy ===== *)
theory Plugin
  imports Wire_Frame
begin

text \<open>
  Plugins (lightway-core/src/plugin.rs) and the outside packets they run on
  (lightway-core/src/packet.rs). A plugin is application code behind a trait: here a pair of
  functions on the buffer, each returning a verdict and the buffer it leaves. The list runs its
  plugins forwards on ingress and backwards on egress, and stops at the first verdict other
  than \<open>Accept\<close>.
\<close>

type_synonym dyn_error = string

datatype plugin_result = Accept | Drop | DropWithReply bytes | PluginErr dyn_error

record plugin =
  plugin_ingress :: "bytes \<Rightarrow> plugin_result \<times> bytes"
  plugin_egress :: "bytes \<Rightarrow> plugin_result \<times> bytes"

type_synonym plugin_list = "plugin list"

fun run_plugins :: "(bytes \<Rightarrow> plugin_result \<times> bytes) list \<Rightarrow> bytes \<Rightarrow> plugin_result \<times> bytes" where
  "run_plugins [] data = (Accept, data)"
| "run_plugins (p # ps) data =
     (case p data of
        (Accept, data) \<Rightarrow> run_plugins ps data
      | (res, data) \<Rightarrow> (res, data))"

definition do_ingress :: "plugin_list \<Rightarrow> bytes \<Rightarrow> plugin_result \<times> bytes" where
  "do_ingress ps data = run_plugins (map plugin_ingress ps) data"

definition do_egress :: "plugin_list \<Rightarrow> bytes \<Rightarrow> plugin_result \<times> bytes" where
  "do_egress ps data = run_plugins (map plugin_egress (rev ps)) data"

text \<open>A factory list builds one plugin per factory, or fails with the first error.\<close>

fun plugin_factory_list_build :: "(dyn_error + plugin) list \<Rightarrow> dyn_error + plugin_list" where
  "plugin_factory_list_build [] = Inr []"
| "plugin_factory_list_build (f # fs) =
     (case f of
        Inl e \<Rightarrow> Inl e
      | Inr p \<Rightarrow> (case plugin_factory_list_build fs of Inl e \<Rightarrow> Inl e | Inr ps \<Rightarrow> Inr (p # ps)))"

section \<open>Outside packets\<close>

datatype connection_type = Stream | Datagram

definition is_datagram :: "connection_type \<Rightarrow> bool" where
  "is_datagram ct \<longleftrightarrow> ct = Datagram"

datatype outside_packet = WirePkt bytes connection_type | TcpFrame bytes | UdpFrame bytes header

datatype outside_packet_error = BadWireHeader from_wire_error | OutsidePluginDrop | OutsidePluginError dyn_error

definition op_into_payload :: "outside_packet \<Rightarrow> bytes option" where
  "op_into_payload pkt = (case pkt of WirePkt _ _ \<Rightarrow> None | TcpFrame buf \<Rightarrow> Some buf | UdpFrame buf _ \<Rightarrow> Some buf)"

definition op_header :: "outside_packet \<Rightarrow> header option" where
  "op_header pkt = (case pkt of UdpFrame _ hdr \<Rightarrow> Some hdr | _ \<Rightarrow> None)"

definition apply_ingress_chain :: "plugin_list \<Rightarrow> outside_packet \<Rightarrow> (outside_packet_error + outside_packet) option" where
  "apply_ingress_chain plugins pkt =
     (case pkt of
        WirePkt buf conn_type \<Rightarrow>
          (case do_ingress plugins buf of
             (Accept, buf) \<Rightarrow>
               (case conn_type of
                  Stream \<Rightarrow> Some (Inr (TcpFrame buf))
                | Datagram \<Rightarrow> do {
                    (r, buf) \<leftarrow> header_try_from_wire buf;
                    case r of
                      Inl e \<Rightarrow> Some (Inl (BadWireHeader e))
                    | Inr hdr \<Rightarrow> Some (Inr (UdpFrame buf hdr)) })
           | (Drop, _) \<Rightarrow> Some (Inl OutsidePluginDrop)
           | (DropWithReply _, _) \<Rightarrow> Some (Inl OutsidePluginDrop)
           | (PluginErr e, _) \<Rightarrow> Some (Inl (OutsidePluginError e)))
      | _ \<Rightarrow> Some (Inr pkt))"

section \<open>Properties\<close>

definition plugin_inverse :: "plugin \<Rightarrow> bool" where
  "plugin_inverse p \<longleftrightarrow> (\<forall>d e. plugin_egress p d = (Accept, e) \<longrightarrow> plugin_ingress p e = (Accept, d))"

lemma run_plugins_append:
  "run_plugins (ps @ qs) d = (case run_plugins ps d of (Accept, d) \<Rightarrow> run_plugins qs d | r \<Rightarrow> r)"
  by (induction ps arbitrary: d) (auto split: prod.splits plugin_result.splits)

lemma do_ingress_Cons:
  "do_ingress (p # ps) d = (case plugin_ingress p d of (Accept, d) \<Rightarrow> do_ingress ps d | r \<Rightarrow> r)"
  by (auto simp: do_ingress_def split: prod.splits plugin_result.splits)

lemma do_egress_Cons:
  "do_egress (p # ps) d = (case do_egress ps d of (Accept, d) \<Rightarrow> plugin_egress p d | r \<Rightarrow> r)"
  by (auto simp: do_egress_def run_plugins_append split: prod.splits plugin_result.splits)

lemma do_egress_Nil [simp]: "do_egress [] d = (Accept, d)"
  and do_ingress_Nil [simp]: "do_ingress [] d = (Accept, d)"
  by (simp_all add: do_egress_def do_ingress_def)

lemma plugin_chain_inverse:
  "\<forall>p \<in> set ps. plugin_inverse p \<Longrightarrow> do_egress ps d = (Accept, e) \<Longrightarrow> do_ingress ps e = (Accept, d)"
proof (induction ps arbitrary: d e)
  case (Cons p ps)
  then obtain d' where "do_egress ps d = (Accept, d')" "plugin_egress p d' = (Accept, e)"
    by (auto simp: do_egress_Cons split: prod.splits plugin_result.splits)
  then show ?case using Cons by (simp add: do_ingress_Cons plugin_inverse_def)
qed simp

end
