(* ===== verification/Io_Adapter.thy ===== *)
theory Io_Adapter
  imports Plugin
begin

text \<open>
  The adapter between the TLS library and the outside socket
  (lightway-core/src/connection/io_adapter.rs). The socket is application code: its state is the
  log of the calls made on it, with their results, and each answer is a function of that log (\<open>SockReplaced\<close> marks a change of socket).
  The adapter stamps datagrams with the packet header, runs the outside plugins, coalesces the
  segments of an open GSO batch, and hides the partial writes of a stream socket from the TLS
  library. The build modelled is Linux, where the batch buffer exists.
\<close>

datatype io_error = SocketError nat | OtherError dyn_error

datatype io_result = IoOk usize | IoWouldBlock | IoErr io_error

datatype sock_addr = SockAddrV4 u32 u16 | SockAddrV6 "128 word" u16

datatype socket_call =
    SockSend bytes io_result
  | SockSendGso "bytes list" u16 io_result
  | SockPmtudProbe bool
  | SockSetPeer sock_addr
  | SockReplaced

type_synonym socket_log = "socket_call list"

record socket_ops =
  sk_send :: "socket_log \<Rightarrow> bytes \<Rightarrow> io_result"
  sk_send_gso :: "socket_log \<Rightarrow> bytes list \<Rightarrow> u16 \<Rightarrow> io_result"
  sk_peer_addr :: "socket_log \<Rightarrow> sock_addr"

section \<open>The GSO batch buffer\<close>

datatype gso_buffer_state = Passthrough | GsoPending | Coalescing usize

record gso_buffer =
  gb_buf :: bytes
  gb_state :: gso_buffer_state

definition gso_buffer_default :: gso_buffer where
  "gso_buffer_default = \<lparr>gb_buf = [], gb_state = Passthrough\<rparr>"

definition gb_open :: "gso_buffer \<Rightarrow> gso_buffer option" where
  "gb_open g = (if gb_state g \<noteq> Passthrough then None else Some (g\<lparr>gb_state := GsoPending\<rparr>))"

definition gb_is_batching :: "gso_buffer \<Rightarrow> bool" where
  "gb_is_batching g \<longleftrightarrow> gb_state g \<noteq> Passthrough"

definition gb_put :: "bytes \<Rightarrow> gso_buffer \<Rightarrow> gso_buffer option" where
  "gb_put seg g =
     (case gb_state g of
        Passthrough \<Rightarrow> None
      | GsoPending \<Rightarrow>
          if length seg = 0 then None
          else Some \<lparr>gb_buf = gb_buf g @ seg, gb_state = Coalescing (length seg)\<rparr>
      | Coalescing gso_size \<Rightarrow>
          if \<not> length seg \<le> gso_size then None else Some (g\<lparr>gb_buf := gb_buf g @ seg\<rparr>))"

definition gb_frame :: "gso_buffer \<Rightarrow> (bytes \<times> usize) option" where
  "gb_frame g = (case gb_state g of Coalescing gso_size \<Rightarrow> Some (gb_buf g, gso_size) | _ \<Rightarrow> None)"

definition gb_reset :: "gso_buffer \<Rightarrow> gso_buffer" where
  "gb_reset g = \<lparr>gb_buf = [], gb_state = Passthrough\<rparr>"

section \<open>The stream send buffer\<close>

record send_buffer =
  sb_data :: bytes
  sb_total_capacity :: usize
  sb_original_length :: usize

definition sb_new :: "usize \<Rightarrow> send_buffer" where
  "sb_new mtu = \<lparr>sb_data = [], sb_total_capacity = 2 * mtu, sb_original_length = 0\<rparr>"

definition sb_enqueue_buffer :: "bytes \<Rightarrow> send_buffer \<Rightarrow> send_buffer option" where
  "sb_enqueue_buffer buf sb =
     (if 0 \<noteq> sb_original_length sb then None
      else if sb_data sb \<noteq> [] then None
      else Some (sb\<lparr>sb_data := buf, sb_original_length := length buf\<rparr>))"

definition sb_complete :: "send_buffer \<Rightarrow> usize \<times> send_buffer" where
  "sb_complete sb = (sb_original_length sb, sb\<lparr>sb_data := [], sb_original_length := 0\<rparr>)"

section \<open>The adapter\<close>

record io_adapter =
  io_connection_type :: connection_type
  io_protocol_version :: version
  io_outside_mtu :: usize
  io_aggressive_send :: bool
  io_recv_buf :: bytes
  io_send_buf :: send_buffer
  io_gso_buf :: gso_buffer
  io_sock :: socket_log
  io_session_id :: session_id
  io_outside_plugins :: plugin_list

definition io_set_session_id :: "session_id \<Rightarrow> io_adapter \<Rightarrow> io_adapter" where
  "io_set_session_id session_id io = io\<lparr>io_session_id := session_id\<rparr>"

text \<open>Whether the socket supports the probe mode only decides what is logged.\<close>

definition io_enable_pmtud_probe :: "io_adapter \<Rightarrow> io_adapter" where
  "io_enable_pmtud_probe io = io\<lparr>io_sock := io_sock io @ [SockPmtudProbe True]\<rparr>"

definition io_disable_pmtud_probe :: "io_adapter \<Rightarrow> io_adapter" where
  "io_disable_pmtud_probe io = io\<lparr>io_sock := io_sock io @ [SockPmtudProbe False]\<rparr>"

definition sock_send :: "socket_ops \<Rightarrow> bytes \<Rightarrow> io_adapter \<Rightarrow> io_result \<times> io_adapter" where
  "sock_send K b io =
     (let r = sk_send K (io_sock io) b in (r, io\<lparr>io_sock := io_sock io @ [SockSend b r]\<rparr>))"

definition sock_send_gso :: "socket_ops \<Rightarrow> bytes list \<Rightarrow> u16 \<Rightarrow> io_adapter \<Rightarrow> io_result \<times> io_adapter" where
  "sock_send_gso K iovs stride io =
     (let r = sk_send_gso K (io_sock io) iovs stride in
      (r, io\<lparr>io_sock := io_sock io @ [SockSendGso iovs stride r]\<rparr>))"

definition io_header :: "bool \<Rightarrow> io_adapter \<Rightarrow> header" where
  "io_header expresslane_data io =
     \<lparr>hdr_version = io_protocol_version io, hdr_aggressive_mode = False,
      hdr_expresslane_data = expresslane_data, hdr_session = io_session_id io\<rparr>"

text \<open>The last of the up to three sends; the TLS library does not know about the header.\<close>

definition udp_send_final :: "socket_ops \<Rightarrow> bytes \<Rightarrow> bytes \<Rightarrow> io_adapter \<Rightarrow> io_result \<times> io_adapter" where
  "udp_send_final K b buf io =
     (case sock_send K b io of
        (IoOk n, io) \<Rightarrow> (if n > HEADER_WIRE_SIZE then IoOk (length buf) else IoOk 0, io)
      | (r, io) \<Rightarrow> (r, io))"

definition udp_send :: "socket_ops \<Rightarrow> bytes \<Rightarrow> bool \<Rightarrow> io_adapter \<Rightarrow> (io_result \<times> io_adapter) option" where
  "udp_send K buf expresslane_data io =
     (if gb_is_batching (io_gso_buf io) then do {
        g \<leftarrow> gb_put buf (io_gso_buf io);
        Some (IoOk (length buf), io\<lparr>io_gso_buf := g\<rparr>) }
      else
        let b = header_append_to_wire (io_header expresslane_data io) [] @ buf in
        case do_egress (io_outside_plugins io) b of
          (Drop, _) \<Rightarrow> Some (IoOk (length buf), io)
        | (DropWithReply _, _) \<Rightarrow> Some (IoOk (length buf), io)
        | (PluginErr e, _) \<Rightarrow> Some (IoErr (OtherError e), io)
        | (Accept, b) \<Rightarrow>
            if io_aggressive_send io then
              (case sock_send K b io of
                 (IoOk _, io) \<Rightarrow>
                   (case sock_send K b io of
                      (IoOk _, io) \<Rightarrow> Some (udp_send_final K b buf io)
                    | (r, io) \<Rightarrow> Some (r, io))
               | (r, io) \<Rightarrow> Some (r, io))
            else Some (udp_send_final K b buf io))"

text \<open>
  The slices \<open>tun_buf[start..end]\<close> of the batch; a slice whose start lies behind its end panics.
\<close>

definition gso_slice :: "bytes \<Rightarrow> usize \<Rightarrow> usize \<Rightarrow> bytes option" where
  "gso_slice tun_buf tun_gso_size i =
     (let start = i * tun_gso_size; stop = min ((i + 1) * tun_gso_size) (length tun_buf) in
      if stop < start then None else Some (take (stop - start) (drop start tun_buf)))"

fun gso_iovs :: "bytes \<Rightarrow> bytes \<Rightarrow> usize \<Rightarrow> nat list \<Rightarrow> bytes list option" where
  "gso_iovs hdr_buf tun_buf tun_gso_size [] = Some []"
| "gso_iovs hdr_buf tun_buf tun_gso_size (i # is) = do {
     seg \<leftarrow> gso_slice tun_buf tun_gso_size i;
     iovs \<leftarrow> gso_iovs hdr_buf tun_buf tun_gso_size is;
     Some (hdr_buf # seg # iovs) }"

text \<open>
  The plugin path: every segment is built and run through the plugins; dropped segments are
  skipped, and all but the last must have the length of the first.
\<close>

fun gso_plugin_segs ::
  "plugin_list \<Rightarrow> bytes \<Rightarrow> bytes \<Rightarrow> usize \<Rightarrow> usize \<Rightarrow> nat list \<Rightarrow> usize option \<Rightarrow> (io_error + (bytes list \<times> usize option)) option"
  where
  "gso_plugin_segs ps hdr_buf tun_buf tun_gso_size gso_segs [] wire_gso_size = Some (Inr ([], wire_gso_size))"
| "gso_plugin_segs ps hdr_buf tun_buf tun_gso_size gso_segs (i # is) wire_gso_size = do {
     payload \<leftarrow> gso_slice tun_buf tun_gso_size i;
     let is_last = (i = gso_segs - 1);
     let rest = (\<lambda>seg wire_gso_size. do {
       r \<leftarrow> gso_plugin_segs ps hdr_buf tun_buf tun_gso_size gso_segs is wire_gso_size;
       case r of Inl e \<Rightarrow> Some (Inl e) | Inr (segs, w) \<Rightarrow> Some (Inr (seg @ segs, w)) });
     case do_egress ps (hdr_buf @ payload) of
       (Drop, _) \<Rightarrow> rest [] wire_gso_size
     | (DropWithReply _, _) \<Rightarrow> rest [] wire_gso_size
     | (PluginErr e, _) \<Rightarrow> Some (Inl (OtherError e))
     | (Accept, seg) \<Rightarrow>
         (case wire_gso_size of
            None \<Rightarrow> rest [seg] (Some (length seg))
          | Some s \<Rightarrow>
              if \<not> is_last \<and> length seg \<noteq> s then
                Some (Inl (OtherError ''outside plugins produced non-uniform GSO segment size''))
              else if is_last \<and> length seg > s then
                Some (Inl (OtherError ''outside plugins produced oversized trailing GSO segment''))
              else rest [seg] wire_gso_size) }"

definition udp_send_gso :: "socket_ops \<Rightarrow> usize \<Rightarrow> bool \<Rightarrow> io_adapter \<Rightarrow> (io_result \<times> io_adapter) option" where
  "udp_send_gso K gso_segs expresslane_data io =
     (case gb_frame (io_gso_buf io) of
        None \<Rightarrow> Some (IoOk 0, io)
      | Some (tun_buf, tun_gso_size) \<Rightarrow>
          if gso_segs = 0 then Some (IoOk 0, io)
          else
            let hdr_buf = header_append_to_wire (io_header expresslane_data io) [] in
            if io_outside_plugins io = [] then do {
              let stride = of_nat (HEADER_WIRE_SIZE + tun_gso_size);
              iovs \<leftarrow> gso_iovs hdr_buf tun_buf tun_gso_size [0..<gso_segs];
              Some (sock_send_gso K iovs stride io) }
            else do {
              r \<leftarrow> gso_plugin_segs (io_outside_plugins io) hdr_buf tun_buf tun_gso_size gso_segs [0..<gso_segs] None;
              case r of
                Inl e \<Rightarrow> Some (IoErr e, io)
              | Inr (segs, wire_gso_size) \<Rightarrow>
                  if segs = [] then Some (IoOk (length tun_buf), io)
                  else
                    let stride = of_nat (case wire_gso_size of Some s \<Rightarrow> s | None \<Rightarrow> 0) in
                    Some (sock_send_gso K segs stride io) })"

text \<open>The part of \<open>tcp_send\<close> behind the queueing: hand the buffered bytes to the socket.\<close>

definition tcp_flush :: "socket_ops \<Rightarrow> io_adapter \<Rightarrow> io_result \<times> io_adapter" where
  "tcp_flush K io =
     (case sock_send K (sb_data (io_send_buf io)) io of
        (IoOk n, io) \<Rightarrow>
          if n = length (sb_data (io_send_buf io)) then
            let (len, sb) = sb_complete (io_send_buf io) in (IoOk len, io\<lparr>io_send_buf := sb\<rparr>)
          else
            (IoWouldBlock, io\<lparr>io_send_buf := (io_send_buf io)\<lparr>sb_data := drop n (sb_data (io_send_buf io))\<rparr>\<rparr>)
      | (r, io) \<Rightarrow> (r, io))"

definition tcp_send :: "socket_ops \<Rightarrow> bytes \<Rightarrow> io_adapter \<Rightarrow> (io_result \<times> io_adapter) option" where
  "tcp_send K buf io =
     (if sb_data (io_send_buf io) = [] then do {
        sb \<leftarrow> sb_enqueue_buffer buf (io_send_buf io);
        case do_egress (io_outside_plugins io) (sb_data sb) of
          (Accept, d) \<Rightarrow> Some (tcp_flush K (io\<lparr>io_send_buf := sb\<lparr>sb_data := d\<rparr>\<rparr>))
        | (Drop, _) \<Rightarrow> Some (IoOk (length buf), io\<lparr>io_send_buf := snd (sb_complete sb)\<rparr>)
        | (DropWithReply _, _) \<Rightarrow> Some (IoOk (length buf), io\<lparr>io_send_buf := snd (sb_complete sb)\<rparr>)
        | (PluginErr e, _) \<Rightarrow> Some (IoErr (OtherError e), io\<lparr>io_send_buf := snd (sb_complete sb)\<rparr>) }
      else if \<not> sb_original_length (io_send_buf io) \<le> length buf then None
      else Some (tcp_flush K io))"

definition io_recv :: "usize \<Rightarrow> io_adapter \<Rightarrow> (io_result \<times> bytes) \<times> io_adapter" where
  "io_recv len io =
     (if io_recv_buf io = [] then ((IoWouldBlock, []), io)
      else
        let n = min len (length (io_recv_buf io)) in
        ((IoOk n, take n (io_recv_buf io)), io\<lparr>io_recv_buf := drop n (io_recv_buf io)\<rparr>))"

definition io_send :: "socket_ops \<Rightarrow> bytes \<Rightarrow> io_adapter \<Rightarrow> (io_result \<times> io_adapter) option" where
  "io_send K buf io =
     (case io_connection_type io of
        Stream \<Rightarrow> tcp_send K buf io
      | Datagram \<Rightarrow> udp_send K buf False io)"

text \<open>
  What the TLS library may do to the adapter: call \<open>recv\<close> and \<open>send\<close>, in any order and any
  number of times.
\<close>

inductive io_driven :: "socket_ops \<Rightarrow> io_adapter \<Rightarrow> io_adapter \<Rightarrow> bool" for K where
  driven_refl: "io_driven K io io"
| driven_recv: "io_driven K io io' \<Longrightarrow> io_recv len io' = (r, io'') \<Longrightarrow> io_driven K io io''"
| driven_send: "io_driven K io io' \<Longrightarrow> io_send K buf io' = Some (r, io'') \<Longrightarrow> io_driven K io io''"

section \<open>Stream sockets\<close>

text \<open>
  The bytes a socket took, and the TLS library as the caller of \<open>send\<close>: it offers a prefix of
  what is left of its byte stream \<open>S\<close>, of any length \<open>k\<close>, and moves on by what it is told was
  written. \<open>fs\<close> collects the buffers that were queued.
\<close>

fun sock_stream :: "socket_log \<Rightarrow> bytes" where
  "sock_stream [] = []"
| "sock_stream (SockSend b (IoOk n) # l) = take n b @ sock_stream l"
| "sock_stream (_ # l) = sock_stream l"

fun tcp_drive :: "socket_ops \<Rightarrow> nat list \<Rightarrow> bytes \<Rightarrow> bytes list \<Rightarrow> io_adapter \<Rightarrow> (bytes \<times> bytes list \<times> io_adapter) option"
  where
  "tcp_drive K [] S fs io = Some (S, fs, io)"
| "tcp_drive K (k # ks) S fs io = do {
     (r, io') \<leftarrow> tcp_send K (take k S) io;
     let fs = (if sb_data (io_send_buf io) = [] then fs @ [take k S] else fs);
     case r of
       IoOk n \<Rightarrow> tcp_drive K ks (drop n S) fs io'
     | _ \<Rightarrow> tcp_drive K ks S fs io' }"

definition tcp_inv :: "(bytes \<Rightarrow> bytes) \<Rightarrow> bytes \<Rightarrow> bytes \<Rightarrow> bytes list \<Rightarrow> io_adapter \<Rightarrow> bool" where
  "tcp_inv E S0 S fs io \<longleftrightarrow>
     sock_stream (io_sock io) @ sb_data (io_send_buf io) = concat (map E fs)
     \<and> concat fs @ drop (sb_original_length (io_send_buf io)) S = S0"

lemma sock_stream_append [simp]: "sock_stream (a @ b) = sock_stream a @ sock_stream b"
  by (induction a rule: sock_stream.induct) auto

lemma tcp_flush_inv:
  assumes flush: "tcp_flush K io = (r, io')" and inv: "tcp_inv E S0 S fs io"
    and fits: "\<And>l b n. sk_send K l b = IoOk n \<Longrightarrow> n \<le> length b"
  shows "tcp_inv E S0 (case r of IoOk n \<Rightarrow> drop n S | _ \<Rightarrow> S) fs io'"
    and "io_outside_plugins io' = io_outside_plugins io"
proof -
  note defs = tcp_flush_def sock_send_def sb_complete_def Let_def
  have "tcp_inv E S0 (case r of IoOk n \<Rightarrow> drop n S | _ \<Rightarrow> S) fs io' \<and> io_outside_plugins io' = io_outside_plugins io"
  proof (cases "sk_send K (io_sock io) (sb_data (io_send_buf io))")
    case (IoOk n)
    then show ?thesis using flush inv by (auto simp: defs tcp_inv_def split: if_splits)
  next
    case IoWouldBlock
    then have "r = IoWouldBlock" using flush by (auto simp: defs)
    then show ?thesis using flush inv IoWouldBlock by (auto simp: defs tcp_inv_def)
  next
    case (IoErr e)
    then have "r = IoErr e" using flush by (auto simp: defs)
    then show ?thesis using flush inv by (simp add: defs IoErr) (auto simp: tcp_inv_def)
  qed
  then show "tcp_inv E S0 (case r of IoOk n \<Rightarrow> drop n S | _ \<Rightarrow> S) fs io'"
    and "io_outside_plugins io' = io_outside_plugins io" by simp_all
qed

lemma take_drop_min [simp]: "take k S @ drop (min (length S) k) S = S"
  by (cases "k \<le> length S") (simp_all add: min_def)

lemma tcp_drive_inv:
  assumes fits: "\<And>l b n. sk_send K l b = IoOk n \<Longrightarrow> n \<le> length b"
    and egress: "\<And>b. do_egress ps b = (Accept, E b)"
  shows "tcp_drive K ks S fs io = Some (S', fs', io') \<Longrightarrow> tcp_inv E S0 S fs io \<Longrightarrow> io_outside_plugins io = ps
    \<Longrightarrow> tcp_inv E S0 S' fs' io'"
proof (induction ks arbitrary: S fs io)
  case (Cons k ks)
  let ?fs = "if sb_data (io_send_buf io) = [] then fs @ [take k S] else fs"
  from Cons.prems(1) obtain r io1 where send: "tcp_send K (take k S) io = Some (r, io1)"
    and rest: "tcp_drive K ks (case r of IoOk n \<Rightarrow> drop n S | _ \<Rightarrow> S) ?fs io1 = Some (S', fs', io')"
    by (auto simp: Let_def split: Option.bind_splits prod.splits io_result.splits)
  obtain io0 where io0: "tcp_flush K io0 = (r, io1)" "tcp_inv E S0 S ?fs io0" "io_outside_plugins io0 = ps"
  proof (cases "sb_data (io_send_buf io) = []")
    case True
    show ?thesis
      by (rule that [of "io\<lparr>io_send_buf := (io_send_buf io)\<lparr>sb_original_length := length (take k S),
            sb_data := E (take k S)\<rparr>\<rparr>"])
        (use True send Cons.prems(2,3) egress in
          \<open>auto simp: tcp_send_def tcp_inv_def sb_enqueue_buffer_def split: if_splits\<close>)
  next
    case False
    then show ?thesis
      using that [of io] send Cons.prems(2,3) by (auto simp: tcp_send_def split: if_splits)
  qed
  show ?case
    using Cons.IH [OF rest] tcp_flush_inv [OF io0(1,2) fits] io0(3) by simp
qed simp

text \<open>
  C35. Partial writes lose nothing: whatever prefixes of its byte stream the TLS library offers
  and however much of them the socket takes each time, the bytes the socket has taken, followed
  by the ones still buffered, are the queued buffers (each run through the egress plugins once)
  in order; and the queued buffers are exactly the part of the TLS stream reported as written,
  followed by the one in flight. Nothing is lost, repeated or reordered.
\<close>

theorem tcp_stream_exact:
  assumes fits: "\<forall>l b n. sk_send K l b = IoOk n \<longrightarrow> n \<le> length b"
    and egress: "\<forall>b. do_egress (io_outside_plugins io) b = (Accept, E b)"
    and fresh: "io_send_buf io = sb_new mtu" "io_sock io = []"
    and run: "tcp_drive K ks S [] io = Some (S', fs, io')"
  shows "sock_stream (io_sock io') @ sb_data (io_send_buf io') = concat (map E fs)
    \<and> concat fs @ drop (sb_original_length (io_send_buf io')) S' = S"
proof -
  have "tcp_inv E S S [] io" using fresh by (simp add: tcp_inv_def sb_new_def)
  then have "tcp_inv E S S' fs io'"
    by (rule tcp_drive_inv [OF _ _ run _ refl, rotated 2]) (use fits egress in auto)
  then show ?thesis by (simp add: tcp_inv_def)
qed

definition stutter_socket :: socket_ops where
  "stutter_socket = \<lparr>sk_send = (\<lambda>l b. IoOk (min 2 (length b))), sk_send_gso = (\<lambda>_ _ _. IoWouldBlock),
     sk_peer_addr = (\<lambda>_. SockAddrV4 0 0)\<rparr>"

definition io_fresh :: "connection_type \<Rightarrow> plugin_list \<Rightarrow> io_adapter" where
  "io_fresh ct ps = \<lparr>io_connection_type = ct, io_protocol_version = version_MAXIMUM, io_outside_mtu = 1500,
     io_aggressive_send = False, io_recv_buf = [], io_send_buf = sb_new 1500, io_gso_buf = gso_buffer_default,
     io_sock = [], io_session_id = SESSION_EMPTY, io_outside_plugins = ps\<rparr>"

theorem tcp_stream_exact_witness:
  "\<exists>S' fs io'. tcp_drive stutter_socket [3, 3, 4] [1, 2, 3, 4, 5] [] (io_fresh Stream []) = Some (S', fs, io')
    \<and> sock_stream (io_sock io') @ sb_data (io_send_buf io') = concat fs
    \<and> concat fs @ drop (sb_original_length (io_send_buf io')) S' = [1, 2, 3, 4, 5]"
proof -
  let ?io = "io_fresh Stream []"
  have "tcp_drive stutter_socket [3, 3, 4] [1, 2, 3, 4, 5] [] ?io \<noteq> None"
    by (simp add: tcp_send_def tcp_flush_def sock_send_def stutter_socket_def io_fresh_def sb_new_def
        sb_enqueue_buffer_def sb_complete_def Let_def)
  then obtain S' fs io' where run: "tcp_drive stutter_socket [3, 3, 4] [1, 2, 3, 4, 5] [] ?io = Some (S', fs, io')"
    by (metis not_None_eq prod.exhaust)
  have "sock_stream (io_sock io') @ sb_data (io_send_buf io') = concat (map id fs)
    \<and> concat fs @ drop (sb_original_length (io_send_buf io')) S' = [1, 2, 3, 4, 5]"
    by (rule tcp_stream_exact [OF _ _ _ _ run, of id 1500])
      (simp_all add: stutter_socket_def io_fresh_def)
  then show ?thesis using run by simp
qed

section \<open>Datagrams\<close>

text \<open>
  C36. What \<open>udp_send\<close> puts on the wire, the peer's ingress chain accepts: with plugins whose
  ingress undoes their egress, every datagram handed to the socket (one, or up to three copies
  in aggressive mode) is taken apart by the peer into the same payload and a header with the
  sender's version, session id and data kind; nothing else is sent and the adapter is otherwise
  unchanged.
\<close>

theorem udp_send_received:
  assumes passthrough: "\<not> gb_is_batching (io_gso_buf io)"
    and inverse: "\<forall>p \<in> set (io_outside_plugins io). plugin_inverse p"
    and header: "header_ok (io_header xl io)"
    and send: "udp_send K buf xl io = Some (r, io')"
  shows "\<exists>sends. io' = io\<lparr>io_sock := io_sock io @ sends\<rparr> \<and> length sends \<le> (if io_aggressive_send io then 3 else 1)
    \<and> (\<forall>c \<in> set sends. \<exists>b q. c = SockSend b q
         \<and> apply_ingress_chain (io_outside_plugins io) (WirePkt b Datagram) = Some (Inr (UdpFrame buf (io_header xl io))))"
proof -
  let ?w = "header_append_to_wire (io_header xl io) [] @ buf"
  obtain v b where e: "do_egress (io_outside_plugins io) ?w = (v, b)" by fastforce
  show ?thesis
  proof (cases v)
    case Accept
    have "header_try_from_wire ?w = Some (Inr (io_header xl io), buf)"
      using header by (rule header_decodes)
    then have rx: "apply_ingress_chain (io_outside_plugins io) (WirePkt b Datagram) = Some (Inr (UdpFrame buf (io_header xl io)))"
      using plugin_chain_inverse [OF inverse] e Accept by (simp add: apply_ingress_chain_def)
    obtain sends where "io' = io\<lparr>io_sock := io_sock io @ sends\<rparr>"
      "length sends \<le> (if io_aggressive_send io then 3 else 1)" "\<forall>c \<in> set sends. \<exists>q. c = SockSend b q"
      using send passthrough e Accept
      by (force simp: udp_send_def udp_send_final_def sock_send_def Let_def split: io_result.splits if_splits)
    then show ?thesis using rx by blast
  qed (use send passthrough e in \<open>auto simp: udp_send_def Let_def intro!: exI [of _ "[]"]\<close>)
qed

theorem udp_send_received_witness:
  "\<exists>r io'. udp_send stutter_socket [7] True (io_fresh Datagram []) = Some (r, io')
    \<and> (\<exists>sends. io' = (io_fresh Datagram [])\<lparr>io_sock := sends\<rparr> \<and> length sends \<le> 1)"
proof -
  have "udp_send stutter_socket [7] True (io_fresh Datagram []) \<noteq> None"
    by (simp add: udp_send_def io_fresh_def gb_is_batching_def gso_buffer_default_def udp_send_final_def
        sock_send_def stutter_socket_def Let_def)
  then obtain r io' where "udp_send stutter_socket [7] True (io_fresh Datagram []) = Some (r, io')"
    by (metis not_None_eq prod.exhaust)
  moreover have "header_ok (io_header True (io_fresh Datagram []))"
    by (simp add: header_ok_def io_header_def io_fresh_def SESSION_EMPTY_def version_MINIMUM_def
        version_MAXIMUM_def less_eq_version_def word_le_nat_alt)
  ultimately show ?thesis
    using udp_send_received [of "io_fresh Datagram []" True stutter_socket "[7]" r io']
    by (auto simp: io_fresh_def gb_is_batching_def gso_buffer_default_def)
qed

section \<open>GSO batches\<close>

text \<open>
  The kernel's side of \<open>UDP_SEGMENT\<close>: the gathered bytes are cut at multiples of the stride,
  the last datagram being what is left.
\<close>

function udp_segment :: "usize \<Rightarrow> bytes \<Rightarrow> bytes list" where
  "udp_segment stride b =
     (if stride = 0 \<or> length b \<le> stride then [b] else take stride b # udp_segment stride (drop stride b))"
  by pat_completeness auto

termination
  by (relation "measure (\<lambda>(stride, b). length b)") auto

declare udp_segment.simps [simp del]

fun udp_sends :: "socket_ops \<Rightarrow> bytes list \<Rightarrow> bool \<Rightarrow> io_adapter \<Rightarrow> io_adapter option" where
  "udp_sends K [] xl io = Some io"
| "udp_sends K (seg # segs) xl io = do { (_, io) \<leftarrow> udp_send K seg xl io; udp_sends K segs xl io }"

text \<open>All segments but the last have the size of the first one, and the last is not longer.\<close>

definition gso_uniform :: "usize \<Rightarrow> bytes list \<Rightarrow> bool" where
  "gso_uniform n segs \<longleftrightarrow> segs \<noteq> [] \<and> (\<forall>seg \<in> set (butlast segs). length seg = n) \<and> length (last segs) \<le> n"

lemma gso_uniform_Cons:
  "gso_uniform n (seg # segs) \<longleftrightarrow> (if segs = [] then length seg \<le> n else length seg = n \<and> gso_uniform n segs)"
  by (auto simp: gso_uniform_def)

lemma udp_segment_exact:
  "gso_uniform n segs \<Longrightarrow> 0 < length hdr \<Longrightarrow> udp_segment (length hdr + n) (concat (map ((@) hdr) segs)) = map ((@) hdr) segs"
proof (induction segs)
  case (Cons seg segs)
  show ?case
  proof (cases segs)
    case Nil
    then show ?thesis using Cons.prems by (simp add: gso_uniform_Cons udp_segment.simps)
  next
    case (Cons s ss)
    then have "length seg = n" "gso_uniform n segs" using Cons.prems by (simp_all add: gso_uniform_Cons)
    then show ?thesis using Cons Cons.IH Cons.prems
      by (subst udp_segment.simps) (simp add: Cons)
  qed
qed (simp add: gso_uniform_def)

lemma gso_slice_Suc: "length seg = n \<Longrightarrow> gso_slice (seg @ b) n (Suc i) = gso_slice b n i"
  by (auto simp: gso_slice_def Let_def min_def)

lemma gso_iovs_shift:
  "length seg = n \<Longrightarrow> gso_iovs hdr (seg @ b) n (map Suc is) = gso_iovs hdr b n is"
  by (induction "is") (simp_all add: gso_slice_Suc)

lemma gso_iovs_exact:
  "gso_uniform n segs \<Longrightarrow> \<exists>iovs. gso_iovs hdr (concat segs) n [0..<length segs] = Some iovs
    \<and> concat iovs = concat (map ((@) hdr) segs)"
proof (induction segs)
  case (Cons seg segs)
  show ?case
  proof (cases segs)
    case Nil
    then show ?thesis using Cons.prems by (simp add: gso_uniform_Cons gso_slice_def Let_def)
  next
    case (Cons s ss)
    then have seg: "length seg = n" "gso_uniform n segs" using Cons.prems by (simp_all add: gso_uniform_Cons)
    moreover have "gso_slice (seg @ concat segs) n 0 = Some seg" using seg by (simp add: gso_slice_def Let_def)
    moreover have "[0..<length (seg # segs)] = 0 # map Suc [0..<length segs]"
      by (simp add: map_Suc_upt upt_conv_Cons del: upt_Suc)
    ultimately show ?thesis using Cons.IH by (auto simp: gso_iovs_shift simp del: upt_Suc)
  qed
qed (simp add: gso_uniform_def)

lemma udp_sends_coalesce:
  "gb_state (io_gso_buf io) = Coalescing n \<Longrightarrow> \<forall>seg \<in> set segs. length seg \<le> n \<Longrightarrow>
    udp_sends K segs xl io = Some (io\<lparr>io_gso_buf := \<lparr>gb_buf = gb_buf (io_gso_buf io) @ concat segs, gb_state = Coalescing n\<rparr>\<rparr>)"
proof (induction segs arbitrary: io)
  case (Cons seg segs)
  then have "udp_send K seg xl io = Some (IoOk (length seg), io\<lparr>io_gso_buf := (io_gso_buf io)\<lparr>gb_buf := gb_buf (io_gso_buf io) @ seg\<rparr>\<rparr>)"
    by (simp add: udp_send_def gb_is_batching_def gb_put_def)
  then show ?case
    using Cons.IH [of "io\<lparr>io_gso_buf := (io_gso_buf io)\<lparr>gb_buf := gb_buf (io_gso_buf io) @ seg\<rparr>\<rparr>"] Cons.prems
    by simp
qed simp



end
