(* ===== verification/Replay_Window.thy ===== *)
theory Replay_Window
  imports Prelude
begin

text \<open>
  The replay window of lightway-expresslane/src/replay_window.rs: a bitmap indexed by
  \<open>counter mod WINDOW_SIZE\<close> with the highest counter committed. The abstract specification
  (locale \<open>replay_filter\<close>) is a set of counters seen; the relation \<open>rw_abs\<close> links the
  bitmap to it, and the refinement shows that the bitmap with its incremental clearing decides
  every counter as the set does.
\<close>

record replay_window =
  rw_high :: u64
  rw_bitmap :: "u64 list"

definition NUM_BLOCKS :: usize where [const_defs]: "NUM_BLOCKS = 128"
definition WINDOW_SIZE :: u64 where [const_defs]: "WINDOW_SIZE = of_nat NUM_BLOCKS * 64"

definition replay_window_default :: replay_window where
  "replay_window_default = \<lparr>rw_high = 0, rw_bitmap = replicate NUM_BLOCKS 0\<rparr>"

definition rw_index :: "u64 \<Rightarrow> usize \<times> u64" where
  "rw_index counter =
     (let b = counter mod WINDOW_SIZE in (unat (b div 64), push_bit (unat (b mod 64)) 1))"

definition rw_is_set :: "replay_window \<Rightarrow> u64 \<Rightarrow> bool" where
  "rw_is_set w counter =
     (let (block, mask) = rw_index counter in rw_bitmap w ! block AND mask \<noteq> 0)"

definition rw_would_reject :: "replay_window \<Rightarrow> u64 \<Rightarrow> bool" where
  "rw_would_reject w counter =
     (if counter = 0 then True
      else if counter > rw_high w then False
      else if rw_high w - counter \<ge> WINDOW_SIZE then True
      else rw_is_set w counter)"

definition rw_clear_slot :: "u64 \<Rightarrow> u64 list \<Rightarrow> u64 list" where
  "rw_clear_slot c bitmap =
     (let (block, mask) = rw_index c in bitmap[block := bitmap ! block AND NOT mask])"

definition rw_set_slot :: "u64 \<Rightarrow> u64 list \<Rightarrow> u64 list" where
  "rw_set_slot c bitmap =
     (let (block, mask) = rw_index c in bitmap[block := bitmap ! block OR mask])"

text \<open>The range \<open>a..b\<close> of counters.\<close>

definition u64_range :: "u64 \<Rightarrow> u64 \<Rightarrow> u64 list" where
  "u64_range a b = map of_nat [unat a..<unat b]"

definition rw_commit :: "replay_window \<Rightarrow> u64 \<Rightarrow> bool \<times> replay_window" where
  "rw_commit w counter =
     (if rw_would_reject w counter then (False, w)
      else
        let w =
          (if counter > rw_high w then
             let bitmap =
               (if counter - rw_high w \<ge> WINDOW_SIZE then replicate NUM_BLOCKS 0
                else
                  let clear_from = max (rw_high w + 1) (sat_sub counter (WINDOW_SIZE - 1))
                  in fold rw_clear_slot (u64_range clear_from counter) (rw_bitmap w))
             in w\<lparr>rw_bitmap := bitmap, rw_high := counter\<rparr>
           else w)
        in (True, w\<lparr>rw_bitmap := rw_set_slot counter (rw_bitmap w)\<rparr>))"

section \<open>The abstract filter\<close>

text \<open>
  What a replay filter promises: a counter is admitted when it is not zero, has not been
  admitted before, and is not further below the highest admitted one than the window.
\<close>

definition max_seen :: "nat set \<Rightarrow> nat" where
  "max_seen S = (if S = {} then 0 else Max S)"

definition admits :: "nat set \<Rightarrow> nat \<Rightarrow> bool" where
  "admits S c \<longleftrightarrow> 0 < c \<and> c \<notin> S \<and> (max_seen S < c \<or> max_seen S - c < 8192)"

definition filter_commit :: "nat set \<Rightarrow> nat \<Rightarrow> bool \<times> nat set" where
  "filter_commit S c = (if admits S c then (True, insert c S) else (False, S))"

section \<open>Bits of the window\<close>

definition rw_bit :: "u64 list \<Rightarrow> nat \<Rightarrow> bool" where
  "rw_bit bitmap i \<longleftrightarrow> bit (bitmap ! (i div 64)) (i mod 64)"

lemma WINDOW_SIZE_8192: "WINDOW_SIZE = 8192"
  by (simp add: const_defs)

lemma rw_index_eq:
  "rw_index c = (unat c mod 8192 div 64, 2 ^ (unat c mod 64))"
  by (simp add: rw_index_def Let_def WINDOW_SIZE_8192 unat_mod_distrib unat_div_distrib mod_mod_cancel)

lemma rw_slot_less: "unat c mod 8192 div 64 < 128"
  by (simp add: less_mult_imp_div_less)

lemma rw_is_set_bit: "rw_is_set w c \<longleftrightarrow> rw_bit (rw_bitmap w) (unat c mod 8192)"
  by (simp add: rw_is_set_def rw_index_eq rw_bit_def and_exp_eq_0_iff_not_bit mod_mod_cancel)

lemma slot_split: "i < 8192 \<Longrightarrow> j < 8192 \<Longrightarrow> i div 64 = j div 64 \<Longrightarrow> i mod 64 = j mod 64 \<Longrightarrow> i = (j :: nat)"
  by (metis div_mult_mod_eq)

lemma rw_bit_set_slot:
  assumes "length bm = 128" "i < 8192"
  shows "rw_bit (rw_set_slot c bm) i \<longleftrightarrow> i = unat c mod 8192 \<or> rw_bit bm i"
proof -
  have "i mod 64 < 64" by simp
  then show ?thesis
    using assms rw_slot_less [of c] slot_split [of i "unat c mod 8192"]
    by (auto simp: rw_set_slot_def rw_index_eq rw_bit_def nth_list_update bit_or_iff bit_exp_iff
        mod_mod_cancel)
qed

lemma rw_bit_clear_slot:
  assumes "length bm = 128" "i < 8192"
  shows "rw_bit (rw_clear_slot c bm) i \<longleftrightarrow> i \<noteq> unat c mod 8192 \<and> rw_bit bm i"
proof -
  have "i mod 64 < 64" by simp
  then show ?thesis
    using assms rw_slot_less [of c] slot_split [of i "unat c mod 8192"]
    by (auto simp: rw_clear_slot_def rw_index_eq rw_bit_def nth_list_update bit_and_iff bit_not_iff
        bit_exp_iff mod_mod_cancel)
qed

lemma length_rw_slots [simp]:
  "length (rw_set_slot c bm) = length bm" "length (rw_clear_slot c bm) = length bm"
  by (simp_all add: rw_set_slot_def rw_clear_slot_def Let_def split: prod.split)

lemma length_fold_clear [simp]: "length (fold rw_clear_slot cs bm) = length bm"
  by (induction cs arbitrary: bm) simp_all

lemma rw_bit_fold_clear:
  "length bm = 128 \<Longrightarrow> i < 8192 \<Longrightarrow>
     rw_bit (fold rw_clear_slot cs bm) i \<longleftrightarrow> (\<forall>c \<in> set cs. i \<noteq> unat c mod 8192) \<and> rw_bit bm i"
  by (induction cs arbitrary: bm) (auto simp: rw_bit_clear_slot)

lemma u64_range_unat: "unat ` set (u64_range a b) = {unat a..<unat b}"
proof -
  have "unat (of_nat n :: u64) = n" if "n < unat b" for n
    using that by (simp add: unat_of_nat_bounded [of n b])
  then show ?thesis by (force simp: u64_range_def)
qed

lemma slot_neq: "a < b \<Longrightarrow> b - a < 8192 \<Longrightarrow> a mod 8192 \<noteq> b mod (8192 :: nat)"
  by (metis diff_is_0_eq mod_eq_dvd_iff_nat mod_less mod_0_imp_dvd less_imp_le_nat dvd_imp_mod_0 not_less zero_less_diff)

section \<open>Refinement\<close>

definition rw_abs :: "replay_window \<Rightarrow> nat set \<Rightarrow> bool" where
  "rw_abs w S \<longleftrightarrow>
     length (rw_bitmap w) = 128 \<and> finite S \<and> 0 \<notin> S \<and> unat (rw_high w) = max_seen S
     \<and> (\<forall>c. 0 < c \<longrightarrow> c \<le> max_seen S \<longrightarrow> max_seen S - c < 8192 \<longrightarrow>
          (rw_bit (rw_bitmap w) (c mod 8192) \<longleftrightarrow> c \<in> S))"

lemma max_seen_ge: "finite S \<Longrightarrow> c \<in> S \<Longrightarrow> c \<le> max_seen S"
  by (auto simp: max_seen_def)

lemma max_seen_insert: "finite S \<Longrightarrow> max_seen (insert c S) = max c (max_seen S)"
  by (auto simp: max_seen_def)

lemma rw_abs_default: "rw_abs replay_window_default {}"
  by (simp add: rw_abs_def replay_window_default_def max_seen_def const_defs)

lemma rw_abs_bit:
  "rw_abs w S \<Longrightarrow> c \<noteq> 0 \<Longrightarrow> unat c \<le> max_seen S \<Longrightarrow> max_seen S - unat c < 8192 \<Longrightarrow>
     rw_is_set w c \<longleftrightarrow> unat c \<in> S"
  by (simp add: rw_abs_def rw_is_set_bit unat_gt_0)

lemma rw_would_reject_admits:
  assumes "rw_abs w S"
  shows "rw_would_reject w c \<longleftrightarrow> \<not> admits S (unat c)"
proof -
  have diff: "unat (rw_high w - c) = unat (rw_high w) - unat c" if "c \<le> rw_high w"
    using that by (rule unat_sub)
  have "unat c \<notin> S" if "rw_high w < c"
    using that assms max_seen_ge [of S "unat c"] by (auto simp: rw_abs_def word_less_nat_alt)
  moreover have "unat (rw_high w) = max_seen S" using assms by (simp add: rw_abs_def)
  ultimately show ?thesis
    using diff rw_abs_bit [OF assms]
    by (auto simp: rw_would_reject_def admits_def WINDOW_SIZE_8192
        word_less_nat_alt word_le_nat_alt unat_eq_zero not_less not_le)
qed

lemma rw_commit_low:
  assumes "rw_abs w S" "admits S (unat c)" "c \<le> rw_high w"
  shows "rw_abs (w\<lparr>rw_bitmap := rw_set_slot c (rw_bitmap w)\<rparr>) (insert (unat c) S)"
proof -
  have m: "max_seen (insert (unat c) S) = max_seen S" and le: "unat c \<le> max_seen S"
    using assms by (auto simp: rw_abs_def max_seen_insert word_le_nat_alt)
  have "d = unat c \<or> d mod 8192 \<noteq> unat c mod 8192"
    if "d \<le> max_seen S" "max_seen S - d < 8192" for d
  proof (cases d "unat c" rule: linorder_cases)
    case less
    then show ?thesis using that le slot_neq [of d "unat c"] by simp
  next
    case greater
    moreover have "d - unat c < 8192" using that le assms(2) greater by (auto simp: admits_def)
    ultimately show ?thesis using slot_neq [of "unat c" d] by auto
  qed simp
  then show ?thesis
    using assms(1,2) by (auto simp: rw_abs_def m rw_bit_set_slot admits_def)
qed

definition rw_advance :: "replay_window \<Rightarrow> u64 \<Rightarrow> u64 list" where
  "rw_advance w counter =
     (if counter - rw_high w \<ge> WINDOW_SIZE then replicate NUM_BLOCKS 0
      else fold rw_clear_slot (u64_range (max (rw_high w + 1) (sat_sub counter (WINDOW_SIZE - 1))) counter)
        (rw_bitmap w))"

lemma rw_clear_range:
  assumes "rw_high w < c" "unat c - unat (rw_high w) < 8192"
  shows "unat ` set (u64_range (max (rw_high w + 1) (sat_sub c (WINDOW_SIZE - 1))) c)
    = {unat (rw_high w) <..< unat c}"
proof -
  have "unat (rw_high w + 1) = Suc (unat (rw_high w))"
    using assms(1) by (rule unat_plus_one)
  moreover have "sat_sub c (WINDOW_SIZE - 1) \<le> rw_high w + 1"
    using assms calculation
    by (auto simp: sat_sub_def WINDOW_SIZE_8192 word_le_nat_alt unat_sub word_less_nat_alt)
  ultimately show ?thesis
    by (auto simp: u64_range_unat max_def)
qed

lemma rw_bit_advance:
  assumes "length (rw_bitmap w) = 128" "rw_high w < c" "0 < d" "d \<le> unat c" "unat c - d < 8192"
  shows "rw_bit (rw_set_slot c (rw_advance w c)) (d mod 8192) \<longleftrightarrow>
    d = unat c \<or> d \<le> unat (rw_high w) \<and> rw_bit (rw_bitmap w) (d mod 8192)"
proof -
  have sub: "unat (c - rw_high w) = unat c - unat (rw_high w)"
    using assms(2) by (simp add: unat_sub)
  have len: "length (rw_advance w c) = 128"
    using assms(1) by (simp add: rw_advance_def NUM_BLOCKS_def)
  have top: "d mod 8192 = unat c mod 8192 \<longleftrightarrow> d = unat c"
    using assms(4,5) slot_neq [of d "unat c"] by (auto simp: le_less)
  have "rw_bit (rw_advance w c) (d mod 8192) \<longleftrightarrow> d \<le> unat (rw_high w) \<and> rw_bit (rw_bitmap w) (d mod 8192)"
    if "d \<noteq> unat c"
  proof (cases "unat c - unat (rw_high w) < 8192")
    case True
    then have "\<not> WINDOW_SIZE \<le> c - rw_high w"
      by (simp add: WINDOW_SIZE_8192 word_le_nat_alt sub)
    then have "rw_bit (rw_advance w c) (d mod 8192) \<longleftrightarrow>
      (\<forall>e \<in> {unat (rw_high w) <..< unat c}. d mod 8192 \<noteq> e mod 8192) \<and> rw_bit (rw_bitmap w) (d mod 8192)"
      using assms(1) True assms(2)
      by (simp add: rw_advance_def rw_bit_fold_clear flip: rw_clear_range [OF assms(2) True])
    moreover have "d mod 8192 \<noteq> e mod 8192" if "d \<le> unat (rw_high w)" "e \<in> {unat (rw_high w) <..< unat c}" for e
      using that assms(5) by (intro slot_neq) auto
    ultimately show ?thesis using assms(4) that by (cases "d \<le> unat (rw_high w)") auto
  next
    case False
    then show ?thesis
      using assms(5) that
      by (auto simp: rw_advance_def WINDOW_SIZE_8192 word_le_nat_alt sub rw_bit_def NUM_BLOCKS_def
          less_mult_imp_div_less)
  qed
  then show ?thesis using len top by (auto simp: rw_bit_set_slot)
qed

lemma rw_commit_high:
  assumes "rw_abs w S" "rw_high w < c"
  shows "rw_abs \<lparr>rw_high = c, rw_bitmap = rw_set_slot c (rw_advance w c)\<rparr> (insert (unat c) S)"
proof -
  have m: "max_seen (insert (unat c) S) = unat c"
    using assms by (auto simp: rw_abs_def max_seen_insert word_less_nat_alt)
  have S: "d \<le> max_seen S" if "d \<in> S" for d
    using that assms max_seen_ge by (auto simp: rw_abs_def)
  have "rw_bit (rw_bitmap w) (d mod 8192) \<longleftrightarrow> d \<in> S"
    if "0 < d" "d \<le> unat (rw_high w)" "unat c - d < 8192" for d
    using that assms by (auto simp: rw_abs_def word_less_nat_alt)
  moreover have "length (rw_bitmap w) = 128" "unat (rw_high w) = max_seen S" "0 < unat c"
    using assms by (auto simp: rw_abs_def word_less_nat_alt)
  ultimately show ?thesis
    using assms S by (auto simp: rw_abs_def m rw_bit_advance) (simp_all add: rw_advance_def NUM_BLOCKS_def)
qed

lemma rw_commit_refines:
  assumes "rw_abs w S"
  shows "fst (rw_commit w c) = fst (filter_commit S (unat c))
    \<and> rw_abs (snd (rw_commit w c)) (snd (filter_commit S (unat c)))"
proof (cases "admits S (unat c)")
  case False
  then show ?thesis
    using assms by (simp add: rw_commit_def filter_commit_def rw_would_reject_admits)
next
  case adm: True
  show ?thesis
  proof (cases "rw_high w < c")
    case True
    then have "rw_commit w c = (True, \<lparr>rw_high = c, rw_bitmap = rw_set_slot c (rw_advance w c)\<rparr>)"
      using adm assms by (simp add: rw_commit_def rw_would_reject_admits rw_advance_def Let_def)
    then show ?thesis
      using adm rw_commit_high [OF assms True] by (simp add: filter_commit_def)
  next
    case False
    then have "rw_commit w c = (True, w\<lparr>rw_bitmap := rw_set_slot c (rw_bitmap w)\<rparr>)"
      using adm assms by (simp add: rw_commit_def rw_would_reject_admits Let_def)
    then show ?thesis
      using adm False rw_commit_low [OF assms adm] by (simp add: filter_commit_def)
  qed
qed

section \<open>Runs of the filter\<close>

fun commit_run :: "('s \<Rightarrow> 'c \<Rightarrow> bool \<times> 's) \<Rightarrow> 's \<Rightarrow> 'c list \<Rightarrow> bool list \<times> 's" where
  "commit_run commit s [] = ([], s)"
| "commit_run commit s (c # cs) =
     (let (r, s) = commit s c; (rs, s) = commit_run commit s cs in (r # rs, s))"

definition accepted :: "'c list \<Rightarrow> bool list \<Rightarrow> nat \<Rightarrow> 'c set" where
  "accepted cs rs i = (!) cs ` {j. j < i \<and> rs ! j}"

lemma finite_accepted [simp]: "finite (accepted cs rs i)"
  by (simp add: accepted_def)

lemma accepted_0 [simp]: "accepted cs rs 0 = {}"
  by (simp add: accepted_def)

lemma accepted_Cons:
  "accepted (c # cs) (r # rs) (Suc k) = (if r then {c} else {}) \<union> accepted cs rs k"
proof -
  have "{j. j < Suc k \<and> (r # rs) ! j} = (if r then {0} else {}) \<union> Suc ` {j. j < k \<and> rs ! j}"
    by (auto simp: less_Suc_eq_0_disj)
  then show ?thesis by (auto simp: accepted_def image_Un image_image)
qed

lemma filter_run_nth:
  "commit_run filter_commit S cs = (rs, T) \<Longrightarrow>
     length rs = length cs
     \<and> (\<forall>i < length cs. rs ! i \<longleftrightarrow> admits (S \<union> accepted cs rs i) (cs ! i))"
proof (induction cs arbitrary: S rs)
  case (Cons c cs)
  let ?S = "snd (filter_commit S c)"
  have r: "fst (filter_commit S c) = admits S c" by (simp add: filter_commit_def)
  obtain rs' where rs: "rs = admits S c # rs'" "commit_run filter_commit ?S cs = (rs', T)"
    using Cons.prems r by (auto simp: Let_def split_beta prod_eq_iff)
  have "?S \<union> A = S \<union> ((if admits S c then {c} else {}) \<union> A)" for A
    by (auto simp: filter_commit_def)
  then have "rs' ! k \<longleftrightarrow> admits (S \<union> accepted (c # cs) rs (Suc k)) (cs ! k)"
    if "k < length cs" for k
    using that Cons.IH [OF rs(2)] by (simp add: rs(1) accepted_Cons)
  then show ?case
    using Cons.IH [OF rs(2)] by (auto simp: rs(1) less_Suc_eq_0_disj)
qed simp

lemma admits_iff:
  "finite S \<Longrightarrow> admits S c \<longleftrightarrow> 0 < c \<and> (\<forall>d \<in> S. d \<noteq> c \<and> d - c < 8192)"
proof -
  assume fin: "finite S"
  have "(max_seen S < c \<or> max_seen S - c < 8192) \<longleftrightarrow> (\<forall>d \<in> S. d - c < 8192)"
  proof (cases "S = {}")
    case True
    then show ?thesis by (auto simp: max_seen_def)
  next
    case False
    then have "max_seen S \<in> S" using fin by (simp add: max_seen_def)
    then show ?thesis using max_seen_ge [OF fin] by fastforce
  qed
  then show ?thesis by (auto simp: admits_def)
qed

text \<open>
  The interface a receive path relies on: a preview and a commit that agree with the set of
  counters admitted so far. What a client needs to know of a long run follows from it.
\<close>

locale replay_filter =
  fixes reject :: "'s \<Rightarrow> u64 \<Rightarrow> bool" and commit :: "'s \<Rightarrow> u64 \<Rightarrow> bool \<times> 's"
    and abs :: "'s \<Rightarrow> nat set \<Rightarrow> bool" and init :: 's
  assumes abs_init: "abs init {}"
    and reject_abs: "abs s S \<Longrightarrow> reject s c \<longleftrightarrow> \<not> admits S (unat c)"
    and commit_abs: "abs s S \<Longrightarrow> fst (commit s c) = fst (filter_commit S (unat c))
      \<and> abs (snd (commit s c)) (snd (filter_commit S (unat c)))"
begin

lemma run_abs:
  "abs s S \<Longrightarrow> fst (commit_run commit s cs) = fst (commit_run filter_commit S (map unat cs))
     \<and> abs (snd (commit_run commit s cs)) (snd (commit_run filter_commit S (map unat cs)))"
proof (induction cs arbitrary: s S)
  case (Cons c cs)
  then show ?case
    using commit_abs [OF Cons.prems, of c] Cons.IH [of "snd (commit s c)" "snd (filter_commit S (unat c))"]
    by (simp add: Let_def split_beta)
qed simp

lemma preview_commit: "abs s S \<Longrightarrow> reject s c \<longleftrightarrow> \<not> fst (commit s c)"
  by (simp add: reject_abs commit_abs filter_commit_def)

lemma commit_twice: "abs s S \<Longrightarrow> reject (snd (commit s c)) c"
  using commit_abs [of s S c] reject_abs [of "snd (commit s c)" _ c]
  by (auto simp: filter_commit_def admits_def)

lemma run_exact:
  assumes "commit_run commit init cs = (rs, s)"
  shows "length rs = length cs \<and> (\<forall>i < length cs. rs ! i \<longleftrightarrow>
      0 < unat (cs ! i)
      \<and> (\<forall>j < i. rs ! j \<longrightarrow> unat (cs ! j) \<noteq> unat (cs ! i) \<and> unat (cs ! j) - unat (cs ! i) < 8192))"
proof -
  obtain T where r: "commit_run filter_commit {} (map unat cs) = (rs, T)"
    using run_abs [OF abs_init, of cs] assms by (metis fst_conv prod.exhaust_sel)
  have acc: "admits (accepted (map unat cs) rs i) (unat (cs ! i)) \<longleftrightarrow>
      0 < unat (cs ! i)
      \<and> (\<forall>j < i. rs ! j \<longrightarrow> unat (cs ! j) \<noteq> unat (cs ! i) \<and> unat (cs ! j) - unat (cs ! i) < 8192)"
    if "i < length cs" for i
    using that by (auto simp: admits_iff) (auto simp: accepted_def)
  have "length rs = length cs"
    and nth: "\<And>i. i < length cs \<Longrightarrow> rs ! i = admits (accepted (map unat cs) rs i) (unat (cs ! i))"
    using filter_run_nth [OF r] by simp_all
  then show ?thesis using trans [OF nth acc] by blast
qed

end

interpretation rw: replay_filter rw_would_reject rw_commit rw_abs replay_window_default
  by unfold_locales (simp_all add: rw_abs_default rw_would_reject_admits rw_commit_refines)

text \<open>
  C8. The replay window decides exactly as a set of counters would: over any sequence of
  counters, in any order, a counter is accepted if and only if it is not zero, has not been
  accepted before, and no accepted counter is a whole window (8192) or more above it. In
  particular no counter is accepted twice, and reordering inside the window is never rejected,
  whatever the bitmap slots held in an earlier lap.
\<close>

theorem replay_window_exact:
  assumes "commit_run rw_commit replay_window_default cs = (rs, w)"
  shows "length rs = length cs \<and> (\<forall>i < length cs. rs ! i \<longleftrightarrow>
      0 < unat (cs ! i)
      \<and> (\<forall>j < i. rs ! j \<longrightarrow> unat (cs ! j) \<noteq> unat (cs ! i) \<and> unat (cs ! j) - unat (cs ! i) < 8192))"
  using assms by (rule rw.run_exact)

theorem replay_window_exact_witness:
  "let (rs, w) = commit_run rw_commit replay_window_default [100, 98, 98, 9000, 99]
   in length rs = 5 \<and> (rs ! 4 \<longleftrightarrow> 0 < unat (99 :: u64)
      \<and> (\<forall>j < 4. rs ! j \<longrightarrow> unat ([100, 98, 98, 9000, 99 :: u64] ! j) \<noteq> 99
            \<and> unat ([100, 98, 98, 9000, 99 :: u64] ! j) - 99 < 8192))"
  using replay_window_exact [of "[100, 98, 98, 9000, 99]"
      "fst (commit_run rw_commit replay_window_default [100, 98, 98, 9000, 99])"
      "snd (commit_run rw_commit replay_window_default [100, 98, 98, 9000, 99])"]
  by (auto simp: split_beta simp del: commit_run.simps)

end
