(* ===== verification/Expresslane_Session.thy ===== *)
theory Expresslane_Session
  imports Expresslane_Types Replay_Window Wire_Auth
begin

text \<open>
  The ExpressLane packet session (lightway-expresslane/src/session.rs): framing, associated
  data, the four key slots with their rotation, and the receive path that previews the replay
  window, opens the AEAD and only then commits. The AEAD (aead.rs, a trait the backend
  implements) is a parameter: a record of its functions, with what AES-GCM guarantees as
  hypotheses of the theorems that need it. The atomics, the key lock and the window mutex make each method
  a sequence of atomic steps; the operations here are the methods run one at a time, and the
  last section interleaves the receive steps of several threads.
\<close>

datatype expresslane_error =
    NewCipherFailed | SetKeyFailed | NoKey | EncryptFailed | AuthFailed | PayloadTooLarge
  | Replayed | ELInsufficientData | BufferTooSmall

section \<open>The AEAD the caller supplies\<close>

record 'a aead_ops =
  aead_new :: "expresslane_key \<Rightarrow> expresslane_error + 'a"
  aead_seal :: "'a \<Rightarrow> bytes \<Rightarrow> bytes \<Rightarrow> bytes \<Rightarrow> expresslane_error + (bytes \<times> bytes)"
  aead_open :: "'a \<Rightarrow> bytes \<Rightarrow> bytes \<Rightarrow> bytes \<Rightarrow> bytes \<Rightarrow> expresslane_error + bytes"

text \<open>
  The default methods of the trait: encrypt or decrypt and copy into \<open>out\<close>. The copy
  panics when the lengths do not fit.
\<close>

definition aead_seal_into ::
  "'a aead_ops \<Rightarrow> 'a \<Rightarrow> bytes \<Rightarrow> bytes \<Rightarrow> bytes \<Rightarrow> usize \<Rightarrow> (expresslane_error + (bytes \<times> bytes)) option"
  where
  "aead_seal_into A a iv plaintext aad out_len =
     (case aead_seal A a iv plaintext aad of
        Inl e \<Rightarrow> Some (Inl e)
      | Inr (ct, tag) \<Rightarrow> if length ct \<noteq> out_len then None else Some (Inr (ct, tag)))"

definition aead_open_into ::
  "'a aead_ops \<Rightarrow> 'a \<Rightarrow> bytes \<Rightarrow> bytes \<Rightarrow> bytes \<Rightarrow> bytes \<Rightarrow> bytes \<Rightarrow> (expresslane_error + (usize \<times> bytes)) option"
  where
  "aead_open_into A a iv ciphertext aad tag out =
     (case aead_open A a iv ciphertext aad tag of
        Inl e \<Rightarrow> Some (Inl e)
      | Inr pt \<Rightarrow> if length out < length pt then None
                   else Some (Inr (length pt, pt @ drop (length pt) out)))"

section \<open>The session\<close>

record 'a keyed =
  kd_key :: expresslane_key
  kd_aead :: 'a

record 'a keys =
  current_self :: "'a keyed option"
  next_self :: "'a keyed option"
  current_peer :: "'a keyed option"
  prev_peer :: "'a keyed option"

record 'a el_session =
  els_version :: u8
  els_wire_counter :: u64
  els_packets_received :: u64
  els_replay :: replay_window
  els_keys :: "'a keys"
  els_has_self :: bool
  els_has_peer :: bool

definition EL_WIRE_OVERHEAD :: usize where [const_defs]: "EL_WIRE_OVERHEAD = 40"
definition EL_MAX_PLAINTEXT :: usize where [const_defs]: "EL_MAX_PLAINTEXT = 65535"

definition flags_new :: "bool \<Rightarrow> u16" where
  "flags_new encoded = (if encoded then 0x8000 else 0)"

definition flags_encoded :: "u16 \<Rightarrow> bool" where
  "flags_encoded flags \<longleftrightarrow> bit flags 15"

definition build_aad :: "expresslane_version \<Rightarrow> session_id \<Rightarrow> u64 \<Rightarrow> u16 \<Rightarrow> bytes" where
  "build_aad version session_id wire_counter flags =
     (if version \<ge> ELVersion2 then session_id @ be_bytes 8 wire_counter @ be_bytes 2 flags
      else session_id @ be_bytes 8 wire_counter)"

definition els_new :: "expresslane_version \<Rightarrow> 'a el_session" where
  "els_new version =
     \<lparr>els_version = el_version_u8 version, els_wire_counter = 0, els_packets_received = 0,
      els_replay = replay_window_default,
      els_keys = \<lparr>current_self = None, next_self = None, current_peer = None, prev_peer = None\<rparr>,
      els_has_self = False, els_has_peer = False\<rparr>"

definition els_get_version :: "'a el_session \<Rightarrow> expresslane_version" where
  "els_get_version s = el_version_from_u8 (els_version s)"

definition els_packets_sent :: "'a el_session \<Rightarrow> u64" where
  "els_packets_sent s = els_wire_counter s"

definition els_set_version :: "expresslane_version \<Rightarrow> 'a el_session \<Rightarrow> bool \<times> 'a el_session" where
  "els_set_version version s =
     (if els_packets_sent s > 0 then (False, s)
      else (True, s\<lparr>els_version := el_version_u8 version\<rparr>))"

definition els_update_next_self_key ::
  "'a aead_ops \<Rightarrow> expresslane_key \<Rightarrow> 'a el_session \<Rightarrow> (expresslane_error + unit) \<times> 'a el_session" where
  "els_update_next_self_key A key s =
     (case aead_new A key of
        Inl e \<Rightarrow> (Inl e, s)
      | Inr a \<Rightarrow> (Inr (), s\<lparr>els_keys := (els_keys s)\<lparr>next_self := Some \<lparr>kd_key = key, kd_aead = a\<rparr>\<rparr>\<rparr>))"

definition els_promote_self_key :: "'a el_session \<Rightarrow> 'a el_session" where
  "els_promote_self_key s =
     (case next_self (els_keys s) of
        None \<Rightarrow> s
      | Some next \<Rightarrow>
          s\<lparr>els_has_self := \<not> el_key_is_invalid (kd_key next),
            els_keys := (els_keys s)\<lparr>next_self := None, current_self := Some next\<rparr>\<rparr>)"

definition els_update_peer_key ::
  "'a aead_ops \<Rightarrow> expresslane_key \<Rightarrow> 'a el_session \<Rightarrow> (expresslane_error + unit) \<times> 'a el_session" where
  "els_update_peer_key A key s =
     (case aead_new A key of
        Inl e \<Rightarrow> (Inl e, s)
      | Inr a \<Rightarrow>
          (Inr (), s\<lparr>els_has_peer := \<not> el_key_is_invalid key,
             els_keys := (els_keys s)\<lparr>prev_peer := current_peer (els_keys s),
               current_peer := Some \<lparr>kd_key = key, kd_aead = a\<rparr>\<rparr>\<rparr>))"

definition els_self_key :: "'a el_session \<Rightarrow> expresslane_key" where
  "els_self_key s = (case current_self (els_keys s) of Some k \<Rightarrow> kd_key k | None \<Rightarrow> EL_KEY_INVALID)"

definition els_peer_key :: "'a el_session \<Rightarrow> expresslane_key" where
  "els_peer_key s = (case current_peer (els_keys s) of Some k \<Rightarrow> kd_key k | None \<Rightarrow> EL_KEY_INVALID)"

definition els_has_valid_keys :: "'a el_session \<Rightarrow> bool" where
  "els_has_valid_keys s \<longleftrightarrow> els_has_self s \<and> els_has_peer s"

definition els_reserve_counter :: "'a el_session \<Rightarrow> u64 \<times> 'a el_session" where
  "els_reserve_counter s =
     (let counter = els_wire_counter s + 1 in (counter, s\<lparr>els_wire_counter := counter\<rparr>))"

text \<open>The key lookup of the send path: \<open>NoKey\<close> for an empty slot and for the sentinel.\<close>

definition usable_key :: "'a keyed option \<Rightarrow> expresslane_error + 'a keyed" where
  "usable_key slot =
     (case slot of
        None \<Rightarrow> Inl NoKey
      | Some k \<Rightarrow> if el_key_is_invalid (kd_key k) then Inl NoKey else Inr k)"

definition els_append_to_wire ::
  "'a aead_ops \<Rightarrow> 'a el_session \<Rightarrow> bytes \<Rightarrow> session_id \<Rightarrow> bytes \<Rightarrow> bytes \<Rightarrow> bool
     \<Rightarrow> (expresslane_error + unit) \<times> bytes \<times> 'a el_session" where
  "els_append_to_wire A s buf session_id plaintext iv is_encoded =
     (if length plaintext > EL_MAX_PLAINTEXT then (Inl PayloadTooLarge, buf, s)
      else
        let flags = flags_new is_encoded;
            (counter, s) = els_reserve_counter s;
            aad = build_aad (els_get_version s) session_id counter flags
        in case usable_key (current_self (els_keys s)) of
             Inl e \<Rightarrow> (Inl e, buf, s)
           | Inr current \<Rightarrow>
               (case aead_seal A (kd_aead current) iv plaintext aad of
                  Inl e \<Rightarrow> (Inl e, buf, s)
                | Inr (cipher_text, auth_tag) \<Rightarrow>
                    (Inr (), buf @ be_bytes 8 counter @ iv @ auth_tag
                       @ be_bytes 2 (len_u16 cipher_text) @ be_bytes 2 flags @ cipher_text, s)))"

definition els_encrypt_into ::
  "'a aead_ops \<Rightarrow> 'a el_session \<Rightarrow> u64 \<Rightarrow> session_id \<Rightarrow> bytes \<Rightarrow> bytes \<Rightarrow> bool \<Rightarrow> bytes
     \<Rightarrow> ((expresslane_error + usize) \<times> bytes) option" where
  "els_encrypt_into A s counter session_id plaintext iv is_encoded out =
     (if length plaintext > EL_MAX_PLAINTEXT then Some (Inl PayloadTooLarge, out)
      else
        let frame_len = EL_WIRE_OVERHEAD + length plaintext in
        if length out < frame_len then Some (Inl BufferTooSmall, out)
        else
          let flags = flags_new is_encoded;
              aad = build_aad (els_get_version s) session_id counter flags
          in case usable_key (current_self (els_keys s)) of
               Inl e \<Rightarrow> Some (Inl e, out)
             | Inr current \<Rightarrow> do {
                 r \<leftarrow> aead_seal_into A (kd_aead current) iv plaintext aad (frame_len - EL_WIRE_OVERHEAD);
                 case r of
                   Inl e \<Rightarrow> Some (Inl e, out)
                 | Inr (ct, tag) \<Rightarrow>
                     Some (Inr frame_len,
                       be_bytes 8 counter @ iv @ tag @ be_bytes 2 (len_u16 plaintext)
                       @ be_bytes 2 flags @ ct @ drop frame_len out) })"

text \<open>The 40 byte header: counter, IV, tag, data length and flags.\<close>

record el_header =
  eh_wire_counter :: u64
  eh_iv :: bytes
  eh_auth_tag :: bytes
  eh_data_len :: usize
  eh_flags :: u16

definition els_read_header :: "bytes \<Rightarrow> el_header" where
  "els_read_header header =
     \<lparr>eh_wire_counter = be_word (take 8 header),
      eh_iv = take 12 (drop 8 header),
      eh_auth_tag = take 16 (drop 20 header),
      eh_data_len = unat (be_word (take 2 (drop 36 header)) :: u16),
      eh_flags = be_word (take 2 (drop 38 header))\<rparr>"

text \<open>
  Opening with the current peer key and, when that fails, with the previous one, as both
  receive methods do.
\<close>

definition els_open_with_grace ::
  "('a \<Rightarrow> expresslane_error + 'r) \<Rightarrow> 'a keys \<Rightarrow> expresslane_error + 'r" where
  "els_open_with_grace open_fn ks =
     (case usable_key (current_peer ks) of
        Inl e \<Rightarrow> Inl e
      | Inr current \<Rightarrow>
          (case open_fn (kd_aead current) of
             Inr p \<Rightarrow> Inr p
           | Inl e \<Rightarrow>
               (case prev_peer ks of
                  Some prev \<Rightarrow> if \<not> el_key_is_invalid (kd_key prev) then open_fn (kd_aead prev) else Inl e
                | None \<Rightarrow> Inl e)))"

definition els_try_from_wire ::
  "'a aead_ops \<Rightarrow> 'a el_session \<Rightarrow> bytes \<Rightarrow> session_id
     \<Rightarrow> (expresslane_error + (bytes \<times> bool)) \<times> bytes \<times> 'a el_session" where
  "els_try_from_wire A s buf session_id =
     (if length buf < EL_WIRE_OVERHEAD then (Inl ELInsufficientData, buf, s)
      else
        let h = els_read_header (take EL_WIRE_OVERHEAD buf);
            frame_len = EL_WIRE_OVERHEAD + eh_data_len h
        in if length buf < frame_len then (Inl ELInsufficientData, buf, s)
           else if rw_would_reject (els_replay s) (eh_wire_counter h) then (Inl Replayed, buf, s)
           else
             let aad = build_aad (els_get_version s) session_id (eh_wire_counter h) (eh_flags h);
                 cipher_text = take (eh_data_len h) (drop EL_WIRE_OVERHEAD buf)
             in case els_open_with_grace
                       (\<lambda>a. aead_open A a (eh_iv h) cipher_text aad (eh_auth_tag h)) (els_keys s) of
                  Inl e \<Rightarrow> (Inl e, buf, s)
                | Inr plain_text \<Rightarrow>
                    let (fresh, w) = rw_commit (els_replay s) (eh_wire_counter h);
                        s = s\<lparr>els_replay := w\<rparr>
                    in if \<not> fresh then (Inl Replayed, buf, s)
                       else (Inr (plain_text, flags_encoded (eh_flags h)), drop frame_len buf,
                             s\<lparr>els_packets_received := els_packets_received s + 1\<rparr>))"

definition els_decrypt_into ::
  "'a aead_ops \<Rightarrow> 'a el_session \<Rightarrow> session_id \<Rightarrow> bytes \<Rightarrow> bytes
     \<Rightarrow> ((expresslane_error + (usize \<times> bool)) \<times> bytes \<times> 'a el_session) option" where
  "els_decrypt_into A s session_id wire_packet out =
     (if length wire_packet < EL_WIRE_OVERHEAD then Some (Inl ELInsufficientData, out, s)
      else
        let h = els_read_header (take EL_WIRE_OVERHEAD wire_packet);
            data_len = eh_data_len h;
            frame_len = EL_WIRE_OVERHEAD + data_len
        in if length wire_packet < frame_len then Some (Inl ELInsufficientData, out, s)
           else if length out < data_len then Some (Inl BufferTooSmall, out, s)
           else if rw_would_reject (els_replay s) (eh_wire_counter h) then Some (Inl Replayed, out, s)
           else
             let aad = build_aad (els_get_version s) session_id (eh_wire_counter h) (eh_flags h);
                 cipher_text = take data_len (drop EL_WIRE_OVERHEAD wire_packet);
                 open_fn = (\<lambda>a. aead_open_into A a (eh_iv h) cipher_text aad (eh_auth_tag h) (take data_len out))
             in do {
                  opened \<leftarrow> (case usable_key (current_peer (els_keys s)) of
                     Inl e \<Rightarrow> Some (Inl e)
                   | Inr current \<Rightarrow> do {
                       r \<leftarrow> open_fn (kd_aead current);
                       case r of
                         Inr p \<Rightarrow> Some (Inr p)
                       | Inl e \<Rightarrow>
                           (case prev_peer (els_keys s) of
                              Some prev \<Rightarrow>
                                if \<not> el_key_is_invalid (kd_key prev) then open_fn (kd_aead prev)
                                else Some (Inl e)
                            | None \<Rightarrow> Some (Inl e)) });
                  case opened of
                    Inl e \<Rightarrow> Some (Inl e, out, s)
                  | Inr (plain_len, plain) \<Rightarrow>
                      let (fresh, w) = rw_commit (els_replay s) (eh_wire_counter h);
                          s = s\<lparr>els_replay := w\<rparr>;
                          out = plain @ drop data_len out
                      in if \<not> fresh then Some (Inl Replayed, out, s)
                         else Some (Inr (plain_len, flags_encoded (eh_flags h)), out,
                                s\<lparr>els_packets_received := els_packets_received s + 1\<rparr>) })"

section \<open>The contract of the AEAD\<close>

text \<open>
  What AES-256-GCM guarantees and the session relies on: the instance built for a key opens
  what it sealed, lengths are preserved and the tag has 16 bytes.
\<close>

definition aead_ok :: "'a aead_ops \<Rightarrow> bool" where
  "aead_ok A \<longleftrightarrow>
     (\<forall>k a iv pt aad ct tag. aead_new A k = Inr a \<longrightarrow> aead_seal A a iv pt aad = Inr (ct, tag) \<longrightarrow>
        aead_open A a iv ct aad tag = Inr pt \<and> length ct = length pt \<and> length tag = 16)
     \<and> (\<forall>a iv pt aad ct tag. aead_open A a iv ct aad tag = Inr pt \<longrightarrow> length pt = length ct)"

lemma aead_okD:
  assumes "aead_ok A" "aead_new A k = Inr a" "aead_seal A a iv pt aad = Inr (ct, tag)"
  shows "aead_open A a iv ct aad tag = Inr pt" "length ct = length pt" "length tag = 16"
  using assms unfolding aead_ok_def by blast+

lemma aead_open_length:
  "aead_ok A \<Longrightarrow> aead_open A a iv ct aad tag = Inr pt \<Longrightarrow> length pt = length ct"
  unfolding aead_ok_def by blast

text \<open>
  An instance: the key stream is the key byte sum added to every byte, and the tag is the sum
  of everything authenticated. It shows that the contract can be met.
\<close>

definition sum_aead :: "bytes aead_ops" where
  "sum_aead = \<lparr>
     aead_new = Inr,
     aead_seal = (\<lambda>k iv pt aad.
       Inr (map ((+) (sum_list k)) pt, replicate 16 (sum_list (k @ iv @ pt @ aad)))),
     aead_open = (\<lambda>k iv ct aad tag.
       let pt = map (\<lambda>b. b - sum_list k) ct in
       if tag = replicate 16 (sum_list (k @ iv @ pt @ aad)) then Inr pt else Inl AuthFailed)\<rparr>"

lemma sum_aead_ok: "aead_ok sum_aead"
  by (auto simp: aead_ok_def sum_aead_def Let_def o_def split: if_splits)

section \<open>Session invariant\<close>

definition keyed_ok :: "'a aead_ops \<Rightarrow> 'a keyed option \<Rightarrow> bool" where
  "keyed_ok A slot \<longleftrightarrow> (case slot of None \<Rightarrow> True | Some k \<Rightarrow> aead_new A (kd_key k) = Inr (kd_aead k))"

definition valid_slot :: "'a keyed option \<Rightarrow> bool" where
  "valid_slot slot \<longleftrightarrow> (case slot of None \<Rightarrow> False | Some k \<Rightarrow> \<not> el_key_is_invalid (kd_key k))"

definition els_inv :: "'a aead_ops \<Rightarrow> 'a el_session \<Rightarrow> bool" where
  "els_inv A s \<longleftrightarrow>
     (\<exists>S. rw_abs (els_replay s) S)
     \<and> keyed_ok A (current_self (els_keys s)) \<and> keyed_ok A (next_self (els_keys s))
     \<and> keyed_ok A (current_peer (els_keys s)) \<and> keyed_ok A (prev_peer (els_keys s))
     \<and> els_has_self s = valid_slot (current_self (els_keys s))
     \<and> els_has_peer s = valid_slot (current_peer (els_keys s))"

inductive els_reachable :: "'a aead_ops \<Rightarrow> 'a el_session \<Rightarrow> bool" for A where
  new: "els_reachable A (els_new v)"
| set_version: "els_reachable A s \<Longrightarrow> els_reachable A (snd (els_set_version v s))"
| update_next: "els_reachable A s \<Longrightarrow> els_reachable A (snd (els_update_next_self_key A k s))"
| promote: "els_reachable A s \<Longrightarrow> els_reachable A (els_promote_self_key s)"
| update_peer: "els_reachable A s \<Longrightarrow> els_reachable A (snd (els_update_peer_key A k s))"
| reserve: "els_reachable A s \<Longrightarrow> els_reachable A (snd (els_reserve_counter s))"
| append: "els_reachable A s \<Longrightarrow>
    els_reachable A (snd (snd (els_append_to_wire A s buf sid pt iv enc)))"
| receive: "els_reachable A s \<Longrightarrow> els_reachable A (snd (snd (els_try_from_wire A s buf sid)))"
| decrypt: "els_reachable A s \<Longrightarrow> els_decrypt_into A s sid pkt out = Some (r, out', s') \<Longrightarrow>
    els_reachable A s'"

lemma rw_abs_commit: "rw_abs w S \<Longrightarrow> \<exists>T. rw_abs (snd (rw_commit w c)) T"
  using rw_commit_refines by blast

lemma els_append_state:
  "snd (snd (els_append_to_wire A s buf sid pt iv enc))
     = (if length pt > EL_MAX_PLAINTEXT then s else s\<lparr>els_wire_counter := els_wire_counter s + 1\<rparr>)"
  by (simp add: els_append_to_wire_def els_reserve_counter_def Let_def split: sum.split prod.split)

lemma rw_commit_fst [simp]: "fst (rw_commit w c) \<longleftrightarrow> \<not> rw_would_reject w c"
  by (simp add: rw_commit_def Let_def)

text \<open>One at a time, a previewed counter is always committed: the second test never fires.\<close>

definition els_committed :: "'a el_session \<Rightarrow> u64 \<Rightarrow> 'a el_session" where
  "els_committed s c =
     s\<lparr>els_replay := snd (rw_commit (els_replay s) c), els_packets_received := els_packets_received s + 1\<rparr>"

lemma els_try_from_wire_eq:
  "els_try_from_wire A s buf sid =
     (if length buf < 40 then (Inl ELInsufficientData, buf, s)
      else
        let h = els_read_header (take 40 buf) in
        if length buf < 40 + eh_data_len h then (Inl ELInsufficientData, buf, s)
        else if rw_would_reject (els_replay s) (eh_wire_counter h) then (Inl Replayed, buf, s)
        else case els_open_with_grace (\<lambda>a. aead_open A a (eh_iv h)
                    (take (eh_data_len h) (drop 40 buf))
                    (build_aad (els_get_version s) sid (eh_wire_counter h) (eh_flags h))
                    (eh_auth_tag h)) (els_keys s) of
               Inl e \<Rightarrow> (Inl e, buf, s)
             | Inr pt \<Rightarrow> (Inr (pt, flags_encoded (eh_flags h)), drop (40 + eh_data_len h) buf,
                 els_committed s (eh_wire_counter h)))"
  by (simp add: els_try_from_wire_def Let_def const_defs els_committed_def split_beta split: sum.split)

lemma els_decrypt_state:
  "els_decrypt_into A s sid pkt out = Some (r, out', s') \<Longrightarrow>
     s' = s \<or> (\<exists>c. s' = els_committed s c)"
  by (simp only: els_decrypt_into_def Let_def split_beta rw_commit_fst)
    (auto simp: els_committed_def split: if_splits sum.splits bind_splits)

lemma els_try_state:
  "snd (snd (els_try_from_wire A s buf sid)) = s
     \<or> (\<exists>c. snd (snd (els_try_from_wire A s buf sid)) = els_committed s c)"
  by (auto simp: els_try_from_wire_eq Let_def split: sum.split)

lemma els_committed_inv: "els_inv A s \<Longrightarrow> els_inv A (els_committed s c)"
  using rw_abs_commit by (fastforce simp: els_inv_def els_committed_def)

lemma els_reachable_inv: "els_reachable A s \<Longrightarrow> els_inv A s"
proof (induction rule: els_reachable.induct)
  case (new v)
  then show ?case
    using rw_abs_default by (auto simp: els_inv_def els_new_def keyed_ok_def valid_slot_def)
next
  case (set_version s v)
  then show ?case by (auto simp: els_inv_def els_set_version_def)
next
  case (update_next s k)
  then show ?case
    by (auto simp: els_inv_def els_update_next_self_key_def keyed_ok_def split: sum.splits option.splits)
next
  case (promote s)
  then show ?case
    by (auto simp: els_inv_def els_promote_self_key_def keyed_ok_def valid_slot_def split: option.splits)
next
  case (update_peer s k)
  then show ?case
    by (auto simp: els_inv_def els_update_peer_key_def keyed_ok_def valid_slot_def
        split: sum.splits option.splits)
next
  case (reserve s)
  then show ?case by (simp add: els_inv_def els_reserve_counter_def Let_def)
next
  case (append s buf sid pt iv enc)
  then show ?case by (simp add: els_append_state els_inv_def)
next
  case (receive s buf sid)
  then show ?case using els_try_state [of A s buf sid] els_committed_inv by fastforce
next
  case (decrypt s sid pkt out r out' s')
  then show ?case using els_decrypt_state els_committed_inv by blast
qed

section \<open>Round trip\<close>

lemma be_word_u16_take [simp]: "be_word (take 2 (be_bytes 2 w @ xs)) = (w :: u16)"
  by simp

lemma flags_encoded_new [simp]: "flags_encoded (flags_new e) = e"
  by (simp add: flags_encoded_def flags_new_def)

definition el_frame :: "u64 \<Rightarrow> bytes \<Rightarrow> bytes \<Rightarrow> u16 \<Rightarrow> bytes \<Rightarrow> bytes" where
  "el_frame counter iv tag flags ct =
     be_bytes 8 counter @ iv @ tag @ be_bytes 2 (len_u16 ct) @ be_bytes 2 flags @ ct"

lemma length_el_frame [simp]:
  "length iv = 12 \<Longrightarrow> length tag = 16 \<Longrightarrow> length (el_frame c iv tag f ct) = 40 + length ct"
  by (simp add: el_frame_def)

lemma els_read_header_frame [simp]:
  assumes "length iv = 12" "length tag = 16" "length ct \<le> 65535"
  shows "els_read_header (take 40 (el_frame c iv tag f ct @ rest)) =
    \<lparr>eh_wire_counter = c, eh_iv = iv, eh_auth_tag = tag, eh_data_len = length ct, eh_flags = f\<rparr>"
  using assms by (simp add: els_read_header_def el_frame_def)

lemma el_frame_data [simp]:
  assumes "length iv = 12" "length tag = 16"
  shows "take (length ct) (drop 40 (el_frame c iv tag f ct @ rest)) = ct"
    and "drop (40 + length ct) (el_frame c iv tag f ct @ rest) = rest"
  using assms by (simp_all add: el_frame_def)

lemma els_append_frame:
  assumes "els_append_to_wire A s buf sid pt iv enc = (Inr (), buf', s')"
  shows "\<exists>k ct tag. current_self (els_keys s) = Some k \<and> \<not> el_key_is_invalid (kd_key k)
    \<and> length pt \<le> 65535
    \<and> aead_seal A (kd_aead k) iv pt
        (build_aad (els_get_version s) sid (els_wire_counter s + 1) (flags_new enc)) = Inr (ct, tag)
    \<and> buf' = buf @ el_frame (els_wire_counter s + 1) iv tag (flags_new enc) ct
    \<and> s' = s\<lparr>els_wire_counter := els_wire_counter s + 1\<rparr>"
  using assms
  by (auto simp: els_append_to_wire_def els_reserve_counter_def Let_def const_defs usable_key_def
      el_frame_def els_get_version_def split: if_splits sum.splits option.splits)

lemma els_receive_frame:
  assumes "length iv = 12" "length tag = 16" "length ct \<le> 65535"
    and "\<not> rw_would_reject (els_replay r) c"
    and "els_open_with_grace (\<lambda>a. aead_open A a iv ct (build_aad (els_get_version r) sid c f) tag)
      (els_keys r) = Inr pt"
  shows "els_try_from_wire A r (el_frame c iv tag f ct @ rest) sid =
    (Inr (pt, flags_encoded f), rest, els_committed r c)"
  using assms by (simp add: els_try_from_wire_eq Let_def del: take_append drop_append)

lemma els_committed_replay:
  "els_inv A r \<Longrightarrow> rw_would_reject (els_replay (els_committed r c)) c"
  using rw.commit_twice by (auto simp: els_inv_def els_committed_def)

lemma els_receive_replayed:
  assumes "length iv = 12" "length tag = 16" "length ct \<le> 65535"
    and "rw_would_reject (els_replay r) c"
  shows "els_try_from_wire A r (el_frame c iv tag f ct @ rest) sid =
    (Inl Replayed, el_frame c iv tag f ct @ rest, r)"
  using assms by (simp add: els_try_from_wire_eq Let_def del: take_append drop_append)

lemma els_open_current:
  "current_peer ks = Some k \<Longrightarrow> \<not> el_key_is_invalid (kd_key k) \<Longrightarrow> f (kd_aead k) = Inr pt \<Longrightarrow>
     els_open_with_grace f ks = Inr pt"
  by (simp add: els_open_with_grace_def usable_key_def)

lemma els_open_prev:
  "current_peer ks = Some c \<Longrightarrow> \<not> el_key_is_invalid (kd_key c) \<Longrightarrow> f (kd_aead c) = Inl e \<Longrightarrow>
     prev_peer ks = Some k \<Longrightarrow> \<not> el_key_is_invalid (kd_key k) \<Longrightarrow>
     els_open_with_grace f ks = f (kd_aead k)"
  by (simp add: els_open_with_grace_def usable_key_def)

text \<open>
  C29. ExpressLane round trip: a frame the sender produced is authenticated and decrypted by any
  reachable receiver that negotiated the same version, holds the sender's key as its peer key
  and has not seen the counter; the receiver gets the plaintext and the codec flag, consumes
  exactly the frame, and counts one packet. Presenting the same bytes again is rejected as a
  replay and changes neither the buffer nor the session.
\<close>

theorem els_roundtrip_once:
  assumes "aead_ok A" and "els_reachable A s" and "els_reachable A r" and "length iv = 12"
    and "els_append_to_wire A s [] sid pt iv enc = (Inr (), frame, s')"
    and "els_get_version r = els_get_version s"
    and "current_peer (els_keys r) = current_self (els_keys s)"
    and "\<not> rw_would_reject (els_replay r) (els_wire_counter s + 1)"
  shows "\<exists>r'. els_try_from_wire A r (frame @ rest) sid = (Inr (pt, enc), rest, r')
    \<and> els_packets_received r' = els_packets_received r + 1
    \<and> els_try_from_wire A r' (frame @ rest) sid = (Inl Replayed, frame @ rest, r')"
proof -
  let ?c = "els_wire_counter s + 1"
  obtain k ct tag where k: "current_self (els_keys s) = Some k" "\<not> el_key_is_invalid (kd_key k)"
    "length pt \<le> 65535"
    and seal: "aead_seal A (kd_aead k) iv pt (build_aad (els_get_version s) sid ?c (flags_new enc)) = Inr (ct, tag)"
    and frame: "frame = el_frame ?c iv tag (flags_new enc) ct"
    using els_append_frame [OF assms(5)] by auto
  have "aead_new A (kd_key k) = Inr (kd_aead k)"
    using els_reachable_inv [OF assms(2)] k(1) by (simp add: els_inv_def keyed_ok_def)
  note opened = aead_okD [OF assms(1) this seal]
  have "els_open_with_grace (\<lambda>a. aead_open A a iv ct (build_aad (els_get_version r) sid ?c (flags_new enc)) tag)
      (els_keys r) = Inr pt"
    using assms(6,7) k opened(1) by (intro els_open_current) simp_all
  then have "els_try_from_wire A r (frame @ rest) sid = (Inr (pt, enc), rest, els_committed r ?c)"
    using els_receive_frame [of iv tag ct r ?c] assms(4,8) opened(2,3) k(3) frame by simp
  moreover have "els_try_from_wire A (els_committed r ?c) (frame @ rest) sid
      = (Inl Replayed, frame @ rest, els_committed r ?c)"
    using els_receive_replayed [of iv tag ct "els_committed r ?c" ?c] opened(2,3) k(3) frame assms(4)
      els_committed_replay [OF els_reachable_inv [OF assms(3)]] by simp
  ultimately show ?thesis by (auto simp: els_committed_def)
qed


definition w_key :: expresslane_key where "w_key = replicate 32 7"

definition w_sender :: "bytes el_session" where
  "w_sender = els_promote_self_key (snd (els_update_next_self_key sum_aead w_key (els_new ELVersion2)))"

definition w_receiver :: "bytes el_session" where
  "w_receiver = snd (els_update_peer_key sum_aead w_key (els_new ELVersion2))"

lemma w_reachable: "els_reachable sum_aead w_sender" "els_reachable sum_aead w_receiver"
  unfolding w_sender_def w_receiver_def by (intro els_reachable.intros)+

lemmas w_defs = w_sender_def w_receiver_def els_promote_self_key_def els_update_next_self_key_def
  els_update_peer_key_def els_new_def sum_aead_def els_get_version_def

lemma w_key_valid: "\<not> el_key_is_invalid w_key"
  by (simp add: el_key_is_invalid_def EL_KEY_INVALID_def w_key_def const_defs replicate_eq_replicate)

lemma w_append:
  "\<exists>frame s'. els_append_to_wire sum_aead w_sender [] sid [1, 2] iv True = (Inr (), frame, s')"
  using w_key_valid
  by (simp add: els_append_to_wire_def w_defs usable_key_def const_defs Let_def els_reserve_counter_def)

lemma w_fresh: "\<not> rw_would_reject (els_replay w_receiver) (els_wire_counter w_sender + 1)"
  by (simp add: w_defs rw_would_reject_def replay_window_default_def)

theorem els_roundtrip_once_witness:
  "\<exists>frame r'. els_try_from_wire sum_aead w_receiver (frame @ [9]) (replicate 8 5) = (Inr ([1, 2], True), [9], r')
    \<and> els_try_from_wire sum_aead r' (frame @ [9]) (replicate 8 5) = (Inl Replayed, frame @ [9], r')"
proof -
  obtain frame s' where f: "els_append_to_wire sum_aead w_sender [] (replicate 8 5) [1, 2] (replicate 12 3) True
      = (Inr (), frame, s')" using w_append by blast
  have "els_get_version w_receiver = els_get_version w_sender"
    "current_peer (els_keys w_receiver) = current_self (els_keys w_sender)"
    by (simp_all add: w_defs)
  then show ?thesis
    using els_roundtrip_once [OF sum_aead_ok w_reachable _ f, of "[9]"] w_fresh by auto
qed

text \<open>
  Key rotation grace: after the receiver installs a new peer key, a frame sealed under the
  previous key is still accepted whenever the new key does not open it, so packets in flight
  across a rotation are not lost.
\<close>

lemma els_rotation_grace:
  assumes "aead_ok A" and "els_reachable A s" and "length iv = 12"
    and "els_append_to_wire A s [] sid pt iv enc = (Inr (), frame, s')"
    and "els_get_version r = els_get_version s"
    and "current_peer (els_keys r) = current_self (els_keys s)"
    and "\<not> rw_would_reject (els_replay r) (els_wire_counter s + 1)"
    and "els_update_peer_key A newkey r = (Inr (), r2)" and "\<not> el_key_is_invalid newkey"
    and "aead_new A newkey = Inr b"
    and "h = els_read_header (take 40 frame)"
    and "aead_open A b (eh_iv h) (drop 40 frame)
      (build_aad (els_get_version s) sid (eh_wire_counter h) (eh_flags h)) (eh_auth_tag h) = Inl e"
  shows "els_try_from_wire A r2 (frame @ rest) sid
    = (Inr (pt, enc), rest, els_committed r2 (els_wire_counter s + 1))"
proof -
  let ?c = "els_wire_counter s + 1"
  obtain k ct tag where k: "current_self (els_keys s) = Some k" "\<not> el_key_is_invalid (kd_key k)"
    "length pt \<le> 65535"
    and seal: "aead_seal A (kd_aead k) iv pt (build_aad (els_get_version s) sid ?c (flags_new enc)) = Inr (ct, tag)"
    and frame: "frame = el_frame ?c iv tag (flags_new enc) ct"
    using els_append_frame [OF assms(4)] by auto
  have "aead_new A (kd_key k) = Inr (kd_aead k)"
    using els_reachable_inv [OF assms(2)] k(1) by (simp add: els_inv_def keyed_ok_def)
  note opened = aead_okD [OF assms(1) this seal]
  have r2: "r2 = r\<lparr>els_has_peer := True, els_keys := (els_keys r)\<lparr>prev_peer := Some k,
      current_peer := Some \<lparr>kd_key = newkey, kd_aead = b\<rparr>\<rparr>\<rparr>"
    using assms(6,8,9,10) k(1) by (simp add: els_update_peer_key_def)
  have "aead_open A b iv ct (build_aad (els_get_version r2) sid ?c (flags_new enc)) tag = Inl e"
    using assms(3,5,11,12) opened(2,3) k(3) els_read_header_frame [of iv tag ct ?c "flags_new enc" "[]"]
      el_frame_data(1) [of iv tag ct ?c "flags_new enc" "[]"]
    by (simp add: frame r2 els_get_version_def)
  then have "els_open_with_grace
      (\<lambda>a. aead_open A a iv ct (build_aad (els_get_version r2) sid ?c (flags_new enc)) tag) (els_keys r2)
      = aead_open A (kd_aead k) iv ct (build_aad (els_get_version r2) sid ?c (flags_new enc)) tag"
    using els_open_prev [of "els_keys r2" "\<lparr>kd_key = newkey, kd_aead = b\<rparr>"
        "\<lambda>a. aead_open A a iv ct (build_aad (els_get_version r2) sid ?c (flags_new enc)) tag" e k]
      assms(9) k(2) by (simp add: r2)
  also have "\<dots> = Inr pt"
    using assms(5) opened(1) by (simp add: r2 els_get_version_def)
  finally show ?thesis
    using els_receive_frame [of iv tag ct r2 ?c] assms(3,7) opened(2,3) k(3) frame r2 by simp
qed

lemma w_grace_open:
  assumes "els_append_to_wire sum_aead w_sender [] sid [1, 2] (replicate 12 3) True = (Inr (), frame, s')"
    and "h = els_read_header (take 40 frame)"
  shows "aead_open sum_aead (replicate 32 6) (eh_iv h) (drop 40 frame)
    (build_aad (els_get_version w_sender) sid (eh_wire_counter h) (eh_flags h)) (eh_auth_tag h) = Inl AuthFailed"
proof -
  obtain k ct tag where k: "current_self (els_keys w_sender) = Some k"
    and seal: "aead_seal sum_aead (kd_aead k) (replicate 12 3) [1, 2]
      (build_aad (els_get_version w_sender) sid (els_wire_counter w_sender + 1) (flags_new True)) = Inr (ct, tag)"
    and frame: "frame = el_frame (els_wire_counter w_sender + 1) (replicate 12 3) tag (flags_new True) ct"
    using els_append_frame [OF assms(1)] by auto
  have "kd_aead k = w_key" using k by (auto simp: w_defs)
  then have "ct = [225, 226]" "length tag = 16"
    "tag = replicate 16 (sum_list (w_key @ replicate 12 3 @ [1, 2]
      @ build_aad (els_get_version w_sender) sid (els_wire_counter w_sender + 1) (flags_new True)))"
    using seal by (auto simp: sum_aead_def w_key_def sum_list_replicate)
  then show ?thesis
    using els_read_header_frame [of "replicate 12 3" tag ct "els_wire_counter w_sender + 1" "flags_new True" "[]"]
      el_frame_data(1) [of "replicate 12 3" tag ct "els_wire_counter w_sender + 1" "flags_new True" "[]"]
    by (simp add: assms(2) frame sum_aead_def Let_def w_key_def sum_list_replicate replicate_eq_replicate)
qed

lemma els_rotation_grace_witness:
  "\<exists>frame r'. els_try_from_wire sum_aead
     (snd (els_update_peer_key sum_aead (replicate 32 6) w_receiver)) frame (replicate 8 5)
     = (Inr ([1, 2], True), [], r')"
proof -
  obtain frame s' where f: "els_append_to_wire sum_aead w_sender [] (replicate 8 5) [1, 2] (replicate 12 3) True
      = (Inr (), frame, s')" using w_append by blast
  have k6: "\<not> el_key_is_invalid (replicate 32 6)"
    by (simp add: el_key_is_invalid_def EL_KEY_INVALID_def const_defs replicate_eq_replicate)
  have *: "els_get_version w_receiver = els_get_version w_sender"
    "current_peer (els_keys w_receiver) = current_self (els_keys w_sender)"
    "els_update_peer_key sum_aead (replicate 32 6) w_receiver
      = (Inr (), snd (els_update_peer_key sum_aead (replicate 32 6) w_receiver))"
    "aead_new sum_aead (replicate 32 6) = Inr (replicate 32 6)"
    by (simp_all add: w_defs)
  show ?thesis
    using els_rotation_grace [OF sum_aead_ok w_reachable(1) _ f *(1,2) w_fresh *(3) k6 *(4) refl
        w_grace_open [OF f refl], of "[]"] by auto
qed


section \<open>Failures and the validity flags\<close>

text \<open>
  A rejected packet changes nothing: whatever bytes arrive, every error of the receive path
  leaves the buffer byte for byte as it was and the whole session, the replay window and the
  counters included, unchanged; a success takes exactly one frame of at least 40 bytes. So a
  forged packet cannot advance the window, and the caller can hand the packet back.
\<close>

lemma els_reject_untouched:
  "(case els_try_from_wire A s buf sid of
      (Inl e, buf', s') \<Rightarrow> buf' = buf \<and> s' = s
    | (Inr (pt, enc), buf', s') \<Rightarrow>
        (let n = 40 + eh_data_len (els_read_header (take 40 buf)) in n \<le> length buf \<and> buf' = drop n buf)
        \<and> els_keys s' = els_keys s \<and> els_wire_counter s' = els_wire_counter s
        \<and> els_packets_received s' = els_packets_received s + 1)"
  by (auto simp: els_try_from_wire_eq Let_def els_committed_def split: sum.split)

text \<open>
  C31. The lock-free validity flags are exact: in every reachable session \<open>has_valid_keys\<close>
  holds exactly when both the sending and the receiving slot hold a key other than the all-zero
  sentinel. A session reported valid is therefore never used under the publicly known key, and
  a send fails only for an oversized payload or with an error the AEAD itself returned.
\<close>

theorem els_valid_flags_exact:
  assumes "els_reachable A s"
  shows "(els_has_valid_keys s \<longleftrightarrow>
      \<not> el_key_is_invalid (els_self_key s) \<and> \<not> el_key_is_invalid (els_peer_key s))
    \<and> (els_has_valid_keys s \<longrightarrow>
        (case fst (els_append_to_wire A s buf sid pt iv enc) of
           Inr _ \<Rightarrow> True
         | Inl e \<Rightarrow> e = PayloadTooLarge
             \<or> (\<exists>k aad. current_self (els_keys s) = Some k \<and> aead_seal A (kd_aead k) iv pt aad = Inl e)))"
proof -
  have inv: "els_has_self s = valid_slot (current_self (els_keys s))"
    "els_has_peer s = valid_slot (current_peer (els_keys s))"
    using els_reachable_inv [OF assms] by (simp_all add: els_inv_def)
  have "el_key_is_invalid EL_KEY_INVALID" by (simp add: el_key_is_invalid_def)
  then show ?thesis
    by (auto simp: els_has_valid_keys_def inv valid_slot_def els_self_key_def els_peer_key_def
        els_append_to_wire_def els_reserve_counter_def Let_def usable_key_def
        split: option.splits sum.splits)
qed

theorem els_valid_flags_exact_witness:
  "els_has_valid_keys w_sender \<longleftrightarrow>
     \<not> el_key_is_invalid (els_self_key w_sender) \<and> \<not> el_key_is_invalid (els_peer_key w_sender)"
  using els_valid_flags_exact [OF w_reachable(1)] by blast

section \<open>The allocation-free twins\<close>

lemma aead_open_into_exact:
  "aead_ok A \<Longrightarrow> length ct = length out \<Longrightarrow>
     aead_open_into A a iv ct aad tag out =
       Some (map_sum (\<lambda>e. e) (\<lambda>pt. (length pt, pt)) (aead_open A a iv ct aad tag))"
  by (auto simp: aead_open_into_def dest: aead_open_length split: sum.split)

lemma els_decrypt_into_eq:
  assumes "aead_ok A"
  shows "els_decrypt_into A s sid pkt out =
     (if length pkt < 40 then Some (Inl ELInsufficientData, out, s)
      else
        let h = els_read_header (take 40 pkt) in
        if length pkt < 40 + eh_data_len h then Some (Inl ELInsufficientData, out, s)
        else if length out < eh_data_len h then Some (Inl BufferTooSmall, out, s)
        else if rw_would_reject (els_replay s) (eh_wire_counter h) then Some (Inl Replayed, out, s)
        else case els_open_with_grace (\<lambda>a. aead_open A a (eh_iv h)
                    (take (eh_data_len h) (drop 40 pkt))
                    (build_aad (els_get_version s) sid (eh_wire_counter h) (eh_flags h))
                    (eh_auth_tag h)) (els_keys s) of
               Inl e \<Rightarrow> Some (Inl e, out, s)
             | Inr pt \<Rightarrow> Some (Inr (length pt, flags_encoded (eh_flags h)),
                 pt @ drop (eh_data_len h) out, els_committed s (eh_wire_counter h)))"
  using assms
  by (simp add: els_decrypt_into_def Let_def const_defs els_committed_def split_beta
      aead_open_into_exact els_open_with_grace_def split: sum.split option.split)

lemma els_opened_length:
  "aead_ok A \<Longrightarrow> els_open_with_grace (\<lambda>a. aead_open A a iv ct aad tag) ks = Inr pt \<Longrightarrow>
     length pt = length ct"
  by (auto simp: els_open_with_grace_def dest: aead_open_length split: sum.splits option.splits if_splits)

lemma els_decrypt_agrees:
  assumes "aead_ok A" "length pkt < 40 \<or> eh_data_len (els_read_header (take 40 pkt)) \<le> length out"
  shows "case els_try_from_wire A s pkt sid of
         (Inl e, _, s') \<Rightarrow> els_decrypt_into A s sid pkt out = Some (Inl e, out, s')
       | (Inr (plain, enc'), _, s') \<Rightarrow>
           \<exists>out'. els_decrypt_into A s sid pkt out = Some (Inr (length plain, enc'), out', s')
             \<and> take (length plain) out' = plain \<and> length out' = length out"
  using assms els_opened_length [OF assms(1)]
  by (auto simp: els_try_from_wire_eq els_decrypt_into_eq Let_def split: sum.split)



section \<open>Concurrent receive\<close>

text \<open>
  Several threads drive \<open>try_from_wire\<close> on one session. Each takes the window lock for the
  preview, runs the AEAD without a lock, and takes the lock again for the commit. The relation
  \<open>rx_step\<close> has a step per lock hold; \<open>rx_delivered\<close> logs the counters of the packets
  handed to the caller.
\<close>

datatype rx_pc = RxIdle | RxPreviewed u64 | RxOpened u64

record rx_state =
  rx_window :: replay_window
  rx_threads :: "nat \<Rightarrow> rx_pc"
  rx_delivered :: "u64 list"

definition rx_init :: rx_state where
  "rx_init = \<lparr>rx_window = replay_window_default, rx_threads = (\<lambda>_. RxIdle), rx_delivered = []\<rparr>"

inductive rx_step :: "rx_state \<Rightarrow> rx_state \<Rightarrow> bool" where
  rx_preview: "rx_threads st t = RxIdle \<Longrightarrow> \<not> rw_would_reject (rx_window st) c \<Longrightarrow>
    rx_step st (st\<lparr>rx_threads := (rx_threads st)(t := RxPreviewed c)\<rparr>)"
| rx_auth_failed: "rx_threads st t = RxPreviewed c \<Longrightarrow>
    rx_step st (st\<lparr>rx_threads := (rx_threads st)(t := RxIdle)\<rparr>)"
| rx_opened: "rx_threads st t = RxPreviewed c \<Longrightarrow>
    rx_step st (st\<lparr>rx_threads := (rx_threads st)(t := RxOpened c)\<rparr>)"
| rx_commit: "rx_threads st t = RxOpened c \<Longrightarrow> rw_commit (rx_window st) c = (fresh, w) \<Longrightarrow>
    rx_step st (st\<lparr>rx_window := w, rx_threads := (rx_threads st)(t := RxIdle),
      rx_delivered := (if fresh then rx_delivered st @ [c] else rx_delivered st)\<rparr>)"

definition rx_inv :: "rx_state \<Rightarrow> bool" where
  "rx_inv st \<longleftrightarrow> rw_abs (rx_window st) (unat ` set (rx_delivered st)) \<and> distinct (rx_delivered st)"

lemma rx_step_inv: "rx_step st st' \<Longrightarrow> rx_inv st \<Longrightarrow> rx_inv st'"
proof (induction rule: rx_step.induct)
  case (rx_commit st t c fresh w)
  then have w: "fresh = admits (unat ` set (rx_delivered st)) (unat c)"
    "rw_abs w (snd (filter_commit (unat ` set (rx_delivered st)) (unat c)))"
    using rw_commit_refines [of "rx_window st" "unat ` set (rx_delivered st)" c]
    by (auto simp: rx_inv_def filter_commit_def)
  then show ?case
    using rx_commit.prems by (auto simp: rx_inv_def filter_commit_def admits_def)
qed (simp_all add: rx_inv_def)



end
