(* ===== verification/Fragment_Map.thy ===== *)
theory Fragment_Map
  imports Wire_Payloads "HOL-Library.Multiset"
begin

text \<open>
  Fragmentation and reassembly: lightway-core/src/connection/fragment_map.rs and the splitting
  loop of \<open>Connection::send_fragmented_outside_data\<close>. A \<open>FragmentedPacket\<close> is the list of
  its contiguous runs. The \<open>LruCache\<close> of the crate \<open>lru\<close> is a parameter: a record of the
  operations the map calls, with their documented behaviour as the laws of the locale
  \<open>lru_cache\<close>; a recency list is an instance.
\<close>

datatype fragment_map_error = EmptyFragment | Overlapping | LastFragmentBeforeCurrentTail | AfterLast

datatype fragment_map_result = FmComplete bytes | FmIncomplete | FmErr fragment_map_error

record fragment =
  fg_start :: usize
  fg_size :: usize
  fg_is_last :: bool
  fg_data :: "bytes list"

type_synonym fragmented_packet = "fragment list"

definition fragment_new :: "data_frag \<Rightarrow> fragment" where
  "fragment_new frag = \<lparr>fg_start = df_offset frag, fg_size = length (df_data frag),
     fg_is_last = (\<not> df_more_fragments frag), fg_data = [df_data frag]\<rparr>"

definition fg_end :: "fragment \<Rightarrow> usize" where
  "fg_end f = fg_start f + fg_size f"

definition fg_is_complete_packet :: "fragment \<Rightarrow> bool" where
  "fg_is_complete_packet f \<longleftrightarrow> fg_start f = 0 \<and> fg_is_last f"

definition fg_merge :: "fragment \<Rightarrow> fragment \<Rightarrow> (fragment_map_error + fragment) option" where
  "fg_merge f next =
     (if fg_end f \<noteq> fg_start next then None
      else if fg_is_last f then Some (Inl AfterLast)
      else Some (Inr (f\<lparr>fg_size := fg_size f + fg_size next, fg_is_last := fg_is_last next,
                        fg_data := fg_data f @ fg_data next\<rparr>)))"

definition fg_add_wire_frag :: "fragment \<Rightarrow> data_frag \<Rightarrow> (fragment_map_error + fragment) option" where
  "fg_add_wire_frag f frag =
     (if fg_start f = df_end_offset frag then
        if \<not> df_more_fragments frag then Some (Inl LastFragmentBeforeCurrentTail)
        else Some (Inr (f\<lparr>fg_start := df_start_offset frag,
               fg_size := fg_size f + length (df_data frag), fg_data := df_data frag # fg_data f\<rparr>))
      else if fg_end f = df_start_offset frag then
        if fg_is_last f then Some (Inl AfterLast)
        else Some (Inr (f\<lparr>fg_size := fg_size f + length (df_data frag),
               fg_data := fg_data f @ [df_data frag], fg_is_last := \<not> df_more_fragments frag\<rparr>))
      else None)"

text \<open>
  The loop of \<open>FragmentedPacket::update\<close> over the runs from the current index on: the result
  and the runs it leaves, those before the index being kept by the caller.
\<close>

fun fp_update_loop :: "data_frag \<Rightarrow> fragmented_packet \<Rightarrow> ((fragment_map_error + unit) \<times> fragmented_packet) option"
  where
  "fp_update_loop frag [] = Some (Inr (), [fragment_new frag])"
| "fp_update_loop frag (cur # rest) =
     (if df_end_offset frag > fg_start cur \<and> df_start_offset frag < fg_end cur
      then Some (Inl Overlapping, cur # rest)
      else if df_end_offset frag < fg_start cur then Some (Inr (), fragment_new frag # cur # rest)
      else if df_end_offset frag = fg_start cur \<or> fg_end cur = df_start_offset frag then do {
        r \<leftarrow> fg_add_wire_frag cur frag;
        case r of
          Inl e \<Rightarrow> Some (Inl e, cur # rest)
        | Inr cur' \<Rightarrow>
            (case rest of
               [] \<Rightarrow> Some (Inr (), [cur'])
             | next # rest' \<Rightarrow>
                 if fg_end cur' = fg_start next then do {
                   r \<leftarrow> fg_merge cur' next;
                   case r of
                     Inl e \<Rightarrow> Some (Inl e, cur' # rest')
                   | Inr merged \<Rightarrow> Some (Inr (), merged # rest') }
                 else Some (Inr (), cur' # next # rest')) }
      else do {
        (r, rest') \<leftarrow> fp_update_loop frag rest;
        Some (r, cur # rest') })"

definition fp_update :: "data_frag \<Rightarrow> fragmented_packet \<Rightarrow> ((fragment_map_error + unit) \<times> fragmented_packet) option"
  where
  "fp_update frag fp =
     (if df_data frag = [] then Some (Inl EmptyFragment, fp) else fp_update_loop frag fp)"

definition fp_try_complete :: "fragmented_packet \<Rightarrow> bytes option \<times> fragmented_packet" where
  "fp_try_complete fp =
     (if length fp \<noteq> 1 then (None, fp)
      else if \<not> fg_is_complete_packet (fp ! 0) then (None, fp)
      else (Some (concat (fg_data (fp ! 0))), tl fp))"

section \<open>The cache and the map\<close>

record ('c, 'v) lru_ops =
  lru_new :: "nat \<Rightarrow> 'c"
  lru_get_or_insert_mut :: "u16 \<Rightarrow> 'v \<Rightarrow> 'c \<Rightarrow> 'v \<times> 'c"
  lru_write :: "u16 \<Rightarrow> 'v \<Rightarrow> 'c \<Rightarrow> 'c"
  lru_pop :: "u16 \<Rightarrow> 'c \<Rightarrow> 'v option \<times> 'c"

definition FRAGMENT_MAP_DEFAULT_MAX_ENTRIES :: usize where
  [const_defs]: "FRAGMENT_MAP_DEFAULT_MAX_ENTRIES = 4096"

definition fragment_map_new :: "('c, fragmented_packet) lru_ops \<Rightarrow> usize \<Rightarrow> 'c" where
  "fragment_map_new L max_capacity = lru_new L max_capacity"

text \<open>
  \<open>lru_write\<close> is the store through the reference \<open>get_or_insert_mut\<close> returned.
\<close>

definition fragment_map_add_fragment ::
  "('c, fragmented_packet) lru_ops \<Rightarrow> data_frag \<Rightarrow> 'c \<Rightarrow> (fragment_map_result \<times> 'c) option" where
  "fragment_map_add_fragment L frag m = do {
     let (fp, m) = lru_get_or_insert_mut L (df_id frag) [] m;
     (r, fp) \<leftarrow> fp_update frag fp;
     let m = lru_write L (df_id frag) fp m;
     case r of
       Inl err \<Rightarrow>
         (case lru_pop L (df_id frag) m of
            (None, m) \<Rightarrow> None
          | (Some _, m) \<Rightarrow> Some (FmErr err, m))
     | Inr _ \<Rightarrow>
         (case fp_try_complete fp of
            (Some b, fp) \<Rightarrow>
              (let m = lru_write L (df_id frag) fp m in Some (FmComplete b, snd (lru_pop L (df_id frag) m)))
          | (None, fp) \<Rightarrow> Some (FmIncomplete, m)) }"

text \<open>
  The sender: \<open>send_fragmented_outside_data\<close> splits at \<open>mps\<close> bytes. The loop ends because
  each round takes \<open>min mps len\<close> bytes, which is positive when \<open>mps\<close> is; a zero \<open>mps\<close>
  would never end, and is \<open>None\<close> here.
\<close>

function fragment_loop :: "u16 \<Rightarrow> usize \<Rightarrow> usize \<Rightarrow> bytes \<Rightarrow> data_frag list option" where
  "fragment_loop fid mps offset data =
     (if data = [] then Some []
      else if mps = 0 then None
      else do {
        let frag = take (min mps (length data)) data;
        let data = drop (min mps (length data)) data;
        frags \<leftarrow> fragment_loop fid mps (offset + mps) data;
        Some (\<lparr>df_id = fid, df_offset = offset, df_more_fragments = (data \<noteq> []), df_data = frag\<rparr> # frags) })"
  by pat_completeness auto

termination
  by (relation "measure (\<lambda>(_, _, _, data). length data)") auto

declare fragment_loop.simps [simp del]

section \<open>Runs of a packet\<close>

definition fg_span :: "fragment \<Rightarrow> nat set" where
  "fg_span f = {fg_start f..<fg_end f}"

definition df_span :: "data_frag \<Rightarrow> nat set" where
  "df_span g = {df_offset g..<df_end_offset g}"

definition fp_cover :: "fragmented_packet \<Rightarrow> nat set" where
  "fp_cover fp = (\<Union>f \<in> set fp. fg_span f)"

definition fp_sep :: "fragmented_packet \<Rightarrow> bool" where
  "fp_sep fp \<longleftrightarrow> sorted_wrt (\<lambda>f g. fg_end f < fg_start g) fp \<and> (\<forall>f \<in> set fp. 0 < fg_size f)"

text \<open>A run, respectively a wire fragment, that is a slice of the packet \<open>D\<close>.\<close>

definition fg_slice :: "bytes \<Rightarrow> fragment \<Rightarrow> bool" where
  "fg_slice D f \<longleftrightarrow>
     0 < fg_size f \<and> fg_end f \<le> length D
     \<and> concat (fg_data f) = take (fg_size f) (drop (fg_start f) D)
     \<and> (fg_is_last f \<longleftrightarrow> fg_end f = length D)"

definition df_slice :: "bytes \<Rightarrow> data_frag \<Rightarrow> bool" where
  "df_slice D g \<longleftrightarrow>
     df_data g \<noteq> [] \<and> df_end_offset g \<le> length D
     \<and> df_data g = take (length (df_data g)) (drop (df_offset g) D)
     \<and> (\<not> df_more_fragments g \<longleftrightarrow> df_end_offset g = length D)"

lemmas span_defs = fg_span_def df_span_def fg_end_def df_end_offset_def df_start_offset_def

lemma take_drop_append:
  "take m (drop i xs) @ take n (drop (i + m) xs) = take (m + n) (drop i xs)"
  by (simp add: take_add add.commute)

lemma fragment_new_slice: "df_slice D g \<Longrightarrow> fg_slice D (fragment_new g)"
  by (auto simp: fg_slice_def df_slice_def fragment_new_def fg_end_def df_end_offset_def)

lemma add_wire_frag_before:
  assumes "fg_slice D f" "df_slice D g" "df_end_offset g = fg_start f"
  shows "\<exists>f'. fg_add_wire_frag f g = Some (Inr f') \<and> fg_slice D f'
    \<and> fg_start f' = df_offset g \<and> fg_end f' = fg_end f"
  using assms take_drop_append [of "length (df_data g)" "df_offset g" D "fg_size f"]
  by (auto simp: fg_add_wire_frag_def fg_slice_def df_slice_def span_defs add.commute)

lemma add_wire_frag_after:
  assumes "fg_slice D f" "df_slice D g" "fg_end f = df_offset g"
  shows "\<exists>f'. fg_add_wire_frag f g = Some (Inr f') \<and> fg_slice D f'
    \<and> fg_start f' = fg_start f \<and> fg_end f' = df_end_offset g"
  using assms take_drop_append [of "fg_size f" "fg_start f" D "length (df_data g)"]
  by (auto simp: fg_add_wire_frag_def fg_slice_def df_slice_def span_defs)

lemma merge_slices:
  assumes "fg_slice D f" "fg_slice D h" "fg_end f = fg_start h"
  shows "\<exists>f'. fg_merge f h = Some (Inr f') \<and> fg_slice D f'
    \<and> fg_start f' = fg_start f \<and> fg_end f' = fg_end h"
  using assms take_drop_append [of "fg_size f" "fg_start f" D "fg_size h"]
  by (auto simp: fg_merge_def fg_slice_def span_defs)

lemma fp_sep_Cons:
  "fp_sep (f # fp) \<longleftrightarrow> 0 < fg_size f \<and> (\<forall>g \<in> set fp. fg_end f < fg_start g) \<and> fp_sep fp"
  by (auto simp: fp_sep_def)

lemma fp_cover_Cons: "fp_cover (f # fp) = fg_span f \<union> fp_cover fp"
  by (simp add: fp_cover_def)

lemma fp_sep_Nil [simp]: "fp_sep []" "fp_cover [] = {}"
  by (simp_all add: fp_sep_def fp_cover_def)

text \<open>Adding a slice of \<open>D\<close> that is not covered yet: no error, and the runs stay separated.\<close>

lemma fp_update_loop_slice:
  assumes "fp_sep fp" "\<forall>f \<in> set fp. fg_slice D f" "df_slice D g" "fp_cover fp \<inter> df_span g = {}"
  shows "\<exists>fp'. fp_update_loop g fp = Some (Inr (), fp') \<and> fp_sep fp' \<and> (\<forall>f \<in> set fp'. fg_slice D f)
    \<and> fp_cover fp' = fp_cover fp \<union> df_span g
    \<and> fg_start ` set fp' \<subseteq> insert (df_offset g) (fg_start ` set fp)"
  using assms
proof (induction fp)
  case Nil
  then show ?case
    using fragment_new_slice [of D g]
    by (auto simp: fp_sep_def fp_cover_def fg_slice_def) (auto simp: fragment_new_def span_defs)
next
  case (Cons f fp)
  have f: "fg_slice D f" "0 < fg_size f" and sep: "fp_sep fp" "\<forall>h \<in> set fp. fg_end f < fg_start h"
    and g: "0 < length (df_data g)" and slices: "\<forall>h \<in> set fp. fg_slice D h"
    and disj: "fg_span f \<inter> df_span g = {}" "fp_cover fp \<inter> df_span g = {}"
    using Cons.prems by (auto simp: fp_sep_Cons fp_cover_Cons df_slice_def)
  have no_overlap: "df_end_offset g \<le> fg_start f \<or> fg_end f \<le> df_offset g"
    using disj(1) f(2) g by (auto simp: span_defs)
  then consider (lt) "df_end_offset g < fg_start f" | (before) "df_end_offset g = fg_start f"
    | (after) "fg_end f = df_offset g" | (gt) "fg_end f < df_offset g"
    by linarith
  then show ?case
  proof cases
    case lt
    then have "fp_update_loop g (f # fp) = Some (Inr (), fragment_new g # f # fp)"
      by (simp add: df_start_offset_def)
    then show ?thesis
      using lt Cons.prems f sep g fragment_new_slice [OF Cons.prems(3)]
      by (fastforce simp: fp_sep_Cons fp_cover_Cons fragment_new_def span_defs)
  next
    case before
    then obtain f' where f': "fg_add_wire_frag f g = Some (Inr f')" "fg_slice D f'"
      "fg_start f' = df_offset g" "fg_end f' = fg_end f"
      using add_wire_frag_before [OF f(1) Cons.prems(3)] by auto
    then have "fp_update_loop g (f # fp) = Some (Inr (), f' # fp)"
      using before sep(2) f(2) g by (auto simp: span_defs split: list.split)
    moreover have "fg_span f' = fg_span f \<union> df_span g"
      using before f' f(2) g by (auto simp: span_defs)
    ultimately show ?thesis
      using f' sep slices by (auto simp: fp_sep_Cons fp_cover_Cons fg_slice_def)
  next
    case after
    then obtain f' where f': "fg_add_wire_frag f g = Some (Inr f')" "fg_slice D f'"
      "fg_start f' = fg_start f" "fg_end f' = df_end_offset g"
      using add_wire_frag_after [OF f(1) Cons.prems(3)] by auto
    have span: "fg_span f' = fg_span f \<union> df_span g"
      using after f' f(2) g by (auto simp: span_defs)
    show ?thesis
    proof (cases "\<exists>h fp2. fp = h # fp2 \<and> fg_end f' = fg_start h")
      case True
      then obtain h fp2 where h: "fp = h # fp2" "fg_end f' = fg_start h" by blast
      then obtain m where m: "fg_merge f' h = Some (Inr m)" "fg_slice D m"
        "fg_start m = fg_start f'" "fg_end m = fg_end h"
        using merge_slices [OF f'(2)] slices by auto
      have "fp_update_loop g (f # fp) = Some (Inr (), m # fp2)"
        using after h m f' f(2) g by (auto simp: span_defs)
      moreover have "fg_span m = fg_span f' \<union> fg_span h"
        using m h f'(2) slices by (auto simp: span_defs fg_slice_def)
      ultimately show ?thesis
        using m h sep slices span f'(3) by (auto simp: fp_sep_Cons fp_cover_Cons fg_slice_def)
    next
      case False
      then have "fp_update_loop g (f # fp) = Some (Inr (), f' # fp)"
        using after f' f(2) g by (auto simp: span_defs split: list.split)
      moreover have "\<forall>h \<in> set fp. fg_end f' < fg_start h"
      proof
        fix h assume h: "h \<in> set fp"
        then obtain k fp2 where k: "fp = k # fp2" by (cases fp) auto
        have "fg_end f' \<noteq> fg_start k" using False k by blast
        moreover have "fg_start k \<in> fp_cover fp"
          using k slices by (simp add: fp_cover_Cons fg_slice_def fg_span_def fg_end_def)
        then have "fg_start k \<notin> df_span g" using disj(2) by blast
        ultimately have "fg_end f' < fg_start k"
          using f' after sep(2) k g by (auto simp: span_defs)
        then show "fg_end f' < fg_start h"
          using h k sep(1) by (auto simp: fp_sep_Cons fg_end_def)
      qed
      ultimately show ?thesis
        using f' span sep slices by (auto simp: fp_sep_Cons fp_cover_Cons fg_slice_def)
    qed
  next
    case gt
    obtain fp' where fp': "fp_update_loop g fp = Some (Inr (), fp')" "fp_sep fp'"
      "\<forall>h \<in> set fp'. fg_slice D h" "fp_cover fp' = fp_cover fp \<union> df_span g"
      "fg_start ` set fp' \<subseteq> insert (df_offset g) (fg_start ` set fp)"
      using Cons.IH sep(1) slices Cons.prems(3) disj(2) by blast
    then have "fp_update_loop g (f # fp) = Some (Inr (), f # fp')"
      using gt f(2) g by (auto simp: span_defs)
    moreover have "\<forall>h \<in> set fp'. fg_end f < fg_start h"
      using fp'(5) gt sep(2) by auto
    ultimately show ?thesis
      using fp' f by (auto simp: fp_sep_Cons fp_cover_Cons)
  qed
qed

lemma fp_update_slice:
  assumes "fp_sep fp" "\<forall>f \<in> set fp. fg_slice D f" "df_slice D g" "fp_cover fp \<inter> df_span g = {}"
  shows "\<exists>fp'. fp_update g fp = Some (Inr (), fp') \<and> fp_sep fp' \<and> (\<forall>f \<in> set fp'. fg_slice D f)
    \<and> fp_cover fp' = fp_cover fp \<union> df_span g"
  using fp_update_loop_slice [OF assms] assms(3) by (auto simp: fp_update_def df_slice_def)

lemma fp_complete_cover:
  assumes "fp_sep fp" "\<forall>f \<in> set fp. fg_slice D f" "D \<noteq> []"
  shows "fp_try_complete fp = (if fp_cover fp = {0..<length D} then (Some D, []) else (None, fp))"
proof (cases "fp_cover fp = {0..<length D}")
  case True
  obtain f fp2 where fp: "fp = f # fp2"
    using True assms(3) by (cases fp) auto
  have f: "fg_slice D f" "\<forall>g \<in> set fp2. fg_end f < fg_start g"
    using assms fp by (auto simp: fp_sep_Cons)
  have start: "fg_start f = 0"
  proof -
    have "0 \<in> fp_cover fp" using True assms(3) by simp
    then show ?thesis using f by (auto simp: fp fp_cover_def fg_span_def fg_end_def)
  qed
  have "fg_end f \<notin> fp_cover fp"
    using f by (auto simp: fp fp_cover_def fg_span_def)
  then have "fg_end f = length D"
    using True f by (auto simp: fg_slice_def)
  moreover have "fp2 = []"
  proof (cases fp2)
    case (Cons h fp3)
    then have "fg_slice D h" "fg_end f < fg_start h" using assms(2) fp f(2) by auto
    then show ?thesis using calculation by (auto simp: fg_slice_def fg_end_def)
  qed simp
  ultimately show ?thesis
    using True f start by (simp add: fp_try_complete_def fp fg_is_complete_packet_def fg_slice_def fg_end_def)
next
  case False
  have "\<not> fg_is_complete_packet f" if "fp = [f]" for f
    using False assms(2) that by (auto simp: fg_is_complete_packet_def fg_slice_def fp_cover_def fg_span_def)
  then show ?thesis
    using False by (cases fp) (auto simp: fp_try_complete_def)
qed

section \<open>The fragments of a packet\<close>

lemma fragment_loop_step:
  "0 < mps \<Longrightarrow> data \<noteq> [] \<Longrightarrow> fragment_loop fid mps off data = do {
     frags \<leftarrow> fragment_loop fid mps (off + mps) (drop mps data);
     Some (\<lparr>df_id = fid, df_offset = off, df_more_fragments = (drop mps data \<noteq> []),
       df_data = take mps data\<rparr> # frags) }"
  by (subst fragment_loop.simps) (auto simp: min_def Let_def)

lemma fragment_loop_Nil [simp]: "fragment_loop fid mps off [] = Some []"
  by (subst fragment_loop.simps) simp

lemma fragment_loop_total: "0 < mps \<Longrightarrow> \<exists>frags. fragment_loop fid mps off data = Some frags"
proof (induction data arbitrary: off rule: length_induct)
  case (1 data)
  show ?case
  proof (cases "data = []")
    case False
    have "length (drop mps data) < length data" using False 1(2) by simp
    then obtain frags where "fragment_loop fid mps (off + mps) (drop mps data) = Some frags"
      using 1 by blast
    then show ?thesis using fragment_loop_step [OF 1(2) False, of fid off] by simp
  qed simp
qed

lemma fragment_loop_slices:
  assumes "0 < mps" "off \<le> length D" "fragment_loop fid mps off (drop off D) = Some frags"
  shows "(\<forall>g \<in> set frags. df_slice D g \<and> df_id g = fid \<and> off \<le> df_offset g)
    \<and> (\<Union>g \<in> set frags. df_span g) = {off..<length D}
    \<and> distinct frags
    \<and> (\<forall>g \<in> set frags. \<forall>h \<in> set frags. g \<noteq> h \<longrightarrow> df_span g \<inter> df_span h = {})"
  using assms
proof (induction "length D - off" arbitrary: off frags rule: less_induct)
  case less
  show ?case
  proof (cases "drop off D = []")
    case True
    then show ?thesis using less.prems by simp
  next
    case False
    let ?g = "\<lparr>df_id = fid, df_offset = off, df_more_fragments = (drop mps (drop off D) \<noteq> []),
       df_data = take mps (drop off D)\<rparr>"
    let ?off = "min (off + mps) (length D)"
    from False less.prems(3) obtain rest where
      rest: "fragment_loop fid mps (off + mps) (drop mps (drop off D)) = Some rest" "frags = ?g # rest"
      by (auto simp: fragment_loop_step [OF less.prems(1) False] bind_eq_Some_conv)
    show ?thesis
    proof (cases "off + mps \<le> length D")
      case True
      then have ih: "(\<forall>g \<in> set rest. df_slice D g \<and> df_id g = fid \<and> off + mps \<le> df_offset g)
        \<and> (\<Union>g \<in> set rest. df_span g) = {off + mps..<length D} \<and> distinct rest
        \<and> (\<forall>g \<in> set rest. \<forall>h \<in> set rest. g \<noteq> h \<longrightarrow> df_span g \<inter> df_span h = {})"
        using less.hyps [of "off + mps" rest] less.prems(1) False rest(1) by (simp add: add.commute)
      have g: "df_slice D ?g" "df_span ?g = {off..<off + mps}"
        using True False less.prems(1) by (auto simp: df_slice_def df_span_def df_end_offset_def)
      have "df_span ?g \<inter> df_span h = {}" if "h \<in> set rest" for h
        using ih that g(2) by (auto simp: df_span_def)
      moreover have "?g \<notin> set rest" using ih less.prems(1) by auto
      ultimately show ?thesis
        using ih g True less.prems(1) by (auto simp: rest(2))
    next
      case short: False
      then have "rest = []" using rest(1) by simp
      moreover have "df_slice D ?g" "df_span ?g = {off..<length D}"
        using short False by (auto simp: df_slice_def df_span_def df_end_offset_def)
      ultimately show ?thesis by (simp add: rest(2))
    qed
  qed
qed

section \<open>The cache laws\<close>

locale lru_cache =
  fixes L :: "('c, 'v) lru_ops" and peek :: "'c \<Rightarrow> u16 \<Rightarrow> 'v option" and cap :: nat
    and valid :: "'c \<Rightarrow> bool"
  assumes new_laws: "valid (lru_new L cap) \<and> peek (lru_new L cap) = Map.empty"
    and finite_laws: "valid c \<Longrightarrow> finite (dom (peek c)) \<and> card (dom (peek c)) \<le> cap"
    and get_value: "valid c \<Longrightarrow> fst (lru_get_or_insert_mut L k d c) = (case peek c k of Some v \<Rightarrow> v | None \<Rightarrow> d)"
    and get_wf: "valid c \<Longrightarrow> valid (snd (lru_get_or_insert_mut L k d c))"
    and get_fits: "valid c \<Longrightarrow> k \<in> dom (peek c) \<or> card (dom (peek c)) < cap \<Longrightarrow>
      peek (snd (lru_get_or_insert_mut L k d c)) = (peek c)(k \<mapsto> fst (lru_get_or_insert_mut L k d c))"
    and get_evicts: "valid c \<Longrightarrow> k \<noteq> j \<Longrightarrow> peek (snd (lru_get_or_insert_mut L k d c)) j \<in> {None, peek c j}"
    and get_present: "valid c \<Longrightarrow> peek (snd (lru_get_or_insert_mut L k d c)) k \<noteq> None"
    and write_laws: "valid c \<Longrightarrow> k \<in> dom (peek c) \<Longrightarrow>
      valid (lru_write L k v c) \<and> peek (lru_write L k v c) = (peek c)(k \<mapsto> v)"
    and pop_laws: "valid c \<Longrightarrow> fst (lru_pop L k c) = peek c k \<and> valid (snd (lru_pop L k c))
      \<and> peek (snd (lru_pop L k c)) = (peek c)(k := None)"
begin

lemma get_fits_pair:
  assumes "valid c" "k \<in> dom (peek c) \<or> card (dom (peek c)) < cap"
  shows "\<exists>c'. lru_get_or_insert_mut L k d c = (case peek c k of Some v \<Rightarrow> v | None \<Rightarrow> d, c')
    \<and> valid c' \<and> peek c' = (peek c)(k \<mapsto> (case peek c k of Some v \<Rightarrow> v | None \<Rightarrow> d))"
proof -
  let ?r = "lru_get_or_insert_mut L k d c"
  have "?r = (fst ?r, snd ?r)" by simp
  then show ?thesis
    using get_value [OF assms(1), of k d] get_wf [OF assms(1), of k d] get_fits [OF assms, of d]
    by auto
qed

end

text \<open>The instance: the entries from the most to the least recently used, and the capacity.\<close>

definition lru_list :: "(nat \<times> (u16 \<times> 'v) list, 'v) lru_ops" where
  "lru_list = \<lparr>
     lru_new = (\<lambda>n. (n, [])),
     lru_get_or_insert_mut = (\<lambda>k d (n, es).
       case map_of es k of
         Some v \<Rightarrow> (v, (n, (k, v) # filter (\<lambda>e. fst e \<noteq> k) es))
       | None \<Rightarrow> (d, (n, (k, d) # (if length es < n then es else butlast es)))),
     lru_write = (\<lambda>k v (n, es). (n, map (\<lambda>e. if fst e = k then (k, v) else e) es)),
     lru_pop = (\<lambda>k (n, es). (map_of es k, (n, filter (\<lambda>e. fst e \<noteq> k) es)))\<rparr>"

definition lru_list_peek :: "nat \<times> (u16 \<times> 'v) list \<Rightarrow> u16 \<Rightarrow> 'v option" where
  "lru_list_peek c = map_of (snd c)"

definition lru_list_wf :: "nat \<Rightarrow> nat \<times> (u16 \<times> 'v) list \<Rightarrow> bool" where
  "lru_list_wf n c \<longleftrightarrow> fst c = n \<and> distinct (map fst (snd c)) \<and> length (snd c) \<le> n"

lemma map_of_filter_key: "map_of (filter (\<lambda>e. fst e \<noteq> k) es) = (map_of es)(k := None)"
  by (induction es) auto

lemma map_of_update_key:
  "k \<in> dom (map_of es) \<Longrightarrow>
     map_of (map (\<lambda>e. if fst e = k then (k, v) else e) es) = (map_of es)(k \<mapsto> v)"
proof -
  have "map_of (map (\<lambda>e. if fst e = k then (k, v) else e) es) j =
      (if j = k then (if k \<in> dom (map_of es) then Some v else None) else map_of es j)" for j
    by (induction es) (auto simp: dom_def)
  then show "k \<in> dom (map_of es) \<Longrightarrow> ?thesis" by (auto simp: fun_eq_iff)
qed

lemma map_of_butlast: "distinct (map fst es) \<Longrightarrow> map_of (butlast es) j \<in> {None, map_of es j}"
  by (induction es) auto

lemma card_dom_map_of: "distinct (map fst es) \<Longrightarrow> card (dom (map_of es)) = length es"
  by (simp add: dom_map_of_conv_image_fst distinct_card flip: set_map)

lemma distinct_butlast_fst: "distinct (map fst es) \<Longrightarrow> distinct (map fst (butlast es))"
  by (simp add: map_butlast distinct_butlast)

lemma butlast_fst_notin: "k \<notin> fst ` set es \<Longrightarrow> k \<notin> fst ` set (butlast es)"
  by (auto dest: in_set_butlastD)

lemmas lru_list_defs = lru_list_def lru_list_peek_def lru_list_wf_def

lemma lru_list_get:
  "lru_get_or_insert_mut lru_list k d (n, es) =
     (case map_of es k of
        Some v \<Rightarrow> (v, (n, (k, v) # filter (\<lambda>e. fst e \<noteq> k) es))
      | None \<Rightarrow> (d, (n, (k, d) # (if length es < n then es else butlast es))))"
  by (simp add: lru_list_def)

lemma length_filter_key:
  "map_of es k = Some v \<Longrightarrow> length (filter (\<lambda>e. fst e \<noteq> k) es) < length es"
  by (rule length_filter_less [of "(k, v)"]) (auto dest: map_of_SomeD)

lemma lru_list_laws:
  assumes "0 < n"
  shows "lru_cache lru_list lru_list_peek n (lru_list_wf n)"
proof
  show "lru_list_wf n (lru_new lru_list n) \<and> lru_list_peek (lru_new lru_list n) = Map.empty"
    by (simp add: lru_list_defs)
  fix c :: "nat \<times> (u16 \<times> 'v) list" and k j :: u16 and d v :: 'v
  obtain es where c: "c = (fst c, es)" by (cases c) simp
  assume valid: "lru_list_wf n c"
  then have es: "c = (n, es)" "distinct (map fst es)" "length es \<le> n"
    using c by (cases c; auto simp: lru_list_wf_def)+
  note simps = es(1) lru_list_get lru_list_peek_def lru_list_wf_def map_of_filter_key
  have none: "map_of es k = None \<longleftrightarrow> k \<notin> fst ` set es" by (simp add: map_of_eq_None_iff)
  show "finite (dom (lru_list_peek c)) \<and> card (dom (lru_list_peek c)) \<le> n"
    using es by (simp add: simps card_dom_map_of finite_dom_map_of)
  show "fst (lru_get_or_insert_mut lru_list k d c) = (case lru_list_peek c k of Some v \<Rightarrow> v | None \<Rightarrow> d)"
    by (simp add: simps split: option.split)
  show "lru_list_wf n (snd (lru_get_or_insert_mut lru_list k d c))"
  proof (cases "map_of es k")
    case None
    then show ?thesis
      using es assms distinct_butlast_fst [OF es(2)] none butlast_fst_notin [of k es] by (auto simp: simps)
  next
    case (Some x)
    then show ?thesis
      using es length_filter_key [OF Some] by (auto simp: simps distinct_map_filter)
  qed
  show "lru_list_peek (snd (lru_get_or_insert_mut lru_list k d c)) k \<noteq> None"
    by (simp add: simps split: option.split)
  show "lru_list_peek (snd (lru_get_or_insert_mut lru_list k d c)) j \<in> {None, lru_list_peek c j}"
    if "k \<noteq> j"
    using that map_of_butlast [OF es(2), of j] by (auto simp: simps split: option.split)
  show "lru_list_peek (snd (lru_get_or_insert_mut lru_list k d c))
      = (lru_list_peek c)(k \<mapsto> fst (lru_get_or_insert_mut lru_list k d c))"
    if "k \<in> dom (lru_list_peek c) \<or> card (dom (lru_list_peek c)) < n"
    using that es(2) by (auto simp: simps card_dom_map_of split: option.split)
  show "lru_list_wf n (lru_write lru_list k v c)
      \<and> lru_list_peek (lru_write lru_list k v c) = (lru_list_peek c)(k \<mapsto> v)"
    if "k \<in> dom (lru_list_peek c)"
  proof -
    have "map fst (map (\<lambda>e. if fst e = k then (k, v) else e) es) = map fst es"
      by (induction es) auto
    then have "distinct (map fst (map (\<lambda>e. if fst e = k then (k, v) else e) es))"
      by (simp only: es(2))
    then show ?thesis
      using that es
      by (simp add: lru_list_def es(1) lru_list_peek_def lru_list_wf_def map_of_update_key del: map_map)
  qed
  show "fst (lru_pop lru_list k c) = lru_list_peek c k \<and> lru_list_wf n (snd (lru_pop lru_list k c))
      \<and> lru_list_peek (snd (lru_pop lru_list k c)) = (lru_list_peek c)(k := None)"
    using es order.trans [OF length_filter_le [of "\<lambda>e. fst e \<noteq> k" es]]
    by (auto simp: lru_list_def es(1) lru_list_peek_def lru_list_wf_def map_of_filter_key distinct_map_filter)
qed

interpretation lru_default: lru_cache lru_list lru_list_peek FRAGMENT_MAP_DEFAULT_MAX_ENTRIES
  "lru_list_wf FRAGMENT_MAP_DEFAULT_MAX_ENTRIES"
  by (rule lru_list_laws) (simp add: const_defs)

section \<open>Reassembly\<close>

text \<open>What is known of a packet after the fragments \<open>R\<close> of it have arrived.\<close>

definition fp_received :: "bytes \<Rightarrow> data_frag set \<Rightarrow> fragmented_packet \<Rightarrow> bool" where
  "fp_received D R fp \<longleftrightarrow>
     fp_sep fp \<and> (\<forall>f \<in> set fp. fg_slice D f) \<and> fp_cover fp = (\<Union>g \<in> R. df_span g)"

lemma fp_received_Nil [simp]: "fp_received D {} []"
  by (simp add: fp_received_def)

text \<open>The fragments of one packet, as a partition of it.\<close>

definition packet_frags :: "u16 \<Rightarrow> bytes \<Rightarrow> data_frag set \<Rightarrow> bool" where
  "packet_frags fid D F \<longleftrightarrow>
     D \<noteq> [] \<and> finite F \<and> (\<forall>g \<in> F. df_slice D g \<and> df_id g = fid)
     \<and> (\<Union>g \<in> F. df_span g) = {0..<length D}
     \<and> (\<forall>g \<in> F. \<forall>h \<in> F. g \<noteq> h \<longrightarrow> df_span g \<inter> df_span h = {})"

lemma df_slice_span: "df_slice D g \<Longrightarrow> df_span g \<noteq> {}"
  by (simp add: df_slice_def df_span_def df_end_offset_def)

lemma packet_frags_disjoint:
  "packet_frags fid D F \<Longrightarrow> g \<in> F \<Longrightarrow> h \<in> F \<Longrightarrow> i \<in> df_span g \<Longrightarrow> i \<in> df_span h \<Longrightarrow> g = h"
  unfolding packet_frags_def by blast

lemma packet_frags_cover:
  assumes "packet_frags fid D F" "R \<subseteq> F"
  shows "(\<Union>g \<in> R. df_span g) = {0..<length D} \<longleftrightarrow> R = F"
proof
  assume cover: "(\<Union>g \<in> R. df_span g) = {0..<length D}"
  have "g \<in> R" if g: "g \<in> F" for g
  proof -
    have slice: "df_slice D g" and F: "(\<Union>g \<in> F. df_span g) = {0..<length D}"
      using g assms(1) by (simp_all add: packet_frags_def)
    obtain i where i: "i \<in> df_span g" using df_slice_span [OF slice] by blast
    then have "i \<in> (\<Union>g \<in> R. df_span g)" unfolding cover F [symmetric] using g by blast
    then obtain h where h: "h \<in> R" "i \<in> df_span h" by blast
    then have "g = h" using packet_frags_disjoint [OF assms(1) g _ i] assms(2) by blast
    then show ?thesis using h by simp
  qed
  then show "R = F" using assms(2) by blast
qed (use assms(1) in \<open>simp add: packet_frags_def\<close>)

lemma fp_received_step:
  assumes "packet_frags fid D F" "R \<subseteq> F" "g \<in> F" "g \<notin> R" "fp_received D R fp"
  shows "\<exists>fp'. fp_update g fp = Some (Inr (), fp') \<and> fp_received D (insert g R) fp'
    \<and> fp_try_complete fp' = (if insert g R = F then (Some D, []) else (None, fp'))"
proof -
  have "(\<Union>h \<in> R. df_span h) \<inter> df_span g = {}"
    using assms(2-4) packet_frags_disjoint [OF assms(1)] by blast
  then obtain fp' where fp': "fp_update g fp = Some (Inr (), fp')" "fp_received D (insert g R) fp'"
    using fp_update_slice [of fp D g] assms by (auto simp: fp_received_def packet_frags_def Un_commute)
  moreover have "fp_cover fp' = {0..<length D} \<longleftrightarrow> insert g R = F"
    using packet_frags_cover [OF assms(1), of "insert g R"] assms(2,3) fp'(2)
    by (simp add: fp_received_def)
  ultimately show ?thesis
    using fp_complete_cover [of fp' D] assms(1) by (auto simp: fp_received_def packet_frags_def)
qed

lemma fragment_loop_packet:
  assumes "0 < mps" "D \<noteq> []" "fragment_loop fid mps 0 D = Some frags"
  shows "packet_frags fid D (set frags) \<and> distinct frags"
  using fragment_loop_slices [of mps 0 D fid frags] assms by (auto simp: packet_frags_def)

text \<open>The receiver: fragments as they arrive, with the result of each.\<close>

fun fragment_map_run ::
  "('c, fragmented_packet) lru_ops \<Rightarrow> data_frag list \<Rightarrow> 'c \<Rightarrow> (fragment_map_result list \<times> 'c) option" where
  "fragment_map_run L [] m = Some ([], m)"
| "fragment_map_run L (g # gs) m = do {
     (r, m) \<leftarrow> fragment_map_add_fragment L g m;
     (rs, m) \<leftarrow> fragment_map_run L gs m;
     Some (r # rs, m) }"

text \<open>
  The state of the cache when the fragments \<open>R\<close> have arrived: a packet is in the cache while
  some but not all of its fragments are in \<open>R\<close>, with the runs of those.
\<close>

definition map_inv ::
  "(u16 \<Rightarrow> bytes) \<Rightarrow> (u16 \<Rightarrow> data_frag set) \<Rightarrow> u16 set \<Rightarrow> data_frag set \<Rightarrow> (u16 \<Rightarrow> fragmented_packet option) \<Rightarrow> bool"
  where
  "map_inv P F I R m \<longleftrightarrow>
     dom m \<subseteq> I
     \<and> (\<forall>i \<in> I. case m i of
          None \<Rightarrow> F i \<inter> R = {} \<or> F i \<subseteq> R
        | Some fp \<Rightarrow> fp_received (P i) (F i \<inter> R) fp \<and> \<not> F i \<subseteq> R)"

definition packets_ok :: "(u16 \<Rightarrow> bytes) \<Rightarrow> (u16 \<Rightarrow> data_frag set) \<Rightarrow> u16 set \<Rightarrow> nat \<Rightarrow> bool" where
  "packets_ok P F I cap \<longleftrightarrow> finite I \<and> card I \<le> cap \<and> (\<forall>i \<in> I. packet_frags i (P i) (F i))"

lemma packets_ok_id: "packets_ok P F I cap \<Longrightarrow> i \<in> I \<Longrightarrow> g \<in> F i \<Longrightarrow> df_id g = i"
  by (auto simp: packets_ok_def packet_frags_def)

lemma map_inv_current:
  assumes "map_inv P F I R m" "i \<in> I" "g \<in> F i" "g \<notin> R"
  shows "fp_received (P i) (F i \<inter> R) (case m i of Some v \<Rightarrow> v | None \<Rightarrow> [])"
proof (cases "m i")
  case None
  then have "F i \<inter> R = {} \<or> F i \<subseteq> R" using assms(1,2) by (fastforce simp: map_inv_def)
  then have "F i \<inter> R = {}" using assms(3,4) by blast
  then show ?thesis using None by simp
next
  case (Some fp)
  then show ?thesis using assms(1,2) by (fastforce simp: map_inv_def)
qed

lemma map_inv_insert:
  assumes "map_inv P F I R m" "packets_ok P F I cap" "i \<in> I" "g \<in> F i"
    and "F i \<subseteq> insert g R \<Longrightarrow> x = None"
    and "\<not> F i \<subseteq> insert g R \<Longrightarrow> \<exists>fp. x = Some fp \<and> fp_received (P i) (F i \<inter> insert g R) fp"
  shows "map_inv P F I (insert g R) (m(i := x))"
proof -
  have "F j \<inter> insert g R = F j \<inter> R" "F j \<subseteq> insert g R \<longleftrightarrow> F j \<subseteq> R" if "j \<in> I" "j \<noteq> i" for j
    using that packets_ok_id [OF assms(2)] assms(3,4) by blast+
  then show ?thesis
    using assms(1,3,5,6) by (auto simp: map_inv_def split: option.splits)
qed

lemma fp_update_loop_total: "\<exists>r fp'. fp_update_loop g fp = Some (r, fp')"
proof (induction fp)
  case (Cons f fp)
  show ?case
  proof (cases "df_end_offset g = fg_start f \<or> fg_end f = df_start_offset g")
    case True
    then have "fg_add_wire_frag f g \<noteq> None"
      by (auto simp: fg_add_wire_frag_def)
    then obtain r where r: "fg_add_wire_frag f g = Some r" by blast
    then show ?thesis
      unfolding fp_update_loop.simps(2) using True
      by (cases r; cases fp) (auto simp: fg_merge_def simp del: fp_update_loop.simps)
  next
    case False
    then show ?thesis using Cons.IH by auto
  qed
qed simp

lemma fp_update_total: "\<exists>r fp'. fp_update g fp = Some (r, fp')"
  using fp_update_loop_total by (auto simp: fp_update_def)

locale fragment_cache = lru_cache L peek cap valid
  for L :: "('c, fragmented_packet) lru_ops" and peek and cap and valid
begin

lemma add_fragment_step:
  assumes "packets_ok P F I cap" "valid c" "map_inv P F I R (peek c)"
    and "df_id g \<in> I" "g \<in> F (df_id g)" "g \<notin> R"
  shows "\<exists>c'. fragment_map_add_fragment L g c =
      Some (if F (df_id g) \<subseteq> insert g R then FmComplete (P (df_id g)) else FmIncomplete, c')
    \<and> valid c' \<and> map_inv P F I (insert g R) (peek c')"
proof -
  let ?i = "df_id g" and ?fp = "case peek c (df_id g) of Some v \<Rightarrow> v | None \<Rightarrow> []"
  have "card (dom (peek c)) < cap" if "?i \<notin> dom (peek c)"
  proof -
    have "dom (peek c) \<subset> I" using that assms(3,4) by (auto simp: map_inv_def)
    then show ?thesis using assms(1) psubset_card_mono [of I "dom (peek c)"] by (auto simp: packets_ok_def)
  qed
  then obtain c1 where c1: "lru_get_or_insert_mut L ?i [] c = (?fp, c1)" "valid c1"
    "peek c1 = (peek c)(?i \<mapsto> ?fp)"
    using get_fits_pair [OF assms(2), of ?i "[]"] by blast
  have F: "packet_frags ?i (P ?i) (F ?i)" using assms(1,4) by (auto simp: packets_ok_def)
  have rec: "fp_received (P ?i) (F ?i \<inter> R) ?fp"
    using map_inv_current [OF assms(3-6)] .
  have eq: "insert g (F ?i \<inter> R) = F ?i \<inter> insert g R" using assms(5) by blast
  obtain fp' where fp': "fp_update g ?fp = Some (Inr (), fp')" "fp_received (P ?i) (F ?i \<inter> insert g R) fp'"
    "fp_try_complete fp' = (if F ?i \<subseteq> insert g R then (Some (P ?i), []) else (None, fp'))"
    using fp_received_step [OF F _ assms(5) _ rec] assms(6) by (auto simp: eq inf.absorb_iff1)
  have w: "valid (lru_write L ?i fp' c1)" "peek (lru_write L ?i fp' c1) = (peek c)(?i \<mapsto> fp')"
    using write_laws [OF c1(2), of ?i fp'] by (simp_all add: c1(3))
  have w2: "valid (lru_write L ?i [] (lru_write L ?i fp' c1))"
    "peek (lru_write L ?i [] (lru_write L ?i fp' c1)) = (peek c)(?i \<mapsto> [])"
    using write_laws [OF w(1), of ?i "[]"] by (simp_all add: w(2))
  note pop = pop_laws [OF w2(1), of ?i]
  show ?thesis
  proof (cases "F ?i \<subseteq> insert g R")
    case True
    then have "map_inv P F I (insert g R) ((peek c)(?i := None))"
      by (intro map_inv_insert [OF assms(3,1,4,5)]) simp_all
    then show ?thesis
      using True c1(1) fp' pop w2(2) by (simp add: fragment_map_add_fragment_def Let_def)
  next
    case False
    then have "map_inv P F I (insert g R) ((peek c)(?i \<mapsto> fp'))"
      using fp'(2) by (intro map_inv_insert [OF assms(3,1,4,5)]) simp_all
    then show ?thesis
      using False c1(1) fp' w by (simp add: fragment_map_add_fragment_def Let_def)
  qed
qed

lemma run_reassembles:
  assumes "packets_ok P F I cap" "valid c" "map_inv P F I R (peek c)"
    and "\<forall>g \<in> set gs. df_id g \<in> I \<and> g \<in> F (df_id g)" "distinct gs" "set gs \<inter> R = {}"
    and "\<forall>i \<in> I. F i \<subseteq> R \<union> set gs"
  shows "\<exists>rs c'. fragment_map_run L gs c = Some (rs, c') \<and> length rs = length gs
    \<and> (\<forall>k < length gs. rs ! k = (if \<forall>h \<in> set (drop (Suc k) gs). df_id h \<noteq> df_id (gs ! k)
         then FmComplete (P (df_id (gs ! k))) else FmIncomplete))"
  using assms(2-)
proof (induction gs arbitrary: c R)
  case (Cons g gs)
  have g: "df_id g \<in> I" "g \<in> F (df_id g)" "g \<notin> R" using Cons.prems by auto
  obtain c1 where c1: "fragment_map_add_fragment L g c =
      Some (if F (df_id g) \<subseteq> insert g R then FmComplete (P (df_id g)) else FmIncomplete, c1)"
    "valid c1" "map_inv P F I (insert g R) (peek c1)"
    using add_fragment_step [OF assms(1) Cons.prems(1,2) g] by blast
  have iff: "F (df_id g) \<subseteq> insert g R \<longleftrightarrow> (\<forall>h \<in> set gs. df_id h \<noteq> df_id g)"
  proof
    assume sub: "F (df_id g) \<subseteq> insert g R"
    show "\<forall>h \<in> set gs. df_id h \<noteq> df_id g"
    proof (intro ballI notI)
      fix h assume h: "h \<in> set gs" "df_id h = df_id g"
      then have "h \<in> F (df_id g)" using Cons.prems(3) by force
      then show False using sub h Cons.prems(4,5) by auto
    qed
  next
    assume none: "\<forall>h \<in> set gs. df_id h \<noteq> df_id g"
    then show "F (df_id g) \<subseteq> insert g R"
      using Cons.prems(6) g(1) packets_ok_id [OF assms(1) g(1)] by auto
  qed
  obtain rs c' where "fragment_map_run L gs c1 = Some (rs, c')" "length rs = length gs"
    "\<forall>k < length gs. rs ! k = (if \<forall>h \<in> set (drop (Suc k) gs). df_id h \<noteq> df_id (gs ! k)
         then FmComplete (P (df_id (gs ! k))) else FmIncomplete)"
    using Cons.IH [OF c1(2,3)] Cons.prems(3-6) by auto
  then show ?case
    using c1(1) iff by (auto simp: less_Suc_eq_0_disj)
qed simp

text \<open>Any fragment at all: no panic, and only the packet it names is touched.\<close>

lemma add_fragment_total:
  assumes "valid c"
  shows "\<exists>r c'. fragment_map_add_fragment L g c = Some (r, c') \<and> valid c'
    \<and> (peek c' (df_id g) \<noteq> None \<longleftrightarrow> r = FmIncomplete)
    \<and> (\<forall>j. j \<noteq> df_id g \<longrightarrow> peek c' j \<in> {None, peek c j})
    \<and> card (dom (peek c')) \<le> cap"
proof -
  let ?i = "df_id g"
  obtain fp c1 where get: "lru_get_or_insert_mut L ?i [] c = (fp, c1)" by fastforce
  have c1: "valid c1" "?i \<in> dom (peek c1)" "\<And>j. j \<noteq> ?i \<Longrightarrow> peek c1 j \<in> {None, peek c j}"
    using get_wf [OF assms, of ?i "[]"] get_present [OF assms, of ?i "[]"] get_evicts [OF assms, of ?i _ "[]"]
    by (auto simp: get)
  obtain r fp' where upd: "fp_update g fp = Some (r, fp')" using fp_update_total by blast
  have w: "valid (lru_write L ?i x c1)" "peek (lru_write L ?i x c1) = (peek c1)(?i \<mapsto> x)" for x
    using write_laws [OF c1(1,2)] by simp_all
  have w2: "valid (lru_write L ?i y (lru_write L ?i x c1))"
    "peek (lru_write L ?i y (lru_write L ?i x c1)) = (peek c1)(?i \<mapsto> y)" for x y
    using write_laws [OF w(1), of ?i x y] by (simp_all add: w(2))
  note step = fragment_map_add_fragment_def get upd Let_def
  have pop: "\<exists>c'. lru_pop L ?i d = (peek d ?i, c') \<and> valid c' \<and> peek c' = (peek d)(?i := None)" if "valid d" for d
    using pop_laws [OF that, of ?i] by (metis prod.collapse)
  have "\<exists>c'. fragment_map_add_fragment L g c = Some (FmErr e, c') \<and> valid c' \<and> peek c' = (peek c1)(?i := None)"
    if "r = Inl e" for e
    using pop [OF w(1), of fp'] that by (auto simp: step w(2))
  moreover have "\<exists>c'. fragment_map_add_fragment L g c = Some (FmComplete b, c') \<and> valid c' \<and> peek c' = (peek c1)(?i := None)"
    if "r = Inr u" "fp_try_complete fp' = (Some b, q)" for u b q
    using pop [OF w2(1), of q fp'] that by (auto simp: step w2(2))
  moreover have "\<exists>c'. fragment_map_add_fragment L g c = Some (FmIncomplete, c') \<and> valid c' \<and> peek c' = (peek c1)(?i \<mapsto> fp')"
    if "r = Inr u" "fp_try_complete fp' = (None, q)" for u q
    using that w by (auto simp: step)
  ultimately obtain r' c' where "fragment_map_add_fragment L g c = Some (r', c')" "valid c'"
    "peek c' ?i \<noteq> None \<longleftrightarrow> r' = FmIncomplete" "\<And>j. j \<noteq> ?i \<Longrightarrow> peek c' j = peek c1 j"
    by (cases r; cases "fp_try_complete fp'"; cases "fst (fp_try_complete fp')") fastforce+
  then show ?thesis using c1(3) finite_laws by auto
qed

end

interpretation fragment_default: fragment_cache lru_list lru_list_peek FRAGMENT_MAP_DEFAULT_MAX_ENTRIES
  "lru_list_wf FRAGMENT_MAP_DEFAULT_MAX_ENTRIES"
  by (intro fragment_cache.intro lru_list_laws) (simp add: const_defs)


lemma distinct_by_filters: "(\<And>i. distinct (filter (\<lambda>g. f g = i) gs)) \<Longrightarrow> distinct gs"
proof (induction gs)
  case (Cons g gs)
  have "distinct (filter (\<lambda>h. f h = i) gs)" for i
    using Cons.prems [of i] by (simp split: if_splits)
  moreover have "g \<notin> set gs"
    using Cons.prems [of "f g"] by simp
  ultimately show ?case using Cons.IH by simp
qed simp

text \<open>
  C9. Reassembly in any order and interleaving: take any packets with distinct ids, at most as
  many as the cache holds, split each with \<open>send_fragmented_outside_data\<close>, and deliver all
  the fragments in any order, mixed in any way. The map never fails or panics; it answers
  \<open>Incomplete\<close> for every fragment but the last one of its packet to arrive, and for that one
  returns the original packet, byte for byte.
\<close>

theorem reassembly_any_order:
  assumes lru: "lru_cache L peek cap valid" and ids: "finite I" "card I \<le> cap" and mps: "0 < mps"
    and nonempty: "\<forall>i \<in> I. P i \<noteq> []"
    and sent: "\<forall>i \<in> I. \<exists>frags. fragment_loop i mps 0 (P i) = Some frags
      \<and> mset (filter (\<lambda>g. df_id g = i) gs) = mset frags"
    and known: "\<forall>g \<in> set gs. df_id g \<in> I"
  shows "\<exists>rs m. fragment_map_run L gs (fragment_map_new L cap) = Some (rs, m) \<and> length rs = length gs
    \<and> (\<forall>k < length gs. rs ! k = (if \<forall>h \<in> set (drop (Suc k) gs). df_id h \<noteq> df_id (gs ! k)
         then FmComplete (P (df_id (gs ! k))) else FmIncomplete))"
proof -
  let ?F = "\<lambda>i. set (filter (\<lambda>g. df_id g = i) gs)"
  have part: "packet_frags i (P i) (?F i) \<and> distinct (filter (\<lambda>g. df_id g = i) gs)" if "i \<in> I" for i
  proof -
    from bspec [OF sent that] obtain frags where f: "fragment_loop i mps 0 (P i) = Some frags"
      "mset (filter (\<lambda>g. df_id g = i) gs) = mset frags" by (elim exE conjE)
    then have "packet_frags i (P i) (set frags) \<and> distinct frags"
      using fragment_loop_packet [OF mps _ f(1)] nonempty that by blast
    then show ?thesis
      by (simp only: mset_eq_setD [OF f(2)] mset_eq_imp_distinct_iff [OF f(2)])
  qed
  have "distinct (filter (\<lambda>g. df_id g = i) gs)" for i
  proof (cases "i \<in> I")
    case False
    then have "filter (\<lambda>g. df_id g = i) gs = []" using known by (auto simp: filter_empty_conv)
    then show ?thesis by simp
  qed (use part in blast)
  then have "distinct gs" by (rule distinct_by_filters)
  moreover have "packets_ok P ?F I cap" using ids part by (simp add: packets_ok_def)
  moreover have "map_inv P ?F I {} (peek (fragment_map_new L cap))" "valid (fragment_map_new L cap)"
    using lru_cache.new_laws [OF lru] by (auto simp: map_inv_def fragment_map_new_def)
  ultimately show ?thesis
    using fragment_cache.run_reassembles [OF fragment_cache.intro [OF lru], of P ?F I _ "{}" gs] known
    by auto
qed

theorem reassembly_any_order_witness:
  "\<exists>rs m. fragment_map_run lru_list
       [\<lparr>df_id = 7, df_offset = 8, df_more_fragments = False, df_data = [9, 10]\<rparr>,
        \<lparr>df_id = 7, df_offset = 0, df_more_fragments = True, df_data = [1, 2, 3, 4, 5, 6, 7, 8]\<rparr>]
       (fragment_map_new lru_list 2) = Some (rs, m) \<and> rs ! 1 = FmComplete [1, 2, 3, 4, 5, 6, 7, 8, 9, 10]"
proof -
  have "fragment_loop 7 8 0 [1, 2, 3, 4, 5, 6, 7, 8, 9, 10] = Some
      [\<lparr>df_id = 7, df_offset = 0, df_more_fragments = True, df_data = [1, 2, 3, 4, 5, 6, 7, 8]\<rparr>,
       \<lparr>df_id = 7, df_offset = 8, df_more_fragments = False, df_data = [9, 10]\<rparr>]"
    by (simp add: fragment_loop.simps [of _ _ _ "_ # _"] Let_def)
  then show ?thesis
    using reassembly_any_order [of lru_list lru_list_peek 2 "lru_list_wf 2" "{7}" 8
        "\<lambda>_. [1, 2, 3, 4, 5, 6, 7, 8, 9, 10]"
        "[\<lparr>df_id = 7, df_offset = 8, df_more_fragments = False, df_data = [9, 10]\<rparr>,
        \<lparr>df_id = 7, df_offset = 0, df_more_fragments = True, df_data = [1, 2, 3, 4, 5, 6, 7, 8]\<rparr>]"]
      lru_list_laws [of 2] by force
qed

text \<open>
  C34. The fragment map is safe against any peer: whatever fragments arrive, in whatever state,
  \<open>add_fragment\<close> does not panic, the entry of the fragment's id survives exactly when the
  answer is \<open>Incomplete\<close> (so an error or a completed packet frees it), no other packet is
  changed (at worst one is evicted), and the number of packets held stays within the capacity.
\<close>

theorem fragment_map_safe:
  assumes "lru_cache L peek cap valid" and "valid c"
  shows "\<exists>r c'. fragment_map_add_fragment L g c = Some (r, c') \<and> valid c'
    \<and> (peek c' (df_id g) \<noteq> None \<longleftrightarrow> r = FmIncomplete)
    \<and> (\<forall>j. j \<noteq> df_id g \<longrightarrow> peek c' j \<in> {None, peek c j})
    \<and> card (dom (peek c')) \<le> cap"
  by (rule fragment_cache.add_fragment_total [OF fragment_cache.intro [OF assms(1)] assms(2)])

theorem fragment_map_safe_witness:
  "\<exists>r c'. fragment_map_add_fragment lru_list
      \<lparr>df_id = 7, df_offset = 0, df_more_fragments = True, df_data = []\<rparr> (fragment_map_new lru_list 2) = Some (r, c')
    \<and> (lru_list_peek c' 7 \<noteq> None \<longleftrightarrow> r = FmIncomplete)"
proof -
  have "lru_list_wf 2 (fragment_map_new lru_list 2 :: nat \<times> (u16 \<times> fragmented_packet) list)"
    by (simp add: fragment_map_new_def lru_list_defs)
  then show ?thesis
    using fragment_map_safe [OF lru_list_laws [of 2], of "fragment_map_new lru_list 2"
        "\<lparr>df_id = 7, df_offset = 0, df_more_fragments = True, df_data = []\<rparr>"] by auto
qed

end
