(* ===== verification/Dplpmtud.thy ===== *)
theory Dplpmtud
  imports Wire_Payloads
begin

text \<open>
  Path MTU discovery (RFC 8899): lightway-core/src/connection/dplpmtud.rs. The \<open>u16\<close> sizes
  are naturals with the overflow of \<open>plpmtu + step\<close> as a panic; probe ids are wrapping 16 bit
  words; the calls on the application's \<open>Timer\<close> are logged in \<open>dp_timer\<close>. After the
  operations come the invariant of the state machine and its convergence on a path with a fixed
  MTU.
\<close>

definition MAX_PROBES :: usize where [const_defs]: "MAX_PROBES = 3"
definition BASE_PLPMTU :: nat where [const_defs]: "BASE_PLPMTU = 1250"
definition PROBE_BIG_STEP :: nat where [const_defs]: "PROBE_BIG_STEP = 32"
definition PROBE_SMALL_STEP :: nat where [const_defs]: "PROBE_SMALL_STEP = 8"
definition PROBE_TIME_TIMEOUT :: nat where [const_defs]: "PROBE_TIME_TIMEOUT = 5"
definition PMTU_RAISE_TIMER_TIMEOUT :: nat where [const_defs]: "PMTU_RAISE_TIMER_TIMEOUT = 600"
definition IPV4_HEADER_SIZE :: usize where [const_defs]: "IPV4_HEADER_SIZE = 20"
definition UDP_HEADER_SIZE :: usize where [const_defs]: "UDP_HEADER_SIZE = 8"
definition MAX_DTLS_HEADER_SIZE :: usize where [const_defs]: "MAX_DTLS_HEADER_SIZE = 37"

datatype timer_call = TimerStart nat | TimerStop

datatype pmtud_action = SendProbe u16 nat | PmtudNone

datatype pmtud_state = DpDisabled | DpBase | DpError | DpSearching | DpSearchComplete

datatype step_size = Small | Big

record pending_probe =
  pp_id :: u16
  pp_size :: nat

record dplpmtud =
  dp_max_plpmtu :: nat
  dp_base_plpmtu :: nat
  dp_state :: pmtud_state
  dp_timer :: "timer_call list"
  dp_plpmtu :: nat
  dp_probe_count :: usize
  dp_next_probe_id :: u16
  dp_step_size :: step_size
  dp_pending_probe :: "pending_probe option"

type_synonym pmtud_op = "dplpmtud \<Rightarrow> (pmtud_action \<times> dplpmtud) option"

definition probe_payload_size_for_plpmtu :: "nat \<Rightarrow> nat option" where
  "probe_payload_size_for_plpmtu plpmtu =
     (let overhead = FRAME_KIND_SIZE + PING_WIRE_OVERHEAD in
      if \<not> plpmtu \<ge> overhead then None else Some (plpmtu - overhead))"

definition dp_new :: "nat \<Rightarrow> nat \<Rightarrow> dplpmtud" where
  "dp_new base_plpmtu max_plpmtu =
     \<lparr>dp_max_plpmtu = max_plpmtu, dp_base_plpmtu = base_plpmtu, dp_state = DpDisabled,
      dp_timer = [], dp_plpmtu = base_plpmtu, dp_probe_count = 0, dp_next_probe_id = 1,
      dp_step_size = Big, dp_pending_probe = None\<rparr>"

definition dp_timer_call :: "timer_call \<Rightarrow> dplpmtud \<Rightarrow> dplpmtud" where
  "dp_timer_call c d = d\<lparr>dp_timer := dp_timer d @ [c]\<rparr>"

definition dp_current_plpmtu :: "dplpmtud \<Rightarrow> usize option" where
  "dp_current_plpmtu d =
     (case dp_state d of
        DpSearching \<Rightarrow> Some (dp_plpmtu d)
      | DpSearchComplete \<Rightarrow> Some (dp_plpmtu d)
      | _ \<Rightarrow> None)"

text \<open>\<open>None\<close> is a panic of one of the two size functions; \<open>Some None\<close> is no estimate.\<close>

definition dp_maximum_packet_sizes :: "dplpmtud \<Rightarrow> (usize \<times> usize) option option" where
  "dp_maximum_packet_sizes d =
     (case dp_current_plpmtu d of
        None \<Rightarrow> Some None
      | Some plpmtu \<Rightarrow> do {
          a \<leftarrow> data_maximum_packet_size_for_plpmtu plpmtu;
          b \<leftarrow> data_frag_maximum_packet_size_for_plpmtu plpmtu;
          Some (Some (a, b)) })"

definition dp_effective_pmtu :: "dplpmtud \<Rightarrow> usize option" where
  "dp_effective_pmtu d =
     map_option (\<lambda>plpmtu. plpmtu + IPV4_HEADER_SIZE + UDP_HEADER_SIZE + MAX_DTLS_HEADER_SIZE)
       (dp_current_plpmtu d)"

text \<open>
  \<open>next_probe_id\<close> skips id 0, which keepalives use. The source recurses once; as the
  counter moves on first, the second call cannot see 0 again.
\<close>

definition dp_take_probe_id :: "dplpmtud \<Rightarrow> u16 \<times> dplpmtud" where
  "dp_take_probe_id d = (dp_next_probe_id d, d\<lparr>dp_next_probe_id := dp_next_probe_id d + 1\<rparr>)"

definition dp_get_next_probe_id :: "dplpmtud \<Rightarrow> u16 \<times> dplpmtud" where
  "dp_get_next_probe_id d =
     (let (probe_id, d) = dp_take_probe_id d in
      if probe_id = 0 then dp_take_probe_id d else (probe_id, d))"

definition dp_end_probe :: "dplpmtud \<Rightarrow> dplpmtud" where
  "dp_end_probe d = dp_timer_call TimerStop (d\<lparr>dp_pending_probe := None, dp_probe_count := 0\<rparr>)"

definition dp_send_probe :: "nat \<Rightarrow> pmtud_op" where
  "dp_send_probe sz d = do {
     let (probe_id, d) = dp_get_next_probe_id d;
     let d = d\<lparr>dp_probe_count := dp_probe_count d + 1,
               dp_pending_probe := Some \<lparr>pp_id = probe_id, pp_size = sz\<rparr>\<rparr>;
     let d = dp_timer_call (TimerStart PROBE_TIME_TIMEOUT) d;
     payload \<leftarrow> probe_payload_size_for_plpmtu sz;
     Some (SendProbe probe_id payload, d) }"

definition dp_base_probe_start :: pmtud_op where
  "dp_base_probe_start d =
     dp_send_probe (dp_base_plpmtu d) (d\<lparr>dp_state := DpBase, dp_probe_count := 0\<rparr>)"

definition dp_search_probe_start :: "step_size \<Rightarrow> pmtud_op" where
  "dp_search_probe_start step_size d =
     (let d = d\<lparr>dp_probe_count := 0, dp_step_size := step_size\<rparr>;
          step = (case step_size of Big \<Rightarrow> PROBE_BIG_STEP | Small \<Rightarrow> PROBE_SMALL_STEP)
      in if dp_plpmtu d + step > 65535 then None
         else dp_send_probe (min (dp_plpmtu d + step) (dp_max_plpmtu d)) d)"

definition dp_search_start :: pmtud_op where
  "dp_search_start d = dp_search_probe_start Big (d\<lparr>dp_state := DpSearching\<rparr>)"

definition dp_base_probe_confirmed :: "nat \<Rightarrow> pmtud_op" where
  "dp_base_probe_confirmed sz d = dp_search_start ((dp_end_probe d)\<lparr>dp_plpmtu := sz\<rparr>)"

definition dp_error :: pmtud_op where
  "dp_error d = dp_send_probe (dp_base_plpmtu d) ((dp_end_probe d)\<lparr>dp_state := DpError\<rparr>)"

definition dp_base_probe_timeout :: pmtud_op where
  "dp_base_probe_timeout d =
     (if dp_probe_count d < MAX_PROBES then dp_send_probe (dp_base_plpmtu d) d else dp_error d)"

definition dp_search_complete :: pmtud_op where
  "dp_search_complete d =
     Some (PmtudNone, dp_timer_call (TimerStart PMTU_RAISE_TIMER_TIMEOUT)
       ((dp_end_probe d)\<lparr>dp_state := DpSearchComplete\<rparr>))"

definition dp_search_probe_confirmed :: "nat \<Rightarrow> pmtud_op" where
  "dp_search_probe_confirmed sz d =
     (let d = d\<lparr>dp_plpmtu := sz\<rparr> in
      if dp_plpmtu d < dp_max_plpmtu d then dp_search_probe_start (dp_step_size d) d
      else dp_search_complete d)"

definition dp_search_probe_timeout :: pmtud_op where
  "dp_search_probe_timeout d =
     (case dp_pending_probe d of
        Some pending \<Rightarrow>
          if dp_probe_count d < MAX_PROBES then dp_send_probe (pp_size pending) d
          else if dp_probe_count d = MAX_PROBES \<and> dp_step_size d = Big then dp_search_probe_start Small d
          else dp_search_complete d
      | None \<Rightarrow> dp_error d)"

definition dp_search_complete_reconfirm :: pmtud_op where
  "dp_search_complete_reconfirm d = dp_send_probe (dp_plpmtu d) d"

definition dp_search_complete_probe_confirmed :: pmtud_op where
  "dp_search_complete_probe_confirmed d = dp_search_start d"

definition dp_search_complete_probe_timeout :: pmtud_op where
  "dp_search_complete_probe_timeout d =
     (case dp_pending_probe d of
        Some pending \<Rightarrow>
          if dp_probe_count d < MAX_PROBES then dp_send_probe (pp_size pending) d
          else dp_base_probe_start d
      | None \<Rightarrow> dp_search_complete_reconfirm d)"

definition dp_error_probe_timeout :: pmtud_op where
  "dp_error_probe_timeout d = dp_send_probe (dp_base_plpmtu d) d"

definition dp_online :: pmtud_op where
  "dp_online d =
     (case dp_state d of DpDisabled \<Rightarrow> dp_base_probe_start d | _ \<Rightarrow> Some (PmtudNone, d))"

definition dp_offline :: "dplpmtud \<Rightarrow> dplpmtud" where
  "dp_offline d = (dp_end_probe d)\<lparr>dp_state := DpDisabled\<rparr>"

definition dp_tick :: pmtud_op where
  "dp_tick d =
     (case dp_state d of
        DpDisabled \<Rightarrow> Some (PmtudNone, d)
      | DpBase \<Rightarrow> dp_base_probe_timeout d
      | DpError \<Rightarrow> dp_error_probe_timeout d
      | DpSearching \<Rightarrow> dp_search_probe_timeout d
      | DpSearchComplete \<Rightarrow> dp_search_complete_probe_timeout d)"

text \<open>The reply matches the pending probe.\<close>

definition dp_expected :: "u16 \<Rightarrow> dplpmtud \<Rightarrow> pending_probe option" where
  "dp_expected probe_id d =
     (case dp_pending_probe d of
        Some expected \<Rightarrow> if probe_id = pp_id expected then Some expected else None
      | None \<Rightarrow> None)"

definition dp_pong_received :: "pong \<Rightarrow> pmtud_op" where
  "dp_pong_received pong d =
     (if pong_id pong = KEEPALIVE_ID then Some (PmtudNone, d)
      else case dp_state d of
          DpDisabled \<Rightarrow> Some (PmtudNone, d)
        | DpSearching \<Rightarrow>
            (case dp_expected (pong_id pong) d of
               Some expected \<Rightarrow> dp_search_probe_confirmed (pp_size expected) d
             | None \<Rightarrow> Some (PmtudNone, d))
        | DpSearchComplete \<Rightarrow>
            (case dp_expected (pong_id pong) d of
               Some expected \<Rightarrow> dp_search_complete_probe_confirmed d
             | None \<Rightarrow> Some (PmtudNone, d))
        | _ \<Rightarrow>
            (case dp_expected (pong_id pong) d of
               Some expected \<Rightarrow> dp_base_probe_confirmed (pp_size expected) d
             | None \<Rightarrow> Some (PmtudNone, d)))"

section \<open>Invariant\<close>

definition dp_config_ok :: "nat \<Rightarrow> nat \<Rightarrow> bool" where
  "dp_config_ok base_plpmtu max_plpmtu \<longleftrightarrow>
     15 \<le> base_plpmtu \<and> base_plpmtu \<le> max_plpmtu \<and> max_plpmtu + PROBE_BIG_STEP \<le> 65535"

definition dp_pending_ok :: "dplpmtud \<Rightarrow> bool" where
  "dp_pending_ok d \<longleftrightarrow>
     (case dp_pending_probe d of
        None \<Rightarrow> dp_state d \<in> {DpDisabled, DpSearchComplete}
      | Some p \<Rightarrow>
          pp_id p \<noteq> 0 \<and> dp_base_plpmtu d \<le> pp_size p \<and> pp_size p \<le> dp_max_plpmtu d
          \<and> (case dp_state d of
               DpDisabled \<Rightarrow> False
             | DpSearching \<Rightarrow>
                 pp_size p = min (dp_plpmtu d + (case dp_step_size d of Big \<Rightarrow> 32 | Small \<Rightarrow> 8)) (dp_max_plpmtu d)
             | DpSearchComplete \<Rightarrow> pp_size p = dp_plpmtu d
             | _ \<Rightarrow> pp_size p = dp_base_plpmtu d))"

definition dp_timer_running :: "dplpmtud \<Rightarrow> bool" where
  "dp_timer_running d \<longleftrightarrow>
     (dp_state d \<noteq> DpDisabled \<longrightarrow> dp_timer d \<noteq> [] \<and> last (dp_timer d) \<noteq> TimerStop)"

definition dp_ok :: "dplpmtud \<Rightarrow> bool" where
  "dp_ok d \<longleftrightarrow>
     dp_config_ok (dp_base_plpmtu d) (dp_max_plpmtu d)
     \<and> dp_base_plpmtu d \<le> dp_plpmtu d \<and> dp_plpmtu d \<le> dp_max_plpmtu d
     \<and> dp_pending_ok d \<and> dp_timer_running d
     \<and> (dp_state d \<in> {DpBase, DpSearching} \<longrightarrow> 1 \<le> dp_probe_count d \<and> dp_probe_count d \<le> 3)"

lemma dp_send_probe_eq:
  assumes "5 \<le> sz"
  shows "\<exists>i n. i \<noteq> 0 \<and> dp_send_probe sz d = Some (SendProbe i (sz - 5),
    d\<lparr>dp_next_probe_id := n, dp_probe_count := Suc (dp_probe_count d),
      dp_pending_probe := Some \<lparr>pp_id = i, pp_size = sz\<rparr>,
      dp_timer := dp_timer d @ [TimerStart 5]\<rparr>)"
  using assms
  by (auto simp: dp_send_probe_def dp_get_next_probe_id_def dp_take_probe_id_def Let_def
      probe_payload_size_for_plpmtu_def dp_timer_call_def const_defs)

lemmas dp_inv_defs = dp_ok_def dp_pending_ok_def dp_timer_running_def dp_config_ok_def

lemmas dp_op_defs = dp_base_probe_start_def dp_search_probe_start_def dp_search_start_def
  dp_base_probe_confirmed_def dp_error_def dp_base_probe_timeout_def dp_search_complete_def
  dp_search_probe_confirmed_def dp_search_probe_timeout_def dp_search_complete_reconfirm_def
  dp_search_complete_probe_confirmed_def dp_search_complete_probe_timeout_def
  dp_error_probe_timeout_def dp_end_probe_def dp_timer_call_def

text \<open>What a probe leaves: the invariant holds when the size fits the state it was sent in.\<close>

lemma dp_send_probe_ok:
  assumes "dp_config_ok (dp_base_plpmtu d) (dp_max_plpmtu d)"
    and "dp_base_plpmtu d \<le> dp_plpmtu d" "dp_plpmtu d \<le> dp_max_plpmtu d"
    and "dp_base_plpmtu d \<le> sz" "sz \<le> dp_max_plpmtu d"
    and "case dp_state d of
           DpDisabled \<Rightarrow> False
         | DpSearching \<Rightarrow>
             sz = min (dp_plpmtu d + (case dp_step_size d of Big \<Rightarrow> 32 | Small \<Rightarrow> 8)) (dp_max_plpmtu d)
         | DpSearchComplete \<Rightarrow> sz = dp_plpmtu d
         | _ \<Rightarrow> sz = dp_base_plpmtu d"
    and "dp_state d \<in> {DpBase, DpSearching} \<Longrightarrow> dp_probe_count d < 3"
  shows "\<exists>a d'. dp_send_probe sz d = Some (a, d') \<and> dp_ok d'"
proof -
  have "5 \<le> sz" using assms(1,4) by (simp add: dp_config_ok_def)
  then show ?thesis
    using dp_send_probe_eq [of sz d] assms by (cases "dp_state d") (auto simp: dp_inv_defs)
qed

lemma dp_search_probe_start_ok:
  assumes "dp_config_ok (dp_base_plpmtu d) (dp_max_plpmtu d)"
    and "dp_base_plpmtu d \<le> dp_plpmtu d" "dp_plpmtu d \<le> dp_max_plpmtu d" "dp_state d = DpSearching"
  shows "\<exists>a d'. dp_search_probe_start st d = Some (a, d') \<and> dp_ok d'"
proof -
  let ?s = "case st of Big \<Rightarrow> PROBE_BIG_STEP | Small \<Rightarrow> PROBE_SMALL_STEP"
  have "\<exists>a d'. dp_send_probe (min (dp_plpmtu d + ?s) (dp_max_plpmtu d))
      (d\<lparr>dp_probe_count := 0, dp_step_size := st\<rparr>) = Some (a, d') \<and> dp_ok d'"
    using assms by (intro dp_send_probe_ok) (auto simp: const_defs dp_config_ok_def split: step_size.split)
  moreover have "\<not> dp_plpmtu d + ?s > 65535"
    using assms by (auto simp: const_defs dp_config_ok_def split: step_size.split)
  ultimately show ?thesis by (simp add: dp_search_probe_start_def Let_def)
qed

lemma dp_search_complete_ok:
  "dp_ok d \<Longrightarrow> \<exists>a d'. dp_search_complete d = Some (a, d') \<and> dp_ok d'"
  by (auto simp: dp_search_complete_def dp_inv_defs dp_end_probe_def dp_timer_call_def const_defs)

lemma dp_okD:
  assumes "dp_ok d"
  shows "dp_config_ok (dp_base_plpmtu d) (dp_max_plpmtu d)"
    and "dp_base_plpmtu d \<le> dp_plpmtu d" "dp_plpmtu d \<le> dp_max_plpmtu d"
    and "dp_base_plpmtu d \<le> dp_max_plpmtu d"
  using assms by (auto simp: dp_ok_def)

lemma dp_error_ok: "dp_ok d \<Longrightarrow> \<exists>a d'. dp_error d = Some (a, d') \<and> dp_ok d'"
  unfolding dp_error_def using dp_okD [of d]
  by (intro dp_send_probe_ok) (simp_all add: dp_end_probe_def dp_timer_call_def)

lemma dp_base_probe_start_ok: "dp_ok d \<Longrightarrow> \<exists>a d'. dp_base_probe_start d = Some (a, d') \<and> dp_ok d'"
  unfolding dp_base_probe_start_def using dp_okD [of d]
  by (intro dp_send_probe_ok) simp_all

lemma dp_search_start_ok: "dp_ok d \<Longrightarrow> \<exists>a d'. dp_search_start d = Some (a, d') \<and> dp_ok d'"
  unfolding dp_search_start_def using dp_okD [of d]
  by (intro dp_search_probe_start_ok) simp_all

text \<open>Sending the pending size again: every retry of the state machine.\<close>

lemma dp_retry_ok:
  assumes "dp_ok d" "dp_pending_probe d = Some p" "dp_probe_count d < 3"
  shows "\<exists>a d'. dp_send_probe (pp_size p) d = Some (a, d') \<and> dp_ok d'"
  using assms dp_okD [OF assms(1)]
  by (intro dp_send_probe_ok) (auto simp: dp_ok_def dp_pending_ok_def split: pmtud_state.splits)

lemma dp_base_retry_ok:
  assumes "dp_ok d" "dp_state d \<in> {DpBase, DpError}" "dp_state d = DpBase \<Longrightarrow> dp_probe_count d < 3"
  shows "\<exists>a d'. dp_send_probe (dp_base_plpmtu d) d = Some (a, d') \<and> dp_ok d'"
  using assms dp_okD [OF assms(1)] by (intro dp_send_probe_ok) auto

lemma dp_tick_ok:
  assumes "dp_ok d"
  shows "\<exists>a d'. dp_tick d = Some (a, d') \<and> dp_ok d'"
proof (cases "dp_state d")
  case DpDisabled
  then show ?thesis using assms by (simp add: dp_tick_def)
next
  case DpBase
  then show ?thesis
    using assms dp_base_retry_ok [OF assms] dp_error_ok [OF assms]
    by (simp add: dp_tick_def dp_base_probe_timeout_def const_defs)
next
  case DpError
  then show ?thesis
    using dp_base_retry_ok [OF assms] by (simp add: dp_tick_def dp_error_probe_timeout_def)
next
  case DpSearching
  then show ?thesis
    using dp_retry_ok [OF assms] dp_error_ok [OF assms] dp_search_complete_ok [OF assms]
      dp_search_probe_start_ok [of d Small] dp_okD [OF assms]
    by (auto simp: dp_tick_def dp_search_probe_timeout_def const_defs split: option.split)
next
  case DpSearchComplete
  have "\<exists>a d'. dp_send_probe (dp_plpmtu d) d = Some (a, d') \<and> dp_ok d'"
    using DpSearchComplete dp_okD [OF assms] by (intro dp_send_probe_ok) auto
  then show ?thesis
    using DpSearchComplete dp_retry_ok [OF assms] dp_base_probe_start_ok [OF assms]
    by (auto simp: dp_tick_def dp_search_complete_probe_timeout_def dp_search_complete_reconfirm_def
        const_defs split: option.split)
qed

lemma dp_base_probe_confirmed_ok:
  assumes "dp_ok d" "dp_base_plpmtu d \<le> sz" "sz \<le> dp_max_plpmtu d"
  shows "\<exists>a d'. dp_base_probe_confirmed sz d = Some (a, d') \<and> dp_ok d'"
  unfolding dp_base_probe_confirmed_def dp_search_start_def using assms dp_okD [OF assms(1)]
  by (intro dp_search_probe_start_ok) (simp_all add: dp_end_probe_def dp_timer_call_def)

lemma dp_search_probe_confirmed_ok:
  assumes "dp_ok d" "dp_state d = DpSearching" "dp_base_plpmtu d \<le> sz" "sz \<le> dp_max_plpmtu d"
  shows "\<exists>a d'. dp_search_probe_confirmed sz d = Some (a, d') \<and> dp_ok d'"
proof (cases "sz < dp_max_plpmtu d")
  case True
  then show ?thesis
    using assms dp_okD [OF assms(1)] dp_search_probe_start_ok [of "d\<lparr>dp_plpmtu := sz\<rparr>" "dp_step_size d"]
    by (simp add: dp_search_probe_confirmed_def Let_def)
next
  case False
  then show ?thesis
    using assms
    by (auto simp: dp_search_probe_confirmed_def Let_def dp_search_complete_def dp_inv_defs
        dp_end_probe_def dp_timer_call_def const_defs)
qed

lemma dp_pong_ok:
  assumes "dp_ok d"
  shows "\<exists>a d'. dp_pong_received pong d = Some (a, d') \<and> dp_ok d'"
proof (cases "dp_expected (pong_id pong) d")
  case None
  then show ?thesis
    using assms by (auto simp: dp_pong_received_def split: pmtud_state.split)
next
  case (Some p)
  then have "dp_base_plpmtu d \<le> pp_size p" "pp_size p \<le> dp_max_plpmtu d"
    using assms
    by (auto simp: dp_expected_def dp_ok_def dp_pending_ok_def split: option.splits if_splits)
  then show ?thesis
    using assms Some dp_base_probe_confirmed_ok [OF assms] dp_search_probe_confirmed_ok [OF assms]
      dp_search_start_ok [OF assms]
    by (auto simp: dp_pong_received_def dp_search_complete_probe_confirmed_def split: pmtud_state.split)
qed

inductive dp_reachable :: "nat \<Rightarrow> nat \<Rightarrow> dplpmtud \<Rightarrow> bool" for base_plpmtu max_plpmtu where
  dp_reach_new: "dp_reachable base_plpmtu max_plpmtu (dp_new base_plpmtu max_plpmtu)"
| dp_reach_online: "dp_reachable base_plpmtu max_plpmtu d \<Longrightarrow> dp_online d = Some (a, d') \<Longrightarrow>
    dp_reachable base_plpmtu max_plpmtu d'"
| dp_reach_offline: "dp_reachable base_plpmtu max_plpmtu d \<Longrightarrow> dp_reachable base_plpmtu max_plpmtu (dp_offline d)"
| dp_reach_tick: "dp_reachable base_plpmtu max_plpmtu d \<Longrightarrow> dp_tick d = Some (a, d') \<Longrightarrow>
    dp_reachable base_plpmtu max_plpmtu d'"
| dp_reach_pong: "dp_reachable base_plpmtu max_plpmtu d \<Longrightarrow> dp_pong_received pong d = Some (a, d') \<Longrightarrow>
    dp_reachable base_plpmtu max_plpmtu d'"

lemma dp_online_ok: "dp_ok d \<Longrightarrow> \<exists>a d'. dp_online d = Some (a, d') \<and> dp_ok d'"
  using dp_base_probe_start_ok [of d] by (auto simp: dp_online_def split: pmtud_state.split)

lemma dp_reachable_ok:
  "dp_reachable base_plpmtu max_plpmtu d \<Longrightarrow> dp_config_ok base_plpmtu max_plpmtu \<Longrightarrow> dp_ok d"
proof (induction rule: dp_reachable.induct)
  case dp_reach_new
  then show ?case by (simp add: dp_new_def dp_inv_defs)
next
  case (dp_reach_online d a d')
  then show ?case using dp_online_ok [of d] by auto
next
  case (dp_reach_offline d)
  then show ?case by (auto simp: dp_offline_def dp_end_probe_def dp_timer_call_def dp_inv_defs)
next
  case (dp_reach_tick d a d')
  then show ?case using dp_tick_ok [of d] by auto
next
  case (dp_reach_pong d pong a d')
  then show ?case using dp_pong_ok [of d pong] by auto
qed

lemma packet_sizes_defined:
  assumes "15 \<le> p"
  shows "data_maximum_packet_size_for_plpmtu p = Some (p - 3)"
    and "data_frag_maximum_packet_size_for_plpmtu p = Some (p - 7 - (p - 7) mod 8)"
proof -
  have "(p - 7) mod 8 < 8" by simp
  then have "0 < p - 7 - (p - 7) mod 8" using assms by linarith
  then show "data_frag_maximum_packet_size_for_plpmtu p = Some (p - 7 - (p - 7) mod 8)"
    using assms by (simp add: data_frag_maximum_packet_size_for_plpmtu_def const_defs Let_def)
  show "data_maximum_packet_size_for_plpmtu p = Some (p - 3)"
    using assms by (simp add: data_maximum_packet_size_for_plpmtu_def const_defs)
qed



section \<open>Convergence\<close>

text \<open>
  A path that carries probes of at most \<open>M\<close> bytes: such a probe is answered, a larger one
  times out. \<open>path_step\<close> is the next event the machine sees; \<open>path_run n\<close> applies it until
  the search completes, at most \<open>n\<close> times.
\<close>

definition path_step :: "nat \<Rightarrow> dplpmtud \<Rightarrow> dplpmtud option" where
  "path_step M d =
     (case dp_pending_probe d of
        Some p \<Rightarrow>
          if pp_size p \<le> M then map_option snd (dp_pong_received \<lparr>pong_id = pp_id p, pong_payload = []\<rparr> d)
          else map_option snd (dp_tick d)
      | None \<Rightarrow> map_option snd (dp_tick d))"

fun path_run :: "nat \<Rightarrow> nat \<Rightarrow> dplpmtud \<Rightarrow> dplpmtud option" where
  "path_run M 0 d = Some d"
| "path_run M (Suc n) d =
     (if dp_state d = DpSearchComplete then Some d else do { d \<leftarrow> path_step M d; path_run M n d })"

definition search_measure :: "dplpmtud \<Rightarrow> nat" where
  "search_measure d =
     4 * (dp_max_plpmtu d - dp_plpmtu d) + (if dp_step_size d = Big then 4 else 0) + (4 - dp_probe_count d)"

definition converged :: "nat \<Rightarrow> dplpmtud \<Rightarrow> bool" where
  "converged M d \<longleftrightarrow>
     dp_state d = DpSearchComplete \<and> dp_plpmtu d \<le> M
     \<and> (dp_plpmtu d = dp_max_plpmtu d \<or> M < min (dp_plpmtu d + 8) (dp_max_plpmtu d))"

text \<open>One event of the search: it converges, or the measure goes down.\<close>

lemma search_probe_start_measure:
  assumes "dp_search_probe_start st d = Some (a, d')"
  shows "dp_state d' = dp_state d \<and> dp_plpmtu d' = dp_plpmtu d \<and> dp_max_plpmtu d' = dp_max_plpmtu d
    \<and> dp_probe_count d' = 1 \<and> dp_step_size d' = st"
  using assms
  by (auto simp: dp_search_probe_start_def Let_def dp_send_probe_def dp_get_next_probe_id_def
      dp_take_probe_id_def dp_timer_call_def bind_eq_Some_conv split: if_splits prod.splits)

lemma send_probe_measure:
  assumes "dp_send_probe sz d = Some (a, d')"
  shows "dp_state d' = dp_state d \<and> dp_plpmtu d' = dp_plpmtu d \<and> dp_max_plpmtu d' = dp_max_plpmtu d
    \<and> dp_base_plpmtu d' = dp_base_plpmtu d \<and> dp_probe_count d' = Suc (dp_probe_count d) \<and> dp_step_size d' = dp_step_size d"
  using assms
  by (auto simp: dp_send_probe_def dp_get_next_probe_id_def dp_take_probe_id_def dp_timer_call_def
      Let_def bind_eq_Some_conv split: if_splits prod.splits)

lemma search_event:
  assumes ok: "dp_ok d" and st: "dp_state d = DpSearching" and M: "dp_plpmtu d \<le> M"
  shows "\<exists>d'. path_step M d = Some d' \<and> dp_ok d' \<and> dp_plpmtu d' \<le> M \<and> dp_max_plpmtu d' = dp_max_plpmtu d
    \<and> (converged M d' \<or> dp_state d' = DpSearching \<and> search_measure d' < search_measure d)"
proof -
  obtain p where p: "dp_pending_probe d = Some p" "pp_id p \<noteq> 0"
    "pp_size p = min (dp_plpmtu d + (case dp_step_size d of Big \<Rightarrow> 32 | Small \<Rightarrow> 8)) (dp_max_plpmtu d)"
    and le: "dp_plpmtu d \<le> dp_max_plpmtu d" and pc: "1 \<le> dp_probe_count d" "dp_probe_count d \<le> 3"
    using ok st by (auto simp: dp_ok_def dp_pending_ok_def split: option.splits)
  show ?thesis
  proof (cases "pp_size p \<le> M")
    case True
    let ?pong = "\<lparr>pong_id = pp_id p, pong_payload = []\<rparr>"
    obtain a d' where d': "dp_pong_received ?pong d = Some (a, d')" "dp_ok d'"
      using dp_pong_ok [OF ok] by blast
    then have eq: "dp_search_probe_confirmed (pp_size p) d = Some (a, d')"
      using p st by (simp add: dp_pong_received_def dp_expected_def KEEPALIVE_ID_def)
    have step: "path_step M d = Some d'"
      using d'(1) p(1) True by (simp add: path_step_def)
    show ?thesis
    proof (cases "pp_size p < dp_max_plpmtu d")
      case lt: True
      then have "dp_search_probe_start (dp_step_size d) (d\<lparr>dp_plpmtu := pp_size p\<rparr>) = Some (a, d')"
        using eq by (simp add: dp_search_probe_confirmed_def Let_def)
      note m = search_probe_start_measure [OF this]
      have "dp_plpmtu d < pp_size p" using lt p(3) by (auto split: step_size.splits)
      then have "search_measure d' < search_measure d"
        using m pc lt by (simp add: search_measure_def)
      then show ?thesis using step d'(2) m True st by auto
    next
      case False
      then have "dp_search_complete (d\<lparr>dp_plpmtu := pp_size p\<rparr>) = Some (a, d')"
        using eq by (simp add: dp_search_probe_confirmed_def Let_def)
      then have "dp_state d' = DpSearchComplete" "dp_plpmtu d' = pp_size p" "dp_max_plpmtu d' = dp_max_plpmtu d"
        by (auto simp: dp_search_complete_def dp_end_probe_def dp_timer_call_def)
      then show ?thesis using step d'(2) True False p(3) by (auto simp: converged_def)
    qed
  next
    case False
    obtain a d' where d': "dp_tick d = Some (a, d')" "dp_ok d'" using dp_tick_ok [OF ok] by blast
    have eq: "dp_search_probe_timeout d = Some (a, d')" using d'(1) st by (simp add: dp_tick_def)
    have step: "path_step M d = Some d'" using d'(1) p(1) False by (simp add: path_step_def)
    consider (retry) "dp_probe_count d < 3" | (small) "dp_probe_count d = 3" "dp_step_size d = Big"
      | (final) "dp_probe_count d = 3" "dp_step_size d = Small"
      using pc by (cases "dp_step_size d") linarith+
    then show ?thesis
    proof cases
      case retry
      then have "dp_send_probe (pp_size p) d = Some (a, d')"
        using eq p(1) by (simp add: dp_search_probe_timeout_def const_defs)
      note m = send_probe_measure [OF this]
      then show ?thesis using step d'(2) M st retry by (auto simp: search_measure_def)
    next
      case small
      then have "dp_search_probe_start Small d = Some (a, d')"
        using eq p(1) by (simp add: dp_search_probe_timeout_def const_defs)
      note m = search_probe_start_measure [OF this]
      then show ?thesis using step d'(2) M st small by (auto simp: search_measure_def)
    next
      case final
      then have "dp_search_complete d = Some (a, d')"
        using eq p(1) by (simp add: dp_search_probe_timeout_def const_defs)
      then have "dp_state d' = DpSearchComplete" "dp_plpmtu d' = dp_plpmtu d" "dp_max_plpmtu d' = dp_max_plpmtu d"
        by (auto simp: dp_search_complete_def dp_end_probe_def dp_timer_call_def)
      then show ?thesis using step d'(2) M False final p(3) by (auto simp: converged_def)
    qed
  qed
qed

lemma path_run_complete [simp]: "dp_state d = DpSearchComplete \<Longrightarrow> path_run M n d = Some d"
  by (cases n) simp_all

lemma search_converges:
  "dp_ok d \<Longrightarrow> dp_state d = DpSearching \<Longrightarrow> dp_plpmtu d \<le> M \<Longrightarrow> search_measure d \<le> n \<Longrightarrow>
     \<exists>d'. path_run M n d = Some d' \<and> converged M d' \<and> dp_max_plpmtu d' = dp_max_plpmtu d"
proof (induction n arbitrary: d)
  case 0
  then show ?case by (auto simp: search_measure_def dp_ok_def)
next
  case (Suc n)
  obtain d1 where d1: "path_step M d = Some d1" "dp_ok d1" "dp_plpmtu d1 \<le> M"
    "dp_max_plpmtu d1 = dp_max_plpmtu d"
    "converged M d1 \<or> dp_state d1 = DpSearching \<and> search_measure d1 < search_measure d"
    using search_event [OF Suc.prems(1-3)] by blast
  show ?case
  proof (cases "converged M d1")
    case True
    then show ?thesis using d1 Suc.prems(2) by (simp add: converged_def)
  next
    case False
    then show ?thesis
      using Suc.IH [of d1] d1 Suc.prems by auto
  qed
qed

text \<open>
  C10. Path MTU discovery converges: on a path that carries exactly the probes of at most
  \<open>M\<close> bytes, with the base size known to work, discovery started by \<open>online\<close> completes
  within a bounded number of probes and timeouts with an estimate that is never too large, and
  is the configured maximum or within one small step (8 bytes) of the path's real limit.
\<close>

theorem pmtud_converges:
  assumes "dp_config_ok base_plpmtu max_plpmtu" and "base_plpmtu \<le> M"
  shows "\<exists>a d0 d. dp_online (dp_new base_plpmtu max_plpmtu) = Some (a, d0)
    \<and> path_run M (4 * (max_plpmtu - base_plpmtu) + 8) d0 = Some d
    \<and> dp_state d = DpSearchComplete \<and> dp_plpmtu d \<le> M
    \<and> (dp_plpmtu d = max_plpmtu \<or> M < min (dp_plpmtu d + 8) max_plpmtu)"
proof -
  let ?n = "dp_new base_plpmtu max_plpmtu"
  have ok: "dp_ok ?n" using dp_reachable_ok [OF dp_reach_new assms(1)] .
  obtain a d0 where d0: "dp_online ?n = Some (a, d0)" "dp_ok d0" using dp_online_ok [OF ok] by blast
  then have send: "dp_send_probe base_plpmtu (?n\<lparr>dp_state := DpBase, dp_probe_count := 0\<rparr>) = Some (a, d0)"
    by (simp add: dp_online_def dp_new_def dp_base_probe_start_def)
  have st: "dp_state d0 = DpBase" "dp_max_plpmtu d0 = max_plpmtu" "dp_base_plpmtu d0 = base_plpmtu"
    using send_probe_measure [OF send] by (simp_all add: dp_new_def)
  then obtain p where p: "dp_pending_probe d0 = Some p" "pp_id p \<noteq> 0" "pp_size p = base_plpmtu"
    using d0(2) by (auto simp: dp_ok_def dp_pending_ok_def split: option.splits)
  let ?pong = "\<lparr>pong_id = pp_id p, pong_payload = []\<rparr>"
  obtain b d1 where d1: "dp_pong_received ?pong d0 = Some (b, d1)" "dp_ok d1"
    using dp_pong_ok [OF d0(2)] by blast
  then have start: "dp_search_probe_start Big
      ((dp_end_probe d0)\<lparr>dp_plpmtu := base_plpmtu, dp_state := DpSearching\<rparr>) = Some (b, d1)"
    using p st
    by (simp add: dp_pong_received_def dp_expected_def KEEPALIVE_ID_def dp_base_probe_confirmed_def
        dp_search_start_def)
  note m = search_probe_start_measure [OF start]
  have s1: "dp_state d1 = DpSearching" "dp_plpmtu d1 = base_plpmtu" "dp_max_plpmtu d1 = max_plpmtu"
    "search_measure d1 = 4 * (max_plpmtu - base_plpmtu) + 7"
    using m st by (simp_all add: dp_end_probe_def dp_timer_call_def search_measure_def)
  then obtain d where "path_run M (4 * (max_plpmtu - base_plpmtu) + 7) d1 = Some d" "converged M d"
    "dp_max_plpmtu d = max_plpmtu"
    using search_converges [OF d1(2)] assms(2) by (metis order_refl)
  moreover have "path_step M d0 = Some d1"
    using d1(1) p assms(2) by (simp add: path_step_def)
  then have "path_run M (Suc (4 * (max_plpmtu - base_plpmtu) + 7)) d0
      = path_run M (4 * (max_plpmtu - base_plpmtu) + 7) d1"
    using st(1) by (simp only: path_run.simps) simp
  moreover have "Suc (4 * (max_plpmtu - base_plpmtu) + 7) = 4 * (max_plpmtu - base_plpmtu) + 8" by simp
  ultimately show ?thesis using d0(1) by (auto simp: converged_def)
qed

theorem pmtud_converges_witness:
  "\<exists>a d0 d. dp_online (dp_new 1250 1400) = Some (a, d0) \<and> path_run 1301 608 d0 = Some d
    \<and> dp_plpmtu d \<le> 1301 \<and> (dp_plpmtu d = 1400 \<or> 1301 < min (dp_plpmtu d + 8) 1400)"
  using pmtud_converges [of 1250 1400 1301] by (force simp: dp_config_ok_def const_defs)

end
