(* ===== verification/Packet_Utils.thy ===== *)
theory Packet_Utils
  imports Prelude
begin

text \<open>
  IPv4 packet helpers (lightway-core/src/utils.rs): validity and protocol tests, the incremental
  checksum of RFC 1624, address rewriting and MSS clamping. The packet views come from the crate
  pnet_packet: its accessors are the parameter record \<open>pnet_ops\<close>, where a view of a packet that
  is too short does not exist and a mutable accessor is a function returning the changed bytes.
\<close>

definition ipv4_is_valid_packet :: "bytes \<Rightarrow> bool" where
  "ipv4_is_valid_packet buf \<longleftrightarrow>
     (case buf of [] \<Rightarrow> False | first_byte # _ \<Rightarrow> drop_bit 4 first_byte = 4)"

section \<open>The incremental checksum\<close>

text \<open>\<open>overflowing_sub\<close>, and one more on a borrow; the second subtraction cannot underflow.\<close>

definition checksum_sub :: "u16 \<Rightarrow> u16 \<Rightarrow> u16" where
  "checksum_sub c rhs = (if c < rhs then c - rhs - 1 else c - rhs)"

definition checksum_update_word :: "u16 \<Rightarrow> u16 \<Rightarrow> u16 \<Rightarrow> u16" where
  "checksum_update_word c old_word new_word = checksum_sub (checksum_sub c (NOT old_word)) new_word"

type_synonym checksum_updates = "(u16 \<times> u16) list"

definition checksum_update :: "u16 \<Rightarrow> checksum_updates \<Rightarrow> u16" where
  "checksum_update c updates = foldl (\<lambda>c (old, new). checksum_update_word c old new) c updates"

definition updates_from_ipv4_address :: "u32 \<Rightarrow> u32 \<Rightarrow> checksum_updates" where
  "updates_from_ipv4_address old new =
     map (\<lambda>i. (be_word (take 2 (drop (2 * i) (be_bytes 4 old))), be_word (take 2 (drop (2 * i) (be_bytes 4 new))))) [0, 1]"

definition updates_from_port :: "u16 \<Rightarrow> u16 \<Rightarrow> checksum_updates" where
  "updates_from_port old new = [(old, new)]"

section \<open>Packets\<close>

record pnet_ops =
  pn_ipv4_new :: "bytes \<Rightarrow> bool"
  pn_ipv4_protocol :: "bytes \<Rightarrow> u8"
  pn_ipv4_frag_offset :: "bytes \<Rightarrow> u16"
  pn_ipv4_checksum :: "bytes \<Rightarrow> u16"
  pn_ipv4_set_checksum :: "u16 \<Rightarrow> bytes \<Rightarrow> bytes"
  pn_ipv4_source :: "bytes \<Rightarrow> u32"
  pn_ipv4_set_source :: "u32 \<Rightarrow> bytes \<Rightarrow> bytes"
  pn_ipv4_destination :: "bytes \<Rightarrow> u32"
  pn_ipv4_set_destination :: "u32 \<Rightarrow> bytes \<Rightarrow> bytes"
  pn_ipv4_payload :: "bytes \<Rightarrow> bytes"
  pn_ipv4_set_payload :: "bytes \<Rightarrow> bytes \<Rightarrow> bytes"
  pn_tcp_new :: "bytes \<Rightarrow> bool"
  pn_tcp_flags :: "bytes \<Rightarrow> u8"
  pn_tcp_checksum :: "bytes \<Rightarrow> u16"
  pn_tcp_set_checksum :: "u16 \<Rightarrow> bytes \<Rightarrow> bytes"
  pn_tcp_options_raw :: "bytes \<Rightarrow> bytes"
  pn_tcp_set_options_raw :: "bytes \<Rightarrow> bytes \<Rightarrow> bytes"
  pn_udp_new :: "bytes \<Rightarrow> bool"
  pn_udp_checksum :: "bytes \<Rightarrow> u16"
  pn_udp_set_checksum :: "u16 \<Rightarrow> bytes \<Rightarrow> bytes"
  pn_opt_new :: "bytes \<Rightarrow> bool"
  pn_opt_number :: "bytes \<Rightarrow> u8"
  pn_opt_payload :: "bytes \<Rightarrow> bytes"
  pn_opt_set_payload :: "bytes \<Rightarrow> bytes \<Rightarrow> bytes"
  pn_opt_packet_size :: "bytes \<Rightarrow> usize"

definition IPPROTO_ICMP :: u8 where "IPPROTO_ICMP = 1"
definition IPPROTO_TCP :: u8 where "IPPROTO_TCP = 6"
definition IPPROTO_UDP :: u8 where "IPPROTO_UDP = 17"
definition TCP_FLAG_SYN :: u8 where "TCP_FLAG_SYN = 2"
definition TCP_OPTION_MSS :: u8 where "TCP_OPTION_MSS = 2"

definition ipv4_is_tcp :: "pnet_ops \<Rightarrow> bytes \<Rightarrow> bool" where
  "ipv4_is_tcp N buf \<longleftrightarrow> pn_ipv4_new N buf \<and> pn_ipv4_protocol N buf = IPPROTO_TCP"

definition tcp_adjust_packet_checksum :: "pnet_ops \<Rightarrow> checksum_updates \<Rightarrow> bytes \<Rightarrow> bytes" where
  "tcp_adjust_packet_checksum N updates packet =
     (let tcp = pn_ipv4_payload N packet in
      if \<not> pn_tcp_new N tcp then packet
      else pn_ipv4_set_payload N (pn_tcp_set_checksum N (checksum_update (pn_tcp_checksum N tcp) updates) tcp) packet)"

definition udp_adjust_packet_checksum :: "pnet_ops \<Rightarrow> checksum_updates \<Rightarrow> bytes \<Rightarrow> bytes" where
  "udp_adjust_packet_checksum N updates packet =
     (let udp = pn_ipv4_payload N packet in
      if \<not> pn_udp_new N udp then packet
      else if pn_udp_checksum N udp \<noteq> 0 then
        pn_ipv4_set_payload N (pn_udp_set_checksum N (checksum_update (pn_udp_checksum N udp) updates) udp) packet
      else packet)"

definition ipv4_adjust_packet_checksum :: "pnet_ops \<Rightarrow> checksum_updates \<Rightarrow> bytes \<Rightarrow> bytes" where
  "ipv4_adjust_packet_checksum N updates packet =
     (let packet = pn_ipv4_set_checksum N (checksum_update (pn_ipv4_checksum N packet) updates) packet in
      if 0 \<noteq> pn_ipv4_frag_offset N packet then packet
      else
        let transport_protocol = pn_ipv4_protocol N packet in
        if transport_protocol = IPPROTO_TCP then tcp_adjust_packet_checksum N updates packet
        else if transport_protocol = IPPROTO_UDP then udp_adjust_packet_checksum N updates packet
        else packet)"

definition ipv4_update_source :: "pnet_ops \<Rightarrow> u32 \<Rightarrow> bytes \<Rightarrow> bytes" where
  "ipv4_update_source N ip buf =
     (if \<not> pn_ipv4_new N buf then buf
      else
        let old = pn_ipv4_source N buf in
        ipv4_adjust_packet_checksum N (updates_from_ipv4_address old ip) (pn_ipv4_set_source N ip buf))"

definition ipv4_update_destination :: "pnet_ops \<Rightarrow> u32 \<Rightarrow> bytes \<Rightarrow> bytes" where
  "ipv4_update_destination N ip buf =
     (if \<not> pn_ipv4_new N buf then buf
      else
        let old = pn_ipv4_destination N buf in
        ipv4_adjust_packet_checksum N (updates_from_ipv4_address old ip) (pn_ipv4_set_destination N ip buf))"

text \<open>
  The option scan of \<open>tcp_clamp_mss\<close>: it gives the old MSS and the rewritten options when there
  is something to clamp. \<open>Panic\<close> cases (a payload of an MSS option with less than two bytes, and
  an option of size zero, which the loop would visit forever) are \<open>None\<close>.
\<close>

function clamp_options :: "pnet_ops \<Rightarrow> u16 \<Rightarrow> bytes \<Rightarrow> (u16 \<times> bytes) option option" where
  "clamp_options N mss option_raw =
     (if length option_raw < 4 then Some None
      else if \<not> pn_opt_new N option_raw then Some None
      else if pn_opt_number N option_raw = TCP_OPTION_MSS then
        (case pn_opt_payload N option_raw of
           b0 # b1 # rest \<Rightarrow>
             let existing_mss = be_word [b0, b1] in
             if existing_mss \<le> mss then Some None
             else Some (Some (existing_mss, pn_opt_set_payload N (be_bytes 2 mss @ rest) option_raw))
         | _ \<Rightarrow> None)
      else
        let start = min (pn_opt_packet_size N option_raw) (length option_raw) in
        if start = 0 then None
        else do {
          r \<leftarrow> clamp_options N mss (drop start option_raw);
          Some (map_option (\<lambda>(m, opts). (m, take start option_raw @ opts)) r) })"
  by pat_completeness auto

termination
  by (relation "measure (\<lambda>(N, mss, raw). length raw)") auto

declare clamp_options.simps [simp del]

definition tcp_clamp_mss :: "pnet_ops \<Rightarrow> u16 \<Rightarrow> bytes \<Rightarrow> (u16 option \<times> bytes) option" where
  "tcp_clamp_mss N mss pkt =
     (if \<not> pn_ipv4_new N pkt then Some (None, pkt)
      else if pn_ipv4_protocol N pkt \<noteq> IPPROTO_TCP then Some (None, pkt)
      else
        let tcp = pn_ipv4_payload N pkt in
        if \<not> pn_tcp_new N tcp then Some (None, pkt)
        else if pn_tcp_flags N tcp AND TCP_FLAG_SYN = 0 then Some (None, pkt)
        else do {
          r \<leftarrow> clamp_options N mss (pn_tcp_options_raw N tcp);
          case r of
            None \<Rightarrow> Some (None, pkt)
          | Some (existing_mss, opts) \<Rightarrow>
              Some (Some existing_mss,
                tcp_adjust_packet_checksum N [(existing_mss, mss)]
                  (pn_ipv4_set_payload N (pn_tcp_set_options_raw N opts tcp) pkt)) })"

section \<open>The checksum stays valid\<close>

text \<open>
  One's complement arithmetic is arithmetic modulo 65535. A block of 16 bit words with its
  checksum is valid when the words and the checksum add up to a multiple of 65535.
\<close>

definition checksum_valid :: "u16 \<Rightarrow> u16 list \<Rightarrow> bool" where
  "checksum_valid c ws \<longleftrightarrow> (unat c + sum_list (map unat ws)) mod 65535 = 0"

lemma unat_u16_max: "unat (w :: u16) \<le> 65535"
  using unat_u16_less [of w] by linarith

lemma checksum_sub_mod: "(unat (checksum_sub c r) + unat r) mod 65535 = unat c mod 65535"
proof (cases "c < r")
  case True
  then have lt: "unat c < unat r" by (simp add: word_less_nat_alt)
  have "unat (c - r) = unat c + 65536 - unat r"
    using lt by (simp add: unat_sub_if')
  moreover from this have "unat (c - r - 1) = unat (c - r) - 1"
    using unat_u16_max [of r] by (intro unat_minus_one) auto
  ultimately have "unat (checksum_sub c r) + unat r = unat c + 65535"
    using True unat_u16_max [of r] by (simp add: checksum_sub_def)
  then show ?thesis by simp
next
  case False
  then have "unat (checksum_sub c r) + unat r = unat c"
    by (simp add: checksum_sub_def unat_sub word_less_nat_alt word_le_nat_alt)
  then show ?thesis by simp
qed

lemma unat_not: "unat (NOT w :: u16) + unat w = 65535"
proof -
  have "NOT w = - 1 - w" by (simp add: not_eq_complement)
  moreover have "unat (- 1 :: u16) = 65535" by (simp add: unsigned_minus_1_eq_mask mask_eq_exp_minus_1)
  ultimately show ?thesis
    using unat_u16_max [of w] by (simp add: unat_sub_if')
qed

lemma checksum_update_word_mod:
  "(unat (checksum_update_word c old new) + unat new) mod 65535 = (unat c + unat old) mod 65535"
proof -
  let ?d = "checksum_sub c (NOT old)"
  have "(unat (checksum_update_word c old new) + unat new) mod 65535 = unat ?d mod 65535"
    by (simp add: checksum_update_word_def checksum_sub_mod)
  also have "\<dots> = (unat ?d + (unat (NOT old) + unat old)) mod 65535"
    by (simp add: unat_not)
  also have "\<dots> = ((unat ?d + unat (NOT old)) mod 65535 + unat old) mod 65535"
    by (simp add: mod_add_left_eq add.assoc)
  also have "\<dots> = (unat c + unat old) mod 65535"
    by (simp add: checksum_sub_mod mod_add_left_eq)
  finally show ?thesis .
qed

lemma checksum_update_mod:
  "(unat (checksum_update c ups) + (k + sum_list (map (\<lambda>u. unat (snd u)) ups))) mod 65535
    = (unat c + (k + sum_list (map (\<lambda>u. unat (fst u)) ups))) mod 65535"
proof (induction ups arbitrary: c k)
  case (Cons u ups)
  obtain old new where u: "u = (old, new)" by fastforce
  let ?c = "checksum_update_word c old new"
  have "(unat (checksum_update c (u # ups)) + (k + sum_list (map (\<lambda>u. unat (snd u)) (u # ups)))) mod 65535
      = (unat ?c + ((k + unat new) + sum_list (map (\<lambda>u. unat (fst u)) ups))) mod 65535"
    using Cons.IH [of ?c "k + unat new"] by (simp add: u checksum_update_def add.assoc)
  also have "\<dots> = ((unat ?c + unat new) + (k + sum_list (map (\<lambda>u. unat (fst u)) ups))) mod 65535"
    by (simp add: ac_simps)
  also have "\<dots> = ((unat c + unat old) + (k + sum_list (map (\<lambda>u. unat (fst u)) ups))) mod 65535"
    by (rule mod_add_cong [OF checksum_update_word_mod refl])
  also have "\<dots> = (unat c + (k + sum_list (map (\<lambda>u. unat (fst u)) (u # ups)))) mod 65535"
    by (simp add: u ac_simps)
  finally show ?case .
qed (simp add: checksum_update_def)

text \<open>
  The incremental checksum is exact: after any number of words of a checksummed block
  (addresses, ports, the MSS option) have been replaced and the checksum updated word by word,
  the new block is valid exactly when the old one was, so rewriting neither breaks a good
  checksum nor hides a bad one.
\<close>

lemma incremental_checksum_exact:
  "checksum_valid (checksum_update c updates) (rest @ map snd updates) \<longleftrightarrow> checksum_valid c (rest @ map fst updates)"
  using checksum_update_mod [of c updates "sum_list (map unat rest)"]
  by (simp add: checksum_valid_def o_def)

text \<open>
  The updated checksum can be zero although the old one was not, which in a UDP header means that
  there is none; \<open>udp_adjust_packet_checksum\<close> stores it as it is.
\<close>

lemma updated_checksum_can_vanish: "checksum_update 5 [(0xFFFF, 5)] = 0"
  by (simp add: checksum_update_def checksum_update_word_def checksum_sub_def)

end
