(* ===== verification/Gso.thy ===== *)
theory Gso
  imports Packet_Utils
begin

text \<open>
  Segmentation of a GSO superpacket (lightway-core/src/gso.rs): the header length, the number of
  segments, and one segment with its IP, sequence number and checksum fields fixed up. The packet
  views of the pnet crate and the sum of the internet_checksum crate are the parameter \<open>gso_ops\<close>.
  A slice outside a buffer, an underflow and a failed \<open>debug_assert\<close> are \<open>None\<close>.

  \<open>VirtioNetHdr::from_bytes\<close>, which reinterprets memory, is in \<open>Tun_Device\<close>.
\<close>

section \<open>Types\<close>

record virtio_net_hdr =
  vn_flags :: u8
  vn_gso_type :: u8
  vn_hdr_len :: u16
  vn_gso_size :: u16
  vn_csum_start :: u16
  vn_csum_offset :: u16

definition VIRTIO_NET_HDR_GSO_NONE :: u8 where [const_defs]: "VIRTIO_NET_HDR_GSO_NONE = 0"
definition VIRTIO_NET_HDR_GSO_TCPV4 :: u8 where [const_defs]: "VIRTIO_NET_HDR_GSO_TCPV4 = 1"
definition VIRTIO_NET_HDR_GSO_TCPV6 :: u8 where [const_defs]: "VIRTIO_NET_HDR_GSO_TCPV6 = 4"
definition VIRTIO_NET_HDR_GSO_ECN :: u8 where [const_defs]: "VIRTIO_NET_HDR_GSO_ECN = 0x80"
definition MAX_GSO_SEGS :: usize where [const_defs]: "MAX_GSO_SEGS = 64"

definition vn_is_tcp :: "virtio_net_hdr \<Rightarrow> bool" where
  "vn_is_tcp h =
     (let base = and (vn_gso_type h) (not VIRTIO_NET_HDR_GSO_ECN) in
      base = VIRTIO_NET_HDR_GSO_TCPV4 \<or> base = VIRTIO_NET_HDR_GSO_TCPV6)"

definition vn_is_gso_none :: "virtio_net_hdr \<Rightarrow> bool" where
  "vn_is_gso_none h = (and (vn_gso_type h) (not VIRTIO_NET_HDR_GSO_ECN) = VIRTIO_NET_HDR_GSO_NONE)"

datatype gso_hdr_error =
    HdrEmpty | HdrTruncatedIpv4 | HdrTruncatedTcp | UnsupportedIpVersion u8 | BadIpv4Ihl | BadTcpDataOffset
  | UnsupportedL4Proto u8

datatype gso_seg_error = SegEmpty | SegIpv4 | SegIpv6 | SegTcp | SegUdp

text \<open>
  The views: \<open>..._new\<close> accepts a buffer, a getter reads a field, a setter rewrites it in place.
  \<open>go_sum\<close> is \<open>Checksum::new\<close>, the \<open>add_bytes\<close> calls and \<open>checksum\<close>, in host order.
\<close>

record gso_ops =
  go_ipv4_new :: "bytes \<Rightarrow> bool"
  go_ipv4_header_length :: "bytes \<Rightarrow> u8"
  go_ipv4_protocol :: "bytes \<Rightarrow> u8"
  go_ipv4_source :: "bytes \<Rightarrow> bytes"
  go_ipv4_destination :: "bytes \<Rightarrow> bytes"
  go_ipv4_identification :: "bytes \<Rightarrow> u16"
  go_ipv4_set_identification :: "u16 \<Rightarrow> bytes \<Rightarrow> bytes"
  go_ipv4_set_total_length :: "u16 \<Rightarrow> bytes \<Rightarrow> bytes"
  go_ipv4_set_checksum :: "u16 \<Rightarrow> bytes \<Rightarrow> bytes"
  go_ipv4_checksum :: "bytes \<Rightarrow> u16"
  go_ipv6_new :: "bytes \<Rightarrow> bool"
  go_ipv6_source :: "bytes \<Rightarrow> bytes"
  go_ipv6_destination :: "bytes \<Rightarrow> bytes"
  go_ipv6_set_payload_length :: "u16 \<Rightarrow> bytes \<Rightarrow> bytes"
  go_tcp_new :: "bytes \<Rightarrow> bool"
  go_tcp_data_offset :: "bytes \<Rightarrow> u8"
  go_tcp_flags :: "bytes \<Rightarrow> u8"
  go_tcp_set_sequence :: "u32 \<Rightarrow> bytes \<Rightarrow> bytes"
  go_tcp_set_flags :: "u8 \<Rightarrow> bytes \<Rightarrow> bytes"
  go_tcp_set_checksum :: "u16 \<Rightarrow> bytes \<Rightarrow> bytes"
  go_udp_new :: "bytes \<Rightarrow> bool"
  go_udp_set_length :: "u16 \<Rightarrow> bytes \<Rightarrow> bytes"
  go_udp_set_checksum :: "u16 \<Rightarrow> bytes \<Rightarrow> bytes"
  go_sum :: "bytes list \<Rightarrow> u16"

definition TCP_FLAG_FIN :: u8 where [const_defs]: "TCP_FLAG_FIN = 1"
definition TCP_FLAG_PSH :: u8 where [const_defs]: "TCP_FLAG_PSH = 8"

section \<open>Checksums\<close>

definition ip_l4_proto :: "bytes \<Rightarrow> u8 option" where
  "ip_l4_proto buf =
     (case buf of
        [] \<Rightarrow> None
      | b # _ \<Rightarrow>
          if drop_bit 4 b = 4 then (if 9 < length buf then Some (buf ! 9) else None)
          else if drop_bit 4 b = 6 then (if 6 < length buf then Some (buf ! 6) else None)
          else None)"

definition udp_zero_sum :: "bool \<Rightarrow> u16 \<Rightarrow> u16" where
  "udp_zero_sum is_udp csum = (if is_udp \<and> csum = 0 then 0xFFFF else csum)"

definition gso_none_checksum :: "gso_ops \<Rightarrow> bytes \<Rightarrow> u16 \<Rightarrow> u16 \<Rightarrow> bytes" where
  "gso_none_checksum G buf csum_start csum_offset =
     (let start = unat csum_start; at = start + unat csum_offset in
      if at + 2 > length buf \<or> start > length buf then buf
      else
        let is_udp = (ip_l4_proto buf = Some IPPROTO_UDP);
            part = [buf ! at, buf ! (at + 1)];
            zeroed = take at buf @ [0, 0] @ drop (at + 2) buf;
            csum = udp_zero_sum is_udp (go_sum G [part, drop start zeroed])
        in take at buf @ be_bytes 2 csum @ drop (at + 2) buf)"

definition transport_checksum :: "gso_ops \<Rightarrow> bytes \<Rightarrow> bytes \<Rightarrow> u8 \<Rightarrow> bytes \<Rightarrow> u16 option" where
  "transport_checksum G src dst proto transport =
     (if length transport > 65535 then None
      else Some (udp_zero_sum (proto = IPPROTO_UDP)
        (go_sum G [src, dst, [0, proto] @ be_bytes 2 (len_u16 transport), transport])))"

section \<open>Segments\<close>

definition calc_hdr_len :: "gso_ops \<Rightarrow> bytes \<Rightarrow> gso_hdr_error + usize" where
  "calc_hdr_len G pkt =
     (if pkt = [] then Inl HdrEmpty
      else if drop_bit 4 (hd pkt) \<noteq> 4 then Inl (UnsupportedIpVersion (drop_bit 4 (hd pkt)))
      else if \<not> go_ipv4_new G pkt then Inl HdrTruncatedIpv4
      else
        let ihl = unat (go_ipv4_header_length G pkt) * 4 in
        if ihl < 20 then Inl BadIpv4Ihl
        else if length pkt < ihl then Inl HdrTruncatedIpv4
        else
          let proto = go_ipv4_protocol G pkt in
          if proto = IPPROTO_TCP then
            (if \<not> go_tcp_new G (drop ihl pkt) then Inl HdrTruncatedTcp
             else
               let doff = unat (go_tcp_data_offset G (drop ihl pkt)) * 4 in
               if doff < 20 then Inl BadTcpDataOffset else Inr (ihl + doff))
          else if proto = IPPROTO_UDP then Inr (ihl + 8)
          else Inl (UnsupportedL4Proto proto))"

definition calc_gso_segs :: "usize \<Rightarrow> usize \<Rightarrow> usize \<Rightarrow> usize" where
  "calc_gso_segs pkt_len hdr_len gso_size =
     (if gso_size = 0 then 0 else (pkt_len - hdr_len + gso_size - 1) div gso_size)"

text \<open>\<open>build_segment\<close> in its steps: the bytes of the segment, the IP header, the transport header.\<close>

definition segment_bytes :: "usize \<Rightarrow> bytes \<Rightarrow> usize \<Rightarrow> usize \<Rightarrow> bytes option" where
  "segment_bytes hdr_len gso_pkt seg_start seg_end =
     (if seg_start > seg_end \<or> hdr_len > length gso_pkt then None
      else Some (take hdr_len gso_pkt @ take (seg_end - seg_start) (drop seg_start gso_pkt)))"

definition fix_ip :: "gso_ops \<Rightarrow> bool \<Rightarrow> usize \<Rightarrow> usize \<Rightarrow> bytes \<Rightarrow> (gso_seg_error + (bytes \<times> bytes \<times> bytes)) option" where
  "fix_ip G v6 gso_idx out_len ip =
     (if v6 then
        (if \<not> go_ipv6_new G ip then Some (Inl SegIpv6)
         else if out_len < 40 then None
         else Some (Inr (go_ipv6_source G ip, go_ipv6_destination G ip,
           go_ipv6_set_payload_length G (of_nat (out_len - 40)) ip)))
      else if \<not> go_ipv4_new G ip then Some (Inl SegIpv4)
      else
        let src = go_ipv4_source G ip; dst = go_ipv4_destination G ip;
            ip = (if gso_idx > 0 then go_ipv4_set_identification G (go_ipv4_identification G ip + of_nat gso_idx) ip else ip);
            ip = go_ipv4_set_checksum G 0 (go_ipv4_set_total_length G (of_nat out_len) ip)
        in Some (Inr (src, dst, go_ipv4_set_checksum G (go_ipv4_checksum G ip) ip)))"

definition fix_tcp :: "gso_ops \<Rightarrow> virtio_net_hdr \<Rightarrow> bytes \<Rightarrow> usize \<Rightarrow> bool \<Rightarrow> bytes \<Rightarrow> bytes \<Rightarrow> bytes \<Rightarrow> (gso_seg_error + bytes) option"
  where
  "fix_tcp G hdr gso_pkt gso_idx is_last src dst tcp =
     (let csum_start = unat (vn_csum_start hdr) in
      if \<not> go_tcp_new G tcp then Some (Inl SegTcp)
      else if length gso_pkt < csum_start + 8 then Some (Inl SegTcp)
      else
        let first_seq = be_word (take 4 (drop (csum_start + 4) gso_pkt));
            tcp = go_tcp_set_sequence G (first_seq + ucast (vn_gso_size hdr) * of_nat gso_idx) tcp;
            tcp = (if is_last then tcp
                   else go_tcp_set_flags G (and (go_tcp_flags G tcp) (not (or TCP_FLAG_FIN TCP_FLAG_PSH))) tcp);
            tcp = go_tcp_set_checksum G 0 tcp
        in map_option (\<lambda>csum. Inr (go_tcp_set_checksum G csum tcp)) (transport_checksum G src dst IPPROTO_TCP tcp))"

definition fix_udp :: "gso_ops \<Rightarrow> bytes \<Rightarrow> bytes \<Rightarrow> bytes \<Rightarrow> (gso_seg_error + bytes) option" where
  "fix_udp G src dst udp =
     (if \<not> go_udp_new G udp then Some (Inl SegUdp)
      else
        let udp = go_udp_set_checksum G 0 (go_udp_set_length G (of_nat (length udp)) udp)
        in map_option (\<lambda>csum. Inr (go_udp_set_checksum G csum udp)) (transport_checksum G src dst IPPROTO_UDP udp))"

definition build_segment :: "gso_ops \<Rightarrow> virtio_net_hdr \<Rightarrow> usize \<Rightarrow> bytes \<Rightarrow> usize \<Rightarrow> (gso_seg_error + bytes) option" where
  "build_segment G hdr hdr_len gso_pkt gso_idx =
     (if gso_pkt = [] then Some (Inl SegEmpty)
      else
        let gso_size = unat (vn_gso_size hdr); csum_start = unat (vn_csum_start hdr);
            seg_start = hdr_len + gso_idx * gso_size;
            seg_end = min (seg_start + gso_size) (length gso_pkt)
        in
          case segment_bytes hdr_len gso_pkt seg_start seg_end of
            None \<Rightarrow> None
          | Some out \<Rightarrow>
              if csum_start > length out then None
              else
                case fix_ip G (drop_bit 4 (hd gso_pkt) = 6) gso_idx (length out) (take csum_start out) of
                  None \<Rightarrow> None
                | Some (Inl e) \<Rightarrow> Some (Inl e)
                | Some (Inr (src, dst, ip)) \<Rightarrow>
                    map_option (map_sum id ((@) ip))
                      (if vn_is_tcp hdr
                       then fix_tcp G hdr gso_pkt gso_idx (seg_end = length gso_pkt) src dst (drop csum_start out)
                       else fix_udp G src dst (drop csum_start out)))"

section \<open>The segments are the packet\<close>

text \<open>
  What the segmentation needs of the views: a setter rewrites bytes of its header in place.
\<close>

definition setter_ok :: "nat \<Rightarrow> ('w \<Rightarrow> bytes \<Rightarrow> bytes) \<Rightarrow> bool" where
  "setter_ok n f \<longleftrightarrow> (\<forall>w b. length (f w b) = length b \<and> drop n (f w b) = drop n b)"

definition gso_laws :: "gso_ops \<Rightarrow> bool" where
  "gso_laws G \<longleftrightarrow>
     setter_ok 20 (go_ipv4_set_identification G) \<and> setter_ok 20 (go_ipv4_set_total_length G)
     \<and> setter_ok 20 (go_ipv4_set_checksum G) \<and> setter_ok 40 (go_ipv6_set_payload_length G)
     \<and> setter_ok 20 (go_tcp_set_sequence G) \<and> setter_ok 20 (go_tcp_set_flags G) \<and> setter_ok 20 (go_tcp_set_checksum G)
     \<and> setter_ok 8 (go_udp_set_length G) \<and> setter_ok 8 (go_udp_set_checksum G)"

lemma less_calc_gso_segs: "i < calc_gso_segs l h g \<longleftrightarrow> 0 < g \<and> h + i * g < l"
proof (cases "g = 0 \<or> l \<le> h")
  case False
  then have "i < (l - h + g - 1) div g \<longleftrightarrow> (i + 1) * g \<le> l - h + g - 1"
    using div_less_iff_less_mult [of g "l - h + g - 1" "i + 1"] by (auto simp: not_less Suc_le_eq simp flip: Suc_eq_plus1)
  then show ?thesis using False by (auto simp: calc_gso_segs_def)
qed (auto simp: calc_gso_segs_def)

lemma concat_chunks: "0 < g \<Longrightarrow> concat (map (\<lambda>i. take g (drop (i * g) xs)) [0..<n]) = take (n * g) xs"
proof (induction n)
  case (Suc n)
  then show ?case by (simp add: take_add add.commute [of g])
qed simp

lemma fix_ip_length:
  "gso_laws G \<Longrightarrow> fix_ip G v6 i n ip = Some (Inr (src, dst, ip')) \<Longrightarrow> length ip' = length ip"
  by (auto simp: fix_ip_def gso_laws_def setter_ok_def Let_def split: if_splits)

lemma fix_tcp_keeps:
  assumes "gso_laws G" and "fix_tcp G hdr pkt i is_last src dst tcp = Some (Inr tcp')"
  shows "length tcp' = length tcp" and "drop 20 tcp' = drop 20 tcp"
  using assms by (auto simp: fix_tcp_def gso_laws_def setter_ok_def Let_def split: if_splits)

lemma fix_udp_keeps:
  assumes "gso_laws G" and "fix_udp G src dst udp = Some (Inr udp')"
  shows "length udp' = length udp" and "drop 8 udp' = drop 8 udp"
  using assms by (auto simp: fix_udp_def gso_laws_def setter_ok_def Let_def split: if_splits)

lemma drop_more: "drop n xs = drop n ys \<Longrightarrow> n \<le> k \<Longrightarrow> drop k xs = drop k ys"
  by (metis drop_drop le_add_diff_inverse2)

lemma fix_total:
  assumes "gso_laws G" and "length l4 \<le> 65535"
  shows "fix_tcp G hdr pkt i is_last src dst l4 \<noteq> None" and "fix_udp G src dst l4 \<noteq> None"
  using assms by (auto simp: fix_tcp_def fix_udp_def transport_checksum_def gso_laws_def setter_ok_def Let_def)

lemma map_sum_Inr_iff: "map_sum f g z = Inr y \<longleftrightarrow> (\<exists>x. z = Inr x \<and> y = g x)"
  by (cases z) auto

text \<open>One segment: built without a panic, and what it holds.\<close>

lemma build_segment_one:
  assumes laws: "gso_laws G" and i: "hdr_len + i * unat (vn_gso_size hdr) < length pkt"
    and csum: "unat (vn_csum_start hdr) + (if vn_is_tcp hdr then 20 else 8) \<le> hdr_len"
    and fits: "hdr_len + unat (vn_gso_size hdr) \<le> 65535" and v4: "drop_bit 4 (hd pkt) = 4"
  shows "build_segment G hdr hdr_len pkt i \<noteq> None"
    and "build_segment G hdr hdr_len pkt i = Some (Inr seg) \<Longrightarrow>
      length seg \<le> hdr_len + unat (vn_gso_size hdr)
      \<and> drop hdr_len seg = take (unat (vn_gso_size hdr)) (drop (i * unat (vn_gso_size hdr)) (drop hdr_len pkt))"
proof -
  let ?g = "unat (vn_gso_size hdr)" and ?c = "unat (vn_csum_start hdr)"
  let ?start = "hdr_len + i * ?g" let ?stop = "min (?start + ?g) (length pkt)"
  define out where "out = take hdr_len pkt @ take ?g (drop ?start pkt)"
  have "take (?stop - ?start) (drop ?start pkt) = take ?g (drop ?start pkt)" by (simp add: min_def)
  then have seg: "segment_bytes hdr_len pkt ?start ?stop = Some out" using i by (simp add: segment_bytes_def out_def)
  have len: "length out \<le> hdr_len + ?g" "hdr_len \<le> length out" using i by (auto simp: out_def)
  have pay: "drop hdr_len out = take ?g (drop (i * ?g) (drop hdr_len pkt))"
    using i by (simp add: out_def add.commute)
  have pkt: "pkt \<noteq> []" using i by auto
  have small: "length (drop ?c out) \<le> 65535" using len fits by simp
  have nov6: "drop_bit 4 (hd pkt) \<noteq> (6 :: u8)" using v4 by simp
  show "build_segment G hdr hdr_len pkt i \<noteq> None"
    using seg pkt len csum fix_total [OF laws small] nov6
    by (auto simp: build_segment_def Let_def fix_ip_def split: option.splits sum.splits if_splits)
  assume built: "build_segment G hdr hdr_len pkt i = Some (Inr seg)"
  then obtain src dst ip l4 where ip: "fix_ip G (drop_bit 4 (hd pkt) = 6) i (length out) (take ?c out) = Some (Inr (src, dst, ip))"
    and l4: "(if vn_is_tcp hdr then fix_tcp G hdr pkt i (?stop = length pkt) src dst (drop ?c out)
      else fix_udp G src dst (drop ?c out)) = Some (Inr l4)" and seg_eq: "seg = ip @ l4"
    using seg pkt
    by (auto simp: build_segment_def Let_def map_sum_Inr_iff split: option.splits sum.splits if_splits prod.splits)
  have "length ip = ?c" using fix_ip_length [OF laws ip] csum len by (auto split: if_splits)
  moreover have "length l4 = length out - ?c" "drop (if vn_is_tcp hdr then 20 else 8) l4 = drop (if vn_is_tcp hdr then 20 else 8) (drop ?c out)"
    using l4 fix_tcp_keeps [OF laws] fix_udp_keeps [OF laws] by (auto split: if_splits)
  moreover from this(2) have "drop (hdr_len - ?c) l4 = drop (hdr_len - ?c) (drop ?c out)"
    by (rule drop_more) (use csum in auto)
  ultimately show "length seg \<le> hdr_len + ?g \<and> drop hdr_len seg = take ?g (drop (i * ?g) (drop hdr_len pkt))"
    using csum len pay by (auto simp: seg_eq split: if_splits)
qed

text \<open>
  C28. A GSO superpacket is cut without losing or repeating a byte: for a header that lies within
  the parsed header length, no segment panics, every segment is at most header plus \<open>gso_size\<close>
  bytes, and the payloads of all segments, in order, are the payload of the superpacket.
\<close>

theorem gso_segments_exact:
  assumes "gso_laws G" and "vn_gso_size hdr \<noteq> 0" and "hdr_len + unat (vn_gso_size hdr) \<le> 65535"
    and "unat (vn_csum_start hdr) + (if vn_is_tcp hdr then 20 else 8) \<le> hdr_len" and "drop_bit 4 (hd pkt) = 4"
  shows "let n = calc_gso_segs (length pkt) hdr_len (unat (vn_gso_size hdr)) in
    (\<forall>i < n. build_segment G hdr hdr_len pkt i \<noteq> None)
    \<and> (map (build_segment G hdr hdr_len pkt) [0..<n] = map (Some \<circ> Inr) segs \<longrightarrow>
        concat (map (drop hdr_len) segs) = drop hdr_len pkt
        \<and> (\<forall>s\<in>set segs. length s \<le> hdr_len + unat (vn_gso_size hdr)))"
proof -
  let ?g = "unat (vn_gso_size hdr)" let ?n = "calc_gso_segs (length pkt) hdr_len ?g"
  have g: "0 < ?g" using assms(2) by (simp add: unat_gt_0)
  note one = build_segment_one [OF assms(1) _ assms(4,3,5)]
  have "length pkt - hdr_len \<le> ?n * ?g"
    using less_calc_gso_segs [of ?n "length pkt" hdr_len ?g] g by linarith
  then have cover: "concat (map (\<lambda>i. take ?g (drop (i * ?g) (drop hdr_len pkt))) [0..<?n]) = drop hdr_len pkt"
    using concat_chunks [OF g, of "drop hdr_len pkt" ?n] by simp
  have "concat (map (drop hdr_len) segs) = drop hdr_len pkt \<and> (\<forall>s\<in>set segs. length s \<le> hdr_len + ?g)"
    if segs: "map (build_segment G hdr hdr_len pkt) [0..<?n] = map (Some \<circ> Inr) segs"
  proof -
    have len: "length segs = ?n" using arg_cong [OF segs, of length] by simp
    have nth: "length (segs ! i) \<le> hdr_len + ?g \<and> drop hdr_len (segs ! i) = take ?g (drop (i * ?g) (drop hdr_len pkt))"
      if "i < ?n" for i
    proof (rule one(2))
      show "hdr_len + i * ?g < length pkt" using that by (simp add: less_calc_gso_segs)
      show "build_segment G hdr hdr_len pkt i = Some (Inr (segs ! i))"
        using arg_cong [OF segs, of "\<lambda>l. l ! i"] that len by simp
    qed
    then have "map (drop hdr_len) segs = map (\<lambda>i. take ?g (drop (i * ?g) (drop hdr_len pkt))) [0..<?n]"
      using len by (intro nth_equalityI) simp_all
    then show ?thesis using cover nth len by (auto simp: in_set_conv_nth)
  qed
  moreover have "\<forall>i < ?n. build_segment G hdr hdr_len pkt i \<noteq> None" using one(1) by (simp add: less_calc_gso_segs)
  ultimately show ?thesis by (simp add: Let_def)
qed

text \<open>An instance of the views: the fields where RFC 791, 8200, 9293 and 768 put them.\<close>

definition put_field :: "nat \<Rightarrow> bytes \<Rightarrow> bytes \<Rightarrow> bytes" where
  "put_field n v b = (if n + length v \<le> length b then take n b @ v @ drop (n + length v) b else b)"

fun word_sum :: "bytes \<Rightarrow> nat" where
  "word_sum (a # b # bs) = unat a * 256 + unat b + word_sum bs"
| "word_sum [a] = unat a * 256"
| "word_sum [] = 0"

definition rfc_gso :: gso_ops where
  "rfc_gso = \<lparr>
     go_ipv4_new = (\<lambda>b. 20 \<le> length b), go_ipv4_header_length = (\<lambda>b. and (b ! 0) 15), go_ipv4_protocol = (\<lambda>b. b ! 9),
     go_ipv4_source = (\<lambda>b. take 4 (drop 12 b)), go_ipv4_destination = (\<lambda>b. take 4 (drop 16 b)),
     go_ipv4_identification = (\<lambda>b. be_word (take 2 (drop 4 b))),
     go_ipv4_set_identification = (\<lambda>w. put_field 4 (be_bytes 2 w)),
     go_ipv4_set_total_length = (\<lambda>w. put_field 2 (be_bytes 2 w)),
     go_ipv4_set_checksum = (\<lambda>w. put_field 10 (be_bytes 2 w)),
     go_ipv4_checksum = (\<lambda>b. not (of_nat (word_sum (take 20 b) mod 65535))),
     go_ipv6_new = (\<lambda>b. 40 \<le> length b), go_ipv6_source = (\<lambda>b. take 16 (drop 8 b)),
     go_ipv6_destination = (\<lambda>b. take 16 (drop 24 b)),
     go_ipv6_set_payload_length = (\<lambda>w. put_field 4 (be_bytes 2 w)),
     go_tcp_new = (\<lambda>b. 20 \<le> length b), go_tcp_data_offset = (\<lambda>b. drop_bit 4 (b ! 12)), go_tcp_flags = (\<lambda>b. b ! 13),
     go_tcp_set_sequence = (\<lambda>w. put_field 4 (be_bytes 4 w)), go_tcp_set_flags = (\<lambda>w. put_field 13 [w]),
     go_tcp_set_checksum = (\<lambda>w. put_field 16 (be_bytes 2 w)),
     go_udp_new = (\<lambda>b. 8 \<le> length b), go_udp_set_length = (\<lambda>w. put_field 4 (be_bytes 2 w)),
     go_udp_set_checksum = (\<lambda>w. put_field 6 (be_bytes 2 w)),
     go_sum = (\<lambda>bs. not (of_nat (sum_list (map word_sum bs) mod 65535)))\<rparr>"

lemma setter_ok_put: "n + k \<le> m \<Longrightarrow> (\<And>w. length (v w) = k) \<Longrightarrow> setter_ok m (\<lambda>w. put_field n (v w))"
  by (auto simp: setter_ok_def put_field_def min_def)

lemma rfc_gso_laws: "gso_laws rfc_gso"
  unfolding gso_laws_def rfc_gso_def gso_ops.simps
  by (intro conjI setter_ok_put [where k = 2] setter_ok_put [where k = 4] setter_ok_put [where k = 1]) simp_all

definition ex_vnet :: virtio_net_hdr where
  "ex_vnet = \<lparr>vn_flags = 1, vn_gso_type = 0x81, vn_hdr_len = 40, vn_gso_size = 2, vn_csum_start = 20, vn_csum_offset = 16\<rparr>"

definition ex_superpacket :: bytes where
  "ex_superpacket = (0x45 # replicate 8 0 @ 6 # replicate 10 0) @ replicate 12 0 @ 0x50 # replicate 7 0 @ [1, 2, 3, 4, 5]"

theorem gso_segments_exact_witness:
  "calc_gso_segs (length ex_superpacket) 40 2 = 3 \<and> build_segment rfc_gso ex_vnet 40 ex_superpacket 2 \<noteq> None"
proof -
  have n: "calc_gso_segs (length ex_superpacket) 40 2 = 3" by (simp add: calc_gso_segs_def ex_superpacket_def)
  have "vn_gso_size ex_vnet \<noteq> 0" "40 + unat (vn_gso_size ex_vnet) \<le> 65535" "unat (vn_gso_size ex_vnet) = 2"
    "unat (vn_csum_start ex_vnet) + (if vn_is_tcp ex_vnet then 20 else 8) \<le> 40" "drop_bit 4 (hd ex_superpacket) = 4"
    by (simp_all add: ex_vnet_def ex_superpacket_def drop_bit_eq_div)
  then show ?thesis
    using gso_segments_exact [OF rfc_gso_laws, of ex_vnet 40 ex_superpacket] n by (auto simp: Let_def)
qed

end
