(* ===== verification/Connection_Core.thy ===== *)
theory Connection_Core
  imports Exec_Monad Key_Update Ip_Text Io_Adapter Expresslane_Session Fragment_Map Dplpmtud Packet_Utils Gso
begin

text \<open>
  The state of a connection (lightway-core/src/connection.rs) and the operations everything else
  is built from: events, ticks, clock and random draws, the TLS session calls and the outgoing
  queue.

  \<^item> \<open>('s, 'k, 'm) conn\<close> is \<open>struct Connection\<close>: \<open>'s\<close> is the state of the TLS session, \<open>'k\<close> of an
    AEAD instance, \<open>'m\<close> of the fragment cache, all three third-party code.
  \<^item> Application callbacks (\<open>app_state\<close>, the event and tick callbacks, the authentication oracle,
    the IP pool, the inside interface, the codec, the ExpressLane callback and metrics), the clock
    and the random number generator are one log: every call on them is recorded with its answer,
    and each answer is a function of the log so far. Any application whose callbacks depend on
    what happened before is of this form.
  \<^item> \<open>conn_env\<close> holds those answers and the functions of the third-party code.
  \<^item> The TLS library owns its session and drives the I/O adapter; a panic of the adapter inside
    such a call is \<open>None\<close>.
\<close>

section \<open>Types\<close>

datatype conn_state = Connecting | LinkUp | Authenticating | Online | Disconnecting | Disconnected

datatype invalid_packet_error = InvalidIpv4Packet | InvalidPacketSize | InvalidGsoPacket

datatype tls_error_kind =
    DomainNameMismatch | CertVerificationFailed | DuplicateMessage | PeerClosed | CaCertNotAvailable | PeerFatalAlert
  | OtherErrorKind int

datatype tls_error = TlsFatal tls_error_kind | TlsNonFatal nat

datatype connection_error =
    CeGoodbye
  | CeTimedOut
  | CeDisconnected
  | CeUnauthorized
  | CeInvalidState
  | CeInvalidMode
  | CeInvalidConnectionType
  | CeInvalidInsideIo
  | CeOutsideIoWriteError io_error
  | CeRejectedSessionID
  | CeUnknownSessionID
  | CeInvalidProtocolVersion
  | CeAccessDenied
  | CeNoAvailableClientIp
  | CeInvalidInsideIpConfig
  | CeInvalidInsidePacket invalid_packet_error
  | CePathMtuDiscoveryRequired usize usize
  | CePluginDropWithReply bytes
  | CePluginError dyn_error
  | CePacketError outside_packet_error
  | CeWireError from_wire_error
  | CeDataFragmentError fragment_map_error
  | CeTls tls_error
  | CeExpresslaneVersionMismatch
  | CeExpreslaneDegraded
  | CeExpresslaneError expresslane_error
  | CePacketCodecDoesNotExist
  | CePacketCodecError dyn_error

definition is_fatal :: "connection_type \<Rightarrow> connection_error \<Rightarrow> bool" where
  "is_fatal connection_type e =
     (case connection_type of
        Stream \<Rightarrow> True
      | Datagram \<Rightarrow>
          (case e of
             CeTimedOut \<Rightarrow> True
           | CeUnauthorized \<Rightarrow> True
           | CeInvalidMode \<Rightarrow> True
           | CeInvalidConnectionType \<Rightarrow> True
           | CeNoAvailableClientIp \<Rightarrow> True
           | CeInvalidInsideIpConfig \<Rightarrow> True
           | CeAccessDenied \<Rightarrow> True
           | CeGoodbye \<Rightarrow> True
           | CePacketCodecDoesNotExist \<Rightarrow> True
           | CePacketCodecError _ \<Rightarrow> True
           | CeDisconnected \<Rightarrow> True
           | CePathMtuDiscoveryRequired _ _ \<Rightarrow> True
           | CeTls te \<Rightarrow>
               (case te of
                  TlsFatal DomainNameMismatch \<Rightarrow> True
                | TlsFatal DuplicateMessage \<Rightarrow> True
                | TlsFatal PeerClosed \<Rightarrow> True
                | TlsFatal CaCertNotAvailable \<Rightarrow> True
                | TlsFatal PeerFatalAlert \<Rightarrow> True
                | _ \<Rightarrow> False)
           | CeWireError we \<Rightarrow>
               (case we of
                  UnknownFrameType \<Rightarrow> False
                | InsufficientData \<Rightarrow> False
                | InvalidExpressData \<Rightarrow> False
                | ReplayedExpressData \<Rightarrow> False
                | InvalidProtocolVersion _ _ \<Rightarrow> False
                | _ \<Rightarrow> True)
           | _ \<Rightarrow> False))"

definition expresslane_encrypt_error :: "expresslane_error \<Rightarrow> connection_error" where
  "expresslane_encrypt_error err = CeExpresslaneError err"

definition expresslane_decrypt_error :: "expresslane_error \<Rightarrow> from_wire_error" where
  "expresslane_decrypt_error err =
     (case err of
        NoKey \<Rightarrow> InvalidExpressData
      | Replayed \<Rightarrow> ReplayedExpressData
      | ELInsufficientData \<Rightarrow> InsufficientData
      | _ \<Rightarrow> InvalidExpressData)"

datatype expresslane_state = XlDisabled | XlWaitingForClient | XlInactive | XlActive | XlDegraded

datatype event =
    StateChanged conn_state
  | KeepaliveReply
  | SessionIdRotationStarted session_id session_id
  | SessionIdRotationAcknowledged session_id session_id
  | TlsKeysUpdateStart
  | TlsKeysUpdateCompleted
  | FirstPacketReceived
  | EncodingStateChanged bool
  | ExpresslaneStateChanged expresslane_state

datatype tick_type = ConnectionTick | PktCodecTick u64 | ExpresslaneKeyShareTick expresslane_config

datatype lightway_feature = InsidePktCodec

record auth_handle =
  ah_name :: nat
  ah_features :: "lightway_feature list"

datatype server_auth_result = Granted "auth_handle option" "version option" | Denied

datatype codec_status = PacketAccepted | SkipPacket

datatype expresslane_stats_error = UnknownSession | Unavailable | Temporary

text \<open>The calls on the application, with their answers.\<close>

datatype app_call =
    AppEvent event
  | AppTick duration tick_type
  | AppIpAlloc "inside_ip_config option"
  | AppIpFree
  | AppIpConfig inside_ip_config
  | AppAuthorize auth_method server_auth_result
  | AppInsideSend bytes
  | AppExpresslaneUpdate session_id expresslane_key expresslane_key sock_addr expresslane_version
  | AppExpresslaneStats session_id "expresslane_stats_error + (u64 \<times> u64)"
  | AppEncoderStore bytes "dyn_error + codec_status"
  | AppEncoderSet bool
  | AppDecoderStore bytes "dyn_error + codec_status"
  | AppNow instant
  | AppRandom bytes

type_synonym app_log = "app_call list"

section \<open>The environment\<close>

datatype 'a tls_poll = PendingWrite | PendingRead | Ready 'a | AppData bytes

datatype protocol_version = UnknownProtocol | TlsV1_2 | TlsV1_3 | DtlsV1_2 | DtlsV1_3

type_synonym ('s, 'a) tls_result = "((tls_error + 'a tls_poll) \<times> 's \<times> io_adapter) option"

record 's tls_ops =
  tls_try_negotiate :: "'s \<Rightarrow> io_adapter \<Rightarrow> ('s, unit) tls_result"
  tls_try_write :: "bytes \<Rightarrow> 's \<Rightarrow> io_adapter \<Rightarrow> (bytes \<times> (tls_error + usize tls_poll) \<times> 's \<times> io_adapter) option"
  tls_try_read :: "bytes \<Rightarrow> 's \<Rightarrow> io_adapter \<Rightarrow> (bytes \<times> (tls_error + usize tls_poll) \<times> 's \<times> io_adapter) option"
  tls_try_shutdown :: "'s \<Rightarrow> io_adapter \<Rightarrow> ('s, unit) tls_result"
  tls_try_trigger_update_key :: "'s \<Rightarrow> io_adapter \<Rightarrow> ('s, unit) tls_result"
  tls_dtls_has_timed_out :: "'s \<Rightarrow> io_adapter \<Rightarrow> (bool tls_poll \<times> 's \<times> io_adapter) option"
  tls_is_update_keys_pending :: "'s \<Rightarrow> bool"
  tls_dtls_current_timeout :: "'s \<Rightarrow> duration"
  tls_dtls13_use_quick_timeout :: "'s \<Rightarrow> bool"
  tls_version :: "'s \<Rightarrow> protocol_version"

record ('s, 'k, 'm) conn_env =
  ce_tls :: "'s tls_ops"
  ce_sock :: socket_ops
  ce_aead :: "'k aead_ops"
  ce_lru :: "('m, fragmented_packet) lru_ops"
  ce_pnet :: pnet_ops
  ce_gso :: gso_ops
  ce_now :: "app_log \<Rightarrow> instant"
  ce_random :: "app_log \<Rightarrow> nat \<Rightarrow> bytes"
  ce_ip_alloc :: "app_log \<Rightarrow> inside_ip_config option"
  ce_authorize :: "app_log \<Rightarrow> auth_method \<Rightarrow> server_auth_result"
  ce_expired :: "app_log \<Rightarrow> auth_handle \<Rightarrow> bool"
  ce_stats :: "app_log \<Rightarrow> session_id \<Rightarrow> expresslane_stats_error + (u64 \<times> u64)"
  ce_encoder_store :: "app_log \<Rightarrow> bytes \<Rightarrow> (dyn_error + codec_status) \<times> bytes"
  ce_encoder_state :: "app_log \<Rightarrow> bool"
  ce_decoder_store :: "app_log \<Rightarrow> bytes \<Rightarrow> (dyn_error + codec_status) \<times> bytes"

section \<open>The connection\<close>

record server_mode =
  sm_auth_handle :: "auth_handle option"
  sm_key_update :: key_update
  sm_pending_session_id :: "session_id option"

datatype conn_mode = ClientMode auth_method | ServerMode server_mode

record connection_activity =
  last_outside_data_received :: instant
  last_data_traffic_from_peer :: instant
  last_data_delivered_to_inside :: instant

record encoding_request_states =
  ers_id_counter :: u64
  ers_pending_request_pkt :: "encoding_request option"
  ers_retransmissions_counter :: u8

record 'k expresslane =
  xl_state :: expresslane_state
  xl_config_counter :: u64
  xl_retransmit_count :: u8
  xl_last_key_rotation :: "instant option"
  xl_prev_peer_sent :: u64
  xl_prev_peer_recv :: u64
  xl_last_snapshot_sent :: u64
  xl_last_snapshot_recv :: u64
  xl_inbound_strikes :: u8
  xl_outbound_strikes :: u8
  xl_missing_local_readings :: u8
  xl_missing_peer_reports :: u8
  xl_data :: "'k el_session"
  xl_cb :: bool
  xl_metrics :: bool
  xl_keys_rotation_interval :: duration

record ('s, 'k, 'm) conn =
  cn_connection_type :: connection_type
  cn_tunnel_protocol_version :: version
  cn_log :: app_log
  cn_state :: conn_state
  cn_session :: 's
  cn_io :: io_adapter
  cn_mode :: conn_mode
  cn_outside_mtu :: usize
  cn_session_id :: session_id
  cn_receive_buf :: bytes
  cn_inside_io :: "usize option"
  cn_event_cb :: bool
  cn_inside_plugins :: plugin_list
  cn_outside_plugins :: plugin_list
  cn_is_tick_timer_running :: bool
  cn_activity :: connection_activity
  cn_tls_tick_interval :: "duration option"
  cn_tls_pending_queue :: "bytes list"
  cn_max_fragment_map_entries :: usize
  cn_fragment_map :: "'m option"
  cn_pmtud :: "dplpmtud option"
  cn_fragment_counter :: u16
  cn_is_first_packet_received :: bool
  cn_inside_pkt_encoder :: bool
  cn_inside_pkt_decoder :: bool
  cn_can_use_inside_pkt_encoding :: bool
  cn_encoding_request_states :: encoding_request_states
  cn_expresslane :: "'k expresslane"

type_synonym ('s, 'k, 'm, 'a) conn_op = "(('s, 'k, 'm) conn, connection_error, 'a) proc"

definition is_server :: "('s, 'k, 'm) conn \<Rightarrow> bool" where
  "is_server c \<longleftrightarrow> (case cn_mode c of ServerMode _ \<Rightarrow> True | ClientMode _ \<Rightarrow> False)"

definition pending_session_id :: "('s, 'k, 'm) conn \<Rightarrow> session_id option" where
  "pending_session_id c = (case cn_mode c of ClientMode _ \<Rightarrow> None | ServerMode s \<Rightarrow> sm_pending_session_id s)"

section \<open>Calls on the application\<close>

definition app_note :: "app_call \<Rightarrow> ('s, 'k, 'm, unit) conn_op" where
  "app_note a = modify (\<lambda>c. c\<lparr>cn_log := cn_log c @ [a]\<rparr>)"

text \<open>\<open>Instant::now()\<close> and \<open>StandardUniform.sample\<close> of a byte array.\<close>

definition app_now :: "('s, 'k, 'm) conn_env \<Rightarrow> ('s, 'k, 'm, instant) conn_op" where
  "app_now E = and_then (gets (\<lambda>c. ce_now E (cn_log c))) (\<lambda>t. then_do (app_note (AppNow t)) (ret t))"

definition app_random :: "('s, 'k, 'm) conn_env \<Rightarrow> nat \<Rightarrow> ('s, 'k, 'm, bytes) conn_op" where
  "app_random E n = and_then (gets (\<lambda>c. ce_random E (cn_log c) n)) (\<lambda>b. then_do (app_note (AppRandom b)) (ret b))"

definition conn_event :: "event \<Rightarrow> ('s, 'k, 'm, unit) conn_op" where
  "conn_event ev = with_state (\<lambda>c. do_when (cn_event_cb c) (app_note (AppEvent ev)))"

definition schedule_tick :: "duration \<Rightarrow> tick_type \<Rightarrow> ('s, 'k, 'm, unit) conn_op" where
  "schedule_tick d tick = app_note (AppTick d tick)"

section \<open>Calls on the TLS session\<close>

definition session_call ::
  "('s \<Rightarrow> io_adapter \<Rightarrow> ('s, 'a) tls_result) \<Rightarrow> ('s, 'k, 'm, 'a tls_poll) conn_op" where
  "session_call f c =
     (case f (cn_session c) (cn_io c) of
        None \<Rightarrow> Panic
      | Some (r, s, io) \<Rightarrow>
          let c = c\<lparr>cn_session := s, cn_io := io\<rparr> in
          case r of Inl e \<Rightarrow> Err (CeTls e) c | Inr p \<Rightarrow> Ret p c)"

definition session_try_write ::
  "('s, 'k, 'm) conn_env \<Rightarrow> bytes \<Rightarrow> ('s, 'k, 'm, bytes \<times> usize tls_poll) conn_op" where
  "session_try_write E buf c =
     (case tls_try_write (ce_tls E) buf (cn_session c) (cn_io c) of
        None \<Rightarrow> Panic
      | Some (buf, r, s, io) \<Rightarrow>
          let c = c\<lparr>cn_session := s, cn_io := io\<rparr> in
          case r of Inl e \<Rightarrow> Err (CeTls e) c | Inr p \<Rightarrow> Ret (buf, p) c)"

text \<open>\<open>try_read\<close> appends to \<open>receive_buf\<close>; it hands the buffer it leaves back also on an error.\<close>

definition session_try_read :: "('s, 'k, 'm) conn_env \<Rightarrow> ('s, 'k, 'm, usize tls_poll) conn_op" where
  "session_try_read E c =
     (case tls_try_read (ce_tls E) (cn_receive_buf c) (cn_session c) (cn_io c) of
        None \<Rightarrow> Panic
      | Some (buf, r, s, io) \<Rightarrow>
          let c = c\<lparr>cn_session := s, cn_io := io, cn_receive_buf := buf\<rparr> in
          case r of Inl e \<Rightarrow> Err (CeTls e) c | Inr p \<Rightarrow> Ret p c)"

definition session_has_timed_out :: "('s, 'k, 'm) conn_env \<Rightarrow> ('s, 'k, 'm, bool tls_poll) conn_op" where
  "session_has_timed_out E c =
     (case tls_dtls_has_timed_out (ce_tls E) (cn_session c) (cn_io c) of
        None \<Rightarrow> Panic
      | Some (p, s, io) \<Rightarrow> Ret p (c\<lparr>cn_session := s, cn_io := io\<rparr>))"

definition tls_protocol_version :: "('s, 'k, 'm) conn_env \<Rightarrow> ('s, 'k, 'm) conn \<Rightarrow> protocol_version" where
  "tls_protocol_version E c = tls_version (ce_tls E) (cn_session c)"

section \<open>The outgoing queue\<close>

definition MAX_TLS_PENDING_QUEUE_PACKETS :: usize where [const_defs]: "MAX_TLS_PENDING_QUEUE_PACKETS = 64"

definition queue_limit :: "('s, 'k, 'm) conn_env \<Rightarrow> connection_type \<Rightarrow> frame \<Rightarrow> usize" where
  "queue_limit E connection_type f =
     (case connection_type of
        Stream \<Rightarrow>
          (case f of
             Data d \<Rightarrow> if ipv4_is_tcp (ce_pnet E) (data_data d) then 1 else MAX_TLS_PENDING_QUEUE_PACKETS
           | _ \<Rightarrow> MAX_TLS_PENDING_QUEUE_PACKETS)
      | Datagram \<Rightarrow> 1)"

text \<open>
  The \<open>while let Some(head) = pop_front()\<close> loop: a blocked or partial write puts the head back
  and returns; an error drops it.
\<close>

fun drain_queue :: "('s, 'k, 'm) conn_env \<Rightarrow> bytes list \<Rightarrow> ('s, 'k, 'm, unit) conn_op" where
  "drain_queue E [] = modify (\<lambda>c. c\<lparr>cn_tls_pending_queue := []\<rparr>)"
| "drain_queue E (head # queue) =
     then_do (modify (\<lambda>c. c\<lparr>cn_tls_pending_queue := queue\<rparr>))
    (and_then (session_try_write E head) (\<lambda>(head, poll).
       case poll of
         PendingWrite \<Rightarrow> modify (\<lambda>c. c\<lparr>cn_tls_pending_queue := head # queue\<rparr>)
       | PendingRead \<Rightarrow> modify (\<lambda>c. c\<lparr>cn_tls_pending_queue := head # queue\<rparr>)
       | Ready _ \<Rightarrow>
           if head \<noteq> [] then modify (\<lambda>c. c\<lparr>cn_tls_pending_queue := head # queue\<rparr>)
           else drain_queue E queue
       | AppData _ \<Rightarrow> drain_queue E queue))"

definition send_frame_or_queue :: "('s, 'k, 'm) conn_env \<Rightarrow> frame \<Rightarrow> ('s, 'k, 'm, unit) conn_op" where
  "send_frame_or_queue E f = with_state (\<lambda>c.
     then_do
       (if length (cn_tls_pending_queue c) < queue_limit E (cn_connection_type c) f then
          and_then (of_option (frame_append_to_wire f []))
            (\<lambda>buf. modify (\<lambda>c. c\<lparr>cn_tls_pending_queue := cn_tls_pending_queue c @ [buf]\<rparr>))
        else ret ())
       (with_state (\<lambda>c. drain_queue E (cn_tls_pending_queue c))))"

end
