(* ===== verification/Connection_Expresslane.thy ===== *)
theory Connection_Expresslane
  imports Connection_Core
begin

text \<open>
  The ExpressLane side of a connection (lightway-core/src/connection/expresslane.rs and the
  ExpressLane methods of connection.rs): key rotation and the config exchange with its bounded
  retransmission, the health check that degrades a lossy lane, and the data path.
\<close>

definition EXPRESSLANE_DEGRADE_STRIKES :: u8 where [const_defs]: "EXPRESSLANE_DEGRADE_STRIKES = 3"
definition EXPRESSLANE_MISSING_STATS_LIMIT :: u8 where [const_defs]: "EXPRESSLANE_MISSING_STATS_LIMIT = 3"
definition MAX_RETRANSMISSION_ATTEMPTS :: u8 where [const_defs]: "MAX_RETRANSMISSION_ATTEMPTS = 5"

definition expresslane_new :: "expresslane_state \<Rightarrow> bool \<Rightarrow> bool \<Rightarrow> duration \<Rightarrow> 'k expresslane" where
  "expresslane_new state cb metrics keys_rotation_interval =
     \<lparr>xl_state = state, xl_config_counter = 0, xl_retransmit_count = 0, xl_last_key_rotation = None,
      xl_prev_peer_sent = 0, xl_prev_peer_recv = 0, xl_last_snapshot_sent = 0, xl_last_snapshot_recv = 0,
      xl_inbound_strikes = 0, xl_outbound_strikes = 0, xl_missing_local_readings = 0,
      xl_missing_peer_reports = 0, xl_data = els_new ELUnknown, xl_cb = cb, xl_metrics = metrics,
      xl_keys_rotation_interval = keys_rotation_interval\<rparr>"

definition update_xl :: "('k expresslane \<Rightarrow> 'k expresslane) \<Rightarrow> ('s, 'k, 'm, unit) conn_op" where
  "update_xl f = modify (\<lambda>c. c\<lparr>cn_expresslane := f (cn_expresslane c)\<rparr>)"

definition xl_stats ::
  "('s, 'k, 'm) conn_env \<Rightarrow> session_id \<Rightarrow> ('s, 'k, 'm, expresslane_stats_error + (u64 \<times> u64)) conn_op" where
  "xl_stats E session_id = with_state (\<lambda>c.
     if xl_metrics (cn_expresslane c) then
       (let r = ce_stats E (cn_log c) session_id in
        then_do (app_note (AppExpresslaneStats session_id r)) (ret r))
     else
       (let d = xl_data (cn_expresslane c) in ret (Inr (els_packets_sent d, els_packets_received d))))"

text \<open>The sum \<open>1 + retransmit_count\<close> is computed in \<open>u8\<close>.\<close>

definition xl_retransmit_wait_time :: "'k expresslane \<Rightarrow> duration option" where
  "xl_retransmit_wait_time x =
     (if xl_retransmit_count x = - 1 then None else Some (millis 500 * (1 + unat (xl_retransmit_count x))))"

definition xl_time_to_rotate_key :: "('s, 'k, 'm) conn_env \<Rightarrow> ('s, 'k, 'm, bool) conn_op" where
  "xl_time_to_rotate_key E = with_state (\<lambda>c.
     case xl_last_key_rotation (cn_expresslane c) of
       None \<Rightarrow> ret True
     | Some lst \<Rightarrow>
         and_then (app_now E) (\<lambda>now. ret (elapsed now lst > xl_keys_rotation_interval (cn_expresslane c))))"

definition expresslane_supported :: "('s, 'k, 'm) conn \<Rightarrow> bool" where
  "expresslane_supported c \<longleftrightarrow>
     is_datagram (cn_connection_type c)
     \<and> (case version_try_new 1 3 of Some v \<Rightarrow> v | None \<Rightarrow> version_MINIMUM) \<le> cn_tunnel_protocol_version c
     \<and> xl_state (cn_expresslane c) \<notin> {XlDisabled, XlWaitingForClient}"

definition expresslane_ready :: "('s, 'k, 'm) conn \<Rightarrow> bool" where
  "expresslane_ready c \<longleftrightarrow>
     expresslane_supported c \<and> xl_state (cn_expresslane c) = XlActive
     \<and> els_has_valid_keys (xl_data (cn_expresslane c))"

definition set_expresslane_state :: "expresslane_state \<Rightarrow> ('s, 'k, 'm, unit) conn_op" where
  "set_expresslane_state new_state = with_state (\<lambda>c.
     if xl_state (cn_expresslane c) = new_state then ret ()
     else then_do (update_xl (\<lambda>x. x\<lparr>xl_state := new_state\<rparr>)) (conn_event (ExpresslaneStateChanged new_state)))"

definition publish_expresslane_key :: "('s, 'k, 'm) conn_env \<Rightarrow> ('s, 'k, 'm, unit) conn_op" where
  "publish_expresslane_key E = with_state (\<lambda>c.
     let d = xl_data (cn_expresslane c) in
     do_when (xl_cb (cn_expresslane c))
       (app_note (AppExpresslaneUpdate (cn_session_id c) (els_self_key d) (els_peer_key d)
          (sk_peer_addr (ce_sock E) (io_sock (cn_io c))) (els_get_version d))))"

text \<open>\<open>config_counter += 1\<close>, which would panic on overflow.\<close>

definition bump_config_counter :: "('s, 'k, 'm, u64) conn_op" where
  "bump_config_counter =
     then_do (debug_assert (\<lambda>c. xl_config_counter (cn_expresslane c) \<noteq> - 1))
    (then_do (update_xl (\<lambda>x. x\<lparr>xl_config_counter := xl_config_counter x + 1\<rparr>))
    (gets (\<lambda>c. xl_config_counter (cn_expresslane c))))"

definition update_next_self_key ::
  "('s, 'k, 'm) conn_env \<Rightarrow> expresslane_key \<Rightarrow> ('s, 'k, 'm, expresslane_error + unit) conn_op" where
  "update_next_self_key E key = with_state (\<lambda>c.
     case els_update_next_self_key (ce_aead E) key (xl_data (cn_expresslane c)) of
       (r, d) \<Rightarrow> then_do (update_xl (\<lambda>x. x\<lparr>xl_data := d\<rparr>)) (ret r))"

definition outgoing_version :: "('s, 'k, 'm) conn \<Rightarrow> expresslane_version" where
  "outgoing_version c =
     (case els_get_version (xl_data (cn_expresslane c)) of ELUnknown \<Rightarrow> EL_VERSION_MAX | v \<Rightarrow> v)"

definition schedule_key_share_tick :: "expresslane_config \<Rightarrow> ('s, 'k, 'm, unit) conn_op" where
  "schedule_key_share_tick config = with_state (\<lambda>c.
     and_then (of_option (xl_retransmit_wait_time (cn_expresslane c)))
       (\<lambda>d. schedule_tick d (ExpresslaneKeyShareTick config)))"

definition rotate_expresslane_key :: "('s, 'k, 'm) conn_env \<Rightarrow> ('s, 'k, 'm, unit) conn_op" where
  "rotate_expresslane_key E = with_state (\<lambda>c.
     if \<not> expresslane_supported c then ret ()
     else if xl_state (cn_expresslane c) = XlDegraded then throw CeExpreslaneDegraded
     else and_then (xl_time_to_rotate_key E) (\<lambda>due.
       if \<not> due then ret ()
       else
         and_then (app_random E EXPRESSLANE_KEY_SIZE) (\<lambda>key.
         and_then (update_next_self_key E key) (\<lambda>r.
         and_then (gets outgoing_version) (\<lambda>version.
         and_then bump_config_counter (\<lambda>counter.
           let config = \<lparr>ec_version = version, ec_enabled = (r = Inr ()), ec_ack = False,
                         ec_counter = counter, ec_key = key\<rparr> in
           ignoring (send_frame_or_queue E (ExpresslaneConfig config))
          (and_then (app_now E) (\<lambda>now.
             then_do (update_xl (\<lambda>x. x\<lparr>xl_last_key_rotation := Some now, xl_retransmit_count := 0\<rparr>))
               (schedule_key_share_tick config)))))))))"

definition set_expresslane_degraded :: "('s, 'k, 'm) conn_env \<Rightarrow> ('s, 'k, 'm, unit) conn_op" where
  "set_expresslane_degraded E =
     then_do (set_expresslane_state XlDegraded)
    (and_then (update_next_self_key E EL_KEY_INVALID) (\<lambda>_.
     and_then (gets outgoing_version) (\<lambda>version.
     and_then bump_config_counter (\<lambda>counter.
       let config = \<lparr>ec_version = version, ec_enabled = False, ec_ack = False,
                     ec_counter = counter, ec_key = EL_KEY_INVALID\<rparr> in
       ignoring (send_frame_or_queue E (ExpresslaneConfig config))
      (then_do (update_xl (\<lambda>x. x\<lparr>xl_retransmit_count := 0\<rparr>))
        (schedule_key_share_tick config))))))"

section \<open>Health\<close>

text \<open>
  \<open>u64 as f64\<close> rounds to 53 significant bits, ties to even; the quotient of two such numbers,
  rounded the same way, exceeds 0.5 exactly when it is above the midpoint between 0.5 and the next
  float \<open>0.5 + 2^-53\<close>.
\<close>

definition f64_shift :: "nat \<Rightarrow> nat" where
  "f64_shift n = length (takeWhile (\<lambda>s. 2 ^ (53 + s) \<le> n) [0..<11])"

definition f64_of_u64 :: "u64 \<Rightarrow> nat" where
  "f64_of_u64 w =
     (let n = unat w; s = f64_shift n; q = n div 2 ^ s; r = n mod 2 ^ s in
      (if 2 * r > 2 ^ s \<or> (2 * r = 2 ^ s \<and> odd q) then q + 1 else q) * 2 ^ s)"

definition f64_ratio_above_half :: "nat \<Rightarrow> nat \<Rightarrow> bool" where
  "f64_ratio_above_half x y \<longleftrightarrow> 2 ^ 54 * x > (2 ^ 53 + 1) * y"

definition has_packet_drops :: "u64 \<Rightarrow> u64 \<Rightarrow> bool" where
  "has_packet_drops sent received =
     (if sent < 10 then False
      else
        let packet_loss = sat_sub sent received in
        f64_ratio_above_half (f64_of_u64 packet_loss) (f64_of_u64 sent))"

definition advance_strikes :: "u8 \<Rightarrow> u64 \<Rightarrow> u64 \<Rightarrow> u8 \<times> bool" where
  "advance_strikes strikes sent received =
     (if \<not> has_packet_drops sent received then (sat_sub strikes 1, False)
      else let strikes = sat_add strikes 1 in (strikes, strikes \<ge> EXPRESSLANE_DEGRADE_STRIKES))"

definition check_expresslane_health :: "('s, 'k, 'm) conn_env \<Rightarrow> bytes \<Rightarrow> ('s, 'k, 'm, unit) conn_op" where
  "check_expresslane_health E payload = with_state (\<lambda>c.
     if \<not> expresslane_ready c then ret ()
     else if length payload \<noteq> 16 then
       then_do (update_xl (\<lambda>x. x\<lparr>xl_missing_peer_reports := sat_add (xl_missing_peer_reports x) 1\<rparr>))
      (with_state (\<lambda>c. do_when (xl_missing_peer_reports (cn_expresslane c) \<ge> EXPRESSLANE_MISSING_STATS_LIMIT)
         (set_expresslane_degraded E)))
     else
       then_do (update_xl (\<lambda>x. x\<lparr>xl_missing_peer_reports := 0\<rparr>))
      (let total_peer_sent = be_word (take 8 payload); total_peer_recv = be_word (drop 8 payload) in
       and_then (xl_stats E (cn_session_id c)) (\<lambda>reading.
       case reading of
         Inl e \<Rightarrow>
           then_do (update_xl (\<lambda>x. x\<lparr>xl_missing_local_readings := sat_add (xl_missing_local_readings x) 1\<rparr>))
          (with_state (\<lambda>c. do_when (xl_missing_local_readings (cn_expresslane c) \<ge> EXPRESSLANE_MISSING_STATS_LIMIT)
             (set_expresslane_degraded E)))
       | Inr (current_sent, current_recv) \<Rightarrow>
           then_do (update_xl (\<lambda>x. x\<lparr>xl_missing_local_readings := 0\<rparr>))
          (with_state (\<lambda>c.
           let x = cn_expresslane c;
               my_sent_delta = current_sent - xl_last_snapshot_sent x;
               my_recv_delta = current_recv - xl_last_snapshot_recv x;
               peer_sent_delta = total_peer_sent - xl_prev_peer_sent x;
               peer_recv_delta = total_peer_recv - xl_prev_peer_recv x
           in
             then_do (update_xl (\<lambda>x. x\<lparr>xl_prev_peer_sent := total_peer_sent, xl_prev_peer_recv := total_peer_recv,
                        xl_last_snapshot_sent := current_sent, xl_last_snapshot_recv := current_recv\<rparr>))
            (case advance_strikes (xl_inbound_strikes x) peer_sent_delta my_recv_delta of (inbound_strikes, degrade) \<Rightarrow>
             then_do (update_xl (\<lambda>x. x\<lparr>xl_inbound_strikes := inbound_strikes\<rparr>))
            (if degrade then set_expresslane_degraded E
             else case advance_strikes (xl_outbound_strikes x) my_sent_delta peer_recv_delta of (outbound_strikes, degrade) \<Rightarrow>
               then_do (update_xl (\<lambda>x. x\<lparr>xl_outbound_strikes := outbound_strikes\<rparr>))
              (do_when degrade (set_expresslane_degraded E)))))))))"

definition encode_expresslane_metrics_payload :: "('s, 'k, 'm) conn_env \<Rightarrow> ('s, 'k, 'm, bytes) conn_op" where
  "encode_expresslane_metrics_payload E = with_state (\<lambda>c.
     if \<not> expresslane_ready c then ret []
     else and_then (xl_stats E (cn_session_id c)) (\<lambda>reading.
       case reading of
         Inl e \<Rightarrow> ret []
       | Inr (current_sent, current_recv) \<Rightarrow> ret (be_bytes 8 current_sent @ be_bytes 8 current_recv)))"

section \<open>The config exchange\<close>

definition expresslane_key_share_tick ::
  "('s, 'k, 'm) conn_env \<Rightarrow> expresslane_config \<Rightarrow> ('s, 'k, 'm, unit) conn_op" where
  "expresslane_key_share_tick E last_config = with_state (\<lambda>c.
     if cn_state c \<noteq> Online then throw CeInvalidState
     else if \<not> expresslane_supported c then throw CeInvalidConnectionType
     else if ec_counter last_config \<noteq> xl_config_counter (cn_expresslane c) then ret ()
     else if ec_key last_config = els_self_key (xl_data (cn_expresslane c)) then ret ()
     else if xl_retransmit_count (cn_expresslane c) \<ge> MAX_RETRANSMISSION_ATTEMPTS then
       (if xl_state (cn_expresslane c) = XlDegraded then ret ()
        else
          then_do (set_expresslane_state XlInactive)
            (update_xl (\<lambda>x. x\<lparr>xl_last_key_rotation := None\<rparr>)))
     else
       then_do (update_xl (\<lambda>x. x\<lparr>xl_retransmit_count := xl_retransmit_count x + 1\<rparr>))
      (then_do (schedule_key_share_tick last_config)
        (send_frame_or_queue E (ExpresslaneConfig last_config))))"

text \<open>Its two halves: an acknowledgement from the peer, and the peer's own key.\<close>

definition handle_expresslane_ack ::
  "('s, 'k, 'm) conn_env \<Rightarrow> expresslane_config \<Rightarrow> ('s, 'k, 'm, unit) conn_op" where
  "handle_expresslane_ack E config = with_state (\<lambda>c.
     if ec_counter config = xl_config_counter (cn_expresslane c) then
       then_do (update_xl (\<lambda>x. x\<lparr>xl_data := els_promote_self_key (xl_data x)\<rparr>))
      (then_do (publish_expresslane_key E)
      (then_do (update_xl (\<lambda>x. x\<lparr>xl_retransmit_count := 0\<rparr>))
      (with_state (\<lambda>c.
         do_when (xl_state (cn_expresslane c) \<noteq> XlDegraded \<and> els_has_valid_keys (xl_data (cn_expresslane c)))
           (set_expresslane_state XlActive)))))
     else ret ())"

definition handle_expresslane_peer_key ::
  "('s, 'k, 'm) conn_env \<Rightarrow> expresslane_config \<Rightarrow> ('s, 'k, 'm, unit) conn_op" where
  "handle_expresslane_peer_key E config = with_state (\<lambda>c.
     if xl_state (cn_expresslane c) = XlDegraded then ret ()
     else
       then_do (do_when (xl_state (cn_expresslane c) = XlWaitingForClient) (set_expresslane_state XlInactive))
      (then_do
        (if ec_enabled config then
           with_state (\<lambda>c.
             case els_update_peer_key (ce_aead E) (ec_key config) (xl_data (cn_expresslane c)) of
               (r, d) \<Rightarrow>
                 then_do (update_xl (\<lambda>x. x\<lparr>xl_data := d\<rparr>))
                (then_do (of_result (case r of Inl e \<Rightarrow> Inl (CeExpresslaneError e) | Inr u \<Rightarrow> Inr u))
                (then_do (publish_expresslane_key E)
                (with_state (\<lambda>c. do_when (els_has_valid_keys (xl_data (cn_expresslane c)))
                   (set_expresslane_state XlActive))))))
         else set_expresslane_state XlInactive)
      (with_state (\<lambda>c.
         let config = config\<lparr>ec_ack := True, ec_version := els_get_version (xl_data (cn_expresslane c))\<rparr> in
         ignoring (send_frame_or_queue E (ExpresslaneConfig config))
        (ignoring (rotate_expresslane_key E) (ret ()))))))"

definition handle_expresslane_config ::
  "('s, 'k, 'm) conn_env \<Rightarrow> expresslane_config \<Rightarrow> ('s, 'k, 'm, unit) conn_op" where
  "handle_expresslane_config E config =
     then_do (check (\<lambda>c. cn_state c = Online) CeInvalidState)
    (with_state (\<lambda>c.
       let neg_version = negotiate_version (ec_version config) in
       then_do
         (do_when (neg_version \<noteq> els_get_version (xl_data (cn_expresslane c)))
            (update_xl (\<lambda>x. x\<lparr>xl_data := snd (els_set_version neg_version (xl_data x))\<rparr>)))
         (if ec_ack config then handle_expresslane_ack E config
          else handle_expresslane_peer_key E config)))"

section \<open>The data path\<close>

definition touch_data_traffic :: "('s, 'k, 'm) conn_env \<Rightarrow> ('s, 'k, 'm, unit) conn_op" where
  "touch_data_traffic E = and_then (app_now E) (\<lambda>now.
     modify (\<lambda>c. c\<lparr>cn_activity := (cn_activity c)\<lparr>last_data_traffic_from_peer := now\<rparr>\<rparr>))"

definition conn_udp_send :: "('s, 'k, 'm) conn_env \<Rightarrow> bytes \<Rightarrow> bool \<Rightarrow> ('s, 'k, 'm, io_result) conn_op" where
  "conn_udp_send E buf expresslane_data c =
     (case udp_send (ce_sock E) buf expresslane_data (cn_io c) of
        None \<Rightarrow> Panic
      | Some (r, io) \<Rightarrow> Ret r (c\<lparr>cn_io := io\<rparr>))"

definition send_expresslane_data :: "('s, 'k, 'm) conn_env \<Rightarrow> bytes \<Rightarrow> bool \<Rightarrow> ('s, 'k, 'm, unit) conn_op" where
  "send_expresslane_data E data is_encoded =
     and_then (app_random E 12) (\<lambda>iv.
     with_state (\<lambda>c.
       let session_id = (case pending_session_id c of Some s \<Rightarrow> s | None \<Rightarrow> cn_session_id c) in
       case els_append_to_wire (ce_aead E) (xl_data (cn_expresslane c)) [] session_id data iv is_encoded of
         (r, buf, d) \<Rightarrow>
           then_do (update_xl (\<lambda>x. x\<lparr>xl_data := d\<rparr>))
          (then_do (of_result (case r of Inl e \<Rightarrow> Inl (expresslane_encrypt_error e) | Inr u \<Rightarrow> Inr u))
          (then_do (touch_data_traffic E)
          (and_then (conn_udp_send E buf True) (\<lambda>sent.
             case sent of
               IoErr e \<Rightarrow> throw (CeOutsideIoWriteError e)
             | _ \<Rightarrow> ret ()))))))"

end
