(* ===== verification/Connection.thy ===== *)
theory Connection
  imports Connection_Expresslane
begin

text \<open>
  The connection state machine (lightway-core/src/connection.rs): state changes, authentication,
  keepalives and path MTU probes, session id rotation, the data paths in both directions, the
  codec negotiation, the message loop and the entry points the application calls. Every method
  has the name it has in the source. The GSO superpacket path is in \<open>Connection_Gso\<close>.
\<close>

definition TLS_TICK_INTERVAL_DIVISOR :: nat where [const_defs]: "TLS_TICK_INTERVAL_DIVISOR = 1000 div 100"
definition TLS_TICK_DTLS13_QUICK_TIMEOUT_DIVISOR :: nat where [const_defs]: "TLS_TICK_DTLS13_QUICK_TIMEOUT_DIVISOR = 4"
definition ENCODING_REQUEST_PKT_MAX_RETRANSMISSION_ATTEMPTS :: u8 where
  [const_defs]: "ENCODING_REQUEST_PKT_MAX_RETRANSMISSION_ATTEMPTS = 5"
definition TCP_HEADER_SIZE :: usize where [const_defs]: "TCP_HEADER_SIZE = 20"

definition update_server :: "(server_mode \<Rightarrow> server_mode) \<Rightarrow> ('s, 'k, 'm, unit) conn_op" where
  "update_server f = modify (\<lambda>c.
     case cn_mode c of ServerMode s \<Rightarrow> c\<lparr>cn_mode := ServerMode (f s)\<rparr> | ClientMode _ \<Rightarrow> c)"

definition update_io :: "(io_adapter \<Rightarrow> io_adapter) \<Rightarrow> ('s, 'k, 'm, unit) conn_op" where
  "update_io f = modify (\<lambda>c. c\<lparr>cn_io := f (cn_io c)\<rparr>)"

section \<open>State changes\<close>

definition update_tick_interval :: "('s, 'k, 'm) conn_env \<Rightarrow> ('s, 'k, 'm, unit) conn_op" where
  "update_tick_interval E = with_state (\<lambda>c.
     if \<not> is_datagram (cn_connection_type c) then ret ()
     else
       let key_update_pending =
             (case cn_mode c of ServerMode s \<Rightarrow> ku_is_pending (sm_key_update s) | ClientMode _ \<Rightarrow> False) in
       if cn_state c = Online \<and> \<not> key_update_pending then modify (\<lambda>c. c\<lparr>cn_tls_tick_interval := None\<rparr>)
       else
         let interval = tls_dtls_current_timeout (ce_tls E) (cn_session c) div TLS_TICK_INTERVAL_DIVISOR;
             interval = (if tls_protocol_version E c = DtlsV1_3 \<and> tls_dtls13_use_quick_timeout (ce_tls E) (cn_session c)
                         then interval div TLS_TICK_DTLS13_QUICK_TIMEOUT_DIVISOR else interval)
         in
           then_do (modify (\<lambda>c. c\<lparr>cn_tls_tick_interval := Some interval\<rparr>))
          (do_when (\<not> cn_is_tick_timer_running c)
            (then_do (schedule_tick interval ConnectionTick)
              (modify (\<lambda>c. c\<lparr>cn_is_tick_timer_running := True\<rparr>)))))"

definition handle_pmtud_action :: "('s, 'k, 'm) conn_env \<Rightarrow> pmtud_action \<Rightarrow> ('s, 'k, 'm, unit) conn_op" where
  "handle_pmtud_action E a =
     (case a of
        SendProbe probe_id sz \<Rightarrow>
          then_do (update_io io_enable_pmtud_probe)
         (attempt (send_frame_or_queue E (Ping \<lparr>ping_id = probe_id, ping_payload = replicate sz 0\<rparr>)) (\<lambda>res.
            then_do (update_io io_disable_pmtud_probe) (of_result res)))
      | PmtudNone \<Rightarrow> ret ())"

text \<open>Run a step of the path MTU machine, if there is one, and act on it.\<close>

definition pmtud_step :: "('s, 'k, 'm) conn_env \<Rightarrow> pmtud_op \<Rightarrow> ('s, 'k, 'm, unit) conn_op" where
  "pmtud_step E f = with_state (\<lambda>c.
     case cn_pmtud c of
       None \<Rightarrow> ret ()
     | Some d \<Rightarrow>
         and_then (of_option (f d)) (\<lambda>(action, d).
           then_do (modify (\<lambda>c. c\<lparr>cn_pmtud := Some d\<rparr>)) (handle_pmtud_action E action)))"

text \<open>
  \<open>set_state\<close> and \<open>authenticate\<close> call each other; the inner call enters \<open>Authenticating\<close>, which
  has no further action (lemma \<open>set_state_authenticating\<close>), so it is \<open>enter_state\<close>.
\<close>

definition enter_state :: "conn_state \<Rightarrow> ('s, 'k, 'm, unit) conn_op" where
  "enter_state new_state = with_state (\<lambda>c.
     if cn_state c = new_state then ret ()
     else then_do (modify (\<lambda>c. c\<lparr>cn_state := new_state\<rparr>)) (conn_event (StateChanged new_state)))"

definition authenticate :: "('s, 'k, 'm) conn_env \<Rightarrow> auth_method \<Rightarrow> ('s, 'k, 'm, unit) conn_op" where
  "authenticate E auth_method =
     then_do (debug_assert (\<lambda>c. cn_state c \<in> {LinkUp, Authenticating}))
    (then_do (enter_state Authenticating)
      (send_frame_or_queue E (AuthRequest \<lparr>ar_auth_method = auth_method\<rparr>)))"

definition set_state :: "('s, 'k, 'm) conn_env \<Rightarrow> conn_state \<Rightarrow> ('s, 'k, 'm, unit) conn_op" where
  "set_state E new_state = with_state (\<lambda>c.
     if cn_state c = new_state then ret ()
     else
       then_do (enter_state new_state)
      (then_do
        (do_when (new_state = Online)
          (then_do (update_io (\<lambda>io. io\<lparr>io_aggressive_send := False\<rparr>))
          (then_do (rotate_expresslane_key E)
            (pmtud_step E dp_online))))
      (with_state (\<lambda>c. case cn_mode c of
         ClientMode auth_method \<Rightarrow> do_when (new_state = LinkUp) (authenticate E auth_method)
       | ServerMode _ \<Rightarrow> ret ()))))"

definition set_tunnel_protocol_version :: "version \<Rightarrow> ('s, 'k, 'm, unit) conn_op" where
  "set_tunnel_protocol_version v = with_state (\<lambda>c.
     if \<not> is_server c then throw CeInvalidMode
     else if cn_state c = Online \<and> cn_tunnel_protocol_version c = v then ret ()
     else if cn_state c \<notin> {Connecting, LinkUp, Authenticating} then throw CeInvalidState
     else modify (\<lambda>c. c\<lparr>cn_tunnel_protocol_version := v\<rparr>))"

definition disconnect :: "('s, 'k, 'm) conn_env \<Rightarrow> ('s, 'k, 'm, unit) conn_op" where
  "disconnect E =
     then_do (check (\<lambda>c. cn_state c \<notin> {Disconnecting, Connecting, Disconnected}) CeInvalidState)
    (then_do (set_state E Disconnecting)
    (then_do (with_state (\<lambda>c. do_when (is_server c) (app_note AppIpFree)))
    (ignoring (send_frame_or_queue E Goodbye)
    (ignoring (session_call (tls_try_shutdown (ce_tls E)))
      (set_state E Disconnected)))))"

definition authentication_expired :: "('s, 'k, 'm) conn_env \<Rightarrow> ('s, 'k, 'm, bool) conn_op" where
  "authentication_expired E = with_state (\<lambda>c.
     case cn_mode c of
       ClientMode _ \<Rightarrow> throw CeInvalidMode
     | ServerMode s \<Rightarrow>
         (case sm_auth_handle s of
            None \<Rightarrow> ret False
          | Some auth_handle \<Rightarrow> ret (ce_expired E (cn_log c) auth_handle)))"

section \<open>Sending\<close>

definition next_fragment_id :: "('s, 'k, 'm, u16) conn_op" where
  "next_fragment_id =
     then_do (modify (\<lambda>c. c\<lparr>cn_fragment_counter := cn_fragment_counter c + 1\<rparr>)) (gets cn_fragment_counter)"

fun send_frames :: "('s, 'k, 'm) conn_env \<Rightarrow> frame list \<Rightarrow> ('s, 'k, 'm, unit) conn_op" where
  "send_frames E [] = ret ()"
| "send_frames E (f # fs) = then_do (send_frame_or_queue E f) (send_frames E fs)"

definition send_fragmented_outside_data ::
  "('s, 'k, 'm) conn_env \<Rightarrow> bytes \<Rightarrow> usize \<Rightarrow> bool \<Rightarrow> ('s, 'k, 'm, unit) conn_op" where
  "send_fragmented_outside_data E data mps is_encoded =
     (if length data > 65535 then throw (CeInvalidInsidePacket InvalidPacketSize)
      else and_then next_fragment_id (\<lambda>fid.
        and_then (of_option (fragment_loop fid mps 0 data)) (\<lambda>frags.
          send_frames E (map (if is_encoded then EncodedDataFrag else DataFrag) frags))))"

definition send_outside_data :: "('s, 'k, 'm) conn_env \<Rightarrow> bytes \<Rightarrow> bool \<Rightarrow> ('s, 'k, 'm, unit) conn_op" where
  "send_outside_data E data is_encoded = with_state (\<lambda>c.
     and_then (if is_datagram (cn_connection_type c)
               then and_then (of_option (data_maximum_packet_size_for_plpmtu (cn_outside_mtu c))) (\<lambda>mps. ret (length data > mps))
               else ret False) (\<lambda>too_large.
     if too_large then throw (CeInvalidInsidePacket InvalidPacketSize)
     else if expresslane_ready c then send_expresslane_data E data is_encoded
     else send_frame_or_queue E (if is_encoded then EncodedData \<lparr>data_data = data\<rparr> else Data \<lparr>data_data = data\<rparr>)))"

definition maximum_packet_sizes :: "('s, 'k, 'm) conn \<Rightarrow> (usize \<times> usize) option option" where
  "maximum_packet_sizes c = (case cn_pmtud c of None \<Rightarrow> Some None | Some d \<Rightarrow> dp_maximum_packet_sizes d)"

definition send_to_outside :: "('s, 'k, 'm) conn_env \<Rightarrow> bytes \<Rightarrow> bool \<Rightarrow> ('s, 'k, 'm, unit) conn_op" where
  "send_to_outside E pkt is_encoded =
     then_do (check (\<lambda>c. cn_state c = Online) CeInvalidState)
    (with_state (\<lambda>c. and_then (of_option (maximum_packet_sizes c)) (\<lambda>sizes.
       case sizes of
         Some (data_mps, frag_mps) \<Rightarrow>
           if length pkt > data_mps then send_fragmented_outside_data E pkt frag_mps is_encoded
           else send_outside_data E pkt is_encoded
       | None \<Rightarrow> send_outside_data E pkt is_encoded)))"

definition keepalive :: "('s, 'k, 'm) conn_env \<Rightarrow> ('s, 'k, 'm, unit) conn_op" where
  "keepalive E = with_state (\<lambda>c.
     if cn_state c \<noteq> Online then ret ()
     else and_then (encode_expresslane_metrics_payload E) (\<lambda>payload.
       send_frame_or_queue E (Ping \<lparr>ping_id = KEEPALIVE_ID, ping_payload = payload\<rparr>)))"

definition pmtud_tick :: "('s, 'k, 'm) conn_env \<Rightarrow> ('s, 'k, 'm, unit) conn_op" where
  "pmtud_tick E = with_state (\<lambda>c. if cn_state c \<noteq> Online then ret () else pmtud_step E dp_tick)"

text \<open>Tail of both inside paths: a verdict of the inside plugins other than \<open>Accept\<close> ends the call.\<close>

definition plugin_verdict :: "plugin_result \<Rightarrow> ('s, 'k, 'm, unit) conn_op \<Rightarrow> ('s, 'k, 'm, unit) conn_op" where
  "plugin_verdict v k =
     (case v of
        Accept \<Rightarrow> k
      | Drop \<Rightarrow> ret ()
      | DropWithReply b \<Rightarrow> throw (CePluginDropWithReply b)
      | PluginErr e \<Rightarrow> throw (CePluginError e))"

definition inside_data_received :: "('s, 'k, 'm) conn_env \<Rightarrow> bytes \<Rightarrow> ('s, 'k, 'm, unit) conn_op" where
  "inside_data_received E pkt =
     then_do (check (\<lambda>c. cn_state c \<noteq> Disconnected) CeDisconnected)
    (then_do (check (\<lambda>c. cn_state c = Online) CeInvalidState)
    (with_state (\<lambda>c.
       case cn_inside_io c of
         None \<Rightarrow> throw CeInvalidState
       | Some mtu \<Rightarrow>
           if length pkt > mtu then throw (CeInvalidInsidePacket InvalidPacketSize)
           else if \<not> ipv4_is_valid_packet pkt then throw (CeInvalidInsidePacket InvalidIpv4Packet)
           else
             ignoring (rotate_expresslane_key E)
            (with_state (\<lambda>c. and_then (of_option (maximum_packet_sizes c)) (\<lambda>sizes.
             and_then (case sizes of
                 None \<Rightarrow> ret pkt
               | Some (mps, _) \<Rightarrow>
                   if mps < IPV4_HEADER_SIZE + TCP_HEADER_SIZE then panic
                   else of_option (map_option snd
                     (tcp_clamp_mss (ce_pnet E) (of_nat (mps - (IPV4_HEADER_SIZE + TCP_HEADER_SIZE))) pkt))) (\<lambda>pkt.
             case do_ingress (cn_inside_plugins c) pkt of (verdict, pkt) \<Rightarrow>
             plugin_verdict verdict
               (with_state (\<lambda>c.
                  if cn_inside_pkt_encoder c then
                    (case ce_encoder_store E (cn_log c) pkt of (r, pkt') \<Rightarrow>
                       then_do (app_note (AppEncoderStore pkt r))
                      (case r of
                         Inr PacketAccepted \<Rightarrow> ret ()
                       | Inr SkipPacket \<Rightarrow> send_to_outside E pkt' False
                       | Inl e \<Rightarrow> throw (CePacketCodecError e)))
                  else send_to_outside E pkt False)))))))))"

section \<open>Session ids\<close>

text \<open>
  \<open>StandardUniform.sample\<close> of a session id draws until the id is not reserved; \<open>fuel\<close> bounds the
  draws.
\<close>

fun sample_session_id :: "('s, 'k, 'm) conn_env \<Rightarrow> nat \<Rightarrow> ('s, 'k, 'm, session_id) conn_op" where
  "sample_session_id E 0 = (\<lambda>c. OutOfFuel)"
| "sample_session_id E (Suc fuel) = and_then (app_random E 8) (\<lambda>candidate.
     if \<not> session_is_reserved candidate then ret candidate else sample_session_id E fuel)"

definition rotate_session_id :: "('s, 'k, 'm) conn_env \<Rightarrow> nat \<Rightarrow> ('s, 'k, 'm, session_id) conn_op" where
  "rotate_session_id E fuel = with_state (\<lambda>c.
     case cn_mode c of
       ClientMode _ \<Rightarrow> throw CeInvalidMode
     | ServerMode s \<Rightarrow>
         (case sm_pending_session_id s of
            Some pending \<Rightarrow> ret pending
          | None \<Rightarrow>
              and_then (sample_session_id E fuel) (\<lambda>new_session_id.
                then_do (update_io (io_set_session_id new_session_id))
               (then_do (update_server (\<lambda>s. s\<lparr>sm_pending_session_id := Some new_session_id\<rparr>))
               (then_do (conn_event (SessionIdRotationStarted (cn_session_id c) new_session_id))
               (ignoring (keepalive E) (ret new_session_id)))))))"

definition update_session_id :: "('s, 'k, 'm) conn_env \<Rightarrow> session_id option \<Rightarrow> ('s, 'k, 'm, unit) conn_op" where
  "update_session_id E session_id = with_state (\<lambda>c.
     case session_id of
       None \<Rightarrow> ret ()
     | Some session_id \<Rightarrow>
         if session_id = SESSION_EMPTY then ret ()
         else if session_id = cn_session_id c then ret ()
         else
           (case cn_mode c of
              ClientMode _ \<Rightarrow>
                then_do (modify (\<lambda>c. c\<lparr>cn_session_id := session_id\<rparr>))
               (then_do (update_io (io_set_session_id session_id)) (publish_expresslane_key E))
            | ServerMode s \<Rightarrow>
                if sm_pending_session_id s = Some session_id then
                  then_do (modify (\<lambda>c. c\<lparr>cn_session_id := session_id\<rparr>))
                 (then_do (update_server (\<lambda>s. s\<lparr>sm_pending_session_id := None\<rparr>))
                   (conn_event (SessionIdRotationAcknowledged (cn_session_id c) session_id)))
                else ret ()))"

section \<open>Receiving data\<close>

definition send_to_inside :: "('s, 'k, 'm) conn_env \<Rightarrow> bytes \<Rightarrow> ('s, 'k, 'm, unit) conn_op" where
  "send_to_inside E inside_pkt =
     then_do (check (\<lambda>c. cn_state c = Online) CeInvalidState)
    (if \<not> ipv4_is_valid_packet inside_pkt then throw (CeInvalidInsidePacket InvalidIpv4Packet)
     else with_state (\<lambda>c.
       if cn_inside_io c = None then throw (CeInvalidInsidePacket InvalidIpv4Packet)
       else
         case do_egress (cn_inside_plugins c) inside_pkt of (verdict, inside_pkt) \<Rightarrow>
         plugin_verdict verdict
           (then_do (touch_data_traffic E)
           (and_then (app_now E) (\<lambda>now.
            then_do (modify (\<lambda>c. c\<lparr>cn_activity := (cn_activity c)\<lparr>last_data_delivered_to_inside := now\<rparr>\<rparr>))
              (app_note (AppInsideSend inside_pkt)))))))"

definition handle_outside_data_bytes :: "('s, 'k, 'm) conn_env \<Rightarrow> bytes \<Rightarrow> bool \<Rightarrow> ('s, 'k, 'm, unit) conn_op" where
  "handle_outside_data_bytes E inside_bytes is_encoded =
     (if \<not> is_encoded then send_to_inside E inside_bytes
      else with_state (\<lambda>c.
        if \<not> cn_inside_pkt_decoder c then throw CePacketCodecDoesNotExist
        else
          case ce_decoder_store E (cn_log c) inside_bytes of (r, inside_bytes') \<Rightarrow>
          then_do (app_note (AppDecoderStore inside_bytes r))
         (case r of
            Inr PacketAccepted \<Rightarrow> ret ()
          | Inr SkipPacket \<Rightarrow> send_to_inside E inside_bytes'
          | Inl e \<Rightarrow> throw (CePacketCodecError e))))"

definition handle_outside_data_packet :: "('s, 'k, 'm) conn_env \<Rightarrow> data \<Rightarrow> bool \<Rightarrow> ('s, 'k, 'm, unit) conn_op" where
  "handle_outside_data_packet E d is_encoded =
     then_do (check (\<lambda>c. cn_state c = Online) CeInvalidState)
       (handle_outside_data_bytes E (data_data d) is_encoded)"

text \<open>The map is allocated on first use.\<close>

definition handle_outside_data_fragment :: "('s, 'k, 'm) conn_env \<Rightarrow> data_frag \<Rightarrow> bool \<Rightarrow> ('s, 'k, 'm, unit) conn_op" where
  "handle_outside_data_fragment E frag is_encoded =
     then_do (check (\<lambda>c. cn_state c = Online) CeInvalidState)
    (with_state (\<lambda>c.
       let m = (case cn_fragment_map c of None \<Rightarrow> fragment_map_new (ce_lru E) (cn_max_fragment_map_entries c) | Some m \<Rightarrow> m) in
       and_then (of_option (fragment_map_add_fragment (ce_lru E) frag m)) (\<lambda>(r, m).
         then_do (modify (\<lambda>c. c\<lparr>cn_fragment_map := Some m\<rparr>))
        (case r of
           FmComplete d \<Rightarrow> handle_outside_data_bytes E d is_encoded
         | FmIncomplete \<Rightarrow> ret ()
         | FmErr err \<Rightarrow> throw (CeDataFragmentError err)))))"

section \<open>Keepalives\<close>

definition handle_ping :: "('s, 'k, 'm) conn_env \<Rightarrow> ping \<Rightarrow> ('s, 'k, 'm, unit) conn_op" where
  "handle_ping E p =
     then_do (check (\<lambda>c. cn_state c = Online) CeInvalidState)
    (and_then (if ping_id p = KEEPALIVE_ID then encode_expresslane_metrics_payload E else ret []) (\<lambda>payload.
       send_frame_or_queue E (Pong \<lparr>pong_id = ping_id p, pong_payload = payload\<rparr>)))"

definition handle_pong :: "('s, 'k, 'm) conn_env \<Rightarrow> pong \<Rightarrow> ('s, 'k, 'm, unit) conn_op" where
  "handle_pong E p =
     then_do (check (\<lambda>c. cn_state c = Online) CeInvalidState)
    (then_do
      (do_when (pong_id p = KEEPALIVE_ID)
        (then_do (conn_event KeepaliveReply) (check_expresslane_health E (pong_payload p))))
      (pmtud_step E (dp_pong_received p)))"

section \<open>Authentication\<close>

definition send_auth_failure :: "('s, 'k, 'm) conn_env \<Rightarrow> ('s, 'k, 'm, unit) conn_op" where
  "send_auth_failure E =
     ignoring (send_frame_or_queue E (AuthFailure ())) (ignoring (disconnect E) (ret ()))"

text \<open>\<open>key_update.online()\<close>, which reads the clock only while initializing.\<close>

definition key_update_online :: "('s, 'k, 'm) conn_env \<Rightarrow> ('s, 'k, 'm, unit) conn_op" where
  "key_update_online E = with_state (\<lambda>c.
     case cn_mode c of
       ServerMode s \<Rightarrow>
         (case sm_key_update s of
            KuInitializing _ \<Rightarrow>
              and_then (app_now E) (\<lambda>now. update_server (\<lambda>s. s\<lparr>sm_key_update := ku_online now (sm_key_update s)\<rparr>))
          | _ \<Rightarrow> ret ())
     | ClientMode _ \<Rightarrow> ret ())"

definition auth_success_for :: "inside_ip_config \<Rightarrow> usize \<Rightarrow> session_id \<Rightarrow> auth_success" where
  "auth_success_for ip_config mtu session =
     \<lparr>as_local_ip = ipv4_to_string (client_ip ip_config), as_peer_ip = ipv4_to_string (server_ip ip_config),
      as_dns_ip = ipv4_to_string (dns_ip ip_config), as_mtu = show_nat mtu, as_session = session\<rparr>"

definition handle_auth_request :: "('s, 'k, 'm) conn_env \<Rightarrow> auth_request \<Rightarrow> ('s, 'k, 'm, unit) conn_op" where
  "handle_auth_request E auth_request =
     then_do (check is_server CeInvalidMode)
    (then_do (check (\<lambda>c. cn_state c \<in> {LinkUp, Online}) CeInvalidState)
    (with_state (\<lambda>c.
       let alloc = ce_ip_alloc E (cn_log c) in
       then_do (app_note (AppIpAlloc alloc))
      (case alloc of
         None \<Rightarrow> then_do (send_auth_failure E) (throw CeNoAvailableClientIp)
       | Some ip_config \<Rightarrow>
           (case cn_inside_io c of
              None \<Rightarrow> then_do (send_auth_failure E) (throw CeInvalidInsideIo)
            | Some mtu \<Rightarrow> with_state (\<lambda>c.
                let decision = ce_authorize E (cn_log c) (ar_auth_method auth_request) in
                then_do (app_note (AppAuthorize (ar_auth_method auth_request) decision))
               (case decision of
                  Denied \<Rightarrow> then_do (send_auth_failure E) (throw CeAccessDenied)
                | Granted handle tunnel_protocol_version \<Rightarrow>
                    then_do (key_update_online E)
                   (then_do
                     (case handle of
                        Some h \<Rightarrow> modify (\<lambda>c. c\<lparr>cn_can_use_inside_pkt_encoding := InsidePktCodec \<in> set (ah_features h)\<rparr>)
                      | None \<Rightarrow> ret ())
                   (then_do (update_server (\<lambda>s. s\<lparr>sm_auth_handle := handle\<rparr>))
                   (then_do
                     (send_frame_or_queue E (AuthSuccessWithConfigV4 (auth_success_for ip_config mtu (cn_session_id c))))
                   (then_do
                     (case tunnel_protocol_version of Some v \<Rightarrow> set_tunnel_protocol_version v | None \<Rightarrow> ret ())
                     (set_state E Online))))))))))))"

text \<open>The sum is computed in \<open>usize\<close> from the MTU the server sent and panics on overflow.\<close>

definition dtls_required_outside_mtu :: "usize \<Rightarrow> usize option" where
  "dtls_required_outside_mtu inside_mtu =
     (let n = inside_mtu + IPV4_HEADER_SIZE + UDP_HEADER_SIZE + HEADER_WIRE_SIZE + MAX_DTLS_HEADER_SIZE in
      if n < 2 ^ 64 then Some n else None)"

definition handle_auth_response :: "('s, 'k, 'm) conn_env \<Rightarrow> auth_success \<Rightarrow> ('s, 'k, 'm, unit) conn_op" where
  "handle_auth_response E cfg = with_state (\<lambda>c.
     if cn_state c = Online then ret ()
     else
       then_do
         (case usize_from_str (as_mtu cfg) of
            Some inside_mtu \<Rightarrow>
              if is_datagram (cn_connection_type c) then
                and_then (of_option (dtls_required_outside_mtu inside_mtu)) (\<lambda>required.
                  if cn_outside_mtu c < required \<and> cn_pmtud c \<noteq> None
                  then throw (CePathMtuDiscoveryRequired inside_mtu required)
                  else ret ())
              else ret ()
          | None \<Rightarrow> ret ())
      (case cn_mode c of
         ClientMode _ \<Rightarrow>
           (case inside_ip_config_try_from cfg of
              None \<Rightarrow> throw CeInvalidInsideIpConfig
            | Some ip_config \<Rightarrow> then_do (app_note (AppIpConfig ip_config)) (set_state E Online))
       | ServerMode _ \<Rightarrow> throw CeInvalidMode))"

section \<open>The inside packet codec\<close>

definition process_encoding_request_pkt :: "('s, 'k, 'm) conn_env \<Rightarrow> encoding_request \<Rightarrow> ('s, 'k, 'm, unit) conn_op" where
  "process_encoding_request_pkt E er = with_state (\<lambda>c.
     if \<not> cn_inside_pkt_encoder c then ret ()
     else if \<not> cn_can_use_inside_pkt_encoding c then
       send_frame_or_queue E (EncodingResponse \<lparr>eres_id = ereq_id er, eres_enable = False\<rparr>)
     else if cn_state c \<noteq> Online then throw CeInvalidState
     else if cn_connection_type c \<noteq> Datagram then throw CeInvalidConnectionType
     else if \<not> is_server c then throw CeInvalidMode
     else if ereq_id er < ers_id_counter (cn_encoding_request_states c) then ret ()
     else
       then_do (modify (\<lambda>c. c\<lparr>cn_encoding_request_states := (cn_encoding_request_states c)\<lparr>ers_id_counter := ereq_id er\<rparr>\<rparr>))
      (then_do (app_note (AppEncoderSet (ereq_enable er)))
      (then_do (conn_event (EncodingStateChanged (ereq_enable er)))
        (send_frame_or_queue E (EncodingResponse \<lparr>eres_id = ereq_id er, eres_enable = ereq_enable er\<rparr>)))))"

definition process_encoding_response_pkt :: "('s, 'k, 'm) conn_env \<Rightarrow> encoding_response \<Rightarrow> ('s, 'k, 'm, unit) conn_op" where
  "process_encoding_response_pkt E te = with_state (\<lambda>c.
     if \<not> cn_inside_pkt_encoder c then throw CePacketCodecDoesNotExist
     else if cn_state c \<noteq> Online then throw CeInvalidState
     else if cn_connection_type c \<noteq> Datagram then throw CeInvalidConnectionType
     else if is_server c then throw CeInvalidMode
     else if ers_pending_request_pkt (cn_encoding_request_states c) = None then ret ()
     else if eres_id te \<noteq> ers_id_counter (cn_encoding_request_states c) then ret ()
     else
       then_do (app_note (AppEncoderSet (eres_enable te)))
      (then_do (conn_event (EncodingStateChanged (eres_enable te)))
        (modify (\<lambda>c. c\<lparr>cn_encoding_request_states := (cn_encoding_request_states c)\<lparr>ers_pending_request_pkt := None\<rparr>\<rparr>))))"

definition is_encoding_enabled :: "('s, 'k, 'm) conn_env \<Rightarrow> ('s, 'k, 'm) conn \<Rightarrow> bool" where
  "is_encoding_enabled E c \<longleftrightarrow> cn_inside_pkt_encoder c \<and> ce_encoder_state E (cn_log c)"

definition ers_retransmit_wait_time :: "encoding_request_states \<Rightarrow> duration option" where
  "ers_retransmit_wait_time s =
     (if ers_retransmissions_counter s = - 1 then None
      else Some (millis 500 * (1 + unat (ers_retransmissions_counter s))))"

definition schedule_codec_tick :: "('s, 'k, 'm, unit) conn_op" where
  "schedule_codec_tick = with_state (\<lambda>c.
     and_then (of_option (ers_retransmit_wait_time (cn_encoding_request_states c)))
       (\<lambda>d. schedule_tick d (PktCodecTick (ers_id_counter (cn_encoding_request_states c)))))"

definition set_encoding :: "('s, 'k, 'm) conn_env \<Rightarrow> bool \<Rightarrow> ('s, 'k, 'm, unit) conn_op" where
  "set_encoding E enable = with_state (\<lambda>c.
     if \<not> cn_inside_pkt_encoder c then throw CePacketCodecDoesNotExist
     else if cn_state c \<noteq> Online then throw CeInvalidState
     else if cn_connection_type c \<noteq> Datagram then throw CeInvalidConnectionType
     else
       let new_id = ers_id_counter (cn_encoding_request_states c) + 1;
           encoding_request = \<lparr>ereq_id = new_id, ereq_enable = enable\<rparr>
       in
         then_do (modify (\<lambda>c. c\<lparr>cn_encoding_request_states :=
           \<lparr>ers_id_counter = new_id, ers_pending_request_pkt = Some encoding_request, ers_retransmissions_counter = 0\<rparr>\<rparr>))
        (then_do schedule_codec_tick
          (send_frame_or_queue E (EncodingRequest encoding_request))))"

definition downgrade_inside_pkt_codec_if_stalled :: "('s, 'k, 'm) conn_env \<Rightarrow> duration \<Rightarrow> ('s, 'k, 'm, bool) conn_op" where
  "downgrade_inside_pkt_codec_if_stalled E timeout = with_state (\<lambda>c.
     if timeout = 0 \<or> \<not> is_encoding_enabled E c then ret False
     else if ers_pending_request_pkt (cn_encoding_request_states c) \<noteq> None then ret False
     else and_then (app_now E) (\<lambda>now.
       if \<not> elapsed now (last_data_delivered_to_inside (cn_activity c)) > timeout then ret False
       else then_do (set_encoding E False) (ret True)))"

definition codec_tick :: "('s, 'k, 'm) conn_env \<Rightarrow> u64 \<Rightarrow> ('s, 'k, 'm, unit) conn_op" where
  "codec_tick E request_id = with_state (\<lambda>c.
     if \<not> cn_inside_pkt_encoder c then throw CePacketCodecDoesNotExist
     else if cn_state c \<noteq> Online then throw CeInvalidState
     else if cn_connection_type c \<noteq> Datagram then throw CeInvalidConnectionType
     else if is_server c then throw CeInvalidMode
     else case ers_pending_request_pkt (cn_encoding_request_states c) of
         None \<Rightarrow> ret ()
       | Some pending_request_pkt \<Rightarrow>
           if request_id \<noteq> ers_id_counter (cn_encoding_request_states c) then ret ()
           else if ers_retransmissions_counter (cn_encoding_request_states c)
                     \<ge> ENCODING_REQUEST_PKT_MAX_RETRANSMISSION_ATTEMPTS then
             modify (\<lambda>c. c\<lparr>cn_encoding_request_states := (cn_encoding_request_states c)\<lparr>ers_pending_request_pkt := None\<rparr>\<rparr>)
           else
             then_do (modify (\<lambda>c. c\<lparr>cn_encoding_request_states := (cn_encoding_request_states c)
                \<lparr>ers_retransmissions_counter := ers_retransmissions_counter (cn_encoding_request_states c) + 1\<rparr>\<rparr>))
            (then_do schedule_codec_tick
              (send_frame_or_queue E (EncodingRequest pending_request_pkt))))"

section \<open>The message loop\<close>

definition maybe_update_tls_keys :: "('s, 'k, 'm) conn_env \<Rightarrow> ('s, 'k, 'm, unit) conn_op" where
  "maybe_update_tls_keys E = with_state (\<lambda>c.
     if tls_protocol_version E c \<notin> {DtlsV1_3, TlsV1_3} then ret ()
     else case cn_mode c of
         ClientMode _ \<Rightarrow> ret ()
       | ServerMode s \<Rightarrow>
           and_then (case sm_key_update s of
               KuWaiting _ _ \<Rightarrow> and_then (app_now E) (\<lambda>now.
                 case ku_required now (sm_key_update s) of (required, k) \<Rightarrow>
                   then_do (update_server (\<lambda>s. s\<lparr>sm_key_update := k\<rparr>)) (ret required))
             | _ \<Rightarrow> ret False) (\<lambda>required.
           if \<not> required then ret ()
           else and_then (session_call (tls_try_trigger_update_key (ce_tls E))) (\<lambda>poll.
             case poll of
               AppData _ \<Rightarrow> ret ()
             | _ \<Rightarrow> then_do (conn_event TlsKeysUpdateStart) (update_tick_interval E))))"

definition maybe_complete_key_update :: "('s, 'k, 'm) conn_env \<Rightarrow> ('s, 'k, 'm, unit) conn_op" where
  "maybe_complete_key_update E = with_state (\<lambda>c.
     case cn_mode c of
       ClientMode _ \<Rightarrow> ret ()
     | ServerMode s \<Rightarrow>
         if tls_is_update_keys_pending (ce_tls E) (cn_session c) then ret ()
         else
           (case sm_key_update s of
              KuPending _ \<Rightarrow>
                and_then (app_now E) (\<lambda>now.
                  then_do (update_server (\<lambda>s. s\<lparr>sm_key_update := snd (ku_complete now (sm_key_update s))\<rparr>))
                 (then_do (conn_event TlsKeysUpdateCompleted) (update_tick_interval E)))
            | _ \<Rightarrow> ret ()))"

definition handle_frame :: "('s, 'k, 'm) conn_env \<Rightarrow> frame \<Rightarrow> ('s, 'k, 'm, unit) conn_op" where
  "handle_frame E f =
     (case f of
        NoOp \<Rightarrow> ret ()
      | Ping p \<Rightarrow> handle_ping E p
      | Pong p \<Rightarrow> handle_pong E p
      | AuthRequest ar \<Rightarrow> handle_auth_request E ar
      | Data d \<Rightarrow> handle_outside_data_packet E d False
      | DataFrag frag \<Rightarrow> handle_outside_data_fragment E frag False
      | EncodedData d \<Rightarrow> handle_outside_data_packet E d True
      | EncodedDataFrag frag \<Rightarrow> handle_outside_data_fragment E frag True
      | AuthSuccessWithConfigV4 cfg \<Rightarrow> handle_auth_response E cfg
      | AuthFailure _ \<Rightarrow> throw CeUnauthorized
      | Goodbye \<Rightarrow> throw CeGoodbye
      | ServerConfig _ \<Rightarrow> ret ()
      | EncodingRequest er \<Rightarrow> process_encoding_request_pkt E er
      | EncodingResponse er \<Rightarrow> process_encoding_response_pkt E er
      | ExpresslaneConfig config \<Rightarrow> handle_expresslane_config E config)"

text \<open>The loop; \<open>fuel\<close> bounds its rounds, and what bound is enough is a theorem.\<close>

fun handle_messages_loop :: "('s, 'k, 'm) conn_env \<Rightarrow> nat \<Rightarrow> usize \<Rightarrow> ('s, 'k, 'm, usize) conn_op" where
  "handle_messages_loop E 0 frames_read = (\<lambda>c. OutOfFuel)"
| "handle_messages_loop E (Suc fuel) frames_read = with_state (\<lambda>c.
     case frame_try_from_wire (cn_receive_buf c) of
       None \<Rightarrow> panic
     | Some (r, buf) \<Rightarrow>
         then_do (modify (\<lambda>c. c\<lparr>cn_receive_buf := buf\<rparr>))
        (case r of
           Inr f \<Rightarrow> then_do (handle_frame E f) (handle_messages_loop E fuel (frames_read + 1))
         | Inl e \<Rightarrow>
             if e = InsufficientData then
               and_then (session_try_read E) (\<lambda>poll.
                 case poll of
                   PendingWrite \<Rightarrow> ret frames_read
                 | PendingRead \<Rightarrow> ret frames_read
                 | Ready _ \<Rightarrow> handle_messages_loop E fuel frames_read
                 | AppData d \<Rightarrow>
                     then_do (modify (\<lambda>c. c\<lparr>cn_receive_buf := cn_receive_buf c @ d\<rparr>))
                       (handle_messages_loop E fuel frames_read))
             else throw (CeWireError e)))"

definition handle_messages :: "('s, 'k, 'm) conn_env \<Rightarrow> nat \<Rightarrow> ('s, 'k, 'm, usize) conn_op" where
  "handle_messages E fuel =
     and_then (handle_messages_loop E fuel 0) (\<lambda>frames_read.
     then_do (maybe_update_tls_keys E)
    (then_do (maybe_complete_key_update E) (ret frames_read)))"

section \<open>Entry points\<close>

text \<open>The end of \<open>process_new_outside_data\<close>: a datagram never leaves bytes behind.\<close>

definition finish_outside_data :: "connection_error + usize \<Rightarrow> ('s, 'k, 'm, usize) conn_op" where
  "finish_outside_data r = with_state (\<lambda>c.
     then_do (do_when (is_datagram (cn_connection_type c)) (update_io (\<lambda>io. io\<lparr>io_recv_buf := []\<rparr>)))
       (of_result r))"

definition process_new_outside_data ::
  "('s, 'k, 'm) conn_env \<Rightarrow> nat \<Rightarrow> bytes \<Rightarrow> header option \<Rightarrow> ('s, 'k, 'm, usize) conn_op" where
  "process_new_outside_data E fuel buf hdr =
     and_then (app_now E) (\<lambda>now.
     then_do (modify (\<lambda>c. c\<lparr>cn_activity := (cn_activity c)\<lparr>last_outside_data_received := now\<rparr>\<rparr>))
    (case (case hdr of Some h \<Rightarrow> if hdr_expresslane_data h then Some h else None | None \<Rightarrow> None) of
       Some h \<Rightarrow>
         with_state (\<lambda>c.
           case els_try_from_wire (ce_aead E) (xl_data (cn_expresslane c)) buf (hdr_session h) of
             (r, _, d) \<Rightarrow>
               then_do (update_xl (\<lambda>x. x\<lparr>xl_data := d\<rparr>))
              (case r of
                 Inl e \<Rightarrow> throw (CeWireError (expresslane_decrypt_error e))
               | Inr (data, is_encoded) \<Rightarrow>
                   then_do (handle_outside_data_bytes E data is_encoded) (ret 1)))
     | None \<Rightarrow>
         then_do (update_io (\<lambda>io. io\<lparr>io_recv_buf := io_recv_buf io @ buf\<rparr>))
        (with_state (\<lambda>c.
           case cn_state c of
             Connecting \<Rightarrow>
               and_then (session_call (tls_try_negotiate (ce_tls E))) (\<lambda>poll.
                 case poll of
                   PendingWrite \<Rightarrow> then_do (update_tick_interval E) (finish_outside_data (Inr 0))
                 | PendingRead \<Rightarrow> then_do (update_tick_interval E) (finish_outside_data (Inr 0))
                 | Ready _ \<Rightarrow> then_do (set_state E LinkUp) (attempt (handle_messages E fuel) finish_outside_data)
                 | AppData _ \<Rightarrow> finish_outside_data (Inr 0))
           | Disconnecting \<Rightarrow> finish_outside_data (Inl CeInvalidState)
           | Disconnected \<Rightarrow> finish_outside_data (Inl CeInvalidState)
           | _ \<Rightarrow> attempt (handle_messages E fuel) finish_outside_data))))"

definition outside_data_received :: "('s, 'k, 'm) conn_env \<Rightarrow> nat \<Rightarrow> outside_packet \<Rightarrow> ('s, 'k, 'm, usize) conn_op" where
  "outside_data_received E fuel pkt =
     then_do (check (\<lambda>c. cn_state c \<noteq> Disconnected) CeDisconnected)
    (then_do
      (with_state (\<lambda>c. do_when (\<not> cn_is_first_packet_received c \<and> \<not> is_server c)
         (then_do (conn_event FirstPacketReceived) (modify (\<lambda>c. c\<lparr>cn_is_first_packet_received := True\<rparr>)))))
    (with_state (\<lambda>c.
       and_then (of_option (apply_ingress_chain (cn_outside_plugins c) pkt)) (\<lambda>chain.
       case chain of
         Inl e \<Rightarrow> throw (CePacketError e)
       | Inr pkt \<Rightarrow>
           let hdr = op_header pkt in
           then_do
             (case hdr of
                Some h \<Rightarrow>
                  if is_server c \<and> hdr_version h \<noteq> cn_tunnel_protocol_version c then throw CeInvalidProtocolVersion
                  else if is_server c \<and> hdr_session h = SESSION_REJECTED then throw CeRejectedSessionID
                  else ret ()
              | None \<Rightarrow> ret ())
          (case op_into_payload pkt of
             None \<Rightarrow> throw CeRejectedSessionID
           | Some payload \<Rightarrow>
               and_then (process_new_outside_data E fuel payload hdr) (\<lambda>frames_read.
                 then_do (do_when (frames_read > 0) (update_session_id E (map_option hdr_session hdr)))
                   (ret frames_read)))))))"

fun multiple_outside_data_received ::
  "('s, 'k, 'm) conn_env \<Rightarrow> nat \<Rightarrow> (connection_error \<Rightarrow> bool) \<Rightarrow> outside_packet list \<Rightarrow> usize \<Rightarrow> ('s, 'k, 'm, usize) conn_op"
  where
  "multiple_outside_data_received E fuel fatal [] acc = ret acc"
| "multiple_outside_data_received E fuel fatal (pkt # pkts) acc =
     attempt (outside_data_received E fuel pkt) (\<lambda>r.
       case r of
         Inr n \<Rightarrow> multiple_outside_data_received E fuel fatal pkts (acc + n)
       | Inl e \<Rightarrow> if fatal e then throw e else multiple_outside_data_received E fuel fatal pkts acc)"

definition connection_tick :: "('s, 'k, 'm) conn_env \<Rightarrow> ('s, 'k, 'm, unit) conn_op" where
  "connection_tick E =
     then_do (modify (\<lambda>c. c\<lparr>cn_is_tick_timer_running := False\<rparr>))
    (then_do
      (with_state (\<lambda>c.
         case cn_state c of
           Authenticating \<Rightarrow>
             (case cn_mode c of
                ClientMode auth_method \<Rightarrow> authenticate E auth_method
              | ServerMode _ \<Rightarrow> throw CeInvalidMode)
         | Disconnecting \<Rightarrow> throw CeDisconnected
         | Disconnected \<Rightarrow> throw CeDisconnected
         | _ \<Rightarrow>
             if is_datagram (cn_connection_type c) then
               and_then (session_has_timed_out E) (\<lambda>poll.
                 case poll of
                   Ready timed_out \<Rightarrow>
                     if timed_out then ignoring (disconnect E) (throw CeTimedOut) else ret ()
                 | _ \<Rightarrow> ret ())
             else ret ()))
      (update_tick_interval E))"

definition tick :: "('s, 'k, 'm) conn_env \<Rightarrow> tick_type \<Rightarrow> ('s, 'k, 'm, unit) conn_op" where
  "tick E tick_type =
     (case tick_type of
        ConnectionTick \<Rightarrow> connection_tick E
      | PktCodecTick request_id \<Rightarrow> codec_tick E request_id
      | ExpresslaneKeyShareTick config \<Rightarrow> expresslane_key_share_tick E config)"

definition mark_offload_activity :: "('s, 'k, 'm) conn_env \<Rightarrow> bool \<Rightarrow> bool \<Rightarrow> ('s, 'k, 'm, unit) conn_op" where
  "mark_offload_activity E rx tx =
     and_then (app_now E) (\<lambda>now.
     then_do (do_when rx (modify (\<lambda>c. c\<lparr>cn_activity := (cn_activity c)
         \<lparr>last_data_traffic_from_peer := now, last_outside_data_received := now\<rparr>\<rparr>)))
    (then_do (do_when tx (modify (\<lambda>c. c\<lparr>cn_activity := (cn_activity c)\<lparr>last_outside_data_received := now\<rparr>\<rparr>)))
    (ignoring (rotate_expresslane_key E) (ret ()))))"

definition set_peer_addr :: "('s, 'k, 'm) conn_env \<Rightarrow> sock_addr \<Rightarrow> ('s, 'k, 'm, sock_addr) conn_op" where
  "set_peer_addr E addr = with_state (\<lambda>c.
     let old = sk_peer_addr (ce_sock E) (io_sock (cn_io c)) in
     then_do (update_io (\<lambda>io. io\<lparr>io_sock := io_sock io @ [SockSetPeer addr]\<rparr>))
    (then_do (do_when (old \<noteq> addr) (publish_expresslane_key E)) (ret old)))"

definition set_outside_io :: "('s, 'k, 'm) conn_env \<Rightarrow> ('s, 'k, 'm, unit) conn_op" where
  "set_outside_io E =
     then_do (update_io (\<lambda>io. io\<lparr>io_sock := io_sock io @ [SockReplaced]\<rparr>))
    (and_then (app_now E) (\<lambda>now.
       modify (\<lambda>c. c\<lparr>cn_activity := (cn_activity c)\<lparr>last_data_delivered_to_inside := now\<rparr>\<rparr>)))"

definition set_inside_io :: "usize \<Rightarrow> ('s, 'k, 'm, unit) conn_op" where
  "set_inside_io mtu = modify (\<lambda>c. c\<lparr>cn_inside_io := Some mtu\<rparr>)"

section \<open>Construction\<close>

record ('s, 'm) new_connection_args =
  na_connection_type :: connection_type
  na_protocol_version :: version
  na_session :: 's
  na_io :: io_adapter
  na_session_id :: session_id
  na_mode :: conn_mode
  na_outside_mtu :: usize
  na_inside_io :: "usize option"
  na_event_cb :: bool
  na_inside_plugins :: plugin_list
  na_outside_plugins :: plugin_list
  na_max_fragment_map_entries :: usize
  na_pmtud_timer :: bool
  na_pmtud_base_mtu :: "nat option"
  na_inside_pkt_codec :: bool
  na_expresslane :: bool
  na_expresslane_cb :: bool
  na_expresslane_metrics :: bool
  na_expresslane_keys_rotation_interval :: duration

definition max_dtls_outside_mtu :: "usize \<Rightarrow> usize option" where
  "max_dtls_outside_mtu outside_mtu =
     (if outside_mtu < IPV4_HEADER_SIZE + UDP_HEADER_SIZE + HEADER_WIRE_SIZE then None
      else Some (outside_mtu - IPV4_HEADER_SIZE - UDP_HEADER_SIZE - HEADER_WIRE_SIZE))"

definition max_dtls_mtu :: "usize \<Rightarrow> usize option" where
  "max_dtls_mtu outside_mtu = do {
     n \<leftarrow> max_dtls_outside_mtu outside_mtu;
     if n < MAX_DTLS_HEADER_SIZE then None else Some (n - MAX_DTLS_HEADER_SIZE) }"

definition conn_init :: "('s, 'm) new_connection_args \<Rightarrow> instant \<Rightarrow> dplpmtud option \<Rightarrow> ('s, 'k, 'm) conn" where
  "conn_init args now pmtud =
     \<lparr>cn_connection_type = na_connection_type args,
      cn_tunnel_protocol_version = na_protocol_version args,
      cn_log = [AppNow now],
      cn_state = Connecting,
      cn_session = na_session args,
      cn_io = na_io args,
      cn_mode = na_mode args,
      cn_outside_mtu = na_outside_mtu args,
      cn_session_id = na_session_id args,
      cn_receive_buf = [],
      cn_inside_io = na_inside_io args,
      cn_event_cb = na_event_cb args,
      cn_inside_plugins = na_inside_plugins args,
      cn_outside_plugins = na_outside_plugins args,
      cn_is_tick_timer_running = False,
      cn_activity = \<lparr>last_outside_data_received = now, last_data_traffic_from_peer = now,
                     last_data_delivered_to_inside = now\<rparr>,
      cn_tls_tick_interval = None,
      cn_tls_pending_queue = [],
      cn_max_fragment_map_entries = na_max_fragment_map_entries args,
      cn_fragment_map = None,
      cn_pmtud = pmtud,
      cn_fragment_counter = 0,
      cn_is_first_packet_received = False,
      cn_inside_pkt_encoder = na_inside_pkt_codec args,
      cn_inside_pkt_decoder = na_inside_pkt_codec args,
      cn_can_use_inside_pkt_encoding = False,
      cn_encoding_request_states = \<lparr>ers_id_counter = 0, ers_pending_request_pkt = None, ers_retransmissions_counter = 0\<rparr>,
      cn_expresslane = expresslane_new
        (if na_expresslane args then
           (case na_mode args of ClientMode _ \<Rightarrow> XlInactive | ServerMode _ \<Rightarrow> XlWaitingForClient)
         else XlDisabled)
        (na_expresslane_cb args) (na_expresslane_metrics args) (na_expresslane_keys_rotation_interval args)\<rparr>"

text \<open>The first attempt to negotiate; \<open>max_dtls_mtu(..) as u16\<close> truncates.\<close>

definition conn_start :: "('s, 'k, 'm) conn_env \<Rightarrow> ('s, 'k, 'm, unit) conn_op" where
  "conn_start E =
     and_then (session_call (tls_try_negotiate (ce_tls E))) (\<lambda>poll.
       then_do (case poll of Ready _ \<Rightarrow> set_state E LinkUp | _ \<Rightarrow> ret ()) (update_tick_interval E))"

definition conn_new :: "('s, 'k, 'm) conn_env \<Rightarrow> ('s, 'm) new_connection_args \<Rightarrow> (('s, 'k, 'm) conn, connection_error, unit) exec" where
  "conn_new E args =
     (let start = (\<lambda>pmtud. conn_start E (conn_init args (ce_now E []) pmtud)) in
      if na_connection_type args = Stream \<or> \<not> na_pmtud_timer args then start None
      else case max_dtls_mtu (na_outside_mtu args) of
          None \<Rightarrow> Panic
        | Some n \<Rightarrow>
            start (Some (dp_new (case na_pmtud_base_mtu args of Some b \<Rightarrow> b | None \<Rightarrow> BASE_PLPMTU) (n mod 65536))))"

end
