(* ===== verification/Connection_Gso.thy ===== *)
theory Connection_Gso
  imports Connection
begin

text \<open>
  The GSO superpacket path of a connection (lightway-core/src/connection.rs,
  \<open>inside_data_received_gso\<close> and \<open>send_to_outside_gso\<close>): a superpacket goes through the plugins
  and the encoder as one packet, is cut into segments, and the segments are coalesced in the
  adapter's batch buffer and flushed with one call.
\<close>

definition gso_fits_one_batch :: "usize \<Rightarrow> bool" where
  "gso_fits_one_batch gso_segs \<longleftrightarrow> gso_segs \<le> MAX_GSO_SEGS"

definition conn_gso_open :: "('s, 'k, 'm, unit) conn_op" where
  "conn_gso_open = with_state (\<lambda>c.
     and_then (of_option (gb_open (io_gso_buf (cn_io c)))) (\<lambda>g. update_io (\<lambda>io. io\<lparr>io_gso_buf := g\<rparr>)))"

definition conn_gso_reset :: "('s, 'k, 'm, unit) conn_op" where
  "conn_gso_reset = update_io (\<lambda>io. io\<lparr>io_gso_buf := gb_reset (io_gso_buf io)\<rparr>)"

definition conn_udp_send_gso :: "('s, 'k, 'm) conn_env \<Rightarrow> usize \<Rightarrow> bool \<Rightarrow> ('s, 'k, 'm, unit) conn_op" where
  "conn_udp_send_gso E gso_segs expresslane_data = with_state (\<lambda>c.
     and_then (of_option (udp_send_gso (ce_sock E) gso_segs expresslane_data (cn_io c))) (\<lambda>(_, io).
       update_io (\<lambda>_. io)))"

text \<open>The loop over the segments; a segment that cannot be built aborts the batch.\<close>

fun gso_send_loop ::
  "('s, 'k, 'm) conn_env \<Rightarrow> virtio_net_hdr \<Rightarrow> usize \<Rightarrow> bytes \<Rightarrow> bool \<Rightarrow> nat list \<Rightarrow> ('s, 'k, 'm, unit) conn_op" where
  "gso_send_loop E hdr hdr_len pkt batched [] = ret ()"
| "gso_send_loop E hdr hdr_len pkt batched (i # is) =
     and_then (of_option (build_segment (ce_gso E) hdr hdr_len pkt i)) (\<lambda>r.
       case r of
         Inl _ \<Rightarrow> throw (CeInvalidInsidePacket InvalidGsoPacket)
       | Inr segment \<Rightarrow>
           then_do (if batched then send_outside_data E segment False else send_to_outside E segment False)
             (gso_send_loop E hdr hdr_len pkt batched is))"

definition send_to_outside_gso ::
  "('s, 'k, 'm) conn_env \<Rightarrow> bytes \<Rightarrow> virtio_net_hdr \<Rightarrow> usize \<Rightarrow> ('s, 'k, 'm, unit) conn_op" where
  "send_to_outside_gso E pkt hdr mtu =
     (case calc_hdr_len (ce_gso E) pkt of
        Inl _ \<Rightarrow> throw (CeInvalidInsidePacket InvalidGsoPacket)
      | Inr hdr_len \<Rightarrow>
          if vn_gso_size hdr = 0 then throw (CeInvalidInsidePacket InvalidGsoPacket)
          else
            let gso_segs = calc_gso_segs (length pkt) hdr_len (unat (vn_gso_size hdr)) in
            if gso_segs = 0 then ret ()
            else if hdr_len + unat (vn_gso_size hdr) > mtu then throw (CeInvalidInsidePacket InvalidGsoPacket)
            else with_state (\<lambda>c.
              let expresslane = expresslane_ready c; batched = gso_fits_one_batch gso_segs in
              then_do (do_when batched conn_gso_open)
             (attempt (gso_send_loop E hdr hdr_len pkt batched [0..<gso_segs]) (\<lambda>result.
                then_do (case result of Inr _ \<Rightarrow> touch_data_traffic E | Inl _ \<Rightarrow> ret ())
               (then_do
                 (do_when batched
                   (then_do (case result of Inr _ \<Rightarrow> conn_udp_send_gso E gso_segs expresslane | Inl _ \<Rightarrow> ret ())
                     conn_gso_reset))
                 (of_result result))))))"

definition inside_data_received_gso ::
  "('s, 'k, 'm) conn_env \<Rightarrow> bytes \<Rightarrow> virtio_net_hdr \<Rightarrow> ('s, 'k, 'm, unit) conn_op" where
  "inside_data_received_gso E pkt hdr =
     then_do (check (\<lambda>c. cn_state c \<noteq> Disconnected) CeDisconnected)
    (then_do (check (\<lambda>c. cn_state c = Online) CeInvalidState)
    (with_state (\<lambda>c.
       case cn_inside_io c of
         None \<Rightarrow> throw CeInvalidState
       | Some mtu \<Rightarrow>
           if \<not> ipv4_is_valid_packet pkt then throw (CeInvalidInsidePacket InvalidIpv4Packet)
           else
             ignoring (rotate_expresslane_key E)
            (case do_ingress (cn_inside_plugins c) pkt of (verdict, pkt) \<Rightarrow>
             plugin_verdict verdict
               (with_state (\<lambda>c.
                  if cn_inside_pkt_encoder c then
                    (case ce_encoder_store E (cn_log c) pkt of (r, pkt') \<Rightarrow>
                       then_do (app_note (AppEncoderStore pkt r))
                      (case r of
                         Inr PacketAccepted \<Rightarrow> ret ()
                       | Inr SkipPacket \<Rightarrow> send_to_outside_gso E pkt' hdr mtu
                       | Inl e \<Rightarrow> throw (CePacketCodecError e)))
                  else send_to_outside_gso E pkt hdr mtu))))))"

end
