(* ===== verification/Connection_Laws.thy ===== *)
theory Connection_Laws
  imports Connection Connection_Gso "HOL-Library.Sublist"
begin

text \<open>
  The laws of a relation between the states before and after a call, proved once for every method
  of a connection. A client instantiates the locale \<open>conn_quiet\<close> with a preorder that admits the
  elementary changes (a note in the application log, a change of the lane, a write to the session,
  and anything that leaves the observed part alone) and gets that every method that does not
  change \<open>State\<close> respects it, also when it fails; with the permitted state changes
  (\<open>conn_rel\<close>) it gets the handlers and ticks, and with the receive buffers
  (\<open>conn_entry_rel\<close>) the message loop and the entry points.
\<close>

section \<open>What the elementary operations leave alone\<close>

definition obs :: "('s, 'k, 'm) conn \<Rightarrow> _" where
  "obs c = (cn_state c, xl_state (cn_expresslane c), cn_log c, is_server c, cn_connection_type c,
     cn_session c, cn_io c, cn_tls_pending_queue c, cn_receive_buf c, cn_event_cb c)"

lemma is_server_mode [simp]:
  "is_server (c\<lparr>cn_mode := ServerMode s\<rparr>)" "\<not> is_server (c\<lparr>cn_mode := ClientMode a\<rparr>)"
  by (simp_all add: is_server_def)

lemma is_server_updates [simp]:
  "is_server (c\<lparr>cn_state := st\<rparr>) = is_server c" "is_server (c\<lparr>cn_log := l\<rparr>) = is_server c"
  "is_server (c\<lparr>cn_session := se\<rparr>) = is_server c" "is_server (c\<lparr>cn_io := io\<rparr>) = is_server c"
  "is_server (c\<lparr>cn_tls_pending_queue := q\<rparr>) = is_server c" "is_server (c\<lparr>cn_receive_buf := b\<rparr>) = is_server c"
  "is_server (c\<lparr>cn_expresslane := x\<rparr>) = is_server c" "is_server (c\<lparr>cn_activity := ac\<rparr>) = is_server c"
  "is_server (c\<lparr>cn_tls_tick_interval := ti\<rparr>) = is_server c" "is_server (c\<lparr>cn_is_tick_timer_running := tr\<rparr>) = is_server c"
  "is_server (c\<lparr>cn_fragment_map := fm\<rparr>) = is_server c" "is_server (c\<lparr>cn_fragment_counter := fc\<rparr>) = is_server c"
  "is_server (c\<lparr>cn_pmtud := pd\<rparr>) = is_server c" "is_server (c\<lparr>cn_is_first_packet_received := fp\<rparr>) = is_server c"
  "is_server (c\<lparr>cn_can_use_inside_pkt_encoding := cu\<rparr>) = is_server c"
  "is_server (c\<lparr>cn_encoding_request_states := er\<rparr>) = is_server c" "is_server (c\<lparr>cn_session_id := si\<rparr>) = is_server c"
  "is_server (c\<lparr>cn_tunnel_protocol_version := v\<rparr>) = is_server c" "is_server (c\<lparr>cn_inside_io := ii\<rparr>) = is_server c"
  by (simp_all add: is_server_def)

text \<open>Only the session, the adapter and the queue change.\<close>

definition link_only :: "('s, 'k, 'm) conn \<Rightarrow> ('s, 'k, 'm) conn \<Rightarrow> bool" where
  "link_only c c' \<longleftrightarrow>
     c' = c\<lparr>cn_session := cn_session c', cn_io := cn_io c', cn_tls_pending_queue := cn_tls_pending_queue c'\<rparr>"

lemma link_only_trans: "link_only c c' \<Longrightarrow> link_only c' c'' \<Longrightarrow> link_only c c''"
  by (cases c; cases c'; cases c'') (simp add: link_only_def)

interpretation link: step_rel link_only
  by unfold_locales (simp add: link_only_def, rule link_only_trans)

lemma link_only_updates [simp]:
  "link_only c (c\<lparr>cn_session := s, cn_io := io\<rparr>)" "link_only c (c\<lparr>cn_tls_pending_queue := q\<rparr>)"
  "link_only c (c\<lparr>cn_io := io\<rparr>)"
  by (simp_all add: link_only_def)

lemma link_try_write [steps_intros]: "steps F link_only (session_try_write E b) c"
  by (auto simp: steps_def session_try_write_def Let_def split: option.splits sum.splits)

lemma link_session_call [steps_intros]: "steps F link_only (session_call f) c"
  by (auto simp: steps_def session_call_def Let_def split: option.splits sum.splits)

lemma link_has_timed_out [steps_intros]: "steps F link_only (session_has_timed_out E) c"
  by (auto simp: steps_def session_has_timed_out_def split: option.splits)

lemma link_udp_send [steps_intros]: "steps F link_only (conn_udp_send E b x) c"
  by (auto simp: steps_def conn_udp_send_def split: option.splits)

lemma link_drain_queue: "steps F link_only (drain_queue E q) c"
  by (induction q arbitrary: c)
    (auto intro!: steps_intros link.steps_modify split: tls_poll.split)

lemma link_send_frame [steps_intros]: "steps F link_only (send_frame_or_queue E f) c"
  by (auto simp: send_frame_or_queue_def intro!: steps_intros link.steps_modify link_drain_queue)

lemma link_onlyD:
  assumes "link_only c c'"
  shows "cn_state c' = cn_state c" "cn_log c' = cn_log c" "cn_expresslane c' = cn_expresslane c"
    "cn_mode c' = cn_mode c" "cn_connection_type c' = cn_connection_type c" "is_server c' = is_server c"
    "cn_receive_buf c' = cn_receive_buf c" "cn_event_cb c' = cn_event_cb c"
  using assms by (cases c; cases c'; simp add: link_only_def is_server_def)+

text \<open>The state stays, and the log only grows.\<close>

definition calm :: "('s, 'k, 'm) conn \<Rightarrow> ('s, 'k, 'm) conn \<Rightarrow> bool" where
  "calm c c' \<longleftrightarrow> cn_state c' = cn_state c \<and> is_server c' = is_server c \<and> prefix (cn_log c) (cn_log c')"

interpretation calm: step_rel calm
  by unfold_locales (auto simp: calm_def)

text \<open>A lane that is not degraded is not degraded afterwards.\<close>

definition lane_up :: "('s, 'k, 'm) conn \<Rightarrow> ('s, 'k, 'm) conn \<Rightarrow> bool" where
  "lane_up c c' \<longleftrightarrow> (xl_state (cn_expresslane c) \<noteq> XlDegraded \<longrightarrow> xl_state (cn_expresslane c') \<noteq> XlDegraded)"

interpretation lane_up: step_rel lane_up
  by unfold_locales (auto simp: lane_up_def)

lemma steps_link_calm: "steps F link_only m c \<Longrightarrow> steps F calm m c"
  by (erule steps_mono) (simp add: calm_def link_onlyD)

lemma calm_app_note [steps_intros]: "steps F calm (app_note a) c"
  and lane_up_app_note [steps_intros]: "steps F lane_up (app_note a) c"
  by (simp_all add: app_note_def steps_def modify_def calm_def lane_up_def)

lemma calm_app_now [steps_intros]: "steps F calm (app_now E) c"
  and calm_conn_event [steps_intros]: "steps F calm (conn_event ev) c"
  and lane_up_conn_event [steps_intros]: "steps F lane_up (conn_event ev) c"
  by (simp_all add: app_now_def conn_event_def steps_intros)

lemma calm_send [steps_intros]: "steps F calm (send_frame_or_queue E f) c"
  and calm_call [steps_intros]: "steps F calm (session_call g) c"
  by (intro steps_link_calm steps_intros)+

lemma calm_update_server [steps_intros]: "steps F calm (update_server f) c"
  by (simp add: update_server_def steps_def modify_def calm_def is_server_def split: conn_mode.split)

lemma calm_modify: "cn_state (f c) = cn_state c \<Longrightarrow> is_server (f c) = is_server c \<Longrightarrow> cn_log (f c) = cn_log c \<Longrightarrow> steps F calm (modify f) c"
  by (simp add: steps_def modify_def calm_def)

lemma calm_touch [steps_intros]: "steps F calm (touch_data_traffic E) c"
  by (auto simp: touch_data_traffic_def intro!: steps_intros calm_modify)

lemma calm_set_version [steps_intros]: "steps F calm (set_tunnel_protocol_version v) c"
  by (auto simp: set_tunnel_protocol_version_def intro!: steps_intros calm_modify)

lemma calm_key_update_online [steps_intros]: "steps F calm (key_update_online E) c"
  by (auto simp: key_update_online_def intro!: steps_intros split: conn_mode.split key_update.split)

lemma calm_update_io: "steps F calm (update_io f) c"
  unfolding update_io_def by (rule calm_modify) simp_all

lemma calm_sample_session_id: "steps True calm (sample_session_id E fuel) c"
proof (induction fuel arbitrary: c)
  case 0
  then show ?case by (simp add: steps_def)
qed (auto simp: app_random_def intro!: steps_intros)

lemma calm_is_server: "steps F calm m c \<Longrightarrow> m c = Ret a c' \<Longrightarrow> is_server c' = is_server c"
  using steps_RetD [of F calm m c a c'] by (simp add: calm_def)

lemmas same_mode = calm_is_server [OF calm_update_server] calm_is_server [OF calm_app_now] calm_is_server [OF calm_call]
  calm_is_server [OF calm_update_io] calm_is_server [OF calm_sample_session_id]

lemma is_serverI: "cn_mode c = ServerMode s \<Longrightarrow> is_server c"
  by (simp add: is_server_def)

lemma ret_Ret [simp]: "ret a s = Ret u s' \<longleftrightarrow> u = a \<and> s' = s"
  by (auto simp: ret_def)

lemma lane_up_update_xl [steps_intros]:
  "xl_state (f (cn_expresslane c)) = xl_state (cn_expresslane c) \<or> xl_state (f (cn_expresslane c)) \<noteq> XlDegraded
    \<Longrightarrow> steps F lane_up (update_xl f) c"
  by (auto simp: update_xl_def steps_def modify_def lane_up_def)

lemma lane_up_set_state [steps_intros]: "st \<noteq> XlDegraded \<Longrightarrow> steps F lane_up (set_expresslane_state st) c"
  by (auto simp: set_expresslane_state_def intro!: steps_intros)

lemma lane_up_publish [steps_intros]: "steps F lane_up (publish_expresslane_key E) c"
  by (auto simp: publish_expresslane_key_def Let_def intro!: steps_intros)

lemma debug_assert_Ret [simp]: "debug_assert b s = Ret u s' \<longleftrightarrow> b s \<and> s' = s"
  by (auto simp: debug_assert_def)

lemma of_result_Ret: "of_result r s = Ret u s' \<longleftrightarrow> r = Inr u \<and> s' = s"
  by (auto simp: of_result_def ret_def throw_def split: sum.splits)

lemma of_option_Ret: "of_option x s = Ret u s' \<longleftrightarrow> x = Some u \<and> s' = s"
  by (auto simp: of_option_def ret_def panic_def split: option.splits)

lemma app_note_Ret [simp]: "app_note a c = Ret u c' \<longleftrightarrow> c' = c\<lparr>cn_log := cn_log c @ [a]\<rparr>"
  by (auto simp: app_note_def)

lemma set_state_plain: "st \<noteq> Online \<Longrightarrow> st \<noteq> LinkUp \<Longrightarrow> set_state E st c = enter_state st c"
  by (cases "cn_state c = st"; cases "enter_state st c")
    (auto simp: set_state_def enter_state_def exec_defs split: conn_mode.splits)

lemma set_state_authenticating: "set_state E Authenticating = enter_state Authenticating"
  by (rule ext) (simp add: set_state_plain)

lemma enter_state_Ret: "enter_state st c = Ret u c' \<Longrightarrow> cn_state c' = st"
  by (auto simp: enter_state_def conn_event_def app_note_def exec_defs split: if_splits)

lemma sock_send_gso_recv_buf: "sock_send_gso K iovs stride io = (r, io') \<Longrightarrow> io_recv_buf io' = io_recv_buf io"
  by (auto simp: sock_send_gso_def Let_def)

lemma udp_send_gso_recv_buf:
  assumes "udp_send_gso K n x io = Some (r, io')"
  shows "io_recv_buf io' = io_recv_buf io"
proof (cases "gb_frame (io_gso_buf io)")
  case (Some f)
  moreover obtain tun_buf size where "f = (tun_buf, size)" by force
  ultimately show ?thesis
    using assms
    by (auto simp: udp_send_gso_def Let_def dest: sock_send_gso_recv_buf
        split: if_split_asm Option.bind_split_asm sum.split_asm prod.split_asm)
qed (use assms in \<open>simp add: udp_send_gso_def\<close>)

section \<open>The law\<close>

fun is_deliver :: "app_call \<Rightarrow> bool" where
  "is_deliver (AppInsideSend _) = True"
| "is_deliver _ = False"

fun is_state_event :: "app_call \<Rightarrow> bool" where
  "is_state_event (AppEvent (StateChanged _)) = True"
| "is_state_event _ = False"

text \<open>The events only a server reports, and the one only a client does.\<close>

fun fits_mode :: "bool \<Rightarrow> app_call \<Rightarrow> bool" where
  "fits_mode server (AppEvent (SessionIdRotationStarted _ _)) = server"
| "fits_mode server (AppEvent (SessionIdRotationAcknowledged _ _)) = server"
| "fits_mode server (AppEvent TlsKeysUpdateStart) = server"
| "fits_mode server (AppEvent TlsKeysUpdateCompleted) = server"
| "fits_mode server (AppEvent FirstPacketReceived) = (\<not> server)"
| "fits_mode server _ = True"

text \<open>
  What a call recorded in the log says is true: it fits the mode, and a recorded decision is the
  answer the authentication gave.
\<close>

definition honest :: "('s, 'k, 'm) conn_env \<Rightarrow> ('s, 'k, 'm) conn \<Rightarrow> app_call \<Rightarrow> bool" where
  "honest E c a \<longleftrightarrow> fits_mode (is_server c) a \<and> (\<forall>m r. a = AppAuthorize m r \<longrightarrow> r = ce_authorize E (cn_log c) m)"

lemma honest_simps [simp]:
  "honest E c (AppAuthorize m r) \<longleftrightarrow> r = ce_authorize E (cn_log c) m"
  "(\<And>m r. a \<noteq> AppAuthorize m r) \<Longrightarrow> honest E c a \<longleftrightarrow> fits_mode (is_server c) a"
  by (auto simp: honest_def)

definition granted :: "app_log \<Rightarrow> bool" where
  "granted l \<longleftrightarrow> (\<exists>m h v. AppAuthorize m (Granted h v) \<in> set l)"

definition configured :: "app_log \<Rightarrow> bool" where
  "configured l \<longleftrightarrow> (\<exists>cfg. AppIpConfig cfg \<in> set l)"

locale conn_quiet = step_rel R for R :: "('s, 'k, 'm) conn \<Rightarrow> ('s, 'k, 'm) conn \<Rightarrow> bool" +
  fixes E :: "('s, 'k, 'm) conn_env"
  assumes plain: "obs c' = obs c \<Longrightarrow> R c c'"
    and note_call: "\<not> is_deliver a \<Longrightarrow> \<not> is_state_event a \<Longrightarrow> honest E c a \<Longrightarrow> R c (c\<lparr>cn_log := cn_log c @ [a]\<rparr>)"
    and deliver: "cn_state c = Online \<Longrightarrow> R c (c\<lparr>cn_log := cn_log c @ [AppInsideSend p]\<rparr>)"
    and lane: "xl_state x \<noteq> XlDegraded \<Longrightarrow> cn_expresslane c = x \<Longrightarrow> R c (c\<lparr>cn_expresslane := x\<lparr>xl_state := st'\<rparr>\<rparr>)"
    and io: "io_recv_buf i = io_recv_buf (cn_io c) \<Longrightarrow> R c (c\<lparr>cn_io := i\<rparr>)"
    and send_law: "steps False R (send_frame_or_queue E f) c"
    and negotiate_law: "steps False R (session_call (tls_try_negotiate (ce_tls E))) c"
    and shutdown_law: "steps False R (session_call (tls_try_shutdown (ce_tls E))) c"
    and update_key_law: "steps False R (session_call (tls_try_trigger_update_key (ce_tls E))) c"
    and timed_out_law: "steps False R (session_has_timed_out E) c"
    and udp_law: "steps False R (conn_udp_send E b xl) c"
begin

lemma rel_send [steps_intros]: "steps F R (send_frame_or_queue E f) c"
  and rel_negotiate [steps_intros]: "steps F R (session_call (tls_try_negotiate (ce_tls E))) c"
  and rel_shutdown [steps_intros]: "steps F R (session_call (tls_try_shutdown (ce_tls E))) c"
  and rel_update_key [steps_intros]: "steps F R (session_call (tls_try_trigger_update_key (ce_tls E))) c"
  and rel_timed_out [steps_intros]: "steps F R (session_has_timed_out E) c"
  and rel_udp [steps_intros]: "steps F R (conn_udp_send E b xl) c"
  by (simp_all add: steps_weaken send_law negotiate_law shutdown_law update_key_law timed_out_law udp_law)


lemma plain_modify [steps_intros]: "obs (f c) = obs c \<Longrightarrow> steps F R (modify f) c"
  by (rule steps_modify) (rule plain)

lemma rel_app_note [steps_intros]:
  "(is_deliver a \<Longrightarrow> cn_state c = Online) \<Longrightarrow> \<not> is_state_event a \<Longrightarrow> honest E c a \<Longrightarrow> steps F R (app_note a) c"
  unfolding app_note_def by (rule steps_modify) (cases a; simp add: note_call deliver)

lemma rel_app_now [steps_intros]: "steps F R (app_now E) c"
  and rel_app_random [steps_intros]: "steps F R (app_random E n) c"
  and rel_conn_event [steps_intros]: "\<not> is_state_event (AppEvent ev) \<Longrightarrow> fits_mode (is_server c) (AppEvent ev) \<Longrightarrow> steps F R (conn_event ev) c"
  and rel_schedule_tick [steps_intros]: "steps F R (schedule_tick d tt) c"
  by (auto simp: app_now_def app_random_def conn_event_def schedule_tick_def intro!: steps_intros)

lemma rel_update_xl [steps_intros]:
  "xl_state (f (cn_expresslane c)) = xl_state (cn_expresslane c) \<Longrightarrow> steps F R (update_xl f) c"
  unfolding update_xl_def by (rule plain_modify) (simp add: obs_def)

lemma rel_update_server [steps_intros]: "steps F R (update_server f) c"
  unfolding update_server_def
  by (rule plain_modify) (simp add: obs_def is_server_def split: conn_mode.split)

lemma rel_update_io [steps_intros]: "io_recv_buf (f (cn_io c)) = io_recv_buf (cn_io c) \<Longrightarrow> steps F R (update_io f) c"
  unfolding update_io_def by (rule steps_modify) (rule io)

lemma rel_set_expresslane_state [steps_intros]:
  "xl_state (cn_expresslane c) = st \<or> xl_state (cn_expresslane c) \<noteq> XlDegraded \<Longrightarrow> steps F R (set_expresslane_state st) c"
  unfolding set_expresslane_state_def update_xl_def by (intro steps_intros steps_modify lane) auto

lemma rel_publish [steps_intros]: "steps F R (publish_expresslane_key E) c"
  by (auto simp: publish_expresslane_key_def Let_def intro!: steps_intros)

lemma rel_bump [steps_intros]: "steps F R bump_config_counter c"
  by (auto simp: bump_config_counter_def intro!: steps_intros)

lemma rel_update_next_self_key [steps_intros]: "steps F R (update_next_self_key E key) c"
  by (auto simp: update_next_self_key_def intro!: steps_intros)

lemma rel_schedule_key_share [steps_intros]: "steps F R (schedule_key_share_tick config) c"
  by (auto simp: schedule_key_share_tick_def intro!: steps_intros)

lemma rel_time_to_rotate [steps_intros]: "steps F R (xl_time_to_rotate_key E) c"
  by (auto simp: xl_time_to_rotate_key_def intro!: steps_intros)

lemma rel_stats [steps_intros]: "steps F R (xl_stats E sid) c"
  by (auto simp: xl_stats_def Let_def intro!: steps_intros)

lemma rel_rotate_key [steps_intros]: "steps F R (rotate_expresslane_key E) c"
  by (auto simp: rotate_expresslane_key_def Let_def intro!: steps_intros)

lemma rel_set_degraded [steps_intros]: "steps F R (set_expresslane_degraded E) c"
  by (auto simp: set_expresslane_degraded_def Let_def intro!: steps_intros)

lemma rel_health [steps_intros]: "steps F R (check_expresslane_health E payload) c"
  by (auto simp: check_expresslane_health_def Let_def intro!: steps_intros)

lemma rel_encode_metrics [steps_intros]: "steps F R (encode_expresslane_metrics_payload E) c"
  by (auto simp: encode_expresslane_metrics_payload_def intro!: steps_intros)

lemma rel_key_share_tick [steps_intros]: "steps F R (expresslane_key_share_tick E config) c"
  by (auto simp: expresslane_key_share_tick_def intro!: steps_intros)

lemma rel_touch [steps_intros]: "steps F R (touch_data_traffic E) c"
  by (auto simp: touch_data_traffic_def obs_def intro!: steps_intros)

lemma rel_send_expresslane_data [steps_intros]: "steps F R (send_expresslane_data E data is_encoded) c"
  by (auto simp: send_expresslane_data_def Let_def intro!: steps_intros split: io_result.split)

lemma rel_handle_ack [steps_intros]: "steps F R (handle_expresslane_ack E config) c"
  by (auto simp: handle_expresslane_ack_def intro!: steps_intros)

lemma rel_handle_config_peer [steps_intros]: "steps F R (handle_expresslane_peer_key E config) c"
proof (cases "xl_state (cn_expresslane c) = XlDegraded")
  case False
  let ?init = "do_when (xl_state (cn_expresslane c) = XlWaitingForClient) (set_expresslane_state XlInactive)"
  have init: "steps F R ?init c" using False by (auto intro!: steps_intros)
  have up: "xl_state (cn_expresslane c1) \<noteq> XlDegraded" if "?init c = Ret u c1" for u c1
  proof -
    have "steps F lane_up ?init c" by (auto intro!: steps_intros)
    then show ?thesis using steps_RetD [where R = lane_up and m = ?init] that False by (auto simp: lane_up_def)
  qed
  show ?thesis
    using False init up
    by (auto simp: handle_expresslane_peer_key_def Let_def update_xl_def lane_up_def of_result_Ret obs_def intro!: steps_intros
        dest!: steps_RetD [OF lane_up_publish])
qed (auto simp: handle_expresslane_peer_key_def intro!: steps_intros)

lemma rel_handle_config [steps_intros]: "steps F R (handle_expresslane_config E config) c"
  by (auto simp: handle_expresslane_config_def Let_def intro!: steps_intros)

lemma rel_update_tick_interval [steps_intros]: "steps F R (update_tick_interval E) c"
  by (auto simp: update_tick_interval_def Let_def obs_def intro!: steps_intros)

lemma rel_pmtud_action [steps_intros]: "steps F R (handle_pmtud_action E a) c"
  by (auto simp: handle_pmtud_action_def io_enable_pmtud_probe_def io_disable_pmtud_probe_def
      intro!: steps_intros split: pmtud_action.split)

lemma rel_pmtud_step [steps_intros]: "steps F R (pmtud_step E f) c"
  by (auto simp: pmtud_step_def obs_def intro!: steps_intros)

lemma rel_set_version [steps_intros]: "steps F R (set_tunnel_protocol_version v) c"
  by (auto simp: set_tunnel_protocol_version_def obs_def intro!: steps_intros)

lemma rel_authentication_expired [steps_intros]: "steps F R (authentication_expired E) c"
  by (auto simp: authentication_expired_def intro!: steps_intros split: conn_mode.split)

lemma rel_next_fragment_id [steps_intros]: "steps F R next_fragment_id c"
  by (auto simp: next_fragment_id_def obs_def intro!: steps_intros)

lemma rel_send_frames [steps_intros]: "steps F R (send_frames E fs) c"
  by (induction fs arbitrary: c) (auto intro!: steps_intros)

lemma rel_send_fragmented [steps_intros]: "steps F R (send_fragmented_outside_data E data mps is_encoded) c"
  by (auto simp: send_fragmented_outside_data_def intro!: steps_intros)

lemma rel_send_outside_data [steps_intros]: "steps F R (send_outside_data E data is_encoded) c"
  by (auto simp: send_outside_data_def intro!: steps_intros)

lemma rel_send_to_outside [steps_intros]: "steps F R (send_to_outside E pkt is_encoded) c"
  by (auto simp: send_to_outside_def intro!: steps_intros)

lemma rel_keepalive [steps_intros]: "steps F R (keepalive E) c"
  by (auto simp: keepalive_def intro!: steps_intros)

lemma rel_pmtud_tick [steps_intros]: "steps F R (pmtud_tick E) c"
  by (auto simp: pmtud_tick_def intro!: steps_intros)

lemma rel_plugin_verdict [steps_intros]: "(v = Accept \<Longrightarrow> steps F R k c) \<Longrightarrow> steps F R (plugin_verdict v k) c"
  by (auto simp: plugin_verdict_def intro!: steps_intros split: plugin_result.split)

lemma rel_inside_data_received [steps_intros]: "steps F R (inside_data_received E pkt) c"
  by (auto simp: inside_data_received_def intro!: steps_intros split: codec_status.split)

lemma rel_gso_buffer [steps_intros]: "steps F R conn_gso_open c" "steps F R conn_gso_reset c"
  by (auto simp: conn_gso_open_def conn_gso_reset_def intro!: steps_intros)

lemma rel_udp_send_gso [steps_intros]: "steps F R (conn_udp_send_gso E n x) c"
  by (auto simp: conn_udp_send_gso_def of_option_Ret intro!: steps_intros dest: udp_send_gso_recv_buf)

lemma rel_gso_send_loop [steps_intros]: "steps F R (gso_send_loop E hdr hdr_len pkt batched is) c"
  by (induction "is" arbitrary: c) (auto intro!: steps_intros)

lemma rel_send_to_outside_gso [steps_intros]: "steps F R (send_to_outside_gso E pkt hdr mtu) c"
  by (auto simp: send_to_outside_gso_def Let_def intro!: steps_intros)

lemma rel_inside_data_received_gso [steps_intros]: "steps F R (inside_data_received_gso E pkt hdr) c"
  by (auto simp: inside_data_received_gso_def intro!: steps_intros split: codec_status.split)

lemma rel_sample_session_id [steps_intros]: "steps True R (sample_session_id E fuel) c"
proof (induction fuel arbitrary: c)
  case 0
  then show ?case by (simp add: steps_def)
qed (auto intro!: steps_intros)

lemma rel_rotate_session_id [steps_intros]: "steps True R (rotate_session_id E fuel) c"
  by (auto simp: rotate_session_id_def io_set_session_id_def intro!: steps_intros split: conn_mode.split
      dest!: same_mode is_serverI)

lemma rel_update_session_id [steps_intros]: "steps F R (update_session_id E sid) c"
  by (auto simp: update_session_id_def io_set_session_id_def obs_def intro!: steps_intros split: conn_mode.split
      dest!: same_mode is_serverI)

lemma rel_send_to_inside [steps_intros]: "steps F R (send_to_inside E pkt) c"
proof (cases "cn_state c = Online")
  case True
  then show ?thesis
    by (auto simp: send_to_inside_def calm_def obs_def intro!: steps_intros
        dest!: steps_RetD [OF calm_touch] steps_RetD [OF calm_app_now])
qed (simp add: send_to_inside_def steps_def exec_defs refl)

lemma rel_handle_data_bytes [steps_intros]: "steps F R (handle_outside_data_bytes E bs is_encoded) c"
  by (auto simp: handle_outside_data_bytes_def intro!: steps_intros split: codec_status.split)

lemma rel_handle_data_packet [steps_intros]: "steps F R (handle_outside_data_packet E d is_encoded) c"
  by (auto simp: handle_outside_data_packet_def intro!: steps_intros)

lemma rel_handle_data_fragment [steps_intros]: "steps F R (handle_outside_data_fragment E frag is_encoded) c"
  by (auto simp: handle_outside_data_fragment_def Let_def obs_def intro!: steps_intros split: fragment_map_result.split)

lemma rel_handle_ping [steps_intros]: "steps F R (handle_ping E p) c"
  by (auto simp: handle_ping_def intro!: steps_intros)

lemma rel_handle_pong [steps_intros]: "steps F R (handle_pong E p') c"
  by (auto simp: handle_pong_def intro!: steps_intros)

lemma rel_key_update_online [steps_intros]: "steps F R (key_update_online E) c"
  by (auto simp: key_update_online_def intro!: steps_intros split: conn_mode.split key_update.split)

lemma rel_schedule_codec_tick [steps_intros]: "steps F R schedule_codec_tick c"
  by (auto simp: schedule_codec_tick_def intro!: steps_intros)

lemma rel_encoding_request [steps_intros]: "steps F R (process_encoding_request_pkt E er) c"
  by (auto simp: process_encoding_request_pkt_def obs_def intro!: steps_intros)

lemma rel_encoding_response [steps_intros]: "steps F R (process_encoding_response_pkt E te) c"
  by (auto simp: process_encoding_response_pkt_def obs_def intro!: steps_intros)

lemma rel_set_encoding [steps_intros]: "steps F R (set_encoding E enable) c"
  by (auto simp: set_encoding_def Let_def obs_def intro!: steps_intros)

lemma rel_downgrade [steps_intros]: "steps F R (downgrade_inside_pkt_codec_if_stalled E timeout) c"
  by (auto simp: downgrade_inside_pkt_codec_if_stalled_def intro!: steps_intros)

lemma rel_codec_tick [steps_intros]: "steps F R (codec_tick E request_id) c"
  by (auto simp: codec_tick_def obs_def intro!: steps_intros)

lemma rel_update_keys [steps_intros]: "steps F R (maybe_update_tls_keys E) c"
proof (cases "cn_mode c")
  case (ServerMode sm)
  then show ?thesis using is_serverI [OF ServerMode]
    by (cases "sm_key_update sm")
      (auto simp: maybe_update_tls_keys_def exec_splits_Ret then_do_Ret case_prod_beta intro!: steps_intros split: tls_poll.split
        dest!: same_mode)
qed (auto simp: maybe_update_tls_keys_def intro!: steps_intros)

lemma rel_complete_update [steps_intros]: "steps F R (maybe_complete_key_update E) c"
  by (auto simp: maybe_complete_key_update_def intro!: steps_intros split: conn_mode.split key_update.split
      dest!: same_mode is_serverI)

lemma rel_mark_offload [steps_intros]: "steps F R (mark_offload_activity E rx tx) c"
  by (auto simp: mark_offload_activity_def obs_def intro!: steps_intros)

lemma rel_set_peer_addr [steps_intros]: "steps F R (set_peer_addr E addr) c"
  by (auto simp: set_peer_addr_def Let_def intro!: steps_intros)

lemma rel_set_outside_io [steps_intros]: "steps F R (set_outside_io E) c"
  by (auto simp: set_outside_io_def obs_def intro!: steps_intros)

lemma rel_set_inside_io [steps_intros]: "steps F R (set_inside_io mtu) c"
  by (auto simp: set_inside_io_def obs_def intro!: steps_intros)

end

interpretation quiet_calm: conn_quiet calm E for E
  by unfold_locales
    (auto simp: calm_def obs_def intro!: steps_link_calm steps_intros)

section \<open>Methods that change the state\<close>

lemma calm_features:
  "steps F calm (case h of None \<Rightarrow> ret ()
     | Some h \<Rightarrow> modify (\<lambda>c. c\<lparr>cn_can_use_inside_pkt_encoding := InsidePktCodec \<in> set (ah_features h)\<rparr>)) c"
  by (auto simp: obs_def intro!: steps_intros)

lemma calm_opt_version:
  "steps F calm (case v of None \<Rightarrow> ret () | Some v \<Rightarrow> set_tunnel_protocol_version v) c"
  by (auto intro!: steps_intros)

lemma calm_free: "steps F calm (with_state (\<lambda>c. do_when (is_server c) (app_note AppIpFree))) c"
  by (auto intro!: steps_intros)

text \<open>The changes of \<open>State\<close> the methods make, with what has happened before.\<close>

definition may_enter :: "('s, 'k, 'm) conn \<Rightarrow> conn_state \<Rightarrow> bool" where
  "may_enter c new_state \<longleftrightarrow>
     (case new_state of
        Connecting \<Rightarrow> False
      | LinkUp \<Rightarrow> cn_state c = Connecting
      | Authenticating \<Rightarrow> cn_state c = LinkUp \<and> \<not> is_server c
      | Online \<Rightarrow>
          if is_server c then cn_state c = LinkUp \<and> granted (cn_log c)
          else cn_state c \<in> {LinkUp, Authenticating} \<and> configured (cn_log c)
      | Disconnecting \<Rightarrow> cn_state c \<in> {LinkUp, Authenticating, Online}
      | Disconnected \<Rightarrow> cn_state c = Disconnecting)"

locale conn_rel = conn_quiet +
  assumes enter_law: "may_enter c st \<Longrightarrow> steps False R (enter_state st) c"
begin

lemma rel_enter_state [steps_intros]:
  assumes "cn_state c = st \<or> may_enter c st"
  shows "steps F R (enter_state st) c"
proof (cases "cn_state c = st")
  case True
  then show ?thesis by (simp add: steps_def enter_state_def with_state_def ret_def refl)
qed (use assms in \<open>simp add: steps_weaken enter_law\<close>)

lemma rel_authenticate [steps_intros]: "cn_mode c = ClientMode am \<Longrightarrow> steps F R (authenticate E am) c"
  by (auto simp: authenticate_def may_enter_def is_server_def intro!: steps_intros)

lemma rel_set_state [steps_intros]: "cn_state c = st \<or> may_enter c st \<Longrightarrow> steps F R (set_state E st) c"
  by (auto simp: set_state_def intro!: steps_intros split: conn_mode.split)

lemma rel_disconnect [steps_intros]: "steps F R (disconnect E) c"
proof (cases "cn_state c \<in> {Disconnecting, Connecting, Disconnected}")
  case False
  then have ok: "may_enter c Disconnecting" by (cases "cn_state c") (auto simp: may_enter_def)
  show ?thesis
    using ok
    by (auto simp: disconnect_def set_state_plain calm_def may_enter_def [of _ Disconnected] intro!: steps_intros
        dest!: enter_state_Ret stepsD [OF calm_send] stepsD [OF calm_call] steps_RetD [OF calm_free])
qed (auto simp: disconnect_def steps_def exec_defs refl)

lemma rel_send_auth_failure [steps_intros]: "steps F R (send_auth_failure E) c"
  by (auto simp: send_auth_failure_def intro!: steps_intros)

lemma rel_handle_auth_response [steps_intros]:
  assumes "cn_state c \<in> {LinkUp, Authenticating, Online}"
  shows "steps F R (handle_auth_response E cfg) c"
proof (cases "cn_mode c")
  case (ClientMode am)
  then have "cn_state c \<noteq> Online \<Longrightarrow> may_enter (c\<lparr>cn_log := cn_log c @ [AppIpConfig i]\<rparr>) Online" for i
    using assms by (auto simp: may_enter_def configured_def is_server_def)
  then show ?thesis
    using ClientMode
    by (auto simp: handle_auth_response_def exec_splits_Ret of_option_Ret ret_def throw_def intro!: steps_intros
        split: option.splits if_splits)
qed (auto simp: handle_auth_response_def intro!: steps_intros)

lemma rel_handle_auth_request [steps_intros]: "steps F R (handle_auth_request E ar) c"
proof (cases "is_server c \<and> cn_state c \<in> {LinkUp, Online}")
  case True
  show ?thesis
    using True
    by (auto simp: handle_auth_request_def Let_def obs_def
        intro!: steps_intros dest!: steps_RetD [OF calm_key_update_online] steps_RetD [OF calm_features]
          steps_RetD [OF calm_update_server] steps_RetD [OF calm_send] steps_RetD [OF calm_opt_version]
        split: server_auth_result.split; fastforce simp: calm_def prefix_def may_enter_def granted_def)
qed (auto simp: handle_auth_request_def steps_def exec_defs refl)

lemma rel_connection_tick [steps_intros]: "steps F R (connection_tick E) c"
  by (auto simp: connection_tick_def obs_def intro!: steps_intros split: conn_state.split conn_mode.split tls_poll.split)

lemma rel_tick [steps_intros]: "steps F R (tick E tt) c"
  by (auto simp: tick_def intro!: steps_intros split: tick_type.split)

end

section \<open>Frames and entry points\<close>

text \<open>The states in which \<open>process_new_outside_data\<close> runs the message loop.\<close>

definition linked :: "('s, 'k, 'm) conn \<Rightarrow> bool" where
  "linked c \<longleftrightarrow> cn_state c \<in> {LinkUp, Authenticating, Online}"

lemma linkedI: "cn_state c = LinkUp \<Longrightarrow> linked c" "cn_state c = Authenticating \<Longrightarrow> linked c" "cn_state c = Online \<Longrightarrow> linked c"
  by (simp_all add: linked_def)

lemma session_call_state: "session_call f c = Ret p c' \<Longrightarrow> cn_state c' = cn_state c"
  by (drule steps_RetD [OF calm_call]) (simp add: calm_def)

lemma linked_calm: "calm c c' \<Longrightarrow> linked c' = linked c"
  by (simp add: linked_def calm_def)

lemma set_state_Ret:
  assumes "set_state E st c = Ret u c'" and "st \<noteq> LinkUp"
  shows "cn_state c' = st"
proof (cases "cn_state c = st")
  case False
  then obtain u1 c1 where enter: "enter_state st c = Ret u1 c1"
    and rest: "then_do (do_when (st = Online) (then_do (update_io (\<lambda>io. io\<lparr>io_aggressive_send := False\<rparr>))
        (then_do (rotate_expresslane_key E) (pmtud_step E dp_online))))
      (with_state (\<lambda>c. case cn_mode c of ClientMode am \<Rightarrow> do_when (st = LinkUp) (authenticate E am) | ServerMode _ \<Rightarrow> ret ())) c1
      = Ret u c'" (is "?m c1 = _")
    using assms by (auto simp: set_state_def with_state_def then_do_Ret)
  have "steps F calm ?m c1" using assms(2) by (auto intro!: steps_intros split: conn_mode.split)
  then have "calm c1 c'" using rest by (rule steps_RetD)
  then show ?thesis using enter_state_Ret [OF enter] by (simp add: calm_def)
qed (use assms in \<open>simp add: set_state_def exec_defs\<close>)

lemma authenticate_linked: "authenticate E am c = Ret u c' \<Longrightarrow> linked c'"
  by (auto simp: authenticate_def then_do_Ret linked_def calm_def dest!: enter_state_Ret steps_RetD [OF calm_send])

lemma set_state_LinkUp_linked:
  assumes "set_state E LinkUp c = Ret u c'"
  shows "linked c'"
proof (cases "cn_state c = LinkUp")
  case False
  then obtain c1 where "cn_state c1 = LinkUp"
    and "(case cn_mode c1 of ClientMode am \<Rightarrow> do_when (LinkUp = LinkUp) (authenticate E am) | ServerMode _ \<Rightarrow> ret ()) c1 = Ret u c'"
    using assms by (auto simp: set_state_def with_state_def do_when_def [of False] then_do_Ret ret_def dest!: enter_state_Ret)
  then show ?thesis
    by (auto simp: linked_def ret_def do_when_def dest: authenticate_linked [unfolded linked_def] split: conn_mode.splits)
qed (use assms in \<open>simp add: set_state_def exec_defs linked_def\<close>)

lemma handle_auth_request_linked: "handle_auth_request E ar c = Ret u c' \<Longrightarrow> linked c'"
  by (auto simp: handle_auth_request_def with_state_def then_do_Ret Let_def throw_def linked_def
      dest!: set_state_Ret split: option.splits server_auth_result.splits)

lemma handle_auth_response_linked: "handle_auth_response E cfg c = Ret u c' \<Longrightarrow> linked c'"
  by (auto simp: handle_auth_response_def with_state_def then_do_Ret throw_def ret_def linked_def
      dest!: set_state_Ret split: option.splits if_splits conn_mode.splits)

lemma handle_frame_linked:
  assumes "handle_frame E f c = Ret u c'" and "linked c"
  shows "linked c'"
proof (cases "(\<exists>x. f = AuthRequest x) \<or> (\<exists>x. f = AuthSuccessWithConfigV4 x)")
  case True
  then show ?thesis
    using assms by (auto simp: handle_frame_def intro: handle_auth_request_linked handle_auth_response_linked)
next
  case False
  then have "steps F calm (handle_frame E f) c"
    by (cases f) (auto simp: handle_frame_def intro!: steps_intros)
  then have "calm c c'" using assms(1) by (rule steps_RetD)
  then show ?thesis using assms(2) by (simp add: linked_calm)
qed

context conn_rel
begin

lemma rel_after_messages: "steps F R (then_do (maybe_update_tls_keys E) (then_do (maybe_complete_key_update E) (ret n))) c"
  by (intro steps_intros)

lemma rel_handle_frame [steps_intros]: "linked c \<Longrightarrow> steps F R (handle_frame E f) c"
  by (cases f) (auto simp: handle_frame_def linked_def intro!: steps_intros)

end

locale conn_entry = conn_rel +
  assumes received: "R c (c\<lparr>cn_io := (cn_io c)\<lparr>io_recv_buf := b\<rparr>\<rparr>)"
    and consumed: "R c (c\<lparr>cn_receive_buf := b\<rparr>)"
    and read_law: "steps False R (session_try_read E) c"
begin

lemma rel_read [steps_intros]: "steps F R (session_try_read E) c"
  by (simp add: steps_weaken read_law)

lemma steps_received [steps_intros]: "steps F R (update_io (\<lambda>io. io\<lparr>io_recv_buf := f io\<rparr>)) c"
  unfolding update_io_def by (rule steps_modify) (rule received)

lemma steps_consumed [steps_intros]: "steps F R (modify (\<lambda>c. c\<lparr>cn_receive_buf := f c\<rparr>)) c"
  by (rule steps_modify) (rule consumed)

lemma rel_loop [steps_intros]: "linked c \<Longrightarrow> steps True R (handle_messages_loop E fuel n) c"
proof (induction fuel arbitrary: n c)
  case 0
  then show ?case by (simp add: steps_def)
next
  case (Suc fuel)
  have linked_buf: "linked (c\<lparr>cn_receive_buf := b\<rparr>)" for b using Suc.prems by (simp add: linked_def)
  have linked_read: "linked c2" if "session_try_read E (c\<lparr>cn_receive_buf := b\<rparr>) = Ret poll c2" for b poll c2
    using that Suc.prems
    by (auto simp: session_try_read_def Let_def linked_def split: option.splits sum.splits)
  have linked_app: "linked (c2\<lparr>cn_receive_buf := b\<rparr>)" if "linked c2" for b c2 using that by (simp add: linked_def)
  show ?case
    by (auto intro!: steps_intros Suc.IH linked_buf linked_app split: tls_poll.split
        intro: handle_frame_linked linked_buf) (rule linked_read, assumption)+
qed

lemma rel_handle_messages [steps_intros]: "linked c \<Longrightarrow> steps True R (handle_messages E fuel) c"
  by (auto simp: handle_messages_def intro!: steps_intros)

lemma rel_finish [steps_intros]: "steps F R (finish_outside_data r) c"
  by (auto simp: finish_outside_data_def intro!: steps_intros)

lemma rel_process [steps_intros]: "steps True R (process_new_outside_data E fuel buf hdr) c"
  by (auto simp: process_new_outside_data_def obs_def may_enter_def intro!: steps_intros
      split: conn_state.split tls_poll.split)
    (auto intro: set_state_LinkUp_linked linkedI dest: session_call_state)

lemma rel_outside_data_received [steps_intros]: "steps True R (outside_data_received E fuel pkt) c"
  unfolding outside_data_received_def Let_def
  by (intro steps_intros allI impI) (auto simp: obs_def)

lemma rel_multiple [steps_intros]: "steps True R (multiple_outside_data_received E fuel fatal pkts acc) c"
  by (induction pkts arbitrary: acc c) (auto intro!: steps_intros)

end

section \<open>Runs of a connection\<close>

text \<open>The methods an application may call, in any order and with any arguments.\<close>

datatype conn_call =
    CallOutside outside_packet
  | CallOutsideMany "connection_error \<Rightarrow> bool" "outside_packet list"
  | CallInside bytes
  | CallInsideGso bytes virtio_net_hdr
  | CallSendToInside bytes
  | CallSendToOutside bytes bool
  | CallTick tick_type
  | CallKeepalive
  | CallPmtudTick
  | CallDisconnect
  | CallRotateSessionId
  | CallRotateExpresslaneKey
  | CallAuthenticationExpired
  | CallSetVersion version
  | CallSetEncoding bool
  | CallDowngradeCodec duration
  | CallMarkOffload bool bool
  | CallSetPeerAddr sock_addr
  | CallSetOutsideIo
  | CallSetInsideIo usize

fun conn_apply :: "('s, 'k, 'm) conn_env \<Rightarrow> nat \<Rightarrow> conn_call \<Rightarrow> ('s, 'k, 'm, unit) conn_op" where
  "conn_apply E fuel (CallOutside pkt) = then_do (outside_data_received E fuel pkt) (ret ())"
| "conn_apply E fuel (CallOutsideMany fatal pkts) = then_do (multiple_outside_data_received E fuel fatal pkts 0) (ret ())"
| "conn_apply E fuel (CallInside pkt) = inside_data_received E pkt"
| "conn_apply E fuel (CallInsideGso pkt hdr) = inside_data_received_gso E pkt hdr"
| "conn_apply E fuel (CallSendToInside pkt) = send_to_inside E pkt"
| "conn_apply E fuel (CallSendToOutside pkt is_encoded) = send_to_outside E pkt is_encoded"
| "conn_apply E fuel (CallTick tt) = tick E tt"
| "conn_apply E fuel CallKeepalive = keepalive E"
| "conn_apply E fuel CallPmtudTick = pmtud_tick E"
| "conn_apply E fuel CallDisconnect = disconnect E"
| "conn_apply E fuel CallRotateSessionId = then_do (rotate_session_id E fuel) (ret ())"
| "conn_apply E fuel CallRotateExpresslaneKey = rotate_expresslane_key E"
| "conn_apply E fuel CallAuthenticationExpired = then_do (authentication_expired E) (ret ())"
| "conn_apply E fuel (CallSetVersion v) = set_tunnel_protocol_version v"
| "conn_apply E fuel (CallSetEncoding enable) = set_encoding E enable"
| "conn_apply E fuel (CallDowngradeCodec timeout) = then_do (downgrade_inside_pkt_codec_if_stalled E timeout) (ret ())"
| "conn_apply E fuel (CallMarkOffload rx tx) = mark_offload_activity E rx tx"
| "conn_apply E fuel (CallSetPeerAddr addr) = then_do (set_peer_addr E addr) (ret ())"
| "conn_apply E fuel CallSetOutsideIo = set_outside_io E"
| "conn_apply E fuel (CallSetInsideIo mtu) = set_inside_io mtu"

text \<open>\<open>conn_runs E c c'\<close>: some calls, successful or failed, lead from \<open>c\<close> to \<open>c'\<close>.\<close>

inductive conn_runs :: "('s, 'k, 'm) conn_env \<Rightarrow> ('s, 'k, 'm) conn \<Rightarrow> ('s, 'k, 'm) conn \<Rightarrow> bool" for E where
  none: "conn_runs E c c"
| call: "conn_runs E c c' \<Longrightarrow> exec_state (conn_apply E fuel a c') = Some c'' \<Longrightarrow> conn_runs E c c''"

definition conn_reachable :: "('s, 'k, 'm) conn_env \<Rightarrow> ('s, 'm) new_connection_args \<Rightarrow> ('s, 'k, 'm) conn \<Rightarrow> bool" where
  "conn_reachable E args c \<longleftrightarrow> (\<exists>c0. conn_new E args = Ret () c0 \<and> conn_runs E c0 c)"

lemma conn_new_Ret:
  assumes "conn_new E args = Ret u c"
  obtains pmtud where "conn_start E (conn_init args (ce_now E []) pmtud) = Ret u c"
  using assms by (auto simp: conn_new_def Let_def split: if_splits option.splits)

context conn_entry
begin

lemma rel_apply: "steps True R (conn_apply E fuel a) c"
  by (cases a) (auto intro!: steps_intros)

lemma rel_runs: "conn_runs E c c' \<Longrightarrow> R c c'"
proof (induction rule: conn_runs.induct)
  case (call c c' fuel a c'')
  then show ?case using trans stepsD [OF rel_apply] by blast
qed (rule refl)

lemma rel_new:
  assumes "conn_new E args = Ret u c"
  obtains pmtud where "R (conn_init args (ce_now E []) pmtud) c"
proof -
  obtain pmtud where new: "conn_start E (conn_init args (ce_now E []) pmtud) = Ret u c"
    using assms by (rule conn_new_Ret)
  have "steps F R (conn_start E) (conn_init args (ce_now E []) pmtud)"
    by (auto simp: conn_start_def may_enter_def intro!: steps_intros dest: session_call_state split: tls_poll.split)
      (auto simp: conn_init_def dest: session_call_state)
  then have "R (conn_init args (ce_now E []) pmtud) c" using new by (rule steps_RetD)
  then show ?thesis by (rule that)
qed

lemma rel_reachable:
  assumes "conn_reachable E args c"
  obtains pmtud where "R (conn_init args (ce_now E []) pmtud) c"
  using assms rel_new rel_runs trans unfolding conn_reachable_def by metis

end

end
