(* ===== verification/Connection_Example.thy ===== *)
theory Connection_Example
  imports Connection_Laws
begin

text \<open>
  A concrete world to run connections in: a TLS library with the identity cipher on top of the
  adapter, a socket that takes everything, an application that admits everyone. The properties
  are applied here at concrete inputs.
\<close>

definition sink_socket :: socket_ops where
  "sink_socket = \<lparr>sk_send = (\<lambda>l b. IoOk (length b)), sk_send_gso = (\<lambda>l bs g. IoOk (length (concat bs))),
     sk_peer_addr = (\<lambda>_. SockAddrV4 0 0)\<rparr>"

text \<open>The session is the plaintext it took. A read hands over all that is pending.\<close>

definition plain_tls :: "bytes tls_ops" where
  "plain_tls = \<lparr>
     tls_try_negotiate = (\<lambda>s io. Some (Inr (Ready ()), s, io)),
     tls_try_write = (\<lambda>buf s io.
       case io_send sink_socket buf io of
         Some (IoOk n, io) \<Rightarrow> Some (drop n buf, Inr (Ready n), s @ take n buf, io)
       | Some (_, io) \<Rightarrow> Some (buf, Inr PendingWrite, s, io)
       | None \<Rightarrow> None),
     tls_try_read = (\<lambda>buf s io.
       if io_recv_buf io = [] then Some (buf, Inr PendingRead, s, io)
       else Some (buf @ io_recv_buf io, Inr (Ready (length (io_recv_buf io))), s, io\<lparr>io_recv_buf := []\<rparr>)),
     tls_try_shutdown = (\<lambda>s io. Some (Inr (Ready ()), s, io)),
     tls_try_trigger_update_key = (\<lambda>s io. Some (Inr (Ready ()), s, io)),
     tls_dtls_has_timed_out = (\<lambda>s io. Some (Ready False, s, io)),
     tls_is_update_keys_pending = (\<lambda>_. False),
     tls_dtls_current_timeout = (\<lambda>_. 1000),
     tls_dtls13_use_quick_timeout = (\<lambda>_. False),
     tls_version = (\<lambda>_. DtlsV1_3)\<rparr>"

definition plain_pnet :: pnet_ops where
  "plain_pnet = \<lparr>pn_ipv4_new = (\<lambda>b. length b \<ge> 20), pn_ipv4_protocol = (\<lambda>b. b ! 9), pn_ipv4_frag_offset = (\<lambda>_. 0),
     pn_ipv4_checksum = (\<lambda>_. 0), pn_ipv4_set_checksum = (\<lambda>_ b. b), pn_ipv4_source = (\<lambda>_. 0), pn_ipv4_set_source = (\<lambda>_ b. b),
     pn_ipv4_destination = (\<lambda>_. 0), pn_ipv4_set_destination = (\<lambda>_ b. b), pn_ipv4_payload = drop 20,
     pn_ipv4_set_payload = (\<lambda>p b. take 20 b @ p), pn_tcp_new = (\<lambda>b. length b \<ge> 20), pn_tcp_flags = (\<lambda>b. b ! 13),
     pn_tcp_checksum = (\<lambda>_. 0), pn_tcp_set_checksum = (\<lambda>_ b. b), pn_tcp_options_raw = drop 20,
     pn_tcp_set_options_raw = (\<lambda>p b. take 20 b @ p), pn_udp_new = (\<lambda>b. length b \<ge> 8), pn_udp_checksum = (\<lambda>_. 0),
     pn_udp_set_checksum = (\<lambda>_ b. b), pn_opt_new = (\<lambda>b. b \<noteq> []), pn_opt_number = hd, pn_opt_payload = drop 2,
     pn_opt_set_payload = (\<lambda>p b. take 2 b @ p), pn_opt_packet_size = (\<lambda>_. 4)\<rparr>"

definition ex_ip :: inside_ip_config where
  "ex_ip = \<lparr>client_ip = 0x0A000002, server_ip = 0x0A000001, dns_ip = 0x08080808\<rparr>"

definition ex_env_with :: "gso_ops \<Rightarrow> (bytes, bytes, nat \<times> (u16 \<times> fragmented_packet) list) conn_env" where
  "ex_env_with G = \<lparr>ce_tls = plain_tls, ce_sock = sink_socket, ce_aead = sum_aead, ce_lru = lru_list, ce_pnet = plain_pnet, ce_gso = G,
     ce_now = (\<lambda>l. length l), ce_random = (\<lambda>l n. replicate n 7), ce_ip_alloc = (\<lambda>l. Some ex_ip),
     ce_authorize = (\<lambda>l am. Granted None None), ce_expired = (\<lambda>l h. False), ce_stats = (\<lambda>l s. Inr (0, 0)),
     ce_encoder_store = (\<lambda>l b. (Inr SkipPacket, b)), ce_encoder_state = (\<lambda>l. False),
     ce_decoder_store = (\<lambda>l b. (Inr SkipPacket, b))\<rparr>"

definition ex_env :: "(bytes, bytes, nat \<times> (u16 \<times> fragmented_packet) list) conn_env" where
  "ex_env = ex_env_with rfc_gso"

lemmas ex_env_defs = ex_env_def ex_env_with_def

lemma ex_env_tls [simp]: "ce_tls ex_env = plain_tls"
  by (simp add: ex_env_defs)

definition ex_args :: "connection_type \<Rightarrow> conn_mode \<Rightarrow> (bytes, 'm) new_connection_args" where
  "ex_args ct md = \<lparr>na_connection_type = ct, na_protocol_version = version_MAXIMUM, na_session = [],
     na_io = io_fresh ct [], na_session_id = replicate 8 1, na_mode = md, na_outside_mtu = 1500,
     na_inside_io = Some 1350, na_event_cb = True, na_inside_plugins = [], na_outside_plugins = [],
     na_max_fragment_map_entries = 4, na_pmtud_timer = False, na_pmtud_base_mtu = None, na_inside_pkt_codec = False,
     na_expresslane = True, na_expresslane_cb = False, na_expresslane_metrics = False,
     na_expresslane_keys_rotation_interval = 1000\<rparr>"

definition ex_server :: conn_mode where
  "ex_server = ServerMode \<lparr>sm_auth_handle = None, sm_key_update = ku_new 0, sm_pending_session_id = None\<rparr>"

definition ex_client :: conn_mode where
  "ex_client = ClientMode (Token [97])"

text \<open>A sequence of calls, each completed.\<close>

fun conn_applies :: "('s, 'k, 'm) conn_env \<Rightarrow> nat \<Rightarrow> conn_call list \<Rightarrow> ('s, 'k, 'm) conn \<Rightarrow> ('s, 'k, 'm) conn option" where
  "conn_applies E fuel [] c = Some c"
| "conn_applies E fuel (a # as) c =
     (case exec_state (conn_apply E fuel a c) of None \<Rightarrow> None | Some c' \<Rightarrow> conn_applies E fuel as c')"

definition conn_created :: "('s, 'k, 'm) conn_env \<Rightarrow> nat \<Rightarrow> ('s, 'm) new_connection_args \<Rightarrow> conn_call list \<Rightarrow> ('s, 'k, 'm) conn option" where
  "conn_created E fuel args as = (case conn_new E args of Ret _ c \<Rightarrow> conn_applies E fuel as c | _ \<Rightarrow> None)"

lemma conn_applies_runs: "conn_applies E fuel as c = Some c' \<Longrightarrow> conn_runs E c0 c \<Longrightarrow> conn_runs E c0 c'"
  by (induction as arbitrary: c) (auto intro: conn_runs.intros split: option.splits)

lemma conn_created_reachable: "conn_created E fuel args as = Some c \<Longrightarrow> conn_reachable E args c"
  by (auto simp: conn_created_def conn_reachable_def dest: conn_applies_runs [OF _ conn_runs.none] split: exec.splits)

text \<open>A client authenticates, sends one IPv4 packet, and the server disconnects.\<close>

definition ex_auth :: bytes where
  "ex_auth = [4, 2, 0, 1, 97]"

definition ex_packet :: bytes where
  "ex_packet = 0x45 # replicate 19 0"

definition ex_data :: bytes where
  "ex_data = [5, 0, 20] @ ex_packet"

definition ex_log :: app_log where
  "ex_log = [AppNow 0, AppEvent (StateChanged LinkUp), AppNow 2, AppIpAlloc (Some ex_ip),
     AppAuthorize (Token [97]) (Granted None None), AppEvent (StateChanged Online), AppNow 6, AppNow 7,
     AppInsideSend ex_packet, AppEvent (StateChanged Disconnecting), AppIpFree,
     AppEvent (StateChanged Disconnected)]"

lemma ex_session_run:
  "map_option (\<lambda>c. (cn_state c, cn_log c)) (conn_created (ex_env_with G) 5 (ex_args Stream ex_server)
     [CallOutside (TcpFrame (ex_auth @ ex_data)), CallDisconnect]) = Some (Disconnected, ex_log)"
  by code_simp

lemma ex_session:
  "\<exists>c. conn_reachable ex_env (ex_args Stream ex_server) c \<and> cn_state c = Disconnected \<and> cn_log c = ex_log"
  using ex_session_run [of rfc_gso] by (auto simp: ex_env_def dest: conn_created_reachable)

end
