(* ===== verification/Connection_Loop.thy ===== *)
theory Connection_Loop
  imports Connection_Laws Connection_Example
begin

text \<open>
  The message loop ends. The TLS library decides how much a read returns, so the loop is bounded
  by what the library can still read: a number \<open>mu\<close> of the session and of the bytes the adapter
  holds, which no call on the library raises and every successful read lowers by more than what
  it hands over. Frames only shorten the receive buffer. The laws of \<open>Connection_Laws\<close> turn this
  into the statement that no handler raises the bound.
\<close>

section \<open>What the loop needs of the TLS library\<close>

definition tls_never_raises :: "('s \<Rightarrow> bytes \<Rightarrow> nat) \<Rightarrow> ('s \<Rightarrow> io_adapter \<Rightarrow> ('s, 'a) tls_result) \<Rightarrow> bool" where
  "tls_never_raises mu f \<longleftrightarrow>
     (\<forall>s io r s' io'. f s io = Some (r, s', io') \<longrightarrow> mu s' (io_recv_buf io') \<le> mu s (io_recv_buf io))"

definition tls_progress :: "'s tls_ops \<Rightarrow> ('s \<Rightarrow> bytes \<Rightarrow> nat) \<Rightarrow> bool" where
  "tls_progress T mu \<longleftrightarrow>
     tls_never_raises mu (tls_try_negotiate T) \<and> tls_never_raises mu (tls_try_shutdown T)
     \<and> tls_never_raises mu (tls_try_trigger_update_key T)
     \<and> (\<forall>s io p s' io'. tls_dtls_has_timed_out T s io = Some (p, s', io')
          \<longrightarrow> mu s' (io_recv_buf io') \<le> mu s (io_recv_buf io))
     \<and> (\<forall>b s io b' r s' io'. tls_try_write T b s io = Some (b', r, s', io')
          \<longrightarrow> mu s' (io_recv_buf io') \<le> mu s (io_recv_buf io))
     \<and> (\<forall>b s io b' n s' io'. tls_try_read T b s io = Some (b', Inr (Ready n), s', io')
          \<longrightarrow> mu s' (io_recv_buf io') + length b' < mu s (io_recv_buf io) + length b)
     \<and> (\<forall>b s io b' d s' io'. tls_try_read T b s io = Some (b', Inr (AppData d), s', io')
          \<longrightarrow> mu s' (io_recv_buf io') + (length b' + length d) < mu s (io_recv_buf io) + length b)"

definition unread :: "('s \<Rightarrow> bytes \<Rightarrow> nat) \<Rightarrow> ('s, 'k, 'm) conn \<Rightarrow> nat" where
  "unread mu c = mu (cn_session c) (io_recv_buf (cn_io c)) + length (cn_receive_buf c)"

definition no_more :: "('s \<Rightarrow> bytes \<Rightarrow> nat) \<Rightarrow> ('s, 'k, 'm) conn \<Rightarrow> ('s, 'k, 'm) conn \<Rightarrow> bool" where
  "no_more mu c c' \<longleftrightarrow> unread mu c' \<le> unread mu c"

lemma udp_send_recv_buf: "udp_send K b x io = Some (r, io') \<Longrightarrow> io_recv_buf io' = io_recv_buf io"
  by (auto simp: udp_send_def udp_send_final_def sock_send_def Let_def bind_eq_Some_conv
      split: if_splits prod.splits plugin_result.splits io_result.splits)

lemma no_more_call:
  assumes "tls_never_raises mu f"
  shows "steps False (no_more mu) (session_call f) c"
  using assms
  by (auto simp: steps_def session_call_def Let_def no_more_def unread_def tls_never_raises_def
      split: option.splits sum.splits)

lemma no_more_write:
  assumes "tls_progress (ce_tls E) mu"
  shows "steps False (no_more mu) (session_try_write E b) c"
  using assms
  by (auto simp: steps_def session_try_write_def Let_def no_more_def unread_def tls_progress_def
      split: option.splits sum.splits)

interpretation no_more: step_rel "no_more mu" for mu
  by unfold_locales (auto simp: no_more_def)

lemma no_more_queue: "steps F (no_more mu) (modify (\<lambda>c. c\<lparr>cn_tls_pending_queue := g c\<rparr>)) c"
  by (rule no_more.steps_modify) (simp add: no_more_def unread_def)

lemma no_more_drain:
  "tls_progress (ce_tls E) mu \<Longrightarrow> steps False (no_more mu) (drain_queue E q) c"
  by (induction q arbitrary: c)
    (auto intro!: steps_intros no_more_queue no_more_write split: tls_poll.split)

lemma no_more_send:
  "tls_progress (ce_tls E) mu \<Longrightarrow> steps False (no_more mu) (send_frame_or_queue E f) c"
  by (auto simp: send_frame_or_queue_def intro!: steps_intros no_more_queue no_more_drain)

lemma no_more_enter: "steps False (no_more mu) (enter_state st) c"
  by (auto simp: enter_state_def conn_event_def app_note_def no_more_def unread_def
      intro!: steps_intros no_more.steps_modify)

lemma progress_laws:
  assumes "tls_progress (ce_tls E) mu"
  shows "conn_rel (no_more mu) E"
proof (unfold_locales, goal_cases)
  case (6 c f)
  show ?case by (rule no_more_send [OF assms])
next
  case (10 c)
  then show ?case
    using assms
    by (auto simp: steps_def session_has_timed_out_def no_more_def unread_def tls_progress_def split: option.splits)
next
  case (11 b xl c)
  show ?case
    by (auto simp: steps_def conn_udp_send_def no_more_def unread_def dest: udp_send_recv_buf split: option.splits)
next
  case (12 c st)
  show ?case by (rule no_more_enter)
qed (use assms in \<open>auto simp: no_more_def unread_def obs_def tls_progress_def intro!: no_more_call\<close>)

section \<open>The loop ends\<close>

lemma handle_frame_bounded:
  assumes "tls_progress (ce_tls E) mu" and "linked c"
  shows "handle_frame E f c \<noteq> OutOfFuel"
    and "handle_frame E f c = Ret u c' \<Longrightarrow> unread mu c' \<le> unread mu c"
proof -
  have "steps False (no_more mu) (handle_frame E f) c"
    by (rule conn_rel.rel_handle_frame [OF progress_laws [OF assms(1)] assms(2)])
  then show "handle_frame E f c \<noteq> OutOfFuel"
    and "handle_frame E f c = Ret u c' \<Longrightarrow> unread mu c' \<le> unread mu c"
    by (auto dest: steps_fuel steps_RetD simp: no_more_def)
qed

lemma read_progress:
  assumes "tls_progress (ce_tls E) mu" and "session_try_read E c = Ret p c'"
  shows "p = Ready n \<Longrightarrow> unread mu c' < unread mu c"
    and "p = AppData d \<Longrightarrow> unread mu (c'\<lparr>cn_receive_buf := cn_receive_buf c' @ d\<rparr>) < unread mu c"
    and "cn_state c' = cn_state c"
  using assms
  by (auto simp: session_try_read_def Let_def unread_def tls_progress_def split: option.splits sum.splits)

lemma read_no_fuel: "session_try_read E c \<noteq> OutOfFuel"
  by (simp add: session_try_read_def Let_def split: option.splits sum.splits prod.splits)

lemma frame_shrinks:
  "frame_try_from_wire (cn_receive_buf c) = Some (Inr f, b) \<Longrightarrow> unread mu (c\<lparr>cn_receive_buf := b\<rparr>) < unread mu c"
  "frame_try_from_wire (cn_receive_buf c) = Some (Inl e, b) \<Longrightarrow> b = cn_receive_buf c"
  using frame_total [of "cn_receive_buf c"] by (auto simp: unread_def)

lemma loop_bounded:
  assumes "tls_progress (ce_tls E) mu"
  shows "linked c \<Longrightarrow> unread mu c < fuel \<Longrightarrow> unread mu c < fuel' \<Longrightarrow>
    handle_messages_loop E fuel n c = handle_messages_loop E fuel' n c \<and> handle_messages_loop E fuel n c \<noteq> OutOfFuel"
proof (induction fuel arbitrary: fuel' n c)
  case (Suc fuel)
  then obtain fl where fl: "fuel' = Suc fl" by (cases fuel') auto
  have step: "handle_messages_loop E fuel k c' = handle_messages_loop E fl k c'" "handle_messages_loop E fl k c' \<noteq> OutOfFuel"
    if "linked c'" "unread mu c' < unread mu c" for k c'
    using Suc.IH [of c' fl k] Suc.prems fl that by auto
  obtain r b where dec: "frame_try_from_wire (cn_receive_buf c) = Some (r, b)" using frame_total by blast
  show ?case
  proof (cases r)
    case (Inr f)
    let ?c = "c\<lparr>cn_receive_buf := b\<rparr>"
    have small: "unread mu ?c < unread mu c" using dec Inr frame_shrinks by blast
    have lk: "linked ?c" using Suc.prems by (simp add: linked_def)
    show ?thesis
      using Suc.prems small handle_frame_bounded [OF assms lk, of f] handle_frame_linked [OF _ lk, of E f]
      by (cases "handle_frame E f ?c") (auto simp: fl dec Inr exec_defs step)
  next
    case (Inl e)
    then have "b = cn_receive_buf c" using dec frame_shrinks by blast
    then show ?thesis
      using Suc.prems read_progress [OF assms, of c] read_no_fuel [of E c]
      by (cases "session_try_read E c")
        (auto simp: fl dec Inl exec_defs linked_def step split: tls_poll.splits)
  qed
qed simp

text \<open>
  C13. The message loop returns: if every successful read of the TLS library uses up more than it
  hands over and no other call on the library adds to what can be read, then a bound on the
  unread data is enough rounds for \<open>handle_messages\<close>, and more rounds do not change its result,
  whatever frames arrive and whatever their handlers do.
\<close>

theorem handle_messages_terminates:
  assumes "tls_progress (ce_tls E) mu" and "linked c" and "unread mu c < fuel"
  shows "handle_messages E fuel c \<noteq> OutOfFuel \<and> handle_messages E fuel c = handle_messages E (Suc (unread mu c)) c"
proof -
  have "then_do (maybe_update_tls_keys E) (then_do (maybe_complete_key_update E) (ret n)) c' \<noteq> OutOfFuel" for n :: usize and c'
    by (rule steps_fuel) (rule conn_rel.rel_after_messages [OF progress_laws [OF assms(1)]])
  then show ?thesis
    using loop_bounded [OF assms, of "Suc (unread mu c)" 0]
    by (auto simp: handle_messages_def and_then_def simp del: handle_messages_loop.simps split: exec.split)
qed

lemma tcp_flush_recv_buf: "tcp_flush K io = (r, io') \<Longrightarrow> io_recv_buf io' = io_recv_buf io"
  by (auto simp: tcp_flush_def sock_send_def Let_def split: io_result.splits if_splits prod.splits)

lemma tcp_send_recv_buf:
  assumes "tcp_send K b io = Some (r, io')"
  shows "io_recv_buf io' = io_recv_buf io"
proof (cases "sb_data (io_send_buf io) = []")
  case True
  then obtain sb where "sb_enqueue_buffer b (io_send_buf io) = Some sb"
    using assms by (auto simp: tcp_send_def bind_eq_Some_conv)
  moreover obtain v d where "do_egress (io_outside_plugins io) (sb_data sb) = (v, d)" by force
  ultimately show ?thesis
    using assms True by (cases v) (auto simp: tcp_send_def dest: tcp_flush_recv_buf)
qed (use assms in \<open>auto simp: tcp_send_def dest: tcp_flush_recv_buf split: if_splits\<close>)

lemma plain_tls_progress: "tls_progress plain_tls (\<lambda>s b. 2 * length b)"
proof -
  have "io_recv_buf io' = io_recv_buf io" if "io_send sink_socket b io = Some (r, io')" for b io r io'
    using that
    by (auto simp: io_send_def dest: udp_send_recv_buf tcp_send_recv_buf split: connection_type.splits)
  then show ?thesis
    by (auto simp: tls_progress_def tls_never_raises_def plain_tls_def split: if_splits option.splits io_result.splits)
qed

definition ex_linked :: "(bytes, bytes, nat \<times> (u16 \<times> fragmented_packet) list) conn" where
  "ex_linked = (conn_init (ex_args Stream ex_server) 0 None)\<lparr>cn_state := LinkUp, cn_receive_buf := ex_auth @ ex_data\<rparr>"

theorem handle_messages_terminates_witness:
  "handle_messages ex_env 40 ex_linked \<noteq> OutOfFuel"
proof -
  have "linked ex_linked" by (simp add: linked_def ex_linked_def)
  moreover have "unread (\<lambda>s b. 2 * length b) ex_linked < 40"
    by (simp add: unread_def ex_linked_def conn_init_def ex_args_def io_fresh_def ex_auth_def ex_data_def ex_packet_def)
  ultimately show ?thesis
    using handle_messages_terminates [of ex_env "\<lambda>s b. 2 * length b" ex_linked 40] plain_tls_progress
    by auto
qed

end
