(* ===== verification/Connection_Props.thy ===== *)
theory Connection_Props
  imports Connection_Laws Connection_Example
begin

text \<open>
  What holds of a connection whatever the peer sends, the application calls and the TLS library
  answers. Each property instantiates the laws of \<open>Connection_Laws\<close> with the preorder "the
  invariant is kept".
\<close>

section \<open>The life of a connection\<close>

text \<open>
  The abstract machine: the transitions of \<open>State\<close> documented in \<open>enum State\<close>, and its paths.
\<close>

inductive lifecycle :: "bool \<Rightarrow> conn_state \<Rightarrow> conn_state \<Rightarrow> bool" where
  link_up: "lifecycle server Connecting LinkUp"
| authenticating: "lifecycle False LinkUp Authenticating"
| server_online: "lifecycle True LinkUp Online"
| client_online: "st \<in> {LinkUp, Authenticating} \<Longrightarrow> lifecycle False st Online"
| disconnecting: "st \<in> {LinkUp, Authenticating, Online} \<Longrightarrow> lifecycle server st Disconnecting"
| disconnected: "lifecycle server Disconnecting Disconnected"

fun lifecycle_path :: "bool \<Rightarrow> conn_state \<Rightarrow> conn_state list \<Rightarrow> conn_state \<Rightarrow> bool" where
  "lifecycle_path server st [] st' \<longleftrightarrow> st' = st"
| "lifecycle_path server st (s # ss) st' \<longleftrightarrow> lifecycle server st s \<and> lifecycle_path server s ss st'"

fun state_events :: "app_log \<Rightarrow> conn_state list" where
  "state_events [] = []"
| "state_events (AppEvent (StateChanged s) # l) = s # state_events l"
| "state_events (_ # l) = state_events l"

lemma state_events_append: "state_events (l @ l') = state_events l @ state_events l'"
  by (induction l rule: state_events.induct) simp_all

lemma state_events_quiet: "\<not> is_state_event a \<Longrightarrow> state_events [a] = []"
  by (cases a rule: is_state_event.cases) simp_all

lemma lifecycle_path_snoc:
  "lifecycle_path srv st ss st' \<Longrightarrow> lifecycle srv st' s \<Longrightarrow> lifecycle_path srv st (ss @ [s]) s"
  by (induction ss arbitrary: st) auto

lemma lifecycle_may_enter: "may_enter c st \<Longrightarrow> lifecycle (is_server c) (cn_state c) st"
  by (auto simp: may_enter_def intro: lifecycle.intros split: conn_state.splits if_splits)

section \<open>Invariants\<close>

text \<open>\<open>keeps I\<close>: the preorder of an invariant of the observed part.\<close>

definition keeps :: "(('s, 'k, 'm) conn \<Rightarrow> bool) \<Rightarrow> ('s, 'k, 'm) conn \<Rightarrow> ('s, 'k, 'm) conn \<Rightarrow> bool" where
  "keeps I c c' \<longleftrightarrow> (I c \<longrightarrow> I c')"

lemma steps_link_keeps: "steps F link_only m c \<Longrightarrow> (\<And>c'. link_only c c' \<Longrightarrow> I c' = I c) \<Longrightarrow> steps F (keeps I) m c"
  by (erule steps_mono) (simp add: keeps_def)

text \<open>The events of a run are a path of the abstract machine to the current state.\<close>

definition follows_lifecycle :: "bool \<Rightarrow> ('s, 'k, 'm) conn \<Rightarrow> bool" where
  "follows_lifecycle server c \<longleftrightarrow>
     cn_event_cb c \<and> is_server c = server
     \<and> lifecycle_path server Connecting (state_events (cn_log c)) (cn_state c)"

text \<open>No packet reaches the inside before the peer is authorised.\<close>

definition cleared :: "bool \<Rightarrow> app_log \<Rightarrow> bool" where
  "cleared server l \<longleftrightarrow> (if server then granted l else configured l)"

definition authorised :: "bool \<Rightarrow> ('s, 'k, 'm) conn \<Rightarrow> bool" where
  "authorised server c \<longleftrightarrow>
     is_server c = server
     \<and> (cn_state c = Online \<longrightarrow> cleared server (cn_log c))
     \<and> (\<forall>pre p post. cn_log c = pre @ AppInsideSend p # post \<longrightarrow> cleared server pre)"

lemma cleared_mono: "cleared srv l \<Longrightarrow> cleared srv (l @ l')"
  unfolding cleared_def granted_def configured_def by (cases srv; simp; blast)

lemma authorised_note:
  assumes "authorised srv c" and "is_deliver a \<Longrightarrow> cn_state c = Online"
  shows "authorised srv (c\<lparr>cn_log := cn_log c @ [a]\<rparr>)"
  using assms
  by (auto simp: authorised_def append_eq_append_conv2 Cons_eq_append_conv append_eq_Cons_conv intro: cleared_mono)

text \<open>The laws of an invariant that does not depend on the link to the peer.\<close>

locale conn_invariant =
  fixes I :: "('s, 'k, 'm) conn \<Rightarrow> bool" and E :: "('s, 'k, 'm) conn_env"
  assumes inv_plain: "obs c' = obs c \<Longrightarrow> I c \<Longrightarrow> I c'"
    and inv_note: "\<not> is_deliver a \<Longrightarrow> \<not> is_state_event a \<Longrightarrow> honest E c a \<Longrightarrow> I c \<Longrightarrow> I (c\<lparr>cn_log := cn_log c @ [a]\<rparr>)"
    and inv_deliver: "cn_state c = Online \<Longrightarrow> I c \<Longrightarrow> I (c\<lparr>cn_log := cn_log c @ [AppInsideSend p]\<rparr>)"
    and inv_lane: "xl_state (cn_expresslane c) \<noteq> XlDegraded \<Longrightarrow> I c \<Longrightarrow>
      I (c\<lparr>cn_expresslane := (cn_expresslane c)\<lparr>xl_state := st'\<rparr>\<rparr>)"
    and inv_link: "link_only c c' \<Longrightarrow> I c \<Longrightarrow> I c'"
    and inv_buf: "I c \<Longrightarrow> I (c\<lparr>cn_receive_buf := b\<rparr>)"
    and inv_enter: "may_enter c st \<Longrightarrow> cn_state c \<noteq> st \<Longrightarrow> I c \<Longrightarrow>
      I (if cn_event_cb c then c\<lparr>cn_state := st, cn_log := cn_log c @ [AppEvent (StateChanged st)]\<rparr>
         else c\<lparr>cn_state := st\<rparr>)"
begin

lemma keeps_link: "steps F link_only m c \<Longrightarrow> steps F (keeps I) m c"
  by (erule steps_mono) (auto simp: keeps_def intro: inv_link)

lemma inv_io: "I c \<Longrightarrow> I (c\<lparr>cn_io := i\<rparr>)"
  by (rule inv_link) simp_all

lemma keeps_enter:
  assumes "may_enter c st"
  shows "steps F (keeps I) (enter_state st) c"
  using assms inv_enter [of c st]
  by (auto simp: steps_def enter_state_def conn_event_def app_note_def exec_defs keeps_def)

lemma keeps_read: "steps F (keeps I) (session_try_read E) c"
proof (rule stepsI)
  fix c' assume "exec_state (session_try_read E c) = Some c'"
  then obtain s io b where "c' = c\<lparr>cn_session := s, cn_io := io, cn_receive_buf := b\<rparr>"
    by (auto simp: session_try_read_def Let_def split: option.splits sum.splits)
  then show "keeps I c c'"
    using inv_link [of c "c\<lparr>cn_session := s, cn_io := io\<rparr>"] inv_buf [of "c\<lparr>cn_session := s, cn_io := io\<rparr>" b]
    by (simp add: keeps_def)
qed (auto simp: session_try_read_def Let_def split: option.splits sum.splits)

end

sublocale conn_invariant \<subseteq> conn_entry "keeps I" E
proof (unfold_locales, goal_cases)
  case (8 c f)
  then show ?case by (rule keeps_link) (rule link_send_frame)
qed (auto simp: keeps_def intro: inv_plain inv_note inv_deliver inv_lane inv_io inv_buf keeps_link steps_intros keeps_enter keeps_read)

context conn_invariant
begin

lemma reachable_invariant:
  assumes "conn_reachable E args c" and "\<And>pmtud. I (conn_init args (ce_now E []) pmtud)"
  shows "I c"
  using assms rel_reachable by (metis keeps_def)

lemma runs_invariant: "conn_runs E c c' \<Longrightarrow> I c \<Longrightarrow> I c'"
  using rel_runs by (auto simp: keeps_def)

end

interpretation life: conn_invariant "follows_lifecycle srv" E for srv E
  by unfold_locales
    (auto simp: follows_lifecycle_def obs_def state_events_append state_events_quiet link_onlyD
      intro!: lifecycle_path_snoc dest: lifecycle_may_enter)

interpretation auth: conn_invariant "authorised srv" E for srv E
proof (unfold_locales, goal_cases)
  case (2 a c)
  then show ?case by (intro authorised_note) simp_all
next
  case (7 c st)
  then have "authorised srv (c\<lparr>cn_state := st\<rparr>)"
    by (auto simp: authorised_def may_enter_def cleared_def split: if_splits)
  then show ?case using authorised_note [of srv "c\<lparr>cn_state := st\<rparr>" "AppEvent (StateChanged st)"] by simp
qed (auto simp: authorised_note, auto simp: authorised_def obs_def link_onlyD)

interpretation degraded: conn_invariant "\<lambda>c. xl_state (cn_expresslane c) = XlDegraded" E for E
  by unfold_locales (auto simp: obs_def link_onlyD)

interpretation modes: conn_invariant "\<lambda>c. is_server c = srv \<and> (\<forall>a \<in> set (cn_log c). fits_mode srv a)" E for srv E
  by unfold_locales (auto simp: obs_def link_onlyD honest_def)

text \<open>Every recorded decision is the answer the authentication gave at that point.\<close>

definition decisions_true :: "('s, 'k, 'm) conn_env \<Rightarrow> ('s, 'k, 'm) conn \<Rightarrow> bool" where
  "decisions_true E c \<longleftrightarrow> (\<forall>pre m r post. cn_log c = pre @ AppAuthorize m r # post \<longrightarrow> r = ce_authorize E pre m)"

interpretation decisions: conn_invariant "decisions_true E" E for E
  by unfold_locales
    (auto simp: decisions_true_def obs_def link_onlyD honest_def append_eq_append_conv2 Cons_eq_append_conv append_eq_Cons_conv)

section \<open>Properties of every run\<close>

definition args_server :: "('s, 'm) new_connection_args \<Rightarrow> bool" where
  "args_server args \<longleftrightarrow> (case na_mode args of ServerMode _ \<Rightarrow> True | ClientMode _ \<Rightarrow> False)"

text \<open>
  C1. However a peer and an application drive a connection, a packet is handed to the inside
  interface only after the peer was authorised: on a server every \<open>AppInsideSend\<close> in the log
  comes after a \<open>Granted\<close> answer of the authentication oracle, on a client after the inside IP
  configuration was applied, and the state is \<open>Online\<close> only then.
\<close>

theorem inside_only_after_authorisation:
  fixes c :: "('s, 'k, 'm) conn"
  assumes "conn_reachable E args c"
  shows "(cn_state c = Online \<longrightarrow> cleared (args_server args) (cn_log c))
    \<and> (cn_log c = pre @ AppInsideSend p # post \<longrightarrow> cleared (args_server args) pre)"
proof -
  have "authorised (args_server args) c"
    by (rule auth.reachable_invariant [OF assms])
      (simp add: authorised_def conn_init_def args_server_def is_server_def Cons_eq_append_conv)
  then show ?thesis by (auto simp: authorised_def)
qed

theorem inside_only_after_authorisation_witness:
  "\<exists>c. conn_reachable ex_env (ex_args Stream ex_server) c
    \<and> cn_log c = take 8 ex_log @ AppInsideSend ex_packet # drop 9 ex_log \<and> cleared True (take 8 ex_log)"
proof -
  obtain c where c: "conn_reachable ex_env (ex_args Stream ex_server) c" "cn_log c = ex_log"
    using ex_session by blast
  moreover have "ex_log = take 8 ex_log @ AppInsideSend ex_packet # drop 9 ex_log" by (simp add: ex_log_def)
  ultimately show ?thesis
    using inside_only_after_authorisation [OF c(1), of "take 8 ex_log" ex_packet "drop 9 ex_log"]
    by (simp add: args_server_def ex_args_def ex_server_def) blast
qed



end
