(* ===== verification/Connection_Queue.thy ===== *)
theory Connection_Queue
  imports Connection_Props
begin

text \<open>
  The outgoing queue of \<open>send_frame_or_queue\<close>: it stays within its limit, and the plaintext the
  TLS session has taken followed by the queue is a sequence of whole frames, in the order they
  were accepted.
\<close>

lemma send_frame_eq:
  "send_frame_or_queue E f c =
     (let q = cn_tls_pending_queue c in
      if length q < queue_limit E (cn_connection_type c) f then
        (case frame_append_to_wire f [] of
           None \<Rightarrow> Panic
         | Some b \<Rightarrow> drain_queue E (q @ [b]) (c\<lparr>cn_tls_pending_queue := q @ [b]\<rparr>))
      else drain_queue E q c)"
  by (simp add: send_frame_or_queue_def exec_defs Let_def split: option.split)

section \<open>The bound\<close>

definition queue_bound :: "connection_type \<Rightarrow> usize" where
  "queue_bound ct = (if is_datagram ct then 1 else MAX_TLS_PENDING_QUEUE_PACKETS)"

definition queue_ok :: "connection_type \<Rightarrow> ('s, 'k, 'm) conn \<Rightarrow> bool" where
  "queue_ok ct c \<longleftrightarrow> cn_connection_type c = ct \<and> length (cn_tls_pending_queue c) \<le> queue_bound ct"

lemma drain_queue_length:
  "exec_state (drain_queue E q c) = Some c' \<Longrightarrow> length (cn_tls_pending_queue c') \<le> length q"
proof (induction q arbitrary: c)
  case (Cons head q)
  let ?c = "c\<lparr>cn_tls_pending_queue := q\<rparr>"
  have kept: "cn_tls_pending_queue c1 = q" if "exec_state (session_try_write E head ?c) = Some c1" for c1
    using that by (auto simp: session_try_write_def Let_def split: option.splits sum.splits)
  show ?case
    using Cons kept
    by (cases "session_try_write E head ?c")
      (fastforce simp: exec_defs split: tls_poll.splits if_splits prod.splits)+
qed (auto simp: modify_def)

lemma drain_queue_link: "exec_state (drain_queue E q c) = Some c' \<Longrightarrow> cn_connection_type c' = cn_connection_type c"
  using stepsD [OF link_drain_queue] link_onlyD(5) by blast

lemma queue_limit_bound: "queue_limit E ct f \<le> queue_bound ct"
  by (auto simp: queue_limit_def queue_bound_def is_datagram_def const_defs split: connection_type.split frame.split)

lemma no_fuel_send: "send_frame_or_queue E f c \<noteq> OutOfFuel"
  using link_send_frame [of False E f c] by (rule steps_fuel)

lemma queue_ok_send: "steps False (keeps (queue_ok ct)) (send_frame_or_queue E f) c"
proof (rule stepsI)
  fix c' assume run: "exec_state (send_frame_or_queue E f c) = Some c'"
  show "keeps (queue_ok ct) c c'"
    unfolding keeps_def
  proof
    assume ok: "queue_ok ct c"
    have "\<exists>q c1. length q \<le> queue_bound ct \<and> exec_state (drain_queue E q c1) = Some c' \<and> cn_connection_type c1 = ct"
      using run ok queue_limit_bound [of E ct f]
      by (cases "length (cn_tls_pending_queue c) < queue_limit E ct f")
        (force simp: queue_ok_def send_frame_eq Let_def split: option.splits)+
    then show "queue_ok ct c'"
      using drain_queue_length drain_queue_link by (fastforce simp: queue_ok_def)
  qed
qed (simp add: no_fuel_send)

lemma queue_ok_read: "steps False (keeps (queue_ok ct)) (session_try_read E) c"
  and queue_ok_call: "steps False (keeps (queue_ok ct)) (session_call g) c"
  and queue_ok_timed_out: "steps False (keeps (queue_ok ct)) (session_has_timed_out E) c"
  and queue_ok_udp: "steps False (keeps (queue_ok ct)) (conn_udp_send E b x) c"
  and queue_ok_enter: "steps False (keeps (queue_ok ct)) (enter_state st) c"
  by (auto simp: steps_def keeps_def queue_ok_def session_try_read_def session_call_def session_has_timed_out_def
      conn_udp_send_def enter_state_def conn_event_def app_note_def exec_defs Let_def split: option.splits sum.splits)

interpretation queue: conn_entry "keeps (queue_ok ct)" E for ct E
  by unfold_locales
    (auto simp: keeps_def queue_ok_def obs_def
      intro: queue_ok_send queue_ok_read queue_ok_call queue_ok_timed_out queue_ok_udp queue_ok_enter)

text \<open>
  C12. Whatever the peer and the application do, the queue of frames waiting for the TLS session
  never holds more than \<open>MAX_TLS_PENDING_QUEUE_PACKETS\<close> entries on a stream connection and never
  more than the one in-flight buffer on a datagram connection.
\<close>

theorem pending_queue_bounded:
  fixes c :: "('s, 'k, 'm) conn"
  assumes "conn_reachable E args c"
  shows "length (cn_tls_pending_queue c) \<le> queue_bound (na_connection_type args)"
proof -
  obtain pmtud where "keeps (queue_ok (na_connection_type args)) (conn_init args (ce_now E []) pmtud) c"
    using assms by (rule queue.rel_reachable)
  then show ?thesis by (simp add: keeps_def queue_ok_def conn_init_def)
qed

theorem pending_queue_bounded_witness:
  "\<exists>c. conn_reachable ex_env (ex_args Stream ex_server) c \<and> length (cn_tls_pending_queue c) \<le> 64"
proof -
  obtain c where c: "conn_reachable ex_env (ex_args Stream ex_server) c" using ex_session by blast
  then show ?thesis
    using pending_queue_bounded [OF c]
    by (auto simp: ex_args_def queue_bound_def is_datagram_def const_defs)
qed

section \<open>The plaintext stream\<close>

text \<open>
  A TLS session whose writes do not fail: \<open>w\<close> is the plaintext it has taken. A write takes some
  prefix of the buffer and hands back the rest; the other calls take nothing.
\<close>

definition tls_takes_nothing :: "('s \<Rightarrow> bytes) \<Rightarrow> ('s \<Rightarrow> io_adapter \<Rightarrow> ('s, 'a) tls_result) \<Rightarrow> bool" where
  "tls_takes_nothing w f \<longleftrightarrow> (\<forall>s io r s' io'. f s io = Some (r, s', io') \<longrightarrow> w s' = w s)"

definition tls_writes :: "'s tls_ops \<Rightarrow> ('s \<Rightarrow> bytes) \<Rightarrow> bool" where
  "tls_writes T w \<longleftrightarrow>
     tls_takes_nothing w (tls_try_negotiate T) \<and> tls_takes_nothing w (tls_try_shutdown T)
     \<and> tls_takes_nothing w (tls_try_trigger_update_key T)
     \<and> (\<forall>s io p s' io'. tls_dtls_has_timed_out T s io = Some (p, s', io') \<longrightarrow> w s' = w s)
     \<and> (\<forall>b s io b' r s' io'. tls_try_read T b s io = Some (b', r, s', io') \<longrightarrow> w s' = w s)
     \<and> (\<forall>b s io b' r s' io'. tls_try_write T b s io = Some (b', r, s', io') \<longrightarrow>
          (\<exists>n. b' = drop n b \<and> w s' = w s @ take n b)
          \<and> (\<forall>e. r \<noteq> Inl e) \<and> (\<forall>d. r \<noteq> Inr (AppData d)))"

definition whole_frames :: "bytes \<Rightarrow> bool" where
  "whole_frames bs \<longleftrightarrow> (\<exists>fs es. list_all2 (\<lambda>f e. frame_append_to_wire f [] = Some e) fs es \<and> bs = concat es)"

definition plaintext :: "('s \<Rightarrow> bytes) \<Rightarrow> ('s, 'k, 'm) conn \<Rightarrow> bytes" where
  "plaintext w c = w (cn_session c) @ concat (cn_tls_pending_queue c)"

lemma whole_frames_Nil: "whole_frames []"
  unfolding whole_frames_def by (rule exI [of _ "[]"], rule exI [of _ "[]"]) simp

lemma whole_frames_snoc: "whole_frames bs \<Longrightarrow> frame_append_to_wire f [] = Some e \<Longrightarrow> whole_frames (bs @ e)"
  unfolding whole_frames_def
  by (elim exE conjE, rule_tac x = "fs @ [f]" in exI, rule_tac x = "es @ [e]" in exI) (simp add: list_all2_appendI)

lemma tls_writesD:
  assumes "tls_writes T w" and "tls_try_write T b s io = Some (b', r, s', io')"
  shows "\<exists>n. b' = drop n b \<and> w s' = w s @ take n b" and "r \<noteq> Inl e" and "r \<noteq> Inr (AppData d)"
  using assms unfolding tls_writes_def by (elim conjE; metis)+

lemma tls_takes_nothingD: "tls_takes_nothing w f \<Longrightarrow> f s io = Some (r, s', io') \<Longrightarrow> w s' = w s"
  unfolding tls_takes_nothing_def by blast

lemma tls_writes_otherD:
  assumes "tls_writes T w"
  shows "tls_dtls_has_timed_out T s io = Some (p, s', io') \<Longrightarrow> w s' = w s"
    and "tls_try_read T b s io = Some (b', r, s', io') \<Longrightarrow> w s' = w s"
  using assms unfolding tls_writes_def by (elim conjE; metis)+

lemma write_takes:
  assumes "tls_writes (ce_tls E) w"
  shows "session_try_write E b c \<noteq> Err e c'"
    and "session_try_write E b c = Ret (b', p) c' \<Longrightarrow>
      w (cn_session c') @ b' = w (cn_session c) @ b \<and> cn_tls_pending_queue c' = cn_tls_pending_queue c \<and> p \<noteq> AppData d"
  using tls_writesD [OF assms]
  by (fastforce simp: session_try_write_def Let_def split: option.splits sum.splits)+

lemma drain_queue_stream:
  assumes "tls_writes (ce_tls E) w"
  shows "exec_state (drain_queue E q c) = Some c' \<Longrightarrow>
    plaintext w c' = w (cn_session c) @ concat q"
proof (induction q arbitrary: c)
  case (Cons head q)
  let ?c = "c\<lparr>cn_tls_pending_queue := q\<rparr>"
  show ?case
  proof (cases "session_try_write E head ?c")
    case (Ret bp c1)
    obtain b p where bp: "bp = (b, p)" by force
    then have w: "w (cn_session c1) @ b = w (cn_session c) @ head" "\<And>d. p \<noteq> AppData d"
      using write_takes(2) [OF assms, of head ?c b p c1] Ret by auto
    then have "w (cn_session c1) @ b @ concat q = w (cn_session c) @ head @ concat q" by (metis append_assoc)
    then show ?thesis
      using Cons w Ret bp by (auto simp: exec_defs plaintext_def split: tls_poll.splits if_splits)
  qed (use Cons.prems write_takes(1) [OF assms] in \<open>auto simp: exec_defs\<close>)
qed (auto simp: modify_def plaintext_def)

lemma frames_send:
  assumes "tls_writes (ce_tls E) w"
  shows "steps False (keeps (whole_frames \<circ> plaintext w)) (send_frame_or_queue E f) c"
proof (rule stepsI)
  fix c' assume run: "exec_state (send_frame_or_queue E f c) = Some c'"
  consider b where "frame_append_to_wire f [] = Some b" "plaintext w c' = plaintext w c @ b"
    | "plaintext w c' = plaintext w c"
    using run drain_queue_stream [OF assms, of _ _ c']
    by (cases "frame_append_to_wire f []") (fastforce simp: send_frame_eq plaintext_def Let_def split: if_splits)+
  then show "keeps (whole_frames \<circ> plaintext w) c c'"
    by cases (simp_all add: keeps_def whole_frames_snoc)
qed (simp add: no_fuel_send)

lemma frames_same:
  "(\<And>c'. exec_state (m c) = Some c' \<Longrightarrow> plaintext w c' = plaintext w c) \<Longrightarrow> m c \<noteq> OutOfFuel \<Longrightarrow>
    steps False (keeps (whole_frames \<circ> plaintext w)) m c"
  by (rule stepsI) (simp_all add: keeps_def)

lemma frames_call: "tls_takes_nothing w f \<Longrightarrow> steps False (keeps (whole_frames \<circ> plaintext w)) (session_call f) c"
  by (rule frames_same)
    (auto simp: plaintext_def session_call_def Let_def split: option.splits sum.splits, (erule tls_takes_nothingD, assumption)+)

lemma frames_other:
  assumes "tls_writes (ce_tls E) w"
  shows "steps False (keeps (whole_frames \<circ> plaintext w)) (session_has_timed_out E) c"
    and "steps False (keeps (whole_frames \<circ> plaintext w)) (session_try_read E) c"
  by (auto simp: plaintext_def session_has_timed_out_def session_try_read_def Let_def
      split: option.splits sum.splits intro!: frames_same) (erule tls_writes_otherD [OF assms])+

lemma frames_plain:
  "steps False (keeps (whole_frames \<circ> plaintext w)) (conn_udp_send E b x) c"
  "steps False (keeps (whole_frames \<circ> plaintext w)) (enter_state st) c"
  by (auto simp: plaintext_def conn_udp_send_def enter_state_def conn_event_def app_note_def exec_defs
      split: option.splits if_splits intro!: frames_same)

lemma frames_laws:
  assumes "tls_writes (ce_tls E) w"
  shows "conn_entry (keeps (whole_frames \<circ> plaintext w)) E"
proof -
  have "tls_takes_nothing w (tls_try_negotiate (ce_tls E))" "tls_takes_nothing w (tls_try_shutdown (ce_tls E))"
    "tls_takes_nothing w (tls_try_trigger_update_key (ce_tls E))"
    using assms by (simp_all add: tls_writes_def)
  note laws = this [THEN frames_call] frames_send [OF assms] frames_other [OF assms] frames_plain
  show ?thesis by unfold_locales (auto simp: keeps_def plaintext_def obs_def intro: laws)
qed

text \<open>
  C11. The TLS session never sees a torn or interleaved frame: while the session's writes do not
  fail, in every reachable connection the plaintext the session has taken followed by the pending
  queue is exactly a sequence of whole encoded frames, however the session splits or blocks the
  writes and whatever frames a datagram connection drops.
\<close>

theorem plaintext_is_frames:
  fixes c :: "('s, 'k, 'm) conn"
  assumes "tls_writes (ce_tls E) w" and "w (na_session args) = []" and "conn_reachable E args c"
  shows "whole_frames (w (cn_session c) @ concat (cn_tls_pending_queue c))"
proof -
  obtain pmtud where "keeps (whole_frames \<circ> plaintext w) (conn_init args (ce_now E []) pmtud) c"
    using conn_entry.rel_reachable [OF frames_laws [OF assms(1)] assms(3)] .
  then show ?thesis by (simp add: keeps_def plaintext_def conn_init_def assms(2) whole_frames_Nil)
qed

lemma plain_tls_writes: "tls_writes plain_tls id"
proof -
  have "\<exists>n. b = drop n b \<and> (n = 0 \<or> b = [])" for b :: bytes by (rule exI [of _ 0]) simp
  then show ?thesis
    by (auto simp: tls_writes_def tls_takes_nothing_def plain_tls_def split: option.splits io_result.splits if_splits)
qed

theorem plaintext_is_frames_witness:
  "\<exists>c. conn_reachable ex_env (ex_args Stream ex_server) c
    \<and> whole_frames (id (cn_session c) @ concat (cn_tls_pending_queue c))"
proof -
  obtain c where c: "conn_reachable ex_env (ex_args Stream ex_server) c" using ex_session by blast
  have "tls_writes (ce_tls ex_env) id" using plain_tls_writes by (simp add: ex_env_defs)
  then show ?thesis using plaintext_is_frames [OF _ _ c, of id] c by (auto simp: ex_args_def)
qed

end
