(* ===== verification/Connection_Lane.thy ===== *)
theory Connection_Lane
  imports Connection_Props
begin

text \<open>
  When an ExpressLane is given up and that it stays given up: the loss test, the strike counter
  as a leaky bucket, and the errors a lossy or forged packet causes.
\<close>

section \<open>The loss test\<close>

lemma f64_shift_small: "n < 2 ^ 53 \<Longrightarrow> f64_shift n = 0"
  by (simp add: f64_shift_def upt_rec)

lemma f64_of_u64_exact: "unat w < 2 ^ 53 \<Longrightarrow> f64_of_u64 w = unat w"
  by (simp add: f64_of_u64_def f64_shift_small Let_def)

lemma f64_ratio_exact: "y < 2 ^ 53 \<Longrightarrow> f64_ratio_above_half x y \<longleftrightarrow> y < 2 * x"
proof -
  assume "y < 2 ^ 53"
  then have "2 ^ 53 * (2 * x) > 2 ^ 53 * y + y" if "y < 2 * x"
  proof -
    have "2 ^ 53 * (2 * x) \<ge> 2 ^ 53 * (y + 1)" using that by (intro mult_le_mono2) simp
    then show ?thesis using \<open>y < 2 ^ 53\<close> by simp
  qed
  moreover have "2 ^ 53 * (2 * x) \<le> 2 ^ 53 * y + y" if "\<not> y < 2 * x"
    using that by (simp add: trans_le_add1)
  ultimately show ?thesis by (auto simp: f64_ratio_above_half_def algebra_simps)
qed

definition lossy :: "u64 \<times> u64 \<Rightarrow> bool" where
  "lossy = (\<lambda>(sent, received). 10 \<le> unat sent \<and> unat sent < 2 * (unat sent - unat received))"

lemma has_packet_drops_lossy:
  assumes "unat sent < 2 ^ 53"
  shows "has_packet_drops sent received = lossy (sent, received)"
proof -
  have loss: "unat (sat_sub sent received) = unat sent - unat received"
    by (auto simp: sat_sub_def unat_sub word_le_nat_alt)
  then have "unat (sat_sub sent received) < 2 ^ 53" using assms by simp
  then show ?thesis
    using assms loss
    by (auto simp: has_packet_drops_def lossy_def Let_def f64_of_u64_exact f64_ratio_exact word_less_nat_alt)
qed

section \<open>Strikes\<close>

text \<open>
  The windows one direction of a lane reports, as \<open>check_expresslane_health\<close> feeds them to
  \<open>advance_strikes\<close> until it degrades the lane; and a stretch of windows in which the lossy
  ones outnumber the others by three.
\<close>

fun strike_run :: "u8 \<Rightarrow> (u64 \<times> u64) list \<Rightarrow> bool" where
  "strike_run strikes [] = False"
| "strike_run strikes ((sent, received) # ws) =
     (case advance_strikes strikes sent received of
        (strikes, degrade) \<Rightarrow> degrade \<or> strike_run strikes ws)"

definition excess :: "(u64 \<times> u64) list \<Rightarrow> int" where
  "excess ws = (\<Sum>w\<leftarrow>ws. if lossy w then 1 else - 1)"

definition bad_stretch :: "(u64 \<times> u64) list \<Rightarrow> bool" where
  "bad_stretch ws \<longleftrightarrow> (\<exists>i j. excess (take j (drop i ws)) \<ge> 3)"

definition bad_from :: "nat \<Rightarrow> (u64 \<times> u64) list \<Rightarrow> bool" where
  "bad_from s ws \<longleftrightarrow> (\<exists>j. int s + excess (take j ws) \<ge> 3) \<or> bad_stretch ws"

lemma excess_Nil [simp]: "excess [] = 0"
  and excess_Cons [simp]: "excess (w # ws) = (if lossy w then 1 else - 1) + excess ws"
  by (simp_all add: excess_def)

lemma ex_take_Cons: "(\<exists>j. P (take j (w # ws))) \<longleftrightarrow> P [] \<or> (\<exists>j. P (w # take j ws))"
  by (metis take_0 take_Suc_Cons not0_implies_Suc)

lemma excess_take_Cons: "excess (take j (w # ws)) \<ge> 3 \<Longrightarrow> \<exists>j. (if lossy w then 1 else - 1) + excess (take j ws) \<ge> 3"
  by (cases j) (auto simp del: excess_Cons simp: excess_Cons [of w])

lemma bad_stretch_Cons: "bad_stretch (w # ws) \<longleftrightarrow> (\<exists>j. excess (take j (w # ws)) \<ge> 3) \<or> bad_stretch ws"
  unfolding bad_stretch_def by (metis drop_0 drop_Suc_Cons not0_implies_Suc)

lemma bad_stretch_take: "\<exists>j. excess (take j ws) \<ge> 3 \<Longrightarrow> bad_stretch ws"
  unfolding bad_stretch_def by (rule exI [of _ 0]) simp

lemma bad_from_Nil: "s < 3 \<Longrightarrow> \<not> bad_from s []"
  by (simp add: bad_from_def bad_stretch_def)

lemma bad_from_lossy:
  assumes "s < 3" and "lossy w"
  shows "bad_from s (w # ws) \<longleftrightarrow> s + 1 \<ge> 3 \<or> bad_from (s + 1) ws"
proof -
  have "\<exists>j. int (s + 1) + excess (take j ws) \<ge> 3" if some: "\<exists>j. excess (take j (w # ws)) \<ge> 3"
  proof -
    obtain k where "excess (take k (w # ws)) \<ge> 3" using some by blast
    then obtain j where "1 + excess (take j ws) \<ge> 3" using excess_take_Cons [of k w ws] assms(2) by auto
    then show ?thesis by (intro exI [of _ j]) simp
  qed
  moreover have "(\<exists>j. int s + excess (take j (w # ws)) \<ge> 3) \<longleftrightarrow> (\<exists>j. int (s + 1) + excess (take j ws) \<ge> 3)"
    using assms by (subst ex_take_Cons) (simp add: add.assoc add.left_commute)
  moreover have "s + 1 \<ge> 3 \<Longrightarrow> \<exists>j. int (s + 1) + excess (take j ws) \<ge> 3" by (rule exI [of _ 0]) simp
  ultimately show ?thesis by (auto simp: bad_from_def bad_stretch_Cons)
qed

lemma bad_from_good:
  assumes "s < 3" and "\<not> lossy w"
  shows "bad_from s (w # ws) \<longleftrightarrow> bad_from (s - 1) ws"
proof -
  have "\<exists>j. excess (take j ws) \<ge> 3" if some: "\<exists>j. excess (take j (w # ws)) \<ge> 3"
  proof -
    obtain k where "excess (take k (w # ws)) \<ge> 3" using some by blast
    then obtain j where "- 1 + excess (take j ws) \<ge> 3" using excess_take_Cons [of k w ws] assms(2) by auto
    then show ?thesis by (intro exI [of _ j]) simp
  qed
  moreover have "(\<exists>j. int s + excess (take j (w # ws)) \<ge> 3) \<longleftrightarrow> (\<exists>j. int s - 1 + excess (take j ws) \<ge> 3)"
    using assms by (subst ex_take_Cons) (simp add: algebra_simps)
  moreover have "(\<exists>j. - 1 + excess (take j ws) \<ge> 3) \<Longrightarrow> (\<exists>j. excess (take j ws) \<ge> 3)"
    by (elim exE, rule_tac x = j in exI) simp
  ultimately show ?thesis
    using bad_stretch_take by (cases s) (auto simp: bad_from_def bad_stretch_Cons)
qed

lemma advance_strikes_eq:
  assumes "unat strikes < 3" and "unat sent < 2 ^ 53"
  shows "advance_strikes strikes sent received =
    (if lossy (sent, received) then (strikes + 1, unat strikes + 1 \<ge> 3) else (sat_sub strikes 1, False))"
proof -
  have "unat (strikes + 1) = unat strikes + 1" 
    using assms(1) unat_plus_one [of strikes 3] by (simp add: word_less_nat_alt)
  then show ?thesis
    using assms
    by (auto simp: advance_strikes_def has_packet_drops_lossy sat_add_def const_defs Let_def word_le_nat_alt)
qed

lemma strike_run_exact:
  assumes "\<forall>(sent, received)\<in>set ws. unat sent < 2 ^ 53"
  shows "unat strikes < 3 \<Longrightarrow> strike_run strikes ws = bad_from (unat strikes) ws"
  using assms
proof (induction ws arbitrary: strikes)
  case (Cons w ws)
  obtain sent received where w: "w = (sent, received)" by force
  have small: "unat sent < 2 ^ 53" using Cons.prems w by simp
  have sub: "unat (sat_sub strikes 1) = unat strikes - 1"
    by (auto simp: sat_sub_def unat_sub word_le_nat_alt)
  have add: "unat (strikes + 1) = unat strikes + 1"
    using Cons.prems unat_plus_one [of strikes 3] by (simp add: word_less_nat_alt)
  show ?case
  proof (cases "lossy w")
    case True
    then show ?thesis
      using Cons.prems Cons.IH [of "strikes + 1"] add small
      by (cases "unat strikes + 1 < 3") (auto simp: w advance_strikes_eq bad_from_lossy)
  next
    case False
    then show ?thesis
      using Cons.prems Cons.IH [of "sat_sub strikes 1"] sub small
      by (auto simp: w advance_strikes_eq bad_from_good)
  qed
qed (simp add: bad_from_Nil)

text \<open>
  Loss degrades a lane exactly when it persists: over any reports with fewer than \<open>2^53\<close>
  packets each, the strike counter asks to degrade if and only if there is a stretch of
  consecutive reports in which those that lost more than half of at least ten packets outnumber
  the others by \<open>EXPRESSLANE_DEGRADE_STRIKES\<close>. Below \<open>2^53\<close> the floating-point test is exact.
\<close>

lemma strikes_leaky_bucket:
  assumes "\<forall>(sent, received)\<in>set ws. unat sent < 2 ^ 53"
  shows "strike_run 0 ws \<longleftrightarrow> (\<exists>i j. excess (take j (drop i ws)) \<ge> int (unat EXPRESSLANE_DEGRADE_STRIKES))"
proof -
  have "bad_from 0 ws \<longleftrightarrow> bad_stretch ws"
    using bad_stretch_take by (auto simp: bad_from_def)
  then show ?thesis using strike_run_exact [OF assms, of 0] by (simp add: bad_stretch_def const_defs)
qed

lemma strikes_leaky_bucket_witness:
  "strike_run 0 [(100, 0), (100, 100), (10, 4), (20, 9), (11, 0)]"
proof -
  let ?ws = "[(100, 0), (100, 100), (10, 4), (20, 9), (11, 0)] :: (u64 \<times> u64) list"
  have "excess (take 3 (drop 2 ?ws)) = 3" by (simp add: lossy_def)
  then have "\<exists>i j. excess (take j (drop i ?ws)) \<ge> int (unat EXPRESSLANE_DEGRADE_STRIKES)"
    by (intro exI [of _ 2] exI [of _ 3]) (simp add: const_defs)
  then show ?thesis using strikes_leaky_bucket [of ?ws] by simp
qed

section \<open>A degraded lane\<close>

text \<open>
  C26. A degraded lane stays degraded: after any further calls the lane is not ready again, no key
  is rotated, and every packet to the peer is handed to the TLS session as a data frame (or
  refused for its size), never sent as an ExpressLane packet.
\<close>

theorem degraded_lane_is_final:
  fixes c :: "('s, 'k, 'm) conn"
  assumes "conn_runs E c c'" and "xl_state (cn_expresslane c) = XlDegraded"
  shows "xl_state (cn_expresslane c') = XlDegraded \<and> \<not> expresslane_ready c'
    \<and> rotate_expresslane_key E c' \<in> {Ret () c', Err CeExpreslaneDegraded c'}
    \<and> send_outside_data E pkt is_encoded c' \<in> {Err (CeInvalidInsidePacket InvalidPacketSize) c', Panic,
        send_frame_or_queue E (if is_encoded then EncodedData \<lparr>data_data = pkt\<rparr> else Data \<lparr>data_data = pkt\<rparr>) c'}"
proof -
  have "xl_state (cn_expresslane c') = XlDegraded"
    using degraded.runs_invariant [OF assms(1)] assms(2) by simp
  then show ?thesis
    by (auto simp: expresslane_ready_def rotate_expresslane_key_def send_outside_data_def exec_defs split: option.splits)
qed

definition ex_degraded :: "(bytes, bytes, nat \<times> (u16 \<times> fragmented_packet) list) conn" where
  "ex_degraded = (let c = conn_init (ex_args Datagram ex_client) 0 None in
     c\<lparr>cn_state := Online, cn_expresslane := (cn_expresslane c)\<lparr>xl_state := XlDegraded\<rparr>\<rparr>)"

theorem degraded_lane_is_final_witness:
  "\<exists>c'. conn_apply ex_env 1 CallRotateExpresslaneKey ex_degraded = Err CeExpreslaneDegraded c'
    \<and> \<not> expresslane_ready c'"
proof -
  have run: "conn_apply ex_env 1 CallRotateExpresslaneKey ex_degraded = Err CeExpreslaneDegraded ex_degraded"
    by (simp add: rotate_expresslane_key_def ex_degraded_def expresslane_supported_def conn_init_def ex_args_def
        is_datagram_def exec_defs Let_def version_try_new_def version_MAXIMUM_def
        version_MINIMUM_def less_eq_version_def less_version_def)
  then have "conn_runs ex_env ex_degraded ex_degraded"
    by (intro conn_runs.call [OF conn_runs.none, where fuel = 1 and a = CallRotateExpresslaneKey]) simp
  moreover have "xl_state (cn_expresslane ex_degraded) = XlDegraded" by (simp add: ex_degraded_def Let_def)
  ultimately show ?thesis using degraded_lane_is_final [of ex_env ex_degraded ex_degraded] run by blast
qed

section \<open>Packets that do not open\<close>

text \<open>
  C27. A packet that claims to be ExpressLane data and does not open, forged, replayed, truncated
  or for a lane without keys, is reported as a wire error that is never fatal on a datagram
  connection, and changes nothing but the time of the last packet: keys, replay window and
  counters, the TLS session, the queue and the state are as before.
\<close>

theorem expresslane_errors_transient:
  assumes "hdr_expresslane_data h"
    and "els_try_from_wire (ce_aead E) (xl_data (cn_expresslane c)) buf (hdr_session h) = (Inl err, buf', d)"
  shows "\<exists>now. process_new_outside_data E fuel buf (Some h) c =
      Err (CeWireError (expresslane_decrypt_error err))
        (c\<lparr>cn_log := cn_log c @ [AppNow now], cn_activity := (cn_activity c)\<lparr>last_outside_data_received := now\<rparr>\<rparr>)
    \<and> \<not> is_fatal Datagram (CeWireError (expresslane_decrypt_error err))"
proof -
  have "d = xl_data (cn_expresslane c)"
    using assms(2) by (auto simp: els_try_from_wire_eq Let_def split: if_splits sum.splits)
  then show ?thesis
    using assms
    by (auto simp: process_new_outside_data_def app_now_def app_note_def update_xl_def exec_defs is_fatal_def
        expresslane_decrypt_error_def split: expresslane_error.split)
qed

theorem expresslane_errors_transient_witness:
  "\<exists>c'. process_new_outside_data ex_env 1 (replicate 39 0)
       (Some \<lparr>hdr_version = version_MAXIMUM, hdr_aggressive_mode = False, hdr_expresslane_data = True,
              hdr_session = replicate 8 1\<rparr>) ex_degraded
     = Err (CeWireError InsufficientData) c'"
proof -
  let ?h = "\<lparr>hdr_version = version_MAXIMUM, hdr_aggressive_mode = False, hdr_expresslane_data = True,
    hdr_session = replicate 8 1\<rparr>"
  have "els_try_from_wire (ce_aead ex_env) (xl_data (cn_expresslane ex_degraded)) (replicate 39 0) (hdr_session ?h)
      = (Inl ELInsufficientData, replicate 39 0, xl_data (cn_expresslane ex_degraded))"
    by (simp add: els_try_from_wire_eq)
  then show ?thesis
    using expresslane_errors_transient [of ?h ex_env ex_degraded "replicate 39 0"]
    by (auto simp: expresslane_decrypt_error_def)
qed

end
