(* ===== verification/Connection_Session.thy ===== *)
theory Connection_Session
  imports Connection_Props
begin

text \<open>
  Exchanges between the two ends: the authentication reply and the inside configuration the
  client takes from it, session id rotation, and the negotiation of the inside packet codec.
\<close>

section \<open>The authentication reply\<close>

lemma valid_utf8_ascii: "\<forall>b\<in>set bs. unat b < 128 \<Longrightarrow> valid_utf8 bs"
  by (induction bs) (simp_all add: word_less_nat_alt)

lemma digits_fixed_string:
  assumes "length s \<le> 23" and "\<forall>b\<in>set s. is_digit b \<or> b = 46"
  shows "fixed_string_ok s"
proof -
  have "\<forall>b\<in>set s. 46 \<le> unat b \<and> unat b < 128" using assms(2) by (fastforce simp: is_digit_def)
  then show ?thesis
    using assms(1) by (auto simp: fixed_string_ok_def const_defs intro!: valid_utf8_ascii)
qed

lemma auth_success_for_ok:
  assumes "mtu < 2 ^ 64" and "length session = 8"
  shows "auth_success_ok (auth_success_for ip mtu session)"
    and "inside_ip_config_try_from (auth_success_for ip mtu session) = Some ip"
    and "usize_from_str (as_mtu (auth_success_for ip mtu session)) = Some mtu"
proof -
  have "length (show_nat mtu) \<le> 20" using assms(1) length_show [of mtu 19] by simp
  moreover have "length (ipv4_to_string a) \<le> 23" for a using ipv4_text [of a] by simp
  ultimately show "auth_success_ok (auth_success_for ip mtu session)"
    using assms(2) ipv4_text is_digit_show
    by (auto simp: auth_success_ok_def auth_success_for_def intro!: digits_fixed_string)
qed (simp_all add: auth_success_for_def inside_ip_config_try_from_def ipv4_text usize_text [OF assms(1)])

text \<open>
  C24. The inside configuration the server allocates is the one the client applies: the reply
  \<open>handle_auth_request\<close> sends encodes without a panic, decodes to itself in front of any further
  bytes, and a client that handles it hands exactly the server's addresses to its configuration
  callback and goes on to \<open>Online\<close>.
\<close>

theorem auth_config_roundtrip:
  assumes "mtu < 2 ^ 64" and "length session = 8"
    and "cn_mode c = ClientMode am" and "cn_state c \<noteq> Online"
    and "cn_connection_type c = Stream \<or> (\<exists>r \<le> cn_outside_mtu c. dtls_required_outside_mtu mtu = Some r)"
  shows "\<exists>b. frame_append_to_wire (AuthSuccessWithConfigV4 (auth_success_for ip mtu session)) [] = Some b
    \<and> frame_try_from_wire (b @ rest) = Some (Inr (AuthSuccessWithConfigV4 (auth_success_for ip mtu session)), rest)
    \<and> handle_frame E (AuthSuccessWithConfigV4 (auth_success_for ip mtu session)) c =
        set_state E Online (c\<lparr>cn_log := cn_log c @ [AppIpConfig ip]\<rparr>)"
proof -
  note ok = auth_success_for_ok [OF assms(1,2), of ip]
  let ?f = "AuthSuccessWithConfigV4 (auth_success_for ip mtu session)"
  have "frame_ok ?f" using ok by simp
  then obtain b where b: "frame_append_to_wire ?f [] = Some b" using frame_wire by fastforce
  then have "frame_try_from_wire (b @ rest) = Some (Inr ?f, rest)"
    using \<open>frame_ok ?f\<close> by (intro frame_try_from_wire_append)
  moreover have "handle_frame E ?f c = set_state E Online (c\<lparr>cn_log := cn_log c @ [AppIpConfig ip]\<rparr>)"
    using ok assms by (auto simp: handle_frame_def handle_auth_response_def app_note_def is_datagram_def exec_defs)
  ultimately show ?thesis using b by blast
qed

definition ex_connecting :: "(bytes, bytes, nat \<times> (u16 \<times> fragmented_packet) list) conn" where
  "ex_connecting = (conn_init (ex_args Stream ex_client) 0 None)\<lparr>cn_state := Authenticating\<rparr>"

theorem auth_config_roundtrip_witness:
  "handle_frame ex_env (AuthSuccessWithConfigV4 (auth_success_for ex_ip 1350 (replicate 8 1))) ex_connecting =
     set_state ex_env Online (ex_connecting\<lparr>cn_log := cn_log ex_connecting @ [AppIpConfig ex_ip]\<rparr>)"
proof -
  have "cn_mode ex_connecting = ClientMode (Token [97])" "cn_state ex_connecting \<noteq> Online"
    "cn_connection_type ex_connecting = Stream"
    by (simp_all add: ex_connecting_def conn_init_def ex_args_def ex_client_def)
  then show ?thesis
    using auth_config_roundtrip [of 1350 "replicate 8 1" ex_connecting "Token [97]" ex_ip "[]" ex_env] by auto
qed

text \<open>
  The check on the path MTU: a datagram client whose outside MTU is too small for the inside MTU
  is refused when path MTU discovery is running, and only then.
\<close>

lemma path_mtu_required_iff_pmtud:
  assumes "cn_connection_type c = Datagram" and "cn_state c \<noteq> Online" and "cn_mode c = ClientMode am"
    and "usize_from_str (as_mtu cfg) = Some inside_mtu" and "dtls_required_outside_mtu inside_mtu = Some required"
    and "cn_outside_mtu c < required" and "inside_ip_config_try_from cfg = Some ip"
  shows "handle_auth_response E cfg c =
    (if cn_pmtud c \<noteq> None then Err (CePathMtuDiscoveryRequired inside_mtu required) c
     else set_state E Online (c\<lparr>cn_log := cn_log c @ [AppIpConfig ip]\<rparr>))"
  using assms by (simp add: handle_auth_response_def app_note_def is_datagram_def exec_defs)

section \<open>Session id rotation\<close>

definition same_ids :: "('s, 'k, 'm) conn \<Rightarrow> ('s, 'k, 'm) conn \<Rightarrow> bool" where
  "same_ids c c' \<longleftrightarrow> cn_mode c' = cn_mode c \<and> cn_session_id c' = cn_session_id c \<and> cn_event_cb c' = cn_event_cb c"

interpretation ids: step_rel same_ids
  by unfold_locales (auto simp: same_ids_def)

lemma ids_link: "link_only c c' \<Longrightarrow> same_ids c c'"
  by (cases c; cases c'; simp add: same_ids_def link_only_def)

lemma ids_modify: "same_ids c (f c) \<Longrightarrow> steps F same_ids (modify f) c"
  by (simp add: steps_def modify_def)

lemma ids_note [steps_intros]: "steps F same_ids (app_note a) c"
  unfolding app_note_def by (rule ids_modify) (simp add: same_ids_def)

lemma ids_send [steps_intros]: "steps F same_ids (send_frame_or_queue E f) c"
  by (rule steps_mono [OF link_send_frame]) (rule ids_link)

lemma ids_keepalive: "steps F same_ids (keepalive E) c"
  by (auto simp: keepalive_def encode_expresslane_metrics_payload_def xl_stats_def Let_def intro!: steps_intros)

lemma ids_sample: "steps True same_ids (sample_session_id E fuel) c"
proof (induction fuel arbitrary: c)
  case 0
  then show ?case by (simp add: steps_def)
qed (auto simp: app_random_def intro!: steps_intros)

lemma sample_not_reserved: "sample_session_id E fuel c = Ret new c' \<Longrightarrow> \<not> session_is_reserved new"
  by (induction fuel arbitrary: c) (auto simp: exec_splits_Ret ret_def split: if_splits)


definition ex_serving :: "(bytes, bytes, nat \<times> (u16 \<times> fragmented_packet) list) conn" where
  "ex_serving = (conn_init (ex_args Stream ex_server) 0 None)\<lparr>cn_state := Online\<rparr>"

lemma ex_rotation:
  "case rotate_session_id (ex_env_with G) 1 ex_serving of Ret new _ \<Rightarrow> new = replicate 8 7 | _ \<Rightarrow> False"
  by code_simp


section \<open>Codec negotiation\<close>

text \<open>
  A client applies the answer to its latest codec request once: after \<open>set_encoding\<close> a
  response with another id changes nothing, the response with the id of the request sets the
  encoder as the server says and closes the request, and the same response again changes nothing.
\<close>

lemma codec_response_once:
  assumes "set_encoding E enable c = Ret () c1" and "\<not> is_server c"
  shows "(eres_id te \<noteq> ers_id_counter (cn_encoding_request_states c) + 1 \<longrightarrow>
      process_encoding_response_pkt E te c1 = Ret () c1)
    \<and> (eres_id te = ers_id_counter (cn_encoding_request_states c) + 1 \<longrightarrow>
      (\<exists>c2. process_encoding_response_pkt E te c1 = Ret () c2
        \<and> AppEncoderSet (eres_enable te) \<in> set (drop (length (cn_log c1)) (cn_log c2))
        \<and> ers_pending_request_pkt (cn_encoding_request_states c2) = None
        \<and> process_encoding_response_pkt E te c2 = Ret () c2))"
proof -
  let ?id = "ers_id_counter (cn_encoding_request_states c) + 1"
  let ?req = "\<lparr>ereq_id = ?id, ereq_enable = enable\<rparr>"
  obtain l where guards: "cn_inside_pkt_encoder c" "cn_state c = Online" "cn_connection_type c = Datagram"
    and send: "send_frame_or_queue E (EncodingRequest ?req) (c\<lparr>cn_encoding_request_states :=
      \<lparr>ers_id_counter = ?id, ers_pending_request_pkt = Some ?req, ers_retransmissions_counter = 0\<rparr>, cn_log := l\<rparr>) = Ret () c1"
      (is "send_frame_or_queue _ _ ?c0 = _")
    using assms
    by (auto simp: set_encoding_def with_state_def Let_def then_do_Ret schedule_codec_tick_def schedule_tick_def
        exec_splits_Ret of_option_Ret throw_def split: if_splits)
  have "link_only ?c0 c1" using link_send_frame send by (rule steps_RetD)
  then have c1: "c1 = ?c0\<lparr>cn_session := cn_session c1, cn_io := cn_io c1, cn_tls_pending_queue := cn_tls_pending_queue c1\<rparr>"
    by (simp add: link_only_def)
  have "cn_inside_pkt_encoder c1" "cn_state c1 = Online" "cn_connection_type c1 = Datagram" "\<not> is_server c1"
    "cn_encoding_request_states c1 = \<lparr>ers_id_counter = ?id, ers_pending_request_pkt = Some ?req, ers_retransmissions_counter = 0\<rparr>"
    using guards assms(2) by (subst c1, simp)+
  then show ?thesis
    by (auto simp: process_encoding_response_pkt_def conn_event_def app_note_def exec_defs is_server_def)
qed

definition ex_codec :: "(bytes, bytes, nat \<times> (u16 \<times> fragmented_packet) list) conn" where
  "ex_codec = (conn_init (ex_args Datagram ex_client) 0 None)\<lparr>cn_state := Online, cn_inside_pkt_encoder := True\<rparr>"

lemma codec_response_once_witness:
  "\<exists>c1 c2. set_encoding ex_env True ex_codec = Ret () c1
    \<and> process_encoding_response_pkt ex_env \<lparr>eres_id = 1, eres_enable = True\<rparr> c1 = Ret () c2
    \<and> ers_pending_request_pkt (cn_encoding_request_states c2) = None"
proof -
  have "\<exists>c1. set_encoding ex_env True ex_codec = Ret () c1"
    by (simp add: set_encoding_def ex_codec_def ex_env_defs plain_tls_def sink_socket_def conn_init_def ex_args_def
        ex_client_def exec_defs schedule_codec_tick_def schedule_tick_def app_note_def ers_retransmit_wait_time_def
        send_frame_or_queue_def queue_limit_def is_datagram_def frame_append_to_wire_def encoding_request_append_to_wire_def
        session_try_write_def io_send_def io_fresh_def udp_send_def udp_send_final_def sock_send_def do_egress_def
        gb_is_batching_def gso_buffer_default_def Let_def)
  then obtain c1 where run: "set_encoding ex_env True ex_codec = Ret () c1" by blast
  have "\<not> is_server ex_codec" "ers_id_counter (cn_encoding_request_states ex_codec) = 0"
    by (simp_all add: ex_codec_def conn_init_def ex_args_def ex_client_def is_server_def)
  then show ?thesis
    using codec_response_once [OF run, of "\<lparr>eres_id = 1, eres_enable = True\<rparr>"] run by auto
qed

end
