(* ===== verification/Server_Ip.thy ===== *)
theory Server_Ip
  imports Ip_Text "HOL-Library.AList_Mapping" "HOL-Library.Multiset"
begin

text \<open>
  The addresses a server hands to its clients (lightway-server/src/ip_manager/ip_pool.rs and
  ip_manager.rs): the pool, the sub-pools split off for particular local addresses, and the map
  from an address to its connection. Every operation runs under the manager's lock, so it is one
  step. The address ranges of the ipnet crate are the parameter \<open>ipnet_ops\<close>, the shuffle of the
  rand crate is a function argument. A \<open>HashMap\<close> that is consumed is the list of its entries in
  the order it yields them.
\<close>

section \<open>Types\<close>

record 'n ipnet_ops =
  in_network :: "'n \<Rightarrow> u32"
  in_broadcast :: "'n \<Rightarrow> u32"
  in_hosts :: "'n \<Rightarrow> u32 list"
  in_contains :: "'n \<Rightarrow> u32 \<Rightarrow> bool"

record ip_pool =
  ipp_reserved_ips :: "u32 set"
  ipp_allocated_ips :: "u32 set"
  ipp_available_ips :: "u32 list"

record 'c ip_manager =
  im_ip_to_conn_map :: "(u32, 'c) mapping"
  im_ip_map :: "(ip_addr, ip_pool) mapping"
  im_ip_pool :: ip_pool
  im_static_ip_config :: inside_ip_config
  im_use_dynamic_client_ip :: bool

text \<open>The part of \<open>ConnectionState\<close> the manager uses; \<open>cs_conn\<close> is set once, after creation.\<close>

record 'c connection_state =
  cs_local_ip :: ip_addr
  cs_internal_ip :: "u32 option"
  cs_conn :: "'c option"

section \<open>The pool\<close>

definition ip_pool_new :: "'n ipnet_ops \<Rightarrow> 'n \<Rightarrow> u32 list \<Rightarrow> ip_pool" where
  "ip_pool_new N net reserved =
     (let reserved_ips = set (reserved @ [in_network N net] @ [in_broadcast N net]) in
      \<lparr>ipp_reserved_ips = reserved_ips, ipp_allocated_ips = {},
       ipp_available_ips = filter (\<lambda>ip. ip \<notin> reserved_ips) (in_hosts N net)\<rparr>)"

definition shuffle_ips :: "(u32 list \<Rightarrow> u32 list) \<Rightarrow> ip_pool \<Rightarrow> ip_pool" where
  "shuffle_ips shuffle p = p\<lparr>ipp_available_ips := shuffle (ipp_available_ips p)\<rparr>"

definition allocate_ip :: "ip_pool \<Rightarrow> u32 option \<times> ip_pool" where
  "allocate_ip p =
     (case ipp_available_ips p of
        [] \<Rightarrow> (None, p)
      | ip # ips \<Rightarrow> (Some ip, p\<lparr>ipp_available_ips := ips, ipp_allocated_ips := insert ip (ipp_allocated_ips p)\<rparr>))"

definition free_ip :: "u32 \<Rightarrow> ip_pool \<Rightarrow> ip_pool" where
  "free_ip ip p =
     (if ip \<notin> ipp_allocated_ips p then p
      else p\<lparr>ipp_allocated_ips := ipp_allocated_ips p - {ip}, ipp_available_ips := ipp_available_ips p @ [ip]\<rparr>)"

definition split_subnet :: "'n ipnet_ops \<Rightarrow> 'n \<Rightarrow> ip_pool \<Rightarrow> ip_pool \<times> ip_pool" where
  "split_subnet N subnet p =
     (let available = filter (in_contains N subnet) (ipp_available_ips p);
          reserved = {ip \<in> ipp_reserved_ips p. in_contains N subnet ip} in
      (\<lparr>ipp_reserved_ips = reserved, ipp_allocated_ips = {}, ipp_available_ips = available\<rparr>,
       p\<lparr>ipp_available_ips := filter (\<lambda>ip. ip \<notin> set available) (ipp_available_ips p)\<rparr>))"

section \<open>The manager\<close>

fun split_subnets :: "'n ipnet_ops \<Rightarrow> (ip_addr \<times> 'n) list \<Rightarrow> ip_pool \<Rightarrow> (ip_addr \<times> ip_pool) list \<times> ip_pool" where
  "split_subnets N [] p = ([], p)"
| "split_subnets N ((ip, subnet) # es) p =
     (let (sub, p) = split_subnet N subnet p; (subs, p) = split_subnets N es p in ((ip, sub) # subs, p))"

definition ip_manager_new ::
  "'n ipnet_ops \<Rightarrow> (u32 list \<Rightarrow> u32 list) \<Rightarrow> 'n \<Rightarrow> (ip_addr \<times> 'n) list \<Rightarrow> u32 list \<Rightarrow> inside_ip_config \<Rightarrow> bool \<Rightarrow> bool \<Rightarrow> 'c ip_manager"
  where
  "ip_manager_new N shuffle net ip_map reserved static_ip_config use_dynamic_client_ip randomize_ippool =
     (let ip_pool = ip_pool_new N net reserved;
          ip_pool = (if randomize_ippool then shuffle_ips shuffle ip_pool else ip_pool);
          (subs, ip_pool) = split_subnets N ip_map ip_pool in
      \<lparr>im_ip_to_conn_map = Mapping.empty, im_ip_map = Mapping.of_alist subs, im_ip_pool = ip_pool,
       im_static_ip_config = static_ip_config, im_use_dynamic_client_ip = use_dynamic_client_ip\<rparr>)"

definition allocated_ips_count :: "'c ip_manager \<Rightarrow> nat" where
  "allocated_ips_count m = Mapping.size (im_ip_to_conn_map m)"

definition config_for_ip :: "'c ip_manager \<Rightarrow> u32 \<Rightarrow> inside_ip_config" where
  "config_for_ip m ip =
     (im_static_ip_config m)\<lparr>client_ip := if im_use_dynamic_client_ip m then ip else client_ip (im_static_ip_config m)\<rparr>"

text \<open>\<open>ip_map.get_mut(&local_ip).unwrap_or(ip_pool)\<close>: the pool read, and written back.\<close>

definition pool_for :: "ip_addr \<Rightarrow> 'c ip_manager \<Rightarrow> ip_pool" where
  "pool_for local_ip m = (case Mapping.lookup (im_ip_map m) local_ip of Some p \<Rightarrow> p | None \<Rightarrow> im_ip_pool m)"

definition put_pool :: "ip_addr \<Rightarrow> ip_pool \<Rightarrow> 'c ip_manager \<Rightarrow> 'c ip_manager" where
  "put_pool local_ip p m =
     (case Mapping.lookup (im_ip_map m) local_ip of
        Some _ \<Rightarrow> m\<lparr>im_ip_map := Mapping.update local_ip p (im_ip_map m)\<rparr>
      | None \<Rightarrow> m\<lparr>im_ip_pool := p\<rparr>)"

definition im_alloc :: "'c \<Rightarrow> ip_addr \<Rightarrow> 'c ip_manager \<Rightarrow> (u32 \<times> inside_ip_config) option \<times> 'c ip_manager" where
  "im_alloc conn local_ip m =
     (case allocate_ip (pool_for local_ip m) of
        (None, p) \<Rightarrow> (None, put_pool local_ip p m)
      | (Some ip, p) \<Rightarrow>
          let m = put_pool local_ip p m;
              m = m\<lparr>im_ip_to_conn_map := Mapping.update ip conn (im_ip_to_conn_map m)\<rparr> in
          (Some (ip, config_for_ip m ip), m))"

definition im_free :: "u32 \<Rightarrow> ip_addr \<Rightarrow> 'c ip_manager \<Rightarrow> 'c ip_manager" where
  "im_free ip local_ip m =
     (let m = put_pool local_ip (free_ip ip (pool_for local_ip m)) m in
      m\<lparr>im_ip_to_conn_map := Mapping.delete ip (im_ip_to_conn_map m)\<rparr>)"

definition find_connection :: "u32 \<Rightarrow> 'c ip_manager \<Rightarrow> 'c option" where
  "find_connection ip m = Mapping.lookup (im_ip_to_conn_map m) ip"

text \<open>
  The \<open>ServerIpPool\<close> implementation. \<open>None\<close> is the panic on a connection state without its handle;
  \<open>alive\<close> tells whether the weak handle can still be upgraded.
\<close>

definition server_alloc ::
  "('c \<Rightarrow> bool) \<Rightarrow> 'c connection_state \<Rightarrow> 'c ip_manager \<Rightarrow> (inside_ip_config option \<times> 'c connection_state \<times> 'c ip_manager) option"
  where
  "server_alloc alive state m =
     (case cs_conn state of
        None \<Rightarrow> None
      | Some conn \<Rightarrow> Some
          (if \<not> alive conn then (None, state, m)
           else case cs_internal_ip state of
               Some ip \<Rightarrow> (Some (config_for_ip m ip), state, m)
             | None \<Rightarrow>
                 (case im_alloc conn (cs_local_ip state) m of
                    (None, m) \<Rightarrow> (None, state, m)
                  | (Some (allocation, config), m) \<Rightarrow> (Some config, state\<lparr>cs_internal_ip := Some allocation\<rparr>, m))))"

definition server_free :: "'c connection_state \<Rightarrow> 'c ip_manager \<Rightarrow> 'c connection_state \<times> 'c ip_manager" where
  "server_free state m =
     (case cs_internal_ip state of
        None \<Rightarrow> (state, m)
      | Some ip \<Rightarrow> (state\<lparr>cs_internal_ip := None\<rparr>, im_free ip (cs_local_ip state) m))"

section \<open>The pools of a manager\<close>

definition pool_key :: "'c ip_manager \<Rightarrow> ip_addr \<Rightarrow> ip_addr option" where
  "pool_key m l = (if Mapping.lookup (im_ip_map m) l = None then None else Some l)"

fun pool_at :: "'c ip_manager \<Rightarrow> ip_addr option \<Rightarrow> ip_pool option" where
  "pool_at m None = Some (im_ip_pool m)"
| "pool_at m (Some l) = Mapping.lookup (im_ip_map m) l"

definition owned :: "ip_pool \<Rightarrow> u32 set" where
  "owned p = set (ipp_available_ips p) \<union> ipp_allocated_ips p"

definition pool_ok :: "ip_pool \<Rightarrow> bool" where
  "pool_ok p \<longleftrightarrow> distinct (ipp_available_ips p) \<and> set (ipp_available_ips p) \<inter> ipp_allocated_ips p = {}"

definition pools_ok :: "u32 set \<Rightarrow> 'c ip_manager \<Rightarrow> bool" where
  "pools_ok U m \<longleftrightarrow>
     (\<forall>k p. pool_at m k = Some p \<longrightarrow> pool_ok p)
     \<and> (\<forall>k p k' p'. pool_at m k = Some p \<longrightarrow> pool_at m k' = Some p' \<longrightarrow> k \<noteq> k' \<longrightarrow> owned p \<inter> owned p' = {})
     \<and> (\<forall>ip. ip \<in> U \<longleftrightarrow> (\<exists>k p. pool_at m k = Some p \<and> ip \<in> owned p))"

lemma pool_for_at: "pool_at m (pool_key m l) = Some (pool_for l m)"
  by (simp add: pool_key_def pool_for_def split: option.split)

lemma pool_at_put: "pool_at (put_pool l p m) = (pool_at m)(pool_key m l := Some p)"
proof (rule ext)
  fix k
  show "pool_at (put_pool l p m) k = ((pool_at m)(pool_key m l := Some p)) k"
    by (cases k) (auto simp: put_pool_def pool_key_def lookup_update' split: option.split)
qed

lemma pool_key_put [simp]: "pool_key (put_pool l p m) = pool_key m"
  by (rule ext) (simp add: pool_key_def put_pool_def lookup_update' split: option.split)

lemma put_pool_conns [simp]: "im_ip_to_conn_map (put_pool l p m) = im_ip_to_conn_map m"
  by (simp add: put_pool_def split: option.split)

lemma pool_at_conns [simp]: "pool_at (m\<lparr>im_ip_to_conn_map := x\<rparr>) = pool_at m"
  and pool_key_conns [simp]: "pool_key (m\<lparr>im_ip_to_conn_map := x\<rparr>) = pool_key m"
proof -
  show "pool_at (m\<lparr>im_ip_to_conn_map := x\<rparr>) = pool_at m"
  proof (rule ext)
    show "pool_at (m\<lparr>im_ip_to_conn_map := x\<rparr>) k = pool_at m k" for k by (cases k) simp_all
  qed
qed (simp add: fun_eq_iff pool_key_def)

lemma pools_ok_conns [simp]: "pools_ok U (m\<lparr>im_ip_to_conn_map := x\<rparr>) = pools_ok U m"
  by (simp add: pools_ok_def)

lemma pools_ok_put:
  assumes "pools_ok U m" and "pool_ok p" and "owned p = owned (pool_for l m)"
  shows "pools_ok U (put_pool l p m)"
  using assms pool_for_at [of m l] unfolding pools_ok_def pool_at_put
  by (auto split: if_splits) (metis option.inject)+

lemma allocate_ip_ok:
  assumes "allocate_ip p = (r, p')" and "pool_ok p"
  shows "pool_ok p' \<and> owned p' = owned p
    \<and> (case r of None \<Rightarrow> p' = p | Some ip \<Rightarrow> ip \<in> set (ipp_available_ips p) \<and> ipp_allocated_ips p' = insert ip (ipp_allocated_ips p))"
  using assms by (cases "ipp_available_ips p") (auto simp: allocate_ip_def pool_ok_def owned_def)

lemma free_ip_ok:
  assumes "ip \<in> ipp_allocated_ips p" and "pool_ok p"
  shows "pool_ok (free_ip ip p) \<and> owned (free_ip ip p) = owned p \<and> ipp_allocated_ips (free_ip ip p) = ipp_allocated_ips p - {ip}"
  using assms by (auto simp: free_ip_def pool_ok_def owned_def)

lemma split_subnet_ok:
  assumes "split_subnet N n p = (sub, p')" and "pool_ok p" and "ipp_allocated_ips p = {}"
  shows "pool_ok sub" "pool_ok p'" "owned sub \<inter> owned p' = {}" "owned sub \<union> owned p' = owned p"
    "ipp_allocated_ips sub = {}" "ipp_allocated_ips p' = {}"
  using assms by (auto simp: split_subnet_def Let_def pool_ok_def owned_def)

fun separate :: "ip_pool list \<Rightarrow> bool" where
  "separate [] = True"
| "separate (p # ps) \<longleftrightarrow> (\<forall>q \<in> set ps. owned p \<inter> owned q = {}) \<and> separate ps"

lemma split_subnets_ok:
  assumes "split_subnets N es p = (subs, p')" and "pool_ok p" and "ipp_allocated_ips p = {}"
  shows "map fst subs = map fst es \<and> separate (p' # map snd subs)
    \<and> (\<forall>q \<in> set (p' # map snd subs). pool_ok q \<and> ipp_allocated_ips q = {})
    \<and> (\<Union>q \<in> set (p' # map snd subs). owned q) = owned p"
  using assms
proof (induction es arbitrary: p subs)
  case (Cons e es)
  obtain sub p1 where sub: "split_subnet N (snd e) p = (sub, p1)" by force
  obtain subs1 where subs: "split_subnets N es p1 = (subs1, p')" "subs = (fst e, sub) # subs1"
    using Cons.prems(1) sub by (cases e) (auto split: prod.splits)
  note ok = split_subnet_ok [OF sub Cons.prems(2,3)]
  have ih: "map fst subs1 = map fst es" "separate (p' # map snd subs1)"
    "\<forall>q \<in> set (p' # map snd subs1). pool_ok q \<and> ipp_allocated_ips q = {}"
    "(\<Union>q \<in> set (p' # map snd subs1). owned q) = owned p1"
    using Cons.IH [OF subs(1) ok(2,6)] by auto
  have "\<forall>q \<in> set (p' # map snd subs1). owned sub \<inter> owned q = {}" using ih(4) ok(3) by blast
  moreover have "owned p = owned sub \<union> (\<Union>q \<in> set (p' # map snd subs1). owned q)" using ih(4) ok(4) by simp
  ultimately show ?case using ih(1-3) ok(1,5) subs(2) by (auto simp: Int_commute)
qed auto

lemma separate_distinct:
  assumes "separate (map snd subs)" "map_of subs k = Some p" "map_of subs k' = Some p'" "k \<noteq> k'"
  shows "owned p \<inter> owned p' = {}"
  using assms
proof (induction subs)
  case (Cons x xs)
  have away: "owned (snd x) \<inter> owned q = {}" if "map_of xs j = Some q" for j q
    using Cons.prems(1) map_of_SomeD [OF that] by force
  show ?case
    using Cons away by (auto simp: Int_commute split: if_splits)
qed simp

section \<open>Runs\<close>

text \<open>
  The manager and the states of all connections. Connection \<open>c\<close> calls \<open>alloc\<close> and \<open>free\<close> on its own
  state, in any order and interleaved with the others.
\<close>

inductive ip_reachable :: "'c ip_manager \<Rightarrow> ('c \<Rightarrow> ip_addr) \<Rightarrow> 'c ip_manager \<times> ('c \<Rightarrow> 'c connection_state) \<Rightarrow> bool"
  for m0 :: "'c ip_manager" and local_ip :: "'c \<Rightarrow> ip_addr" where
  start: "ip_reachable m0 local_ip (m0, \<lambda>c. \<lparr>cs_local_ip = local_ip c, cs_internal_ip = None, cs_conn = Some c\<rparr>)"
| alloc: "ip_reachable m0 local_ip (m, st) \<Longrightarrow> server_alloc alive (st c) m = Some (r, s', m') \<Longrightarrow>
    ip_reachable m0 local_ip (m', st(c := s'))"
| free: "ip_reachable m0 local_ip (m, st) \<Longrightarrow> server_free (st c) m = (s', m') \<Longrightarrow> ip_reachable m0 local_ip (m', st(c := s'))"

text \<open>\<open>holds U l (m, st)\<close>: the pools partition \<open>U\<close>; an address is allocated exactly while one connection holds it.\<close>

definition holds_ips :: "u32 set \<Rightarrow> ('c \<Rightarrow> ip_addr) \<Rightarrow> 'c ip_manager \<times> ('c \<Rightarrow> 'c connection_state) \<Rightarrow> bool" where
  "holds_ips U l = (\<lambda>(m, st).
     pools_ok U m
     \<and> (\<forall>c. cs_conn (st c) = Some c \<and> cs_local_ip (st c) = l c)
     \<and> (\<forall>c ip. cs_internal_ip (st c) = Some ip \<longleftrightarrow> find_connection ip m = Some c)
     \<and> (\<forall>c ip. cs_internal_ip (st c) = Some ip \<longrightarrow> ip \<in> ipp_allocated_ips (pool_for (l c) m))
     \<and> (\<forall>k p ip. pool_at m k = Some p \<longrightarrow> ip \<in> ipp_allocated_ips p \<longrightarrow> find_connection ip m \<noteq> None))"

lemma pool_for_put: "pool_for l' (put_pool l p m) = (if pool_key m l' = pool_key m l then p else pool_for l' m)"
  using pool_for_at [of "put_pool l p m" l'] pool_for_at [of m l'] by (simp add: pool_at_put split: if_splits)

lemma pool_for_conns [simp]: "pool_for l (m\<lparr>im_ip_to_conn_map := x\<rparr>) = pool_for l m"
  by (simp add: pool_for_def split: option.split)

lemma pool_for_key: "pool_key m l = pool_key m l' \<Longrightarrow> pool_for l m = pool_for l' m"
  by (metis pool_for_at option.inject)

lemma pools_okD:
  assumes "pools_ok U m"
  shows "pool_ok (pool_for l m)"
    and "pool_key m l \<noteq> pool_key m l' \<Longrightarrow> owned (pool_for l m) \<inter> owned (pool_for l' m) = {}"
  using assms pool_for_at [of m l] pool_for_at [of m l'] unfolding pools_ok_def by metis+

lemma holds_ipsD:
  assumes "holds_ips U l (m, st)"
  shows "pools_ok U m" and "cs_conn (st c) = Some c" and "cs_local_ip (st c) = l c"
    and "cs_internal_ip (st c) = Some ip \<longleftrightarrow> find_connection ip m = Some c"
    and "find_connection ip m = Some c \<Longrightarrow> ip \<in> ipp_allocated_ips (pool_for (l c) m)"
    and "pool_at m k = Some p \<Longrightarrow> ip \<in> ipp_allocated_ips p \<Longrightarrow> find_connection ip m \<noteq> None"
  using assms by (auto simp: holds_ips_def)

lemma holds_ipsI:
  assumes "pools_ok U m" and "\<And>c. cs_conn (st c) = Some c \<and> cs_local_ip (st c) = l c"
    and "\<And>c ip. cs_internal_ip (st c) = Some ip \<longleftrightarrow> find_connection ip m = Some c"
    and "\<And>c ip. find_connection ip m = Some c \<Longrightarrow> ip \<in> ipp_allocated_ips (pool_for (l c) m)"
    and "\<And>k p ip. pool_at m k = Some p \<Longrightarrow> ip \<in> ipp_allocated_ips p \<Longrightarrow> find_connection ip m \<noteq> None"
  shows "holds_ips U l (m, st)"
  using assms by (auto simp: holds_ips_def)

lemma allocated_once:
  assumes "pools_ok U m" and "ip \<in> ipp_allocated_ips (pool_for l m)" and "pool_at m k = Some p"
    and "ip \<in> owned p"
  shows "k = pool_key m l \<and> p = pool_for l m"
  using assms pool_for_at [of m l] unfolding pools_ok_def owned_def by (cases "k = pool_key m l") (simp, blast)

lemma holds_alloc:
  assumes inv: "holds_ips U l (m, st)" and none: "cs_internal_ip (st c) = None"
    and run: "im_alloc c (l c) m = (r, m')"
  shows "holds_ips U l (m', case r of None \<Rightarrow> st | Some (ip, _) \<Rightarrow> st(c := (st c)\<lparr>cs_internal_ip := Some ip\<rparr>))"
proof -
  note D = holds_ipsD [OF inv]
  obtain x p where alloc: "allocate_ip (pool_for (l c) m) = (x, p)" by force
  note p = allocate_ip_ok [OF alloc pools_okD(1) [OF D(1)]]
  have put: "pools_ok U (put_pool (l c) p m)" using pools_ok_put [OF D(1)] p by blast
  show ?thesis
  proof (cases x)
    case None
    then have same: "p = pool_for (l c) m" "m' = put_pool (l c) p m" "r = None"
      using p alloc run by (auto simp: im_alloc_def)
    have "pool_at m' = pool_at m" using pool_for_at [of m "l c"] by (simp add: same pool_at_put fun_upd_idem)
    moreover have "pool_for l' m' = pool_for l' m" for l' by (auto simp: same pool_for_put intro: pool_for_key)
    moreover have "find_connection ip m' = find_connection ip m" for ip by (simp add: same find_connection_def)
    ultimately show ?thesis using inv by (simp add: holds_ips_def pools_ok_def same(3))
  next
    case (Some ip)
    have ip: "ip \<in> set (ipp_available_ips (pool_for (l c) m))" "ipp_allocated_ips p = insert ip (ipp_allocated_ips (pool_for (l c) m))"
      using p Some by simp_all
    have fresh: "find_connection ip m \<noteq> Some c'" for c'
      using allocated_once [OF D(1) D(5) [of ip c'] pool_for_at, of "l c"] ip(1) pools_okD(1) [OF D(1), of "l c"] D(5) [of ip c']
      by (auto simp: pool_ok_def owned_def)
    let ?m = "(put_pool (l c) p m)\<lparr>im_ip_to_conn_map := Mapping.update ip c (im_ip_to_conn_map m)\<rparr>"
    have m': "m' = ?m" "r = Some (ip, config_for_ip ?m ip)" using Some alloc run by (auto simp: im_alloc_def Let_def)
    have find: "find_connection j ?m = (if j = ip then Some c else find_connection j m)" for j
      by (simp add: find_connection_def lookup_update')
    have mine: "find_connection j m \<noteq> Some c" for j using D(4) [of c j] none by simp
    have "holds_ips U l (?m, st(c := (st c)\<lparr>cs_internal_ip := Some ip\<rparr>))"
    proof (rule holds_ipsI)
      show "cs_internal_ip ((st(c := (st c)\<lparr>cs_internal_ip := Some ip\<rparr>)) c') = Some j \<longleftrightarrow> find_connection j ?m = Some c'" for c' j
        using D(4) [of c' j] fresh [of c'] mine [of j] by (auto simp: find)
      show "j \<in> ipp_allocated_ips (pool_for (l c') ?m)" if "find_connection j ?m = Some c'" for c' j
      proof (cases "j = ip")
        case True
        then have "c' = c" using that by (simp add: find)
        then show ?thesis using True ip(2) by (simp add: pool_for_put)
      next
        case False
        then have "j \<in> ipp_allocated_ips (pool_for (l c') m)" using that D(5) [of j c'] by (simp add: find)
        then show ?thesis
          using ip(2) pool_for_key [of m "l c'" "l c"]
          by (cases "pool_key m (l c') = pool_key m (l c)") (simp_all add: pool_for_put)
      qed
      show "find_connection j ?m \<noteq> None" if "pool_at ?m k = Some q" "j \<in> ipp_allocated_ips q" for k q j
      proof (cases "k = pool_key m (l c)")
        case True
        then have "j \<in> insert ip (ipp_allocated_ips (pool_for (l c) m))" using that ip(2) by (simp add: pool_at_put)
        then show ?thesis using D(6) [OF pool_for_at, of j "l c"] by (cases "j = ip") (simp_all add: find)
      next
        case False
        then show ?thesis using that D(6) [of k q j] by (simp add: find pool_at_put)
      qed
    qed (use put D(2,3) in simp_all)
    then show ?thesis by (simp add: m')
  qed
qed

lemma holds_free:
  assumes inv: "holds_ips U l (m, st)" and held: "cs_internal_ip (st c) = Some ip"
  shows "holds_ips U l (im_free ip (l c) m, st(c := (st c)\<lparr>cs_internal_ip := None\<rparr>))"
proof -
  note D = holds_ipsD [OF inv]
  have mine: "find_connection ip m = Some c" using held D(4) [of c ip] by simp
  note alloc = D(5) [OF mine]
  note p = free_ip_ok [OF alloc pools_okD(1) [OF D(1)]]
  have put: "pools_ok U (put_pool (l c) (free_ip ip (pool_for (l c) m)) m)" using pools_ok_put [OF D(1)] p by blast
  have find: "find_connection j (im_free ip (l c) m) = (if j = ip then None else find_connection j m)" for j
    by (simp add: find_connection_def im_free_def Let_def)
  have pool: "pool_for l' (im_free ip (l c) m) = (if pool_key m l' = pool_key m (l c) then free_ip ip (pool_for (l c) m) else pool_for l' m)"
    and at: "pool_at (im_free ip (l c) m) = (pool_at m)(pool_key m (l c) := Some (free_ip ip (pool_for (l c) m)))" for l'
    by (simp_all add: im_free_def Let_def pool_for_put pool_at_put)
  show ?thesis
  proof (rule holds_ipsI)
    show "cs_internal_ip ((st(c := (st c)\<lparr>cs_internal_ip := None\<rparr>)) c') = Some j \<longleftrightarrow> find_connection j (im_free ip (l c) m) = Some c'" for c' j
      using D(4) [of c' j] D(4) [of c ip] D(4) [of c j] mine held by (auto simp: find)
    show "j \<in> ipp_allocated_ips (pool_for (l c') (im_free ip (l c) m))" if "find_connection j (im_free ip (l c) m) = Some c'" for c' j
      using that D(5) [of j c'] p pool_for_key [of m "l c'" "l c"]
      by (auto simp: find pool split: if_splits)
    show "find_connection j (im_free ip (l c) m) \<noteq> None"
      if "pool_at (im_free ip (l c) m) k = Some q" "j \<in> ipp_allocated_ips q" for k q j
    proof (cases "k = pool_key m (l c)")
      case True
      then have "j \<noteq> ip" "j \<in> ipp_allocated_ips (pool_for (l c) m)" using that p by (auto simp: at)
      then show ?thesis using D(6) [OF pool_for_at, of j "l c"] by (simp add: find)
    next
      case False
      then have q: "pool_at m k = Some q" using that by (simp add: at)
      then have "j \<noteq> ip" using False that(2) allocated_once [OF D(1) alloc q] by (auto simp: owned_def)
      then show ?thesis using D(6) [OF q that(2)] by (simp add: find)
    qed
  qed (use put D(2,3) in \<open>simp_all add: im_free_def Let_def\<close>)
qed

lemma holds_step:
  assumes "ip_reachable m0 l s" and "holds_ips U l (m0, \<lambda>c. \<lparr>cs_local_ip = l c, cs_internal_ip = None, cs_conn = Some c\<rparr>)"
  shows "holds_ips U l s"
  using assms
proof (induction rule: ip_reachable.induct)
  case (alloc m st alive c r s' m')
  then have inv: "holds_ips U l (m, st)" by blast
  then have c: "cs_conn (st c) = Some c" "cs_local_ip (st c) = l c" by (simp_all add: holds_ips_def)
  then show ?case
    using alloc.hyps(2) inv holds_alloc [OF inv, of c]
    by (fastforce simp: server_alloc_def fun_upd_idem split: if_splits option.splits prod.splits)
next
  case (free m st c s' m')
  then have inv: "holds_ips U l (m, st)" by blast
  then have "cs_local_ip (st c) = l c" by (simp add: holds_ips_def)
  then show ?case
    using free.hyps(2) inv holds_free [OF inv, of c] by (auto simp: server_free_def split: option.splits)
qed

lemma holds_start:
  assumes "distinct (in_hosts N net)" and "\<And>xs. mset (shuffle xs) = mset xs" and "distinct (map fst subnets)"
  shows "holds_ips (set (in_hosts N net) - set (in_network N net # in_broadcast N net # reserved)) l
    (ip_manager_new N shuffle net subnets reserved cfg dyn rnd,
     \<lambda>c. \<lparr>cs_local_ip = l c, cs_internal_ip = None, cs_conn = Some c\<rparr>)"
    (is "holds_ips ?U l (?m, ?st)")
proof -
  let ?p = "ip_pool_new N net reserved"
  let ?q = "if rnd then shuffle_ips shuffle ?p else ?p"
  obtain subs p where split: "split_subnets N subnets ?q = (subs, p)" by force
  have "set (shuffle xs) = set xs" "distinct (shuffle xs) = distinct xs" for xs :: "u32 list"
    using assms(2) [of xs] mset_eq_setD mset_eq_imp_distinct_iff by blast+
  then have q: "pool_ok ?q" "ipp_allocated_ips ?q = {}" "owned ?q = ?U"
    using assms(1) by (auto simp: pool_ok_def owned_def ip_pool_new_def shuffle_ips_def Let_def)
  note ok = split_subnets_ok [OF split q(1,2)]
  have m: "im_ip_map ?m = Mapping.of_alist subs" "im_ip_pool ?m = p" "im_ip_to_conn_map ?m = Mapping.empty"
    using split by (simp_all add: ip_manager_new_def Let_def split: prod.split if_splits)
  have at: "pool_at ?m k = (case k of None \<Rightarrow> Some p | Some a \<Rightarrow> map_of subs a)" for k
    by (cases k) (simp_all add: m lookup_of_alist)
  have sub: "pool_ok q" "ipp_allocated_ips q = {}" "owned p \<inter> owned q = {}" "\<exists>a. (a, q) \<in> set subs"
    if "map_of subs a = Some q" for a q
    using map_of_SomeD [OF that] ok by force+
  have keyed: "\<exists>a. map_of subs a = Some q" if "(b, q) \<in> set subs" for b q
    using that assms(3) ok map_of_is_SomeI [of subs b q] by auto
  have "pools_ok ?U ?m"
    unfolding pools_ok_def at
  proof (intro conjI allI impI)
    show "pool_ok r" if "(case k of None \<Rightarrow> Some p | Some a \<Rightarrow> map_of subs a) = Some r" for k r
      using that ok sub by (auto split: option.splits)
    show "owned r \<inter> owned r' = {}"
      if "(case k of None \<Rightarrow> Some p | Some a \<Rightarrow> map_of subs a) = Some r"
        "(case k' of None \<Rightarrow> Some p | Some a \<Rightarrow> map_of subs a) = Some r'" "k \<noteq> k'" for k r k' r'
      using that ok sub(3) separate_distinct [of subs _ r _ r']
      by (cases k; cases k') (auto simp: Int_commute)
    show "ip \<in> ?U \<longleftrightarrow> (\<exists>k r. (case k of None \<Rightarrow> Some p | Some a \<Rightarrow> map_of subs a) = Some r \<and> ip \<in> owned r)" for ip
    proof -
      have "ip \<in> ?U \<longleftrightarrow> ip \<in> owned p \<or> (\<exists>r \<in> snd ` set subs. ip \<in> owned r)" using ok q(3) by auto
      also have "\<dots> \<longleftrightarrow> (\<exists>k r. (case k of None \<Rightarrow> Some p | Some a \<Rightarrow> map_of subs a) = Some r \<and> ip \<in> owned r)"
        using keyed sub(4) by (auto simp: split_option_ex) fastforce+
      finally show ?thesis .
    qed
  qed
  moreover have "ipp_allocated_ips r = {}" if "pool_at ?m k = Some r" for k r
    using that ok sub(2) unfolding at by (auto split: option.splits)
  ultimately show ?thesis by (auto simp: holds_ips_def find_connection_def m)
qed

definition is_free :: "u32 \<Rightarrow> 'c ip_manager \<Rightarrow> bool" where
  "is_free ip m \<longleftrightarrow> (\<exists>k p. pool_at m k = Some p \<and> ip \<in> set (ipp_available_ips p))"

text \<open>
  C18. Inside addresses are handed out exclusively and never leak. However the connections of a
  server allocate and free, in any order and any number of times: an address belongs to at most
  one connection, and traffic to it is routed to exactly the connection that holds it; the hosts
  of the configured network without network, broadcast and reserved addresses are, at every
  moment, each either free in some pool or held by a connection, never both and never lost; a
  reserved address is never handed out; allocation never panics.
\<close>

theorem ip_allocation_exclusive:
  assumes hosts: "distinct (in_hosts N net)" and perm: "\<And>xs. mset (shuffle xs) = mset xs" and keys: "distinct (map fst subnets)"
    and run: "ip_reachable (ip_manager_new N shuffle net subnets reserved cfg dyn rnd) l (m, st)"
  shows "(cs_internal_ip (st c) = Some ip \<longleftrightarrow> find_connection ip m = Some c)
    \<and> (ip \<in> set (in_hosts N net) - set (in_network N net # in_broadcast N net # reserved) \<longleftrightarrow>
        is_free ip m \<or> find_connection ip m \<noteq> None)
    \<and> \<not> (is_free ip m \<and> find_connection ip m \<noteq> None)
    \<and> server_alloc alive (st c) m \<noteq> None"
proof -
  let ?U = "set (in_hosts N net) - set (in_network N net # in_broadcast N net # reserved)"
  have inv: "holds_ips ?U l (m, st)" using holds_step [OF run holds_start [OF hosts perm keys]] .
  note D = holds_ipsD [OF inv]
  have U: "ip \<in> ?U \<longleftrightarrow> (\<exists>k p. pool_at m k = Some p \<and> ip \<in> owned p)" using D(1) unfolding pools_ok_def by blast
  have held: "find_connection ip m \<noteq> None \<longleftrightarrow> (\<exists>k p. pool_at m k = Some p \<and> ip \<in> ipp_allocated_ips p)"
    using D(5) [of ip] D(6) pool_for_at by blast
  have "\<not> (is_free ip m \<and> find_connection ip m \<noteq> None)"
  proof
    assume "is_free ip m \<and> find_connection ip m \<noteq> None"
    then obtain k p k' p' where p: "pool_at m k = Some p" "ip \<in> set (ipp_available_ips p)"
      "pool_at m k' = Some p'" "ip \<in> ipp_allocated_ips p'" using held by (auto simp: is_free_def)
    then show False using D(1) unfolding pools_ok_def pool_ok_def owned_def by (cases "k = k'") (auto, blast+)
  qed
  moreover have "ip \<in> ?U \<longleftrightarrow> is_free ip m \<or> find_connection ip m \<noteq> None"
    using U held unfolding is_free_def owned_def by blast
  ultimately show ?thesis using D(2,4) by (auto simp: server_alloc_def)
qed

text \<open>A network given by its first address and its size.\<close>

definition range_net :: "(u32 \<times> nat) ipnet_ops" where
  "range_net = \<lparr>in_network = fst, in_broadcast = (\<lambda>(a, n). a + of_nat n - 1),
     in_hosts = (\<lambda>(a, n). map (\<lambda>i. a + of_nat i) [1..<n - 1]), in_contains = (\<lambda>(a, n) ip. unat (ip - a) < n)\<rparr>"

definition ex_manager :: "nat ip_manager" where
  "ex_manager = ip_manager_new range_net rev (100, 8) [(IpAddrV4 1, (100, 4))] [101]
     \<lparr>client_ip = 1, server_ip = 2, dns_ip = 3\<rparr> True True"

theorem ip_allocation_exclusive_witness:
  "\<exists>m st. ip_reachable ex_manager (\<lambda>_. IpAddrV4 2) (m, st) \<and> find_connection 106 m = Some 7 \<and> \<not> is_free 106 m"
proof -
  let ?l = "\<lambda>_ :: nat. IpAddrV4 2"
  let ?st = "\<lambda>c. \<lparr>cs_local_ip = ?l c, cs_internal_ip = None, cs_conn = Some (c :: nat)\<rparr>"
  have "map_option (\<lambda>(r, s, m). cs_internal_ip s) (server_alloc (\<lambda>_. True) (?st 7) ex_manager) = Some (Some 106)"
    by code_simp
  then obtain r s m where s: "server_alloc (\<lambda>_. True) (?st 7) ex_manager = Some (r, s, m)" "cs_internal_ip s = Some 106"
    by auto
  then have run: "ip_reachable ex_manager ?l (m, ?st(7 := s))"
    by (intro ip_reachable.alloc [OF ip_reachable.start])
  have "distinct (in_hosts range_net (100, 8))" by code_simp
  then have "find_connection 106 m = Some 7 \<and> \<not> is_free 106 m"
    using ip_allocation_exclusive [OF _ _ _ run [unfolded ex_manager_def], of 7 106 "\<lambda>_. True"] s(2) by auto
  then show ?thesis using run by blast
qed

end
