(* ===== verification/Server_Connections.thy ===== *)
theory Server_Connections
  imports Connection_Core "HOL-Library.AList_Mapping"
begin

text \<open>
  The connections of a server (lightway-server/src/connection_manager/connection_map.rs,
  connection_manager.rs, connection.rs and the datagram handler of io/outside/udp.rs): the map by
  peer address and by session id, session id rotation, roaming, eviction and the event task.

  \<open>'c\<close> is the identity of a connection (its \<open>Arc\<close>). What the server reads of the core connection
  behind its mutex is \<open>conn_view\<close>; the results of the core methods that the server branches on
  (\<open>outside_data_received\<close>, \<open>rotate_session_id\<close>, the creation of a connection) are arguments, as
  is \<open>alive\<close>, whether a weak handle can be upgraded. A mutex is held for the whole of a map
  operation, so each is one step.
\<close>

section \<open>The connection map\<close>

datatype insert_error = InconsistentSocketAddr | InsertReservedSessionId

record 'c connection_map =
  by_socket_addr :: "(sock_addr, 'c) mapping"
  by_session_id :: "(session_id, 'c) mapping"

text \<open>The trait \<open>Value\<close>: the two keys of a connection, read when a method asks for them.\<close>

record 'c value_keys =
  vk_socket_addr :: "'c \<Rightarrow> sock_addr"
  vk_session_id :: "'c \<Rightarrow> session_id"

datatype 'c map_entry = Occupied 'c | Vacant

definition map_default :: "'c connection_map" where
  "map_default = \<lparr>by_socket_addr = Mapping.empty, by_session_id = Mapping.empty\<rparr>"

definition iter_connections :: "'c connection_map \<Rightarrow> 'c set" where
  "iter_connections m = snd ` Mapping.entries (by_socket_addr m)"

definition remove_connections :: "'c connection_map \<Rightarrow> 'c set \<times> 'c connection_map" where
  "remove_connections m = (iter_connections m, \<lparr>by_socket_addr = Mapping.empty, by_session_id = Mapping.empty\<rparr>)"

definition map_lookup :: "sock_addr \<Rightarrow> session_id \<Rightarrow> 'c connection_map \<Rightarrow> 'c map_entry" where
  "map_lookup sock session m =
     (case Mapping.lookup (by_socket_addr m) sock of
        Some c \<Rightarrow> Occupied c
      | None \<Rightarrow>
          (case Mapping.lookup (by_session_id m) session of
             Some c \<Rightarrow> Occupied c
           | None \<Rightarrow> Vacant))"

definition find_by :: "sock_addr \<Rightarrow> 'c connection_map \<Rightarrow> 'c option" where
  "find_by sock m = Mapping.lookup (by_socket_addr m) sock"

definition update_socketaddr_for_connection :: "sock_addr \<Rightarrow> sock_addr \<Rightarrow> 'c connection_map \<Rightarrow> 'c connection_map" where
  "update_socketaddr_for_connection old_addr new_addr m =
     (case Mapping.lookup (by_socket_addr m) old_addr of
        None \<Rightarrow> m
      | Some value \<Rightarrow>
          m\<lparr>by_socket_addr := Mapping.update new_addr value (Mapping.delete old_addr (by_socket_addr m))\<rparr>)"

definition update_session_id_for_connection :: "session_id \<Rightarrow> session_id \<Rightarrow> 'c connection_map \<Rightarrow> 'c connection_map" where
  "update_session_id_for_connection old new m =
     (case Mapping.lookup (by_session_id m) old of
        None \<Rightarrow> m
      | Some value \<Rightarrow> m\<lparr>by_session_id := Mapping.update new value (Mapping.delete old (by_session_id m))\<rparr>)"

definition map_insert :: "'c value_keys \<Rightarrow> 'c \<Rightarrow> 'c connection_map \<Rightarrow> (insert_error + unit) \<times> 'c connection_map" where
  "map_insert K c m =
     (if session_is_reserved (vk_session_id K c) then (Inl InsertReservedSessionId, m)
      else (Inr (),
        \<lparr>by_socket_addr = Mapping.update (vk_socket_addr K c) c (by_socket_addr m),
         by_session_id = Mapping.update (vk_session_id K c) c (by_session_id m)\<rparr>))"

text \<open>\<open>VacantEntry::insert\<close>, for an entry looked up with \<open>sock\<close>.\<close>

definition vacant_insert :: "'c value_keys \<Rightarrow> sock_addr \<Rightarrow> 'c \<Rightarrow> 'c connection_map \<Rightarrow> (insert_error + unit) \<times> 'c connection_map" where
  "vacant_insert K sock c m =
     (if sock \<noteq> vk_socket_addr K c then (Inl InconsistentSocketAddr, m)
      else if session_is_reserved (vk_session_id K c) then (Inl InsertReservedSessionId, m)
      else (Inr (),
        \<lparr>by_socket_addr = Mapping.update sock c (by_socket_addr m),
         by_session_id = Mapping.update (vk_session_id K c) c (by_session_id m)\<rparr>))"

definition map_remove :: "'c value_keys \<Rightarrow> 'c \<Rightarrow> 'c connection_map \<Rightarrow> 'c connection_map" where
  "map_remove K c m =
     \<lparr>by_socket_addr = Mapping.delete (vk_socket_addr K c) (by_socket_addr m),
      by_session_id = Mapping.delete (vk_session_id K c) (by_session_id m)\<rparr>"

section \<open>The manager\<close>

datatype connection_manager_error =
    SessionIdMismatch
  | NoActiveSession
  | ConnectionMapError insert_error
  | LwConnectionBuilderError
  | LwConnectionError connection_error

record conn_view =
  cv_peer_addr :: sock_addr
  cv_session_id :: session_id
  cv_pending_session_id :: "session_id option"
  cv_state :: conn_state
  cv_connection_type :: connection_type
  cv_activity :: connection_activity

record 'c server =
  sv_connections :: "'c connection_map"
  sv_pending_session_id_rotations :: "(session_id, 'c) mapping"
  sv_total_sessions :: u64
  sv_view :: "'c \<Rightarrow> conn_view"

definition view_keys :: "'c server \<Rightarrow> 'c value_keys" where
  "view_keys s = \<lparr>vk_socket_addr = (\<lambda>c. cv_peer_addr (sv_view s c)), vk_session_id = (\<lambda>c. cv_session_id (sv_view s c))\<rparr>"

definition set_view :: "'c \<Rightarrow> conn_view \<Rightarrow> 'c server \<Rightarrow> 'c server" where
  "set_view c v s = s\<lparr>sv_view := (sv_view s)(c := v)\<rparr>"

definition server_new :: "('c \<Rightarrow> conn_view) \<Rightarrow> 'c server" where
  "server_new views =
     \<lparr>sv_connections = map_default, sv_pending_session_id_rotations = Mapping.empty, sv_total_sessions = 0, sv_view = views\<rparr>"

text \<open>\<open>new_connection\<close>: \<open>made\<close> is the connection the core builder returns, with its first view.\<close>

definition new_connection ::
  "(connection_manager_error + 'c \<times> conn_view) \<Rightarrow> 'c server \<Rightarrow> (connection_manager_error + 'c) \<times> 'c server" where
  "new_connection made s =
     (let s = s\<lparr>sv_total_sessions := sv_total_sessions s + 1\<rparr> in
      case made of
        Inl e \<Rightarrow> (Inl e, s)
      | Inr (c, v) \<Rightarrow> (Inr c, set_view c v s))"

definition create_streaming_connection ::
  "(connection_manager_error + 'c \<times> conn_view) \<Rightarrow> 'c server \<Rightarrow> (connection_manager_error + 'c) \<times> 'c server" where
  "create_streaming_connection made s =
     (case new_connection made s of
        (Inl e, s) \<Rightarrow> (Inl e, s)
      | (Inr c, s) \<Rightarrow>
          (case map_insert (view_keys s) c (sv_connections s) of
             (Inl e, _) \<Rightarrow> (Inl (ConnectionMapError e), s)
           | (Inr _, m) \<Rightarrow> (Inr c, s\<lparr>sv_connections := m\<rparr>)))"

definition find_or_create_datagram_connection_with ::
  "('c \<Rightarrow> bool) \<Rightarrow> sock_addr \<Rightarrow> session_id \<Rightarrow> (connection_manager_error + 'c \<times> conn_view) \<Rightarrow> 'c server \<Rightarrow>
    (connection_manager_error + 'c \<times> bool) \<times> 'c server"
  where
  "find_or_create_datagram_connection_with alive addr session_id made s =
     (case map_lookup addr session_id (sv_connections s) of
        Occupied c \<Rightarrow>
          if session_id = SESSION_EMPTY \<or> cv_session_id (sv_view s c) = session_id then
            (Inr (c, addr \<noteq> cv_peer_addr (sv_view s c)), s)
          else (Inl SessionIdMismatch, s)
      | Vacant \<Rightarrow>
          if session_id = SESSION_EMPTY then
            (case new_connection made s of
               (Inl e, s) \<Rightarrow> (Inl e, s)
             | (Inr c, s) \<Rightarrow>
                 (case vacant_insert (view_keys s) addr c (sv_connections s) of
                    (Inl e, _) \<Rightarrow> (Inl (ConnectionMapError e), s)
                  | (Inr _, m) \<Rightarrow> (Inr (c, False), s\<lparr>sv_connections := m\<rparr>)))
          else
            (case Mapping.lookup (sv_pending_session_id_rotations s) session_id of
               Some c \<Rightarrow>
                 if \<not> alive c then
                   (Inl NoActiveSession,
                    s\<lparr>sv_pending_session_id_rotations := Mapping.delete session_id (sv_pending_session_id_rotations s)\<rparr>)
                 else (Inr (c, addr \<noteq> cv_peer_addr (sv_view s c)), s)
             | None \<Rightarrow> (Inl NoActiveSession, s)))"

definition find_datagram_connection_with :: "sock_addr \<Rightarrow> 'c server \<Rightarrow> 'c option" where
  "find_datagram_connection_with addr s = find_by addr (sv_connections s)"

definition manager_set_peer_addr :: "'c \<Rightarrow> sock_addr \<Rightarrow> 'c server \<Rightarrow> 'c server" where
  "manager_set_peer_addr c new_addr s =
     (let old_addr = cv_peer_addr (sv_view s c);
          s = set_view c ((sv_view s c)\<lparr>cv_peer_addr := new_addr\<rparr>) s in
      s\<lparr>sv_connections := update_socketaddr_for_connection old_addr new_addr (sv_connections s)\<rparr>)"

definition remove_connection :: "'c \<Rightarrow> 'c server \<Rightarrow> 'c server" where
  "remove_connection c s = s\<lparr>sv_connections := map_remove (view_keys s) c (sv_connections s)\<rparr>"

definition manager_begin_rotation :: "'c \<Rightarrow> session_id \<Rightarrow> 'c server \<Rightarrow> 'c server" where
  "manager_begin_rotation c new_session_id s =
     s\<lparr>sv_pending_session_id_rotations := Mapping.update new_session_id c (sv_pending_session_id_rotations s)\<rparr>"

definition finalize_session_id_rotation :: "session_id \<Rightarrow> session_id \<Rightarrow> 'c server \<Rightarrow> 'c server" where
  "finalize_session_id_rotation old new s =
     s\<lparr>sv_pending_session_id_rotations := Mapping.delete new (sv_pending_session_id_rotations s),
       sv_connections := update_session_id_for_connection old new (sv_connections s)\<rparr>"

definition online_connections :: "'c server \<Rightarrow> 'c set" where
  "online_connections s = {c \<in> iter_connections (sv_connections s). cv_state (sv_view s c) = Online}"

definition CONNECTION_MAX_IDLE_AGE :: duration where "CONNECTION_MAX_IDLE_AGE = millis (24 * 3600 * 1000)"

text \<open>The connections \<open>evict_idle_connections\<close> and \<open>evict_expired_connections\<close> spawn a disconnect for.\<close>

definition evict_idle_connections :: "instant \<Rightarrow> 'c server \<Rightarrow> 'c set" where
  "evict_idle_connections now s =
     {c \<in> iter_connections (sv_connections s).
        elapsed now (last_outside_data_received (cv_activity (sv_view s c))) > CONNECTION_MAX_IDLE_AGE}"

definition evict_expired_connections :: "('c \<Rightarrow> connection_error + bool) \<Rightarrow> 'c server \<Rightarrow> 'c set" where
  "evict_expired_connections authentication_expired s =
     {c \<in> iter_connections (sv_connections s). authentication_expired c = Inr True}"

definition cleanup_pending_session_ids :: "('c \<Rightarrow> bool) \<Rightarrow> 'c server \<Rightarrow> 'c server" where
  "cleanup_pending_session_ids alive s =
     s\<lparr>sv_pending_session_id_rotations := Mapping.filter (\<lambda>_ c. alive c) (sv_pending_session_id_rotations s)\<rparr>"

text \<open>\<open>shutdown\<close>: the map is emptied, then every connection it held is disconnected.\<close>

definition manager_shutdown :: "'c server \<Rightarrow> 'c set \<times> 'c server" where
  "manager_shutdown s =
     (let (conns, m) = remove_connections (sv_connections s) in
      (conns, s\<lparr>sv_connections := m,
         sv_view := (\<lambda>c. if c \<in> conns then (sv_view s c)\<lparr>cv_state := Disconnected\<rparr> else sv_view s c)\<rparr>))"

section \<open>A connection of the server\<close>

text \<open>\<open>Connection::disconnect\<close>; \<open>v\<close> is the view the core's \<open>disconnect\<close> leaves.\<close>

definition server_disconnect :: "'c \<Rightarrow> conn_view \<Rightarrow> 'c server \<Rightarrow> 'c server" where
  "server_disconnect c v s = set_view c v (remove_connection c s)"

text \<open>\<open>True\<close> is \<open>ControlFlow::Break\<close>.\<close>

definition handle_outside_data_error :: "'c \<Rightarrow> connection_error \<Rightarrow> conn_view \<Rightarrow> 'c server \<Rightarrow> bool \<times> 'c server" where
  "handle_outside_data_error c err v s =
     (if is_fatal (cv_connection_type (sv_view s c)) err then (True, server_disconnect c v s) else (False, s))"

text \<open>\<open>rotated\<close> is the answer of the core's \<open>rotate_session_id\<close>.\<close>

definition server_begin_rotation :: "'c \<Rightarrow> (connection_error + session_id) \<Rightarrow> 'c server \<Rightarrow> 'c server" where
  "server_begin_rotation c rotated s =
     (if cv_pending_session_id (sv_view s c) \<noteq> None then s
      else case rotated of
          Inl _ \<Rightarrow> s
        | Inr new_session \<Rightarrow>
            manager_begin_rotation c new_session
              (set_view c ((sv_view s c)\<lparr>cv_pending_session_id := Some new_session\<rparr>) s))"

section \<open>Datagrams\<close>

text \<open>The connection a packet belongs to: by its address, else by its session id.\<close>

definition udp_lookup ::
  "('c \<Rightarrow> bool) \<Rightarrow> sock_addr \<Rightarrow> session_id \<Rightarrow> (connection_manager_error + 'c \<times> conn_view) \<Rightarrow> 'c server \<Rightarrow>
    (connection_manager_error + 'c \<times> bool) \<times> 'c server"
  where
  "udp_lookup alive peer_addr session made s =
     (case find_datagram_connection_with peer_addr s of
        Some conn \<Rightarrow> (Inr (conn, False), s)
      | None \<Rightarrow> find_or_create_datagram_connection_with alive peer_addr session made s)"

text \<open>
  \<open>UdpServer::data_received\<close>. \<open>processed\<close> is the core's answer to the packet with the view it leaves
  the connection in, \<open>closed\<close> the view its \<open>disconnect\<close> leaves. The result tells whether a reject
  was sent; \<open>None\<close> is a panic of the header decoder.
\<close>

definition data_received ::
  "plugin_list \<Rightarrow> version_range \<Rightarrow> ('c \<Rightarrow> bool) \<Rightarrow> (connection_manager_error + 'c \<times> conn_view) \<Rightarrow>
    ('c \<Rightarrow> (connection_error + usize) \<times> conn_view) \<Rightarrow> ('c \<Rightarrow> conn_view) \<Rightarrow> (connection_error + session_id) \<Rightarrow>
    sock_addr \<Rightarrow> bytes \<Rightarrow> 'c server \<Rightarrow> (bool \<times> 'c server) option"
  where
  "data_received plugins versions alive made processed closed rotated peer_addr buf s = do {
     parsed \<leftarrow> apply_ingress_chain plugins (WirePkt buf Datagram);
     case parsed of
       Inl _ \<Rightarrow> Some (False, s)
     | Inr pkt \<Rightarrow>
         (case op_header pkt of
            None \<Rightarrow> Some (False, s)
          | Some hdr \<Rightarrow>
              if \<not> version_range_contains versions (hdr_version hdr) then Some (False, s)
              else
                (case udp_lookup alive peer_addr (hdr_session hdr) made s of
                   (Inl _, s) \<Rightarrow> Some (True, s)
                 | (Inr (conn, update_peer_address), s) \<Rightarrow>
                     (case processed conn of
                        (Inr n, v) \<Rightarrow>
                          if n = 0 then Some (False, set_view conn v s)
                          else if update_peer_address then
                            Some (False, server_begin_rotation conn rotated (manager_set_peer_addr conn peer_addr (set_view conn v s)))
                          else Some (False, set_view conn v s)
                      | (Inl err, v) \<Rightarrow>
                          (case handle_outside_data_error conn err (closed conn) (set_view conn v s) of
                             (_, s) \<Rightarrow> Some (False, s))))) }"

section \<open>The event task\<close>

text \<open>
  One round of \<open>handle_events\<close>: the call on the external callback, the new cached session id and
  the effect on the server. \<open>None\<close> is the \<open>unreachable!\<close> on a client event.
\<close>

definition handle_event ::
  "bool \<Rightarrow> bool \<Rightarrow> 'c \<Rightarrow> (connection_error + session_id) \<Rightarrow> event \<Rightarrow> session_id option \<Rightarrow> 'c server \<Rightarrow>
    ((session_id \<times> event) option \<times> session_id option \<times> 'c server) option"
  where
  "handle_event has_cb alive c rotated ev last_session_id s =
     (let (cb, last_session_id) =
        (if \<not> has_cb then (None, last_session_id)
         else if alive then (Some (cv_session_id (sv_view s c), ev), Some (cv_session_id (sv_view s c)))
         else case last_session_id of
             Some sid \<Rightarrow>
               (if ev = StateChanged Disconnecting \<or> ev = StateChanged Disconnected then (Some (sid, ev), last_session_id)
                else (None, last_session_id))
           | None \<Rightarrow> (None, last_session_id))
      in map_option (\<lambda>s. (cb, last_session_id, s))
        (case ev of
           SessionIdRotationAcknowledged old new \<Rightarrow> Some (if alive then finalize_session_id_rotation old new s else s)
         | TlsKeysUpdateStart \<Rightarrow>
             Some (if alive \<and> cv_connection_type (sv_view s c) = Datagram then server_begin_rotation c rotated s else s)
         | FirstPacketReceived \<Rightarrow> None
         | _ \<Rightarrow> Some s))"

text \<open>\<open>handle_stale\<close>, when its timer fires.\<close>

definition handle_stale :: "bool \<Rightarrow> 'c \<Rightarrow> conn_view \<Rightarrow> 'c server \<Rightarrow> 'c server" where
  "handle_stale alive c closed s =
     (if alive \<and> cv_state (sv_view s c) \<noteq> Online then server_disconnect c closed s else s)"

section \<open>Runs of a datagram server\<close>

text \<open>
  What the core promises about one packet: it keeps the peer address and the kind of connection;
  it adopts the pending session id only for a packet that carries it and only after reading a
  frame; a disconnected connection stays so and answers with an error.
\<close>

definition core_processes :: "session_id \<Rightarrow> conn_view \<Rightarrow> (connection_error + usize) \<times> conn_view \<Rightarrow> bool" where
  "core_processes sid v = (\<lambda>(r, v').
     cv_peer_addr v' = cv_peer_addr v \<and> cv_connection_type v' = cv_connection_type v
     \<and> (cv_session_id v' = cv_session_id v \<and> cv_pending_session_id v' = cv_pending_session_id v
        \<or> (\<exists>n > 0. r = Inr n) \<and> cv_pending_session_id v = Some sid \<and> cv_session_id v' = sid \<and> cv_pending_session_id v' = None)
     \<and> (cv_state v = Disconnected \<longrightarrow> cv_state v' = Disconnected \<and> (\<exists>e. r = Inl e)))"

text \<open>The views \<open>v\<close> and \<open>v'\<close> agree on the keys and the rotation.\<close>

definition same_keys :: "conn_view \<Rightarrow> conn_view \<Rightarrow> bool" where
  "same_keys v v' \<longleftrightarrow>
     cv_peer_addr v' = cv_peer_addr v \<and> cv_session_id v' = cv_session_id v \<and> cv_pending_session_id v' = cv_pending_session_id v"

text \<open>The session ids of a connection: current, pending, and those of rotations not yet finalised.\<close>

definition ids_of :: "conn_view \<Rightarrow> (session_id \<times> session_id) list \<Rightarrow> session_id set" where
  "ids_of v q = insert (cv_session_id v) (set_option (cv_pending_session_id v)) \<union> fst ` set q \<union> snd ` set q"

text \<open>
  A state of the system: the connections made so far, for each the acknowledged rotations its
  event task has not handled yet, and the server.
\<close>

type_synonym 'c udp_state = "'c set \<times> ('c \<Rightarrow> (session_id \<times> session_id) list) \<times> 'c server"

definition mapped :: "'c server \<Rightarrow> 'c \<Rightarrow> bool" where
  "mapped s c \<longleftrightarrow>
     Mapping.lookup (by_socket_addr (sv_connections s)) (cv_peer_addr (sv_view s c)) = Some c
     \<and> (\<exists>sid. Mapping.lookup (by_session_id (sv_connections s)) sid = Some c)"

definition used_ids :: "'c udp_state \<Rightarrow> session_id set" where
  "used_ids = (\<lambda>(known, q, s). \<Union>c \<in> known. ids_of (sv_view s c) (q c))"

definition fresh_id :: "'c udp_state \<Rightarrow> (connection_error + session_id) \<Rightarrow> bool" where
  "fresh_id x r \<longleftrightarrow> (\<forall>sid. r = Inr sid \<longrightarrow> \<not> session_is_reserved sid \<and> sid \<notin> used_ids x)"

text \<open>A new connection starts at the peer's address with a fresh id.\<close>

definition fresh_conn :: "'c udp_state \<Rightarrow> sock_addr \<Rightarrow> (connection_manager_error + 'c \<times> conn_view) \<Rightarrow> bool" where
  "fresh_conn x addr made \<longleftrightarrow>
     (\<forall>c v. made = Inr (c, v) \<longrightarrow> c \<notin> fst x \<and> cv_peer_addr v = addr \<and> cv_pending_session_id v = None
        \<and> \<not> session_is_reserved (cv_session_id v) \<and> cv_session_id v \<notin> used_ids x)"

text \<open>The rotation a processed packet acknowledged, if any.\<close>

definition acked :: "conn_view \<Rightarrow> conn_view \<Rightarrow> (session_id \<times> session_id) list" where
  "acked v v' = (if cv_pending_session_id v' = cv_pending_session_id v then [] else [(cv_session_id v, cv_session_id v')])"

text \<open>
  The steps of a datagram server: a packet, the event task of a connection handling the next
  acknowledged rotation, a TLS key update, a disconnect, progress inside the core, and the cleanup
  of pending ids. A weak handle can be upgraded only while the map holds the connection, and a
  connection is disconnected only after its event task has handled the rotations acknowledged so
  far; without the second condition an entry stays behind (\<open>late_finalize_leaks\<close>). Session ids
  are drawn at random and taken to be fresh.
\<close>

inductive udp_reachable :: "'c udp_state \<Rightarrow> bool" where
  start: "udp_reachable ({}, \<lambda>_. [], server_new views)"
| packet: "udp_reachable (known, q, s) \<Longrightarrow> fresh_conn (known, q, s) addr made \<Longrightarrow> (\<And>c. alive c \<Longrightarrow> mapped s c) \<Longrightarrow>
    apply_ingress_chain plugins (WirePkt buf Datagram) = Some (Inr pkt) \<Longrightarrow> op_header pkt = Some hdr \<Longrightarrow>
    version_range_contains versions (hdr_version hdr) \<Longrightarrow>
    udp_lookup alive addr (hdr_session hdr) made s = (Inr (c, upd), s1) \<Longrightarrow>
    core_processes (hdr_session hdr) (sv_view s1 c) (processed c) \<Longrightarrow>
    fresh_id (insert c known, q(c := (if c \<in> known then q c else [])), s1) rotated \<Longrightarrow>
    same_keys (snd (processed c)) (closed c) \<and> cv_state (closed c) = Disconnected \<Longrightarrow>
    (\<And>e. fst (processed c) = Inl e \<Longrightarrow> c \<in> known \<Longrightarrow> q c = []) \<Longrightarrow>
    data_received plugins versions alive made processed closed rotated addr buf s = Some (rej, s') \<Longrightarrow>
    udp_reachable (insert c known,
      q(c := (if c \<in> known then q c else []) @ acked (sv_view s1 c) (snd (processed c))), s')"
| rejected: "udp_reachable (known, q, s) \<Longrightarrow> fresh_conn (known, q, s) addr made \<Longrightarrow>
    udp_lookup alive addr sid made s = (Inl e, s1) \<Longrightarrow> udp_reachable (known, q, s1)"
| event: "udp_reachable (known, q, s) \<Longrightarrow> mapped s c \<Longrightarrow> q c = (old, new) # rest \<Longrightarrow>
    udp_reachable (known, q(c := rest), finalize_session_id_rotation old new s)"
| key_update: "udp_reachable (known, q, s) \<Longrightarrow> mapped s c \<Longrightarrow> fresh_id (known, q, s) rotated \<Longrightarrow>
    udp_reachable (known, q, server_begin_rotation c rotated s)"
| disconnect: "udp_reachable (known, q, s) \<Longrightarrow> mapped s c \<Longrightarrow> q c = [] \<Longrightarrow> same_keys (sv_view s c) v \<Longrightarrow>
    cv_state v = Disconnected \<Longrightarrow> udp_reachable (known, q, server_disconnect c v s)"
| progress: "udp_reachable (known, q, s) \<Longrightarrow> same_keys (sv_view s c) v \<Longrightarrow>
    (cv_state (sv_view s c) = Disconnected \<Longrightarrow> cv_state v = Disconnected) \<Longrightarrow> udp_reachable (known, q, set_view c v s)"
| cleanup: "udp_reachable (known, q, s) \<Longrightarrow> udp_reachable (known, q, cleanup_pending_session_ids alive s)"

section \<open>The invariant\<close>

fun chain :: "session_id \<Rightarrow> (session_id \<times> session_id) list \<Rightarrow> session_id \<Rightarrow> bool" where
  "chain sid [] cur \<longleftrightarrow> sid = cur"
| "chain sid ((old, new) # q) cur \<longleftrightarrow> old = sid \<and> chain new q cur"

lemma chain_snoc: "chain sid q cur \<Longrightarrow> chain sid (q @ [(cur, new)]) new"
  by (induction q arbitrary: sid) auto

lemma chain_mem: "chain sid q (cv_session_id v) \<Longrightarrow> sid \<in> ids_of v q"
  by (cases q) (auto simp: ids_of_def)

abbreviation addr_entry :: "'c server \<Rightarrow> sock_addr \<Rightarrow> 'c option" where
  "addr_entry s \<equiv> Mapping.lookup (by_socket_addr (sv_connections s))"

abbreviation sid_entry :: "'c server \<Rightarrow> session_id \<Rightarrow> 'c option" where
  "sid_entry s \<equiv> Mapping.lookup (by_session_id (sv_connections s))"

abbreviation pending_entry :: "'c server \<Rightarrow> session_id \<Rightarrow> 'c option" where
  "pending_entry s \<equiv> Mapping.lookup (sv_pending_session_id_rotations s)"

definition addr_ok :: "'c set \<Rightarrow> 'c server \<Rightarrow> bool" where
  "addr_ok known s \<longleftrightarrow> (\<forall>a c. addr_entry s a = Some c \<longrightarrow> c \<in> known \<and> mapped s c \<and> cv_peer_addr (sv_view s c) = a)"

definition sid_ok :: "'c set \<Rightarrow> ('c \<Rightarrow> (session_id \<times> session_id) list) \<Rightarrow> 'c server \<Rightarrow> bool" where
  "sid_ok known q s \<longleftrightarrow>
     (\<forall>sid c. sid_entry s sid = Some c \<longrightarrow> c \<in> known \<and> mapped s c \<and> chain sid (q c) (cv_session_id (sv_view s c)))"

definition pending_ok :: "'c set \<Rightarrow> ('c \<Rightarrow> (session_id \<times> session_id) list) \<Rightarrow> 'c server \<Rightarrow> bool" where
  "pending_ok known q s \<longleftrightarrow>
     (\<forall>sid c. pending_entry s sid = Some c \<longrightarrow> c \<in> known
        \<and> (cv_pending_session_id (sv_view s c) = Some sid \<or> sid \<in> snd ` set (q c)))"

definition ids_ok :: "'c set \<Rightarrow> ('c \<Rightarrow> (session_id \<times> session_id) list) \<Rightarrow> 'c server \<Rightarrow> bool" where
  "ids_ok known q s \<longleftrightarrow>
     (\<forall>c \<in> known. \<forall>d \<in> known. c \<noteq> d \<longrightarrow> ids_of (sv_view s c) (q c) \<inter> ids_of (sv_view s d) (q d) = {})
     \<and> (\<forall>c \<in> known. \<forall>sid \<in> ids_of (sv_view s c) (q c). \<not> session_is_reserved sid)"

definition udp_ok :: "'c udp_state \<Rightarrow> bool" where
  "udp_ok = (\<lambda>(known, q, s).
     addr_ok known s \<and> sid_ok known q s \<and> pending_ok known q s \<and> ids_ok known q s
     \<and> (\<forall>c \<in> known. mapped s c \<or> cv_state (sv_view s c) = Disconnected))"

lemma udp_okD:
  assumes "udp_ok (known, q, s)"
  shows "addr_entry s a = Some c \<Longrightarrow> c \<in> known \<and> mapped s c \<and> cv_peer_addr (sv_view s c) = a"
    and "sid_entry s sid = Some c \<Longrightarrow> c \<in> known \<and> mapped s c \<and> chain sid (q c) (cv_session_id (sv_view s c))"
    and "pending_entry s sid = Some c \<Longrightarrow> c \<in> known \<and> (cv_pending_session_id (sv_view s c) = Some sid \<or> sid \<in> snd ` set (q c))"
    and "c \<in> known \<Longrightarrow> d \<in> known \<Longrightarrow> sid \<in> ids_of (sv_view s c) (q c) \<Longrightarrow> sid \<in> ids_of (sv_view s d) (q d) \<Longrightarrow> c = d"
    and "c \<in> known \<Longrightarrow> sid \<in> ids_of (sv_view s c) (q c) \<Longrightarrow> \<not> session_is_reserved sid"
    and "c \<in> known \<Longrightarrow> mapped s c \<or> cv_state (sv_view s c) = Disconnected"
    and "mapped s c \<Longrightarrow> c \<in> known"
  using assms unfolding udp_ok_def addr_ok_def sid_ok_def pending_ok_def ids_ok_def mapped_def by (blast+)

lemma udp_okI:
  assumes "\<And>a c. addr_entry s a = Some c \<Longrightarrow> c \<in> known \<and> mapped s c \<and> cv_peer_addr (sv_view s c) = a"
    and "\<And>sid c. sid_entry s sid = Some c \<Longrightarrow> c \<in> known \<and> mapped s c \<and> chain sid (q c) (cv_session_id (sv_view s c))"
    and "\<And>sid c. pending_entry s sid = Some c \<Longrightarrow> c \<in> known \<and> (cv_pending_session_id (sv_view s c) = Some sid \<or> sid \<in> snd ` set (q c))"
    and "\<And>c d sid. c \<in> known \<Longrightarrow> d \<in> known \<Longrightarrow> sid \<in> ids_of (sv_view s c) (q c) \<Longrightarrow> sid \<in> ids_of (sv_view s d) (q d) \<Longrightarrow> c = d"
    and "\<And>c sid. c \<in> known \<Longrightarrow> sid \<in> ids_of (sv_view s c) (q c) \<Longrightarrow> \<not> session_is_reserved sid"
    and "\<And>c. c \<in> known \<Longrightarrow> mapped s c \<or> cv_state (sv_view s c) = Disconnected"
  shows "udp_ok (known, q, s)"
  using assms unfolding udp_ok_def addr_ok_def sid_ok_def pending_ok_def ids_ok_def by fast

lemma set_view_simps [simp]:
  "sv_connections (set_view c v s) = sv_connections s"
  "sv_pending_session_id_rotations (set_view c v s) = sv_pending_session_id_rotations s"
  "sv_view (set_view c v s) d = (if d = c then v else sv_view s d)"
  by (simp_all add: set_view_def)

lemma mapped_view: "cv_peer_addr v = cv_peer_addr (sv_view s c) \<Longrightarrow> mapped (set_view c v s) d = mapped s d"
  by (simp add: mapped_def)

text \<open>A change of one view that keeps its address and adds no id.\<close>

lemma ok_view:
  assumes ok: "udp_ok (known, q, s)" and peer: "cv_peer_addr v = cv_peer_addr (sv_view s c)"
    and ids: "ids_of v q' \<subseteq> ids_of (sv_view s c) (q c)"
    and chained: "\<And>i. chain i (q c) (cv_session_id (sv_view s c)) \<Longrightarrow> chain i q' (cv_session_id v)"
    and pend: "\<And>i. cv_pending_session_id (sv_view s c) = Some i \<or> i \<in> snd ` set (q c) \<Longrightarrow>
      cv_pending_session_id v = Some i \<or> i \<in> snd ` set q'"
    and state: "c \<in> known \<Longrightarrow> mapped s c \<or> cv_state v = Disconnected"
  shows "udp_ok (known, q(c := q'), set_view c v s)"
proof -
  note D = udp_okD [OF ok]
  let ?s = "set_view c v s" and ?q = "q(c := q')"
  have mapped: "mapped ?s d = mapped s d" for d using peer by (rule mapped_view)
  have sub: "ids_of (sv_view ?s d) (?q d) \<subseteq> ids_of (sv_view s d) (q d)" for d using ids by simp
  show ?thesis
  proof (rule udp_okI)
    show "d \<in> known \<and> mapped ?s d \<and> cv_peer_addr (sv_view ?s d) = a" if "addr_entry ?s a = Some d" for a d
      using that D(1) [of a d] peer by (auto simp: mapped)
    show "d \<in> known \<and> mapped ?s d \<and> chain i (?q d) (cv_session_id (sv_view ?s d))" if "sid_entry ?s i = Some d" for i d
      using that D(2) [of i d] chained [of i] by (auto simp: mapped)
    show "d \<in> known \<and> (cv_pending_session_id (sv_view ?s d) = Some i \<or> i \<in> snd ` set (?q d))" if "pending_entry ?s i = Some d" for i d
      using that D(3) [of i d] pend [of i] by auto
    show "d = e" if "d \<in> known" "e \<in> known" "i \<in> ids_of (sv_view ?s d) (?q d)" "i \<in> ids_of (sv_view ?s e) (?q e)" for d e i
      using that sub [of d] sub [of e] D(4) [of d e i] by blast
    show "\<not> session_is_reserved i" if "d \<in> known" "i \<in> ids_of (sv_view ?s d) (?q d)" for d i
      using that sub [of d] D(5) [of d i] by blast
    show "mapped ?s d \<or> cv_state (sv_view ?s d) = Disconnected" if "d \<in> known" for d
      using D(6) [OF that] that state by (auto simp: mapped)
  qed
qed

lemma ok_process:
  assumes ok: "udp_ok (known, q, s)" and core: "core_processes sid (sv_view s c) (r, v)"
  shows "udp_ok (known, q(c := q c @ acked (sv_view s c) v), set_view c v s)"
proof (rule ok_view [OF ok])
  show "chain i (q c @ acked (sv_view s c) v) (cv_session_id v)" if "chain i (q c) (cv_session_id (sv_view s c))" for i
    using that core chain_snoc by (auto simp: core_processes_def acked_def)
  show "cv_pending_session_id v = Some i \<or> i \<in> snd ` set (q c @ acked (sv_view s c) v)"
    if "cv_pending_session_id (sv_view s c) = Some i \<or> i \<in> snd ` set (q c)" for i
    using that core by (auto simp: core_processes_def acked_def image_iff)
  show "mapped s c \<or> cv_state v = Disconnected" if "c \<in> known"
    using udp_okD(6) [OF ok that] core by (auto simp: core_processes_def)
qed (use core in \<open>auto simp: core_processes_def ids_of_def acked_def\<close>)

lemma ok_same_keys:
  assumes "udp_ok (known, q, s)" and "same_keys (sv_view s c) v"
    and "c \<in> known \<Longrightarrow> mapped s c \<or> cv_state v = Disconnected"
  shows "udp_ok (known, q, set_view c v s)"
  using ok_view [OF assms(1), of v c "q c"] assms(2,3) by (auto simp: same_keys_def ids_of_def)

lemma ok_unknown: "udp_ok (known, q, s) \<Longrightarrow> c \<notin> known \<Longrightarrow> udp_ok (known, q(c := q'), set_view c v s)"
  unfolding udp_ok_def addr_ok_def sid_ok_def pending_ok_def ids_ok_def mapped_def by (auto split: if_splits)

lemma ok_rotate:
  assumes ok: "udp_ok (known, q, s)" and c: "c \<in> known" and fresh: "fresh_id (known, q, s) rotated"
  shows "udp_ok (known, q, server_begin_rotation c rotated s)"
proof (cases "cv_pending_session_id (sv_view s c) = None \<and> (\<exists>new. rotated = Inr new)")
  case True
  then obtain new where none: "cv_pending_session_id (sv_view s c) = None" and new: "rotated = Inr new" by blast
  let ?v = "(sv_view s c)\<lparr>cv_pending_session_id := Some new\<rparr>"
  let ?s = "server_begin_rotation c rotated s"
  note D = udp_okD [OF ok]
  have s: "sv_connections ?s = sv_connections s" "sv_view ?s = (sv_view s)(c := ?v)"
    "pending_entry ?s i = (if i = new then Some c else pending_entry s i)" for i
    using none by (simp_all add: new server_begin_rotation_def manager_begin_rotation_def set_view_def lookup_update')
  have mapped: "mapped ?s d = mapped s d" for d by (simp add: mapped_def s)
  have sub: "ids_of (sv_view ?s d) (q d) \<subseteq> (if d = c then insert new (ids_of (sv_view s d) (q d)) else ids_of (sv_view s d) (q d))" for d
    by (auto simp: s ids_of_def)
  have unused: "new \<notin> ids_of (sv_view s d) (q d)" if "d \<in> known" for d
    using fresh that by (auto simp: fresh_id_def new used_ids_def)
  show ?thesis
  proof (rule udp_okI)
    show "d \<in> known \<and> mapped ?s d \<and> cv_peer_addr (sv_view ?s d) = a" if "addr_entry ?s a = Some d" for a d
      using that D(1) [of a d] by (auto simp: mapped s)
    show "d \<in> known \<and> mapped ?s d \<and> chain i (q d) (cv_session_id (sv_view ?s d))" if "sid_entry ?s i = Some d" for i d
      using that D(2) [of i d] by (auto simp: mapped s)
    show "d \<in> known \<and> (cv_pending_session_id (sv_view ?s d) = Some i \<or> i \<in> snd ` set (q d))" if "pending_entry ?s i = Some d" for i d
      using that D(3) [of i d] c none by (auto simp: s split: if_splits)
    show "d = e" if "d \<in> known" "e \<in> known" "i \<in> ids_of (sv_view ?s d) (q d)" "i \<in> ids_of (sv_view ?s e) (q e)" for d e i
      using that sub [of d] sub [of e] D(4) [of d e i] unused [of d] unused [of e] by (auto split: if_splits)
    show "\<not> session_is_reserved i" if "d \<in> known" "i \<in> ids_of (sv_view ?s d) (q d)" for d i
      using that sub [of d] D(5) [of d i] fresh by (auto simp: fresh_id_def new split: if_splits)
    show "mapped ?s d \<or> cv_state (sv_view ?s d) = Disconnected" if "d \<in> known" for d
      using D(6) [OF that] by (auto simp: mapped s)
  qed
qed (use ok in \<open>auto simp: server_begin_rotation_def split: sum.split\<close>)

lemma ok_set_peer_addr:
  assumes ok: "udp_ok (known, q, s)" and c: "mapped s c" and free: "addr_entry s a = None"
  shows "udp_ok (known, q, manager_set_peer_addr c a s)"
proof -
  let ?s = "manager_set_peer_addr c a s" and ?old = "cv_peer_addr (sv_view s c)"
  note D = udp_okD [OF ok]
  have own: "addr_entry s ?old = Some c" using c by (simp add: mapped_def)
  then have s: "addr_entry ?s b = (if b = a then Some c else if b = ?old then None else addr_entry s b)"
    "by_session_id (sv_connections ?s) = by_session_id (sv_connections s)"
    "sv_pending_session_id_rotations ?s = sv_pending_session_id_rotations s"
    "sv_view ?s = (sv_view s)(c := (sv_view s c)\<lparr>cv_peer_addr := a\<rparr>)" for b
    by (auto simp: manager_set_peer_addr_def update_socketaddr_for_connection_def Let_def set_view_def lookup_update')
  have mapped: "mapped ?s d = mapped s d" for d
    using own c free D(1) [of "cv_peer_addr (sv_view s d)" d] by (auto simp: mapped_def s)
  have ids: "ids_of (sv_view ?s d) p = ids_of (sv_view s d) p" for d p by (simp add: s ids_of_def)
  show ?thesis
  proof (rule udp_okI)
    show "d \<in> known \<and> mapped ?s d \<and> cv_peer_addr (sv_view ?s d) = b" if "addr_entry ?s b = Some d" for b d
      using that D(1) [of b d] D(7) [OF c] c by (auto simp: mapped s split: if_splits)
    show "d \<in> known \<and> mapped ?s d \<and> chain i (q d) (cv_session_id (sv_view ?s d))" if "sid_entry ?s i = Some d" for i d
      using that D(2) [of i d] by (auto simp: mapped s)
    show "d \<in> known \<and> (cv_pending_session_id (sv_view ?s d) = Some i \<or> i \<in> snd ` set (q d))" if "pending_entry ?s i = Some d" for i d
      using that D(3) [of i d] by (auto simp: s)
    show "d = e" if "d \<in> known" "e \<in> known" "i \<in> ids_of (sv_view ?s d) (q d)" "i \<in> ids_of (sv_view ?s e) (q e)" for d e i
      using that D(4) [of d e i] by (simp add: ids)
    show "\<not> session_is_reserved i" if "d \<in> known" "i \<in> ids_of (sv_view ?s d) (q d)" for d i
      using that D(5) [of d i] by (simp add: ids)
    show "mapped ?s d \<or> cv_state (sv_view ?s d) = Disconnected" if "d \<in> known" for d
      using D(6) [OF that] by (auto simp: mapped s)
  qed
qed

lemma chain_unique: "chain i q cur \<Longrightarrow> chain j q cur \<Longrightarrow> i = j"
  by (cases q) auto

lemma ok_remove:
  assumes ok: "udp_ok (known, q, s)" and c: "mapped s c" and q: "q c = []" and v: "same_keys (sv_view s c) v"
    and state: "cv_state v = Disconnected"
  shows "udp_ok (known, q, server_disconnect c v s)"
proof -
  let ?s = "server_disconnect c v s"
  note D = udp_okD [OF ok]
  have own: "addr_entry s (cv_peer_addr (sv_view s c)) = Some c" and sid: "sid_entry s (cv_session_id (sv_view s c)) = Some c"
    using c D(2) [of _ c] q by (auto simp: mapped_def)
  have s: "addr_entry ?s a = (if a = cv_peer_addr (sv_view s c) then None else addr_entry s a)"
    "sid_entry ?s i = (if i = cv_session_id (sv_view s c) then None else sid_entry s i)"
    "sv_pending_session_id_rotations ?s = sv_pending_session_id_rotations s"
    "sv_view ?s = (sv_view s)(c := v)" for a i
    by (simp_all add: server_disconnect_def remove_connection_def map_remove_def view_keys_def set_view_def lookup_delete)
  have not_c: "addr_entry ?s a \<noteq> Some c" "sid_entry ?s i \<noteq> Some c" for a i
    using D(1) [of a c] D(2) [of i c] q by (auto simp: s)
  have mapped: "mapped ?s d = mapped s d" if "d \<noteq> c" for d
  proof
    assume "mapped s d"
    then obtain i where "addr_entry s (cv_peer_addr (sv_view s d)) = Some d" "sid_entry s i = Some d" by (auto simp: mapped_def)
    moreover from this have "i \<noteq> cv_session_id (sv_view s c)" "cv_peer_addr (sv_view s d) \<noteq> cv_peer_addr (sv_view s c)"
      using that own sid by auto
    ultimately have "sid_entry ?s i = Some d" "addr_entry ?s (cv_peer_addr (sv_view ?s d)) = Some d" using that by (simp_all add: s)
    then show "mapped ?s d" unfolding mapped_def by blast
  next
    assume "mapped ?s d"
    then obtain i where i: "addr_entry ?s (cv_peer_addr (sv_view ?s d)) = Some d" "sid_entry ?s i = Some d" by (auto simp: mapped_def)
    then have "sid_entry s i = Some d" "addr_entry s (cv_peer_addr (sv_view s d)) = Some d" using that by (simp_all add: s split: if_splits)
    then show "mapped s d" unfolding mapped_def by blast
  qed
  have ids: "ids_of (sv_view ?s d) p = ids_of (sv_view s d) p" for d p using v by (simp add: s ids_of_def same_keys_def)
  show ?thesis
  proof (rule udp_okI)
    show "d \<in> known \<and> mapped ?s d \<and> cv_peer_addr (sv_view ?s d) = a" if "addr_entry ?s a = Some d" for a d
      using that D(1) [of a d] not_c(1) [of a] mapped [of d] by (cases "d = c") (auto simp: s split: if_splits)
    show "d \<in> known \<and> mapped ?s d \<and> chain i (q d) (cv_session_id (sv_view ?s d))" if "sid_entry ?s i = Some d" for i d
      using that D(2) [of i d] not_c(2) [of i] mapped [of d] by (cases "d = c") (auto simp: s split: if_splits)
    show "d \<in> known \<and> (cv_pending_session_id (sv_view ?s d) = Some i \<or> i \<in> snd ` set (q d))" if "pending_entry ?s i = Some d" for i d
      using that D(3) [of i d] v by (auto simp: s same_keys_def)
    show "d = e" if "d \<in> known" "e \<in> known" "i \<in> ids_of (sv_view ?s d) (q d)" "i \<in> ids_of (sv_view ?s e) (q e)" for d e i
      using that D(4) [of d e i] by (simp add: ids)
    show "\<not> session_is_reserved i" if "d \<in> known" "i \<in> ids_of (sv_view ?s d) (q d)" for d i
      using that D(5) [of d i] by (simp add: ids)
    show "mapped ?s d \<or> cv_state (sv_view ?s d) = Disconnected" if "d \<in> known" for d
      using D(6) [OF that] mapped [of d] state by (cases "d = c") (auto simp: s)
  qed
qed

lemma ok_finalize:
  assumes ok: "udp_ok (known, q, s)" and c: "mapped s c" and q: "q c = (old, new) # rest"
  shows "udp_ok (known, q(c := rest), finalize_session_id_rotation old new s)"
proof -
  let ?s = "finalize_session_id_rotation old new s" and ?q = "q(c := rest)"
  note D = udp_okD [OF ok]
  obtain i where "sid_entry s i = Some c" using c by (auto simp: mapped_def)
  then have old: "sid_entry s old = Some c" and rest: "chain new rest (cv_session_id (sv_view s c))"
    using D(2) [of i c] q by auto
  have one: "j = old" if "sid_entry s j = Some c" for j using D(2) [OF that] q by simp
  have new: "sid_entry s new = Some d \<Longrightarrow> d = c" for d
    using D(2) [of new d] D(4) [of c d new] D(7) [OF c] chain_mem [of new "q d" "sv_view s d"] q by (auto simp: ids_of_def)
  have s: "by_socket_addr (sv_connections ?s) = by_socket_addr (sv_connections s)" "sv_view ?s = sv_view s"
    "sid_entry ?s j = (if j = new then Some c else if j = old then None else sid_entry s j)"
    "pending_entry ?s j = (if j = new then None else pending_entry s j)" for j
    using old by (auto simp: finalize_session_id_rotation_def update_session_id_for_connection_def lookup_update' lookup_delete)
  have mapped: "mapped ?s d = mapped s d" for d
  proof (cases "d = c")
    case True
    then show ?thesis using c by (auto simp: mapped_def s)
  next
    case False
    then have "sid_entry ?s j = Some d \<longleftrightarrow> sid_entry s j = Some d" for j using old new [of d] by (auto simp: s)
    then show ?thesis by (simp add: mapped_def s)
  qed
  have sub: "ids_of (sv_view ?s d) (?q d) \<subseteq> ids_of (sv_view s d) (q d)" for d by (auto simp: s ids_of_def q)
  show ?thesis
  proof (rule udp_okI)
    show "d \<in> known \<and> mapped ?s d \<and> cv_peer_addr (sv_view ?s d) = a" if "addr_entry ?s a = Some d" for a d
      using that D(1) [of a d] by (simp add: mapped s)
    show "d \<in> known \<and> mapped ?s d \<and> chain j (?q d) (cv_session_id (sv_view ?s d))" if "sid_entry ?s j = Some d" for j d
    proof (cases "d = c")
      case True
      then have "j = new" using that one [of j] by (auto simp: s split: if_splits)
      then show ?thesis using True rest c D(7) by (simp add: mapped s)
    next
      case False
      then show ?thesis using that D(2) [of j d] by (auto simp: mapped s split: if_splits)
    qed
    show "d \<in> known \<and> (cv_pending_session_id (sv_view ?s d) = Some j \<or> j \<in> snd ` set (?q d))" if "pending_entry ?s j = Some d" for j d
      using that D(3) [of j d] q by (auto simp: s split: if_splits)
    show "d = e" if "d \<in> known" "e \<in> known" "j \<in> ids_of (sv_view ?s d) (?q d)" "j \<in> ids_of (sv_view ?s e) (?q e)" for d e j
      using that sub [of d] sub [of e] D(4) [of d e j] by blast
    show "\<not> session_is_reserved j" if "d \<in> known" "j \<in> ids_of (sv_view ?s d) (?q d)" for d j
      using that sub [of d] D(5) [of d j] by blast
    show "mapped ?s d \<or> cv_state (sv_view ?s d) = Disconnected" if "d \<in> known" for d
      using D(6) [OF that] by (simp add: mapped s)
  qed
qed

lemma ok_insert:
  assumes ok: "udp_ok (known, q, s)" and fresh: "fresh_conn (known, q, s) a (Inr (c, v))" and free: "addr_entry s a = None"
    and views: "sv_view s1 = (sv_view s)(c := v)" and pend: "sv_pending_session_id_rotations s1 = sv_pending_session_id_rotations s"
    and entries: "sv_connections s1 = \<lparr>by_socket_addr = Mapping.update a c (by_socket_addr (sv_connections s)),
      by_session_id = Mapping.update (cv_session_id v) c (by_session_id (sv_connections s))\<rparr>"
  shows "udp_ok (insert c known, q(c := []), s1)"
proof -
  note D = udp_okD [OF ok]
  let ?q = "q(c := [])" and ?K = "insert c known"
  have c: "c \<notin> known" and v: "cv_peer_addr v = a" "ids_of v [] = {cv_session_id v}" "\<not> session_is_reserved (cv_session_id v)"
    and unused: "\<And>d. d \<in> known \<Longrightarrow> cv_session_id v \<notin> ids_of (sv_view s d) (q d)"
    using fresh by (auto simp: fresh_conn_def used_ids_def ids_of_def)
  have s: "addr_entry s1 b = (if b = a then Some c else addr_entry s b)"
    "sid_entry s1 i = (if i = cv_session_id v then Some c else sid_entry s i)" for b i
    by (simp_all add: entries lookup_update')
  have no_sid: "sid_entry s (cv_session_id v) = None"
    using D(2) [of "cv_session_id v"] unused chain_mem by (cases "sid_entry s (cv_session_id v)") blast+
  have mapped_c: "mapped s1 c" using v by (auto simp: mapped_def s views)
  have mapped: "mapped s1 d = mapped s d" if "d \<in> known" for d
  proof -
    have "d \<noteq> c" using that c by blast
    then have "sid_entry s1 i = Some d \<longleftrightarrow> sid_entry s i = Some d" "addr_entry s1 b = Some d \<longleftrightarrow> addr_entry s b = Some d" for i b
      using no_sid free by (auto simp: s)
    then show "mapped s1 d = mapped s d" using \<open>d \<noteq> c\<close> by (simp add: mapped_def views)
  qed
  show ?thesis
  proof (rule udp_okI)
    show "d \<in> ?K \<and> mapped s1 d \<and> cv_peer_addr (sv_view s1 d) = b" if "addr_entry s1 b = Some d" for b d
      using that D(1) [of b d] mapped [of d] mapped_c c v by (auto simp: s views split: if_splits)
    show "d \<in> ?K \<and> mapped s1 d \<and> chain i (?q d) (cv_session_id (sv_view s1 d))" if "sid_entry s1 i = Some d" for i d
      using that D(2) [of i d] mapped [of d] mapped_c c v by (auto simp: s views split: if_splits)
    show "d \<in> ?K \<and> (cv_pending_session_id (sv_view s1 d) = Some i \<or> i \<in> snd ` set (?q d))" if "pending_entry s1 i = Some d" for i d
      using that D(3) [of i d] c by (auto simp: pend views)
    show "d = e" if "d \<in> ?K" "e \<in> ?K" "i \<in> ids_of (sv_view s1 d) (?q d)" "i \<in> ids_of (sv_view s1 e) (?q e)" for d e i
      using that D(4) [of d e i] c v(2) unused by (auto simp: views split: if_splits)
    show "\<not> session_is_reserved i" if "d \<in> ?K" "i \<in> ids_of (sv_view s1 d) (?q d)" for d i
      using that D(5) [of d i] c v(2,3) by (auto simp: views split: if_splits)
    show "mapped s1 d \<or> cv_state (sv_view s1 d) = Disconnected" if "d \<in> ?K" for d
      using that D(6) [of d] mapped [of d] mapped_c c by (auto simp: views)
  qed
qed

lemma ok_fewer_pending:
  assumes "udp_ok (known, q, s)" and "\<And>i c. Mapping.lookup p i = Some c \<Longrightarrow> pending_entry s i = Some c"
  shows "udp_ok (known, q, s\<lparr>sv_pending_session_id_rotations := p\<rparr>)"
proof -
  have "mapped (s\<lparr>sv_pending_session_id_rotations := p\<rparr>) = mapped s" by (simp add: fun_eq_iff mapped_def)
  then show ?thesis
    using assms(1) unfolding udp_ok_def addr_ok_def sid_ok_def pending_ok_def ids_ok_def by (auto dest!: assms(2))
qed

lemma empty_is_reserved: "session_is_reserved SESSION_EMPTY"
  by (simp add: session_is_reserved_def)

lemma lookup_found:
  assumes ok: "udp_ok (known, q, s)" and fresh: "fresh_conn (known, q, s) a made" and alive: "\<And>c. alive c \<Longrightarrow> mapped s c"
    and run: "udp_lookup alive a sid made s = (Inr (c, upd), s1)"
  obtains (known) "s1 = s" "mapped s c" "cv_peer_addr (sv_view s c) = a" "\<not> upd"
    | (roaming) "s1 = s" "mapped s c" "addr_entry s a = None" "upd" "sid \<noteq> SESSION_EMPTY" "sid \<in> ids_of (sv_view s c) (q c)"
    | (new) "sid = SESSION_EMPTY" "addr_entry s a = None" "\<not> upd" "c \<notin> known" "udp_ok (insert c known, q(c := []), s1)" "mapped s1 c"
      "cv_peer_addr (sv_view s1 c) = a"
proof (cases "addr_entry s a")
  case (Some d)
  then show ?thesis
    using run udp_okD(1) [OF ok Some] by (intro that(1)) (auto simp: udp_lookup_def find_datagram_connection_with_def find_by_def)
next
  case free: None
  note D = udp_okD [OF ok]
  have lookup: "find_or_create_datagram_connection_with alive a sid made s = (Inr (c, upd), s1)"
    using run free by (simp add: udp_lookup_def find_datagram_connection_with_def find_by_def)
  have moved: "a \<noteq> cv_peer_addr (sv_view s d)" if "mapped s d" for d using that free by (auto simp: mapped_def)
  show ?thesis
  proof (cases "sid_entry s sid")
    case (Some d)
    then have d: "d \<in> known" "mapped s d" "sid \<in> ids_of (sv_view s d) (q d)" using D(2) [OF Some] chain_mem by blast+
    then have "sid \<noteq> SESSION_EMPTY" using D(5) [of d sid] empty_is_reserved by blast
    then show ?thesis
      using lookup free Some d moved [OF d(2)]
      by (intro that(2)) (auto simp: find_or_create_datagram_connection_with_def map_lookup_def split: if_splits)
  next
    case unknown: None
    show ?thesis
    proof (cases "sid = SESSION_EMPTY")
      case True
      then obtain v where made: "made = Inr (c, v)" and upd: "\<not> upd" and s1: "sv_view s1 = (sv_view s)(c := v)"
        "sv_pending_session_id_rotations s1 = sv_pending_session_id_rotations s"
        "sv_connections s1 = \<lparr>by_socket_addr = Mapping.update a c (by_socket_addr (sv_connections s)),
          by_session_id = Mapping.update (cv_session_id v) c (by_session_id (sv_connections s))\<rparr>"
        using lookup free unknown
        by (auto simp: find_or_create_datagram_connection_with_def map_lookup_def new_connection_def vacant_insert_def
            view_keys_def set_view_def Let_def split: sum.split_asm if_split_asm prod.split_asm)
      have c: "c \<notin> known" "cv_peer_addr v = a" using fresh by (auto simp: fresh_conn_def made)
      have "udp_ok (insert c known, q(c := []), s1)" using ok_insert [OF ok fresh [unfolded made] free s1(1,2,3)] .
      moreover have "mapped s1 c" using c(2) by (auto simp: mapped_def s1 lookup_update')
      ultimately show ?thesis using True free upd c by (intro that(3)) (simp_all add: s1)
    next
      case False
      then have p: "pending_entry s sid = Some c" "alive c" "s1 = s" "upd = (a \<noteq> cv_peer_addr (sv_view s c))"
        using lookup free unknown
        by (auto simp: find_or_create_datagram_connection_with_def map_lookup_def split: option.splits if_splits)
      then have "sid \<in> ids_of (sv_view s c) (q c)" using D(3) [OF p(1)] by (auto simp: ids_of_def)
      then show ?thesis using p False free alive moved by (intro that(2)) simp_all
    qed
  qed
qed

lemma lookup_failed:
  assumes ok: "udp_ok (known, q, s)" and fresh: "fresh_conn (known, q, s) a made"
    and run: "udp_lookup alive a sid made s = (Inl e, s1)"
  shows "udp_ok (known, q, s1)"
proof -
  have total: "udp_ok (known, q, s\<lparr>sv_total_sessions := n\<rparr>)" for n
    using ok by (simp add: udp_ok_def addr_ok_def sid_ok_def pending_ok_def ids_ok_def mapped_def)
  have dropped: "udp_ok (known, q, set_view c v (s\<lparr>sv_total_sessions := n\<rparr>))" if "made = Inr (c, v)" for c v n
  proof -
    have "c \<notin> known" using fresh by (simp add: fresh_conn_def that)
    then show ?thesis using ok_unknown [OF total, of c "q c" v] by simp
  qed
  have deleted: "udp_ok (known, q, s\<lparr>sv_pending_session_id_rotations := Mapping.delete sid (sv_pending_session_id_rotations s)\<rparr>)"
    by (rule ok_fewer_pending [OF ok]) (metis lookup_delete lookup_delete_neq option.distinct(1))
  show ?thesis
    using run ok total dropped deleted
    by (auto simp: udp_lookup_def find_or_create_datagram_connection_with_def new_connection_def Let_def
        split: option.split_asm map_entry.split_asm sum.split_asm if_split_asm prod.split_asm)
qed

text \<open>The outcome of a packet whose connection was found or made.\<close>

lemma data_received_found:
  assumes "apply_ingress_chain plugins (WirePkt buf Datagram) = Some (Inr pkt)" and "op_header pkt = Some hdr"
    and "version_range_contains versions (hdr_version hdr)"
    and "udp_lookup alive addr (hdr_session hdr) made s = (Inr (c, upd), s1)" and "processed c = (r, v)"
  shows "data_received plugins versions alive made processed closed rotated addr buf s = Some (False,
    (case r of
       Inr n \<Rightarrow>
         if n \<noteq> 0 \<and> upd then server_begin_rotation c rotated (manager_set_peer_addr c addr (set_view c v s1))
         else set_view c v s1
     | Inl e \<Rightarrow> snd (handle_outside_data_error c e (closed c) (set_view c v s1))))"
  using assms by (auto simp: data_received_def split: sum.split prod.split)

lemma used_ids_process:
  assumes "core_processes sid (sv_view s c) (r, v)"
  shows "used_ids (known, q(c := q c @ acked (sv_view s c) v), set_view c v s) \<subseteq> used_ids (known, q, s)"
proof -
  have "ids_of v (q c @ acked (sv_view s c) v) \<subseteq> ids_of (sv_view s c) (q c)"
    using assms by (auto simp: core_processes_def ids_of_def acked_def)
  then show ?thesis unfolding used_ids_def by (fastforce split: if_splits)
qed

lemma used_ids_peer: "used_ids (known, q, manager_set_peer_addr c a s) = used_ids (known, q, s)"
proof -
  have "ids_of (sv_view (manager_set_peer_addr c a s) d) p = ids_of (sv_view s d) p" for d p
    by (simp add: manager_set_peer_addr_def Let_def ids_of_def)
  then show ?thesis by (simp add: used_ids_def)
qed

lemma ok_packet:
  assumes ok: "udp_ok (known, q, s1)" and c: "mapped s1 c" and free: "upd \<Longrightarrow> addr_entry s1 addr = None"
    and core: "core_processes sid (sv_view s1 c) (r, v)" and fresh: "fresh_id (known, q, s1) rotated"
    and closed: "same_keys v cv \<and> cv_state cv = Disconnected" and quiet: "\<And>e. r = Inl e \<Longrightarrow> q c = []"
  shows "udp_ok (known, q(c := q c @ acked (sv_view s1 c) v),
    (case r of
       Inr n \<Rightarrow>
         if n \<noteq> 0 \<and> upd then server_begin_rotation c rotated (manager_set_peer_addr c addr (set_view c v s1))
         else set_view c v s1
     | Inl e \<Rightarrow> snd (handle_outside_data_error c e cv (set_view c v s1))))"
proof -
  let ?q = "q(c := q c @ acked (sv_view s1 c) v)" and ?s = "set_view c v s1"
  have ok': "udp_ok (known, ?q, ?s)" using ok core by (rule ok_process)
  have peer: "cv_peer_addr v = cv_peer_addr (sv_view s1 c)" using core by (simp add: core_processes_def)
  have c': "mapped ?s c" using c mapped_view [OF peer] by blast
  show ?thesis
  proof (cases r)
    case (Inl e)
    then have "acked (sv_view s1 c) v = []" using core by (auto simp: core_processes_def acked_def)
    then show ?thesis using Inl ok' ok_remove [OF ok' c', of cv] quiet closed by (auto simp: handle_outside_data_error_def)
  next
    case (Inr n)
    show ?thesis
    proof (cases "n \<noteq> 0 \<and> upd")
      case True
      then have "udp_ok (known, ?q, manager_set_peer_addr c addr ?s)" using ok_set_peer_addr [OF ok' c'] free by simp
      moreover have "fresh_id (known, ?q, manager_set_peer_addr c addr ?s) rotated"
        using fresh used_ids_process [OF core, of known q] by (auto simp: fresh_id_def used_ids_peer)
      ultimately show ?thesis using ok_rotate udp_okD(7) [OF ok c] True Inr by simp
    qed (use Inr ok' in auto)
  qed
qed

lemma udp_invariant: "udp_reachable x \<Longrightarrow> udp_ok x"
proof (induction rule: udp_reachable.induct)
  case (start views)
  then show ?case
    by (simp add: udp_ok_def addr_ok_def sid_ok_def pending_ok_def ids_ok_def server_new_def map_default_def)
next
  case (packet known q s addr made alive plugins buf pkt hdr versions c upd s1 processed rotated closed rej s')
  let ?K = "insert c known" and ?Q = "q(c := if c \<in> known then q c else [])"
  obtain r v where rv: "processed c = (r, v)" by force
  have base: "udp_ok (?K, ?Q, s1) \<and> mapped s1 c \<and> (upd \<longrightarrow> addr_entry s1 addr = None)"
  proof (rule lookup_found [OF packet.IH packet.hyps(2) packet.hyps(3) packet.hyps(7)], goal_cases)
    case 2
    then show ?case using packet.IH udp_okD(7) [OF packet.IH, of c] by (simp add: insert_absorb)
  next
    case 3
    then show ?case using packet.IH udp_okD(7) [OF packet.IH, of c] by (simp add: insert_absorb)
  qed auto
  have "s' = (case r of
       Inr n \<Rightarrow>
         if n \<noteq> 0 \<and> upd then server_begin_rotation c rotated (manager_set_peer_addr c addr (set_view c v s1))
         else set_view c v s1
     | Inl e \<Rightarrow> snd (handle_outside_data_error c e (closed c) (set_view c v s1)))"
    using data_received_found [OF packet.hyps(4-7), of processed r v] rv packet.hyps(12) by simp
  moreover have "udp_ok (?K, ?Q(c := ?Q c @ acked (sv_view s1 c) v), (case r of
       Inr n \<Rightarrow>
         if n \<noteq> 0 \<and> upd then server_begin_rotation c rotated (manager_set_peer_addr c addr (set_view c v s1))
         else set_view c v s1
     | Inl e \<Rightarrow> snd (handle_outside_data_error c e (closed c) (set_view c v s1))))"
  proof (rule ok_packet)
    show "?Q c = []" if "r = Inl e" for e using packet.hyps(11) [of e] that rv by simp
  qed (use base packet.hyps(8,9,10) rv in simp_all)
  ultimately show ?case using rv by simp
next
  case (rejected known q s addr made alive sid e s1)
  then show ?case using lookup_failed by blast
next
  case (event known q s c old new rest)
  then show ?case by (intro ok_finalize)
next
  case (key_update known q s c rotated)
  then show ?case using ok_rotate [OF key_update.IH udp_okD(7) [OF key_update.IH key_update.hyps(2)]] by blast
next
  case (disconnect known q s c v)
  then show ?case by (intro ok_remove)
next
  case (progress known q s c v)
  then show ?case using ok_same_keys [OF progress.IH] udp_okD(6) [OF progress.IH] by metis
next
  case (cleanup known q s alive)
  then show ?case
    by (auto simp: cleanup_pending_session_ids_def Mapping.lookup_filter intro!: ok_fewer_pending split: option.splits if_splits)
qed

section \<open>Properties\<close>


lemma lookup_view:
  assumes "fresh_conn (known, q, s) addr made" and "udp_lookup alive addr sid made s = (r, s1)" and "c \<in> known"
  shows "sv_view s1 c = sv_view s c"
  using assms
  by (auto simp: fresh_conn_def udp_lookup_def find_or_create_datagram_connection_with_def new_connection_def Let_def set_view_def
      split: option.split_asm map_entry.split_asm sum.split_asm if_split_asm prod.split_asm)

lemma server_begin_rotation_keys:
  "cv_peer_addr (sv_view (server_begin_rotation d rotated s) c) = cv_peer_addr (sv_view s c)"
  "sv_connections (server_begin_rotation d rotated s) = sv_connections s"
  by (simp_all add: server_begin_rotation_def manager_begin_rotation_def split: sum.split)

lemma data_received_parsed:
  assumes "data_received plugins versions alive made processed closed rotated addr buf s = Some (rej, s')" and "s' \<noteq> s"
  obtains pkt hdr where "apply_ingress_chain plugins (WirePkt buf Datagram) = Some (Inr pkt)" "op_header pkt = Some hdr"
    "version_range_contains versions (hdr_version hdr)"
  using assms by (auto simp: data_received_def split: bind_split_asm sum.split_asm option.split_asm if_split_asm)

lemma data_received_rejected:
  assumes "apply_ingress_chain plugins (WirePkt buf Datagram) = Some (Inr pkt)" and "op_header pkt = Some hdr"
    and "version_range_contains versions (hdr_version hdr)" and "udp_lookup alive addr (hdr_session hdr) made s = (Inl e, s1)"
  shows "data_received plugins versions alive made processed closed rotated addr buf s = Some (True, s1)"
  using assms by (simp add: data_received_def)


section \<open>Late finalisation\<close>

text \<open>
  Without the order of \<open>disconnect\<close> after the event task: a connection that is disconnected between
  the packet that adopts its new session id and the task that finalises the rotation leaves an
  entry behind, first under the old id and then under the new one, that no later step of the
  server removes unless a packet with that id arrives.
\<close>

lemma late_finalize_leaks:
  assumes "sid_entry s old = Some c" and "cv_session_id (sv_view s c) = new" and "old \<noteq> new"
  shows "sid_entry (finalize_session_id_rotation old new (server_disconnect c v s)) new = Some c"
  using assms
  by (simp add: finalize_session_id_rotation_def update_session_id_for_connection_def server_disconnect_def remove_connection_def
      map_remove_def view_keys_def set_view_def lookup_delete_neq lookup_update')

section \<open>A concrete run\<close>

definition ex_view :: conn_view where
  "ex_view = \<lparr>cv_peer_addr = SockAddrV4 1 1, cv_session_id = replicate 8 1, cv_pending_session_id = None, cv_state = Online,
     cv_connection_type = Datagram,
     cv_activity = \<lparr>last_outside_data_received = 0, last_data_traffic_from_peer = 0, last_data_delivered_to_inside = 0\<rparr>\<rparr>"

definition ex_header :: "session_id \<Rightarrow> header" where
  "ex_header sid = \<lparr>hdr_version = version_MAXIMUM, hdr_aggressive_mode = False, hdr_expresslane_data = False, hdr_session = sid\<rparr>"

definition ex_datagram :: "session_id \<Rightarrow> bytes" where
  "ex_datagram sid = header_append_to_wire (ex_header sid) [] @ [1]"

lemma ex_datagram_parses:
  "apply_ingress_chain [] (WirePkt (ex_datagram SESSION_EMPTY) Datagram) = Some (Inr (UdpFrame [1] (ex_header SESSION_EMPTY)))"
  "apply_ingress_chain [] (WirePkt (ex_datagram (replicate 8 1)) Datagram) = Some (Inr (UdpFrame [1] (ex_header (replicate 8 1))))"
  "version_range_contains version_range_all (hdr_version (ex_header sid))"
  by code_simp+

lemma op_header_frame: "op_header (UdpFrame b hdr) = Some hdr"
  by (simp add: op_header_def)

lemma ex_header_session [simp]: "hdr_session (ex_header sid) = sid"
  by (simp add: ex_header_def)

lemmas ex_received = data_received_found [OF ex_datagram_parses(1) op_header_frame ex_datagram_parses(3), unfolded ex_header_session]
  data_received_found [OF ex_datagram_parses(2) op_header_frame ex_datagram_parses(3), unfolded ex_header_session]

text \<open>A client connects from one address.\<close>

abbreviation ex_closed :: "nat \<Rightarrow> conn_view" where
  "ex_closed c \<equiv> ex_view\<lparr>cv_state := Disconnected\<rparr>"

definition ex_started :: "nat server" where
  "ex_started = \<lparr>sv_connections = \<lparr>by_socket_addr = Mapping.update (SockAddrV4 1 1) 7 Mapping.empty,
      by_session_id = Mapping.update (replicate 8 1) 7 Mapping.empty\<rparr>,
    sv_pending_session_id_rotations = Mapping.empty, sv_total_sessions = 1, sv_view = (\<lambda>_. ex_view)\<rparr>"

lemma ex_connected:
  obtains s where "udp_reachable ({7 :: nat}, \<lambda>_. [], s)" "sv_view s 7 = ex_view" "addr_entry s (SockAddrV4 1 1) = Some 7"
    "addr_entry s (SockAddrV4 2 2) = None" "sid_entry s (replicate 8 1) = Some 7"
proof -
  let ?s0 = "server_new (\<lambda>_ :: nat. ex_view)" and ?made = "Inr (7 :: nat, ex_view)" and ?p = "\<lambda>_ :: nat. (Inr 1 :: connection_error + usize, ex_view)"
  have plain: "\<not> session_is_reserved (replicate 8 1)" by code_simp
  have look: "udp_lookup (\<lambda>_. False) (SockAddrV4 1 1) SESSION_EMPTY ?made ?s0 = (Inr (7, False), ex_started)"
    using plain
    by (simp add: udp_lookup_def find_datagram_connection_with_def find_by_def find_or_create_datagram_connection_with_def map_lookup_def
        server_new_def map_default_def new_connection_def vacant_insert_def view_keys_def set_view_def ex_view_def ex_started_def fun_eq_iff)
  have recv: "data_received [] version_range_all (\<lambda>_. False) ?made ?p ex_closed (Inl CeDisconnected) (SockAddrV4 1 1) (ex_datagram SESSION_EMPTY) ?s0
      = Some (False, set_view 7 ex_view ex_started)"
    by (simp add: ex_received(1) [OF look refl])
  have "udp_reachable (insert 7 {}, (\<lambda>_. [])(7 := (if 7 \<in> ({} :: nat set) then (\<lambda>_. []) 7 else []) @ acked (sv_view ex_started 7) (snd (?p 7))), set_view 7 ex_view ex_started)"
    by (rule udp_reachable.packet [OF udp_reachable.start _ _ ex_datagram_parses(1) op_header_frame ex_datagram_parses(3) _ _ _ _ _ recv])
      (use plain look in \<open>auto simp: fresh_conn_def used_ids_def ex_view_def op_header_def ex_header_def core_processes_def fresh_id_def same_keys_def ex_started_def\<close>)
  then show ?thesis
    by (intro that [of "set_view 7 ex_view ex_started"]) (simp_all add: acked_def ex_started_def lookup_update' fun_upd_idem)
qed



end
