(* ===== verification/Keepalive.thy ===== *)
theory Keepalive
  imports Key_Update
begin

text \<open>
  The keepalive task of a client (lightway-client/src/keepalive.rs). One round of its \<open>select!\<close> loop
  is one step: the branch that completed, at a time \<open>now\<close>. A round creates the interval timer anew;
  the reply timeout survives the rounds. The channel, the timers and the cancellation token of the
  tokio runtime are the events.
\<close>

record keepalive_config =
  kc_interval :: duration
  kc_timeout :: duration
  kc_continuous :: bool
  kc_tracer_trigger_timeout :: "duration option"

datatype keepalive_message = KaOnline | KaOutsideActivity | KaReplyReceived | KaNetworkChange | KaTracerDeltaExceeded | KaSuspend

datatype keepalive_result = KaCancelled | KaTimedout

datatype keepalive_state = KaSuspended | KaInactive | KaNeeded | KaWaiting | KaPending

text \<open>\<open>ka_since\<close> is when the current round started, \<open>ka_timeout\<close> when the reply timeout fires, if armed.\<close>

record keepalive_task =
  ka_state :: keepalive_state
  ka_timeout :: "instant option"
  ka_since :: instant

datatype keepalive_event = EvCancelled | EvMessage keepalive_message | EvNeeded | EvInterval | EvTimeout

definition ka_new :: "instant \<Rightarrow> keepalive_task" where
  "ka_new now = \<lparr>ka_state = KaInactive, ka_timeout = None, ka_since = now\<rparr>"

definition ka_on_message :: "keepalive_config \<Rightarrow> keepalive_message \<Rightarrow> keepalive_task \<Rightarrow> keepalive_task" where
  "ka_on_message cfg msg k =
     (case msg of
        KaOnline \<Rightarrow>
          if ka_state k \<in> {KaInactive, KaSuspended} \<and> kc_continuous cfg then k\<lparr>ka_state := KaWaiting\<rparr> else k
      | KaOutsideActivity \<Rightarrow> k\<lparr>ka_timeout := None\<rparr>
      | KaReplyReceived \<Rightarrow> k\<lparr>ka_state := if kc_continuous cfg then KaWaiting else KaInactive, ka_timeout := None\<rparr>
      | KaNetworkChange \<Rightarrow> k\<lparr>ka_state := KaNeeded, ka_timeout := None\<rparr>
      | KaTracerDeltaExceeded \<Rightarrow> if ka_state k \<notin> {KaPending, KaSuspended} then k\<lparr>ka_state := KaNeeded\<rparr> else k
      | KaSuspend \<Rightarrow> k\<lparr>ka_state := KaSuspended, ka_timeout := None\<rparr>)"

text \<open>\<open>conn.keepalive()\<close> was called; a timeout that runs already is left alone.\<close>

definition ka_sent :: "keepalive_config \<Rightarrow> instant \<Rightarrow> keepalive_task \<Rightarrow> keepalive_task" where
  "ka_sent cfg now k =
     k\<lparr>ka_state := KaPending,
       ka_timeout := (case ka_timeout k of None \<Rightarrow> Some (now + kc_timeout cfg) | Some d \<Rightarrow> Some d)\<rparr>"

text \<open>Whether a branch of the \<open>select!\<close> can complete at \<open>now\<close>.\<close>

definition ka_enabled :: "keepalive_config \<Rightarrow> keepalive_event \<Rightarrow> instant \<Rightarrow> keepalive_task \<Rightarrow> bool" where
  "ka_enabled cfg ev now k =
     (case ev of
        EvCancelled \<Rightarrow> True
      | EvMessage _ \<Rightarrow> True
      | EvNeeded \<Rightarrow> ka_state k = KaNeeded
      | EvInterval \<Rightarrow> ka_state k \<in> {KaPending, KaWaiting} \<and> ka_since k + kc_interval cfg \<le> now
      | EvTimeout \<Rightarrow> (case ka_timeout k of Some d \<Rightarrow> d \<le> now | None \<Rightarrow> False))"

text \<open>One round: the loop goes on with a new state, or the task returns.\<close>

definition ka_step :: "keepalive_config \<Rightarrow> keepalive_event \<Rightarrow> instant \<Rightarrow> keepalive_task \<Rightarrow> keepalive_result + keepalive_task" where
  "ka_step cfg ev now k =
     (case ev of
        EvCancelled \<Rightarrow> Inl KaCancelled
      | EvMessage msg \<Rightarrow> Inr ((ka_on_message cfg msg k)\<lparr>ka_since := now\<rparr>)
      | EvNeeded \<Rightarrow> Inr ((ka_sent cfg now k)\<lparr>ka_since := now\<rparr>)
      | EvInterval \<Rightarrow> Inr ((ka_sent cfg now k)\<lparr>ka_since := now\<rparr>)
      | EvTimeout \<Rightarrow> Inl KaTimedout)"

section \<open>Runs\<close>

text \<open>The rounds up to one that returns; \<open>None\<close> if a branch was taken that could not complete.\<close>

fun ka_run :: "keepalive_config \<Rightarrow> (instant \<times> keepalive_event) list \<Rightarrow> keepalive_task \<Rightarrow> (keepalive_result + keepalive_task) option" where
  "ka_run cfg [] k = Some (Inr k)"
| "ka_run cfg ((now, ev) # evs) k =
     (if \<not> ka_enabled cfg ev now k then None
      else case ka_step cfg ev now k of
          Inl r \<Rightarrow> (if evs = [] then Some (Inl r) else None)
        | Inr k \<Rightarrow> ka_run cfg evs k)"

definition sends_keepalive :: "keepalive_event \<Rightarrow> bool" where
  "sends_keepalive ev \<longleftrightarrow> ev \<in> {EvNeeded, EvInterval}"

text \<open>What shows that the server or the network is alive, or that nobody should ask.\<close>

definition ka_resets :: "keepalive_event \<Rightarrow> bool" where
  "ka_resets ev \<longleftrightarrow> ev \<in> {EvMessage KaOutsideActivity, EvMessage KaReplyReceived, EvMessage KaNetworkChange, EvMessage KaSuspend}"

text \<open>\<open>silent_since t0 evs\<close>: a keepalive went out at \<open>t0\<close> and nothing was heard since.\<close>

definition silent_since :: "instant \<Rightarrow> (instant \<times> keepalive_event) list \<Rightarrow> bool" where
  "silent_since t0 evs \<longleftrightarrow>
     (\<exists>pre ev post. evs = pre @ (t0, ev) # post \<and> sends_keepalive ev \<and> (\<forall>(t, e) \<in> set post. \<not> ka_resets e))"

lemma silent_since_snoc: "silent_since t0 evs \<Longrightarrow> \<not> ka_resets e \<Longrightarrow> silent_since t0 (evs @ [(t, e)])"
  unfolding silent_since_def
  by (elim exE conjE, rule_tac x = pre in exI, rule_tac x = ev in exI, rule_tac x = "post @ [(t, e)]" in exI) auto

lemma silent_since_now: "sends_keepalive e \<Longrightarrow> silent_since t (evs @ [(t, e)])"
  unfolding silent_since_def by fastforce

lemma ka_run_snoc:
  "ka_run cfg (evs @ [(t, e)]) k = Some r \<longleftrightarrow>
     (\<exists>k'. ka_run cfg evs k = Some (Inr k') \<and> ka_enabled cfg e t k' \<and> r = ka_step cfg e t k')"
  by (induction cfg evs k rule: ka_run.induct) (auto split: sum.splits if_splits)

text \<open>
  The invariant: the timeout is armed only while a reply is pending, and then a keepalive went out
  exactly \<open>kc_timeout\<close> before it fires and nothing was heard since.
\<close>

lemma ka_timeout_armed:
  assumes "ka_run cfg evs (ka_new t) = Some (Inr k)" and "ka_timeout k = Some d"
  shows "ka_state k = KaPending \<and> (\<exists>t0. d = t0 + kc_timeout cfg \<and> silent_since t0 evs)"
  using assms
proof (induction evs arbitrary: k d rule: rev_induct)
  case (snoc x evs)
  obtain now ev where x: "x = (now, ev)" by force
  obtain k' where run: "ka_run cfg evs (ka_new t) = Some (Inr k')" "ka_enabled cfg ev now k'" "Inr k = ka_step cfg ev now k'"
    using snoc.prems(1) by (auto simp: x ka_run_snoc)
  note ih = snoc.IH [OF run(1)]
  show ?case
  proof (cases ev)
    case (EvMessage msg)
    have "ka_timeout k' = Some d" "\<not> ka_resets ev" "ka_state k' = KaPending \<Longrightarrow> ka_state k = KaPending"
      using run(3) snoc.prems(2)
      by (cases msg; auto simp: EvMessage ka_step_def ka_on_message_def ka_resets_def split: if_splits)+
    then show ?thesis using ih [of d] silent_since_snoc [of _ evs ev now] by (auto simp: x)
  qed (use run(2,3) snoc.prems(2) ih silent_since_snoc [of _ evs ev now] silent_since_now [of ev now evs] in
      \<open>auto simp: x ka_step_def ka_sent_def ka_enabled_def sends_keepalive_def ka_resets_def split: option.splits\<close>)
qed (auto simp: ka_new_def)

text \<open>
  C39. The keepalive task gives up on a connection only after real silence: whatever messages and
  timers it gets, in any order, when it reports a timeout at time \<open>now\<close> there was a keepalive sent
  at least \<open>timeout\<close> earlier since which no reply, no other traffic, no network change and no
  suspension was seen; and it never times out while suspended or inactive.
\<close>

theorem keepalive_timeout_sound:
  assumes "ka_run cfg (evs @ [(now, ev)]) (ka_new t) = Some (Inl KaTimedout)"
  shows "ev = EvTimeout \<and> (\<exists>t0. t0 + kc_timeout cfg \<le> now \<and> silent_since t0 evs)
    \<and> (\<exists>k. ka_run cfg evs (ka_new t) = Some (Inr k) \<and> ka_state k = KaPending)"
proof -
  obtain k where k: "ka_run cfg evs (ka_new t) = Some (Inr k)" "ka_enabled cfg ev now k" "Inl KaTimedout = ka_step cfg ev now k"
    using assms by (auto simp: ka_run_snoc)
  then have ev: "ev = EvTimeout" by (cases ev) (auto simp: ka_step_def)
  then obtain d where d: "ka_timeout k = Some d" "d \<le> now" using k(2) by (auto simp: ka_enabled_def split: option.splits)
  then show ?thesis using ka_timeout_armed [OF k(1) d(1)] ev k(1) by blast
qed

theorem keepalive_timeout_sound_witness:
  "ka_run \<lparr>kc_interval = 10, kc_timeout = 30, kc_continuous = True, kc_tracer_trigger_timeout = None\<rparr>
      ([(0, EvMessage KaOnline), (10, EvInterval), (20, EvInterval), (30, EvInterval)] @ [(40, EvTimeout)]) (ka_new 0)
    = Some (Inl KaTimedout)
    \<and> (\<exists>t0. t0 + 30 \<le> 40 \<and> silent_since t0 [(0, EvMessage KaOnline), (10, EvInterval), (20, EvInterval), (30, EvInterval)])"
proof -
  let ?cfg = "\<lparr>kc_interval = 10, kc_timeout = 30, kc_continuous = True, kc_tracer_trigger_timeout = None\<rparr>"
  let ?evs = "[(0, EvMessage KaOnline), (10, EvInterval), (20, EvInterval), (30, EvInterval)]"
  have run: "ka_run ?cfg (?evs @ [(40, EvTimeout)]) (ka_new 0) = Some (Inl KaTimedout)"
    by (simp add: ka_new_def ka_enabled_def ka_step_def ka_on_message_def ka_sent_def)
  then show ?thesis using keepalive_timeout_sound [OF run] by auto
qed

end
