(* ===== verification/Send_Queue.thy ===== *)
theory Send_Queue
  imports Io_Adapter
begin

text \<open>
  Batched sending of a server's datagrams (lightway-server/src/io/outside/udp/send_queue.rs and
  \<open>UdpSocket::send\<close> of io/outside/udp.rs): while a batch window is open, sends are queued; closing
  the window hands the queue to the kernel. The kernel is a parameter: \<open>mmsg i msgs\<close> is the answer to
  the \<open>i\<close>-th \<open>sendmmsg\<close> once the socket is writable, \<open>msg\<close> the answer to a single \<open>sendmsg\<close>.
  \<open>in_pktinfo\<close> is the type variable \<open>'i\<close>. Linux variants.
\<close>

record 'i queued_datagram =
  qd_peer :: sock_addr
  qd_pktinfo :: "'i option"
  qd_data :: bytes

text \<open>The queue, the datagrams the kernel took, those it refused, and the number of \<open>sendmmsg\<close> calls.\<close>

record 'i send_queue =
  sq_queue :: "'i queued_datagram list option"
  sq_sent :: "'i queued_datagram list"
  sq_dropped :: "'i queued_datagram list"
  sq_calls :: nat

type_synonym 'i mmsg = "nat \<Rightarrow> 'i queued_datagram list \<Rightarrow> io_error + nat"

definition send_queue_new :: "'i send_queue" where
  "send_queue_new = \<lparr>sq_queue = None, sq_sent = [], sq_dropped = [], sq_calls = 0\<rparr>"

definition try_enqueue :: "'i queued_datagram \<Rightarrow> 'i send_queue \<Rightarrow> bool \<times> 'i send_queue" where
  "try_enqueue d s =
     (case sq_queue s of
        Some q \<Rightarrow> (True, s\<lparr>sq_queue := Some (q @ [d])\<rparr>)
      | None \<Rightarrow> (False, s))"

text \<open>\<open>None\<close> is the failed assertion against nested windows.\<close>

definition begin_batch :: "'i send_queue \<Rightarrow> 'i send_queue option" where
  "begin_batch s = (if sq_queue s \<noteq> None then None else Some (s\<lparr>sq_queue := Some []\<rparr>))"

text \<open>The loop of \<open>flush_retrying\<close>; it does not end while the kernel accepts nothing without an error.\<close>

partial_function (option) flush_retrying ::
  "'i mmsg \<Rightarrow> 'i queued_datagram list \<Rightarrow> 'i send_queue \<Rightarrow> 'i send_queue option" where
  "flush_retrying mmsg msgs s =
     (if msgs = [] then Some s
      else case mmsg (sq_calls s) msgs of
          Inr n \<Rightarrow>
            flush_retrying mmsg (drop n msgs) (s\<lparr>sq_sent := sq_sent s @ take n msgs, sq_calls := sq_calls s + 1\<rparr>)
        | Inl _ \<Rightarrow>
            flush_retrying mmsg (drop 1 msgs) (s\<lparr>sq_dropped := sq_dropped s @ take 1 msgs, sq_calls := sq_calls s + 1\<rparr>))"

declare flush_retrying.simps [code]

definition flush_best_effort :: "'i mmsg \<Rightarrow> 'i queued_datagram list \<Rightarrow> 'i send_queue \<Rightarrow> 'i send_queue" where
  "flush_best_effort mmsg msgs s =
     (case mmsg (sq_calls s) msgs of
        Inr n \<Rightarrow> s\<lparr>sq_sent := sq_sent s @ take n msgs, sq_dropped := sq_dropped s @ drop n msgs, sq_calls := sq_calls s + 1\<rparr>
      | Inl _ \<Rightarrow> s\<lparr>sq_dropped := sq_dropped s @ msgs, sq_calls := sq_calls s + 1\<rparr>)"

text \<open>\<open>SendBatchGuard::flush\<close>, and dropping a guard that was not flushed.\<close>

definition guard_flush :: "'i mmsg \<Rightarrow> 'i send_queue \<Rightarrow> 'i send_queue option" where
  "guard_flush mmsg s =
     (case sq_queue s of
        None \<Rightarrow> Some s
      | Some msgs \<Rightarrow>
          let s = s\<lparr>sq_queue := None\<rparr> in
          if msgs \<noteq> [] then flush_retrying mmsg msgs s else Some s)"

definition guard_drop :: "'i mmsg \<Rightarrow> 'i send_queue \<Rightarrow> 'i send_queue" where
  "guard_drop mmsg s =
     (case sq_queue s of
        None \<Rightarrow> s
      | Some msgs \<Rightarrow>
          let s = s\<lparr>sq_queue := None\<rparr> in
          if msgs \<noteq> [] then flush_best_effort mmsg msgs s else s)"

text \<open>\<open>UdpSocket::send\<close>.\<close>

definition udp_socket_send :: "('i queued_datagram \<Rightarrow> io_result) \<Rightarrow> 'i queued_datagram \<Rightarrow> 'i send_queue \<Rightarrow> io_result \<times> 'i send_queue" where
  "udp_socket_send msg d s =
     (case try_enqueue d s of
        (True, s) \<Rightarrow> (IoOk (length (qd_data d)), s)
      | (False, s) \<Rightarrow>
          (case msg d of
             IoOk n \<Rightarrow> (IoOk n, s\<lparr>sq_sent := sq_sent s @ [d]\<rparr>)
           | r \<Rightarrow> (r, s)))"

section \<open>A batch window\<close>

text \<open>What \<open>sendmmsg\<close> promises: it takes at least one message of a non-empty list, or fails.\<close>

definition mmsg_ok :: "'i mmsg \<Rightarrow> bool" where
  "mmsg_ok mmsg \<longleftrightarrow> (\<forall>i msgs n. msgs \<noteq> [] \<longrightarrow> mmsg i msgs = Inr n \<longrightarrow> 1 \<le> n \<and> n \<le> length msgs)"

fun udp_socket_sends :: "('i queued_datagram \<Rightarrow> io_result) \<Rightarrow> 'i queued_datagram list \<Rightarrow> 'i send_queue \<Rightarrow> 'i send_queue" where
  "udp_socket_sends msg [] s = s"
| "udp_socket_sends msg (d # ds) s = udp_socket_sends msg ds (snd (udp_socket_send msg d s))"

lemma sends_queued: "sq_queue s = Some q \<Longrightarrow> udp_socket_sends msg ds s = s\<lparr>sq_queue := Some (q @ ds)\<rparr>"
  by (induction ds arbitrary: s q) (auto simp: udp_socket_send_def try_enqueue_def)

lemma shuffles_append_left: "zs \<in> shuffles ys ds \<Longrightarrow> xs @ zs \<in> shuffles (xs @ ys) ds"
  by (induction xs) (auto intro: Cons_in_shuffles_leftI)

lemma flush_retrying_exact:
  assumes "mmsg_ok mmsg"
  shows "\<exists>sent dropped s'. flush_retrying mmsg msgs s = Some s' \<and> sq_queue s' = sq_queue s
    \<and> sq_sent s' = sq_sent s @ sent \<and> sq_dropped s' = sq_dropped s @ dropped \<and> msgs \<in> shuffles sent dropped
    \<and> sq_calls s' \<le> sq_calls s + length msgs
    \<and> ((\<forall>i ms e. mmsg i ms \<noteq> Inl e) \<longrightarrow> dropped = [])"
proof (induction "length msgs" arbitrary: msgs s rule: less_induct)
  case less
  show ?case
  proof (cases "msgs = []")
    case True
    then show ?thesis by (subst flush_retrying.simps) auto
  next
    case False
    show ?thesis
    proof (cases "mmsg (sq_calls s) msgs")
      case (Inl e)
      let ?s = "s\<lparr>sq_dropped := sq_dropped s @ take 1 msgs, sq_calls := sq_calls s + 1\<rparr>"
      have "length (drop 1 msgs) < length msgs" using False by simp
      from less.hyps [OF this, of ?s] obtain sent dropped s' where ih: "flush_retrying mmsg (drop 1 msgs) ?s = Some s'"
        "sq_queue s' = sq_queue s" "sq_sent s' = sq_sent s @ sent" "sq_dropped s' = sq_dropped s @ take 1 msgs @ dropped"
        "drop 1 msgs \<in> shuffles sent dropped" "sq_calls s' \<le> sq_calls s + 1 + length (drop 1 msgs)" by auto
      have "msgs \<in> shuffles sent (take 1 msgs @ dropped)"
        using ih(5) False by (cases msgs) (auto intro: Cons_in_shuffles_rightI)
      moreover have "flush_retrying mmsg msgs s = Some s'"
        using Inl False ih(1) by (subst flush_retrying.simps) simp
      moreover have "sq_calls s' \<le> sq_calls s + length msgs" using ih(6) False by (cases msgs) auto
      moreover have "\<not> (\<forall>i ms e. mmsg i ms \<noteq> Inl e)" using Inl by blast
      ultimately show ?thesis
        using ih(2-4) by blast
    next
      case (Inr n)
      let ?s = "s\<lparr>sq_sent := sq_sent s @ take n msgs, sq_calls := sq_calls s + 1\<rparr>"
      have n: "1 \<le> n" "n \<le> length msgs" using assms Inr False by (auto simp: mmsg_ok_def)
      then have "length (drop n msgs) < length msgs" using False by simp
      from less.hyps [OF this, of ?s] obtain sent dropped s' where ih: "flush_retrying mmsg (drop n msgs) ?s = Some s'"
        "sq_queue s' = sq_queue s" "sq_sent s' = sq_sent s @ take n msgs @ sent" "sq_dropped s' = sq_dropped s @ dropped"
        "drop n msgs \<in> shuffles sent dropped" "sq_calls s' \<le> sq_calls s + 1 + length (drop n msgs)"
        "(\<forall>i ms e. mmsg i ms \<noteq> Inl e) \<longrightarrow> dropped = []" by (simp, metis)
      have "msgs \<in> shuffles (take n msgs @ sent) dropped"
        using shuffles_append_left [OF ih(5), of "take n msgs"] by simp
      moreover have "flush_retrying mmsg msgs s = Some s'"
        using Inr False ih(1) by (subst flush_retrying.simps) simp
      moreover have "sq_calls s' \<le> sq_calls s + length msgs" using ih(6) n by simp
      ultimately show ?thesis
        using ih(2-4,7) by (metis append_assoc)
    qed
  qed
qed


definition ex_mmsg :: "unit mmsg" where
  "ex_mmsg i msgs = (if i = 1 then Inl (OtherError ''refused'') else Inr 1)"

definition ex_queued :: "nat \<Rightarrow> unit queued_datagram" where
  "ex_queued n = \<lparr>qd_peer = SockAddrV4 0x7f000001 27690, qd_pktinfo = None, qd_data = replicate n 7\<rparr>"


end
