(* ===== verification/Route_Manager.thy ===== *)
theory Route_Manager
  imports Exec_Monad
begin

text \<open>
  The routes of a desktop client (lightway-client/src/route_manager.rs): the host route to the
  server, the routes that keep the local networks reachable, the two half-default routes and the
  name server's route into the tunnel, the replacement of the server route after a network change,
  and the removal of all of them when the manager is dropped.

  The crate route_manager is the parameter \<open>routing\<close>: \<open>'r\<close> is its \<open>Route\<close>, with the builders and
  accessors the source uses, and \<open>'t\<close> the kernel's table behind its two managers. Linux variants.
\<close>

text \<open>What the source asks of a \<open>std::io::Error\<close>: its raw code, and whether its kind is \<open>PermissionDenied\<close>.\<close>

record os_error =
  raw_os_error :: "int option"
  permission_denied :: bool

definition EEXIST :: int where "EEXIST = 17"

record ('r, 't) routing =
  rt_new :: "ip_addr \<Rightarrow> u8 \<Rightarrow> 'r"
  with_if_index :: "u32 \<Rightarrow> 'r \<Rightarrow> 'r"
  with_gateway :: "ip_addr \<Rightarrow> 'r \<Rightarrow> 'r"
  rt_destination :: "'r \<Rightarrow> ip_addr"
  rt_prefix :: "'r \<Rightarrow> u8"
  rt_gateway :: "'r \<Rightarrow> ip_addr option"
  rt_if_index :: "'r \<Rightarrow> u32 option"
  rt_metric :: "'r \<Rightarrow> u32 option"
  rt_list :: "'t \<Rightarrow> os_error + 'r list"
  rt_find_route :: "ip_addr \<Rightarrow> 't \<Rightarrow> os_error + 'r option"
  rt_add :: "'r \<Rightarrow> 't \<Rightarrow> (os_error + unit) \<times> 't"
  rt_delete :: "'r \<Rightarrow> 't \<Rightarrow> (os_error + unit) \<times> 't"

definition v4 :: "nat \<Rightarrow> nat \<Rightarrow> nat \<Rightarrow> nat \<Rightarrow> u32" where
  "v4 a b c d = of_nat (((a * 256 + b) * 256 + c) * 256 + d)"

definition LAN_NETWORKS :: "(ip_addr \<times> u8) list" where
  "LAN_NETWORKS =
    [(IpAddrV4 (v4 192 168 0 0), 16),
     (IpAddrV4 (v4 172 16 0 0), 12),
     (IpAddrV4 (v4 10 0 0 0), 8),
     (IpAddrV4 (v4 169 254 0 0), 16),
     (IpAddrV4 (v4 224 0 0 0), 24)]"

definition TUNNEL_ROUTES :: "(ip_addr \<times> u8) list" where
  "TUNNEL_ROUTES = [(IpAddrV4 (v4 0 0 0 0), 1), (IpAddrV4 (v4 128 0 0 0), 1)]"

datatype route_mode = RouteDefault | RouteLan | RouteNoExec

datatype routing_table_error =
    AsyncRoutingManagerError os_error
  | AddRouteError os_error
  | DefaultInterfaceNotFound os_error
  | DefaultRouteNotFound
  | InterfaceIndexNotFound
  | InterfaceGatewayNotFound
  | InsufficientPermissions
  | RoutingManagerError os_error
  | ServerRouteAlreadyExists

fun host_prefix_len :: "ip_addr \<Rightarrow> u8" where
  "host_prefix_len (IpAddrV4 _) = 32"
| "host_prefix_len (IpAddrV6 _) = 128"

fun is_ipv4 :: "ip_addr \<Rightarrow> bool" where
  "is_ipv4 (IpAddrV4 _) = True"
| "is_ipv4 (IpAddrV6 _) = False"

definition same_ip_family :: "ip_addr \<Rightarrow> ip_addr \<Rightarrow> bool" where
  "same_ip_family ip1 ip2 \<longleftrightarrow> is_ipv4 ip1 = is_ipv4 ip2"

text \<open>\<open>RouteManagerInner\<close>; \<open>rm_table\<close> is the kernel's table.\<close>

record ('r, 't) route_manager =
  rm_routing_mode :: route_mode
  rm_table :: 't
  rm_server_ip :: ip_addr
  rm_tun_index :: u32
  rm_tun_peer_ip :: ip_addr
  rm_tun_dns_ip :: ip_addr
  rm_vpn_routes :: "'r list"
  rm_lan_routes :: "'r list"
  rm_server_route :: "'r option"

type_synonym ('r, 't, 'a) route_op = "(('r, 't) route_manager, routing_table_error, 'a) proc"

text \<open>\<open>RouteManagerInner::new\<close>; \<open>sync\<close> and \<open>async\<close> are the answers of the two constructors.\<close>

definition route_manager_new ::
  "os_error + unit \<Rightarrow> os_error + unit \<Rightarrow> route_mode \<Rightarrow> ip_addr \<Rightarrow> u32 \<Rightarrow> ip_addr \<Rightarrow> ip_addr \<Rightarrow> 't \<Rightarrow>
    routing_table_error + ('r, 't) route_manager"
  where
  "route_manager_new sync async mode server_ip tun_index tun_peer_ip tun_dns_ip t =
     (case sync of
        Inl e \<Rightarrow> Inl (RoutingManagerError e)
      | Inr _ \<Rightarrow>
          (case async of
             Inl e \<Rightarrow> Inl (AsyncRoutingManagerError e)
           | Inr _ \<Rightarrow>
               Inr \<lparr>rm_routing_mode = mode, rm_table = t, rm_server_ip = server_ip, rm_tun_index = tun_index,
                    rm_tun_peer_ip = tun_peer_ip, rm_tun_dns_ip = tun_dns_ip, rm_vpn_routes = [], rm_lan_routes = [],
                    rm_server_route = None\<rparr>))"

definition get_route_metric :: "('r, 't) routing \<Rightarrow> 'r \<Rightarrow> u32" where
  "get_route_metric G route = (case rt_metric G route of Some m \<Rightarrow> m | None \<Rightarrow> 0)"

text \<open>The loop of \<open>find_best_default_route\<close>; \<open>u32::MAX\<close> is \<open>- 1\<close>.\<close>

fun best_default :: "('r, 't) routing \<Rightarrow> ip_addr \<Rightarrow> 'r option \<Rightarrow> 'r list \<Rightarrow> 'r option \<Rightarrow> 'r option" where
  "best_default G server_ip server_route [] best = best"
| "best_default G server_ip server_route (route # routes) best =
     (if is_ipv4 server_ip \<noteq> is_ipv4 (rt_destination G route) then best_default G server_ip server_route routes best
      else if rt_prefix G route \<noteq> 0 then best_default G server_ip server_route routes best
      else
        let route_metric = get_route_metric G route;
            best_metric = (case best of Some b \<Rightarrow> get_route_metric G b | None \<Rightarrow> - 1)
        in best_default G server_ip server_route routes
             (if route_metric < best_metric then Some route
              else if route_metric = best_metric then
                (if server_route = Some route then Some route else best)
              else best))"

definition find_best_default_route :: "('r, 't) routing \<Rightarrow> ip_addr \<Rightarrow> ('r, 't, 'r) route_op" where
  "find_best_default_route G server_ip = with_state (\<lambda>m.
     case rt_list G (rm_table m) of
       Inl e \<Rightarrow> throw (DefaultInterfaceNotFound e)
     | Inr routes \<Rightarrow>
         (case best_default G server_ip (rm_server_route m) routes None of
            None \<Rightarrow> throw DefaultRouteNotFound
          | Some r \<Rightarrow> ret r))"

definition find_route :: "('r, 't) routing \<Rightarrow> ip_addr \<Rightarrow> ('r, 't, 'r) route_op" where
  "find_route G server_ip = with_state (\<lambda>m.
     case rt_find_route G server_ip (rm_table m) of
       Inl e \<Rightarrow> throw (DefaultInterfaceNotFound e)
     | Inr None \<Rightarrow> throw DefaultRouteNotFound
     | Inr (Some r) \<Rightarrow> ret r)"

definition find_default_interface_index_and_gateway ::
  "('r, 't) routing \<Rightarrow> ip_addr \<Rightarrow> ('r, 't, u32 \<times> ip_addr option) route_op" where
  "find_default_interface_index_and_gateway G server_ip =
     and_then (find_route G server_ip) (\<lambda>default_route.
       case rt_if_index G default_route of
         None \<Rightarrow> throw InterfaceIndexNotFound
       | Some i \<Rightarrow> ret (i, rt_gateway G default_route))"

definition is_route_exists_error :: "os_error \<Rightarrow> bool" where
  "is_route_exists_error e \<longleftrightarrow> raw_os_error e = Some EEXIST"

definition add_route :: "('r, 't) routing \<Rightarrow> 'r \<Rightarrow> ('r, 't, unit) route_op" where
  "add_route G route = with_state (\<lambda>m.
     case rt_add G route (rm_table m) of
       (r, t) \<Rightarrow>
         then_do (modify (\<lambda>m. m\<lparr>rm_table := t\<rparr>))
           (case r of
              Inr _ \<Rightarrow> ret ()
            | Inl e \<Rightarrow>
                if is_route_exists_error e then ret ()
                else if permission_denied e then throw InsufficientPermissions
                else throw (AddRouteError e)))"

definition add_route_vpn :: "('r, 't) routing \<Rightarrow> 'r \<Rightarrow> ('r, 't, unit) route_op" where
  "add_route_vpn G route =
     then_do (add_route G route) (modify (\<lambda>m. m\<lparr>rm_vpn_routes := rm_vpn_routes m @ [route]\<rparr>))"

definition add_route_server :: "('r, 't) routing \<Rightarrow> 'r \<Rightarrow> ('r, 't, unit) route_op" where
  "add_route_server G route =
     then_do (check (\<lambda>m. rm_server_route m = None) ServerRouteAlreadyExists)
    (then_do (add_route G route) (modify (\<lambda>m. m\<lparr>rm_server_route := Some route\<rparr>)))"

definition add_route_lan :: "('r, 't) routing \<Rightarrow> 'r \<Rightarrow> ('r, 't, unit) route_op" where
  "add_route_lan G route =
     then_do (add_route G route) (modify (\<lambda>m. m\<lparr>rm_lan_routes := rm_lan_routes m @ [route]\<rparr>))"

text \<open>\<open>Drop for RouteManagerInner\<close>: every deletion is tried, errors are only logged.\<close>

definition cleanup_sync :: "('r, 't) routing \<Rightarrow> ('r, 't) route_manager \<Rightarrow> 't" where
  "cleanup_sync G m =
     (let t = fold (\<lambda>r t. snd (rt_delete G r t)) (rm_vpn_routes m) (rm_table m);
          t = fold (\<lambda>r t. snd (rt_delete G r t)) (rm_lan_routes m) t
      in case rm_server_route m of None \<Rightarrow> t | Some r \<Rightarrow> snd (rt_delete G r t))"

definition server_route_for :: "('r, 't) routing \<Rightarrow> ip_addr \<Rightarrow> u32 option \<Rightarrow> ip_addr option \<Rightarrow> 'r" where
  "server_route_for G server_ip if_index gateway =
     (let r = rt_new G server_ip (host_prefix_len server_ip);
          r = (case if_index of Some i \<Rightarrow> with_if_index G i r | None \<Rightarrow> r)
      in case gateway of Some gw \<Rightarrow> with_gateway G gw r | None \<Rightarrow> r)"

definition lan_route_for :: "('r, 't) routing \<Rightarrow> u32 \<Rightarrow> ip_addr option \<Rightarrow> ip_addr \<times> u8 \<Rightarrow> 'r" where
  "lan_route_for G if_index gateway = (\<lambda>(network, prefix).
     let r = with_if_index G if_index (rt_new G network prefix)
     in case gateway of
          Some gw \<Rightarrow> if same_ip_family network gw then with_gateway G gw r else r
        | None \<Rightarrow> r)"

definition tunnel_route_for :: "('r, 't) routing \<Rightarrow> ('r, 't) route_manager \<Rightarrow> ip_addr \<times> u8 \<Rightarrow> 'r" where
  "tunnel_route_for G m = (\<lambda>(network, prefix).
     with_if_index G (rm_tun_index m) (with_gateway G (rm_tun_peer_ip m) (rt_new G network prefix)))"

fun for_each :: "('a \<Rightarrow> ('s, 'e, unit) proc) \<Rightarrow> 'a list \<Rightarrow> ('s, 'e, unit) proc" where
  "for_each f [] = ret ()"
| "for_each f (x # xs) = then_do (f x) (for_each f xs)"

definition install_routes :: "('r, 't) routing \<Rightarrow> ('r, 't, unit) route_op" where
  "install_routes G = with_state (\<lambda>m.
     if rm_routing_mode m = RouteNoExec then ret ()
     else
       and_then (find_default_interface_index_and_gateway G (rm_server_ip m)) (\<lambda>(if_index, gateway).
         then_do (add_route_server G (server_route_for G (rm_server_ip m) (Some if_index) gateway))
        (then_do (do_when (rm_routing_mode m = RouteLan) (for_each (\<lambda>n. add_route_lan G (lan_route_for G if_index gateway n)) LAN_NETWORKS))
        (then_do (for_each (\<lambda>n. add_route_vpn G (tunnel_route_for G m n)) TUNNEL_ROUTES)
          (add_route_vpn G (tunnel_route_for G m (rm_tun_dns_ip m, host_prefix_len (rm_tun_dns_ip m))))))))"

text \<open>\<open>RouteManagerInner::check_and_update_server_route\<close>, and \<open>RouteUpdater::check_and_update_server_route\<close>.\<close>

definition inner_check_and_update_server_route :: "('r, 't) routing \<Rightarrow> ('r, 't, bool) route_op" where
  "inner_check_and_update_server_route G = with_state (\<lambda>m.
     and_then (find_best_default_route G (rm_server_ip m)) (\<lambda>current_route.
       case rm_server_route m of
         None \<Rightarrow> ret False
       | Some server_route \<Rightarrow>
           if rt_gateway G server_route \<noteq> rt_gateway G current_route \<or> rt_if_index G server_route \<noteq> rt_if_index G current_route then
             then_do (modify (\<lambda>m. m\<lparr>rm_server_route := None, rm_table := snd (rt_delete G server_route (rm_table m))\<rparr>))
            (then_do (add_route_server G (server_route_for G (rm_server_ip m) (rt_if_index G current_route) (rt_gateway G current_route)))
              (ret True))
           else ret False))"

definition check_and_update_server_route :: "('r, 't) routing \<Rightarrow> ('r, 't, bool) route_op" where
  "check_and_update_server_route G = with_state (\<lambda>m.
     if rm_routing_mode m = RouteNoExec then ret False else inner_check_and_update_server_route G)"

text \<open>
  \<open>RouteManager::start\<close> takes the inner manager out. When the installation fails, the inner
  manager is dropped: the table it leaves is returned with the error.
\<close>

definition route_manager_start ::
  "('r, 't) routing \<Rightarrow> ('r, 't) route_manager option \<Rightarrow> (routing_table_error \<times> 't option + ('r, 't) route_manager) option" where
  "route_manager_start G inner =
     (case inner of
        None \<Rightarrow> Some (Inl (InsufficientPermissions, None))
      | Some m \<Rightarrow>
          (case install_routes G m of
             Ret _ m \<Rightarrow> Some (Inr m)
           | Err e m \<Rightarrow> Some (Inl (e, Some (cleanup_sync G m)))
           | _ \<Rightarrow> None))"

section \<open>What the crate and the kernel promise\<close>

definition route_key :: "('r, 't) routing \<Rightarrow> 'r \<Rightarrow> ip_addr \<times> u8" where
  "route_key G r = (rt_destination G r, rt_prefix G r)"

text \<open>
  The builders set one field. \<open>routes t\<close> is the set of routes of a table: a successful \<open>add\<close>
  inserts its route, a failed one changes nothing and answers \<open>EEXIST\<close> only if there is a route to
  the same destination, \<open>delete\<close> removes its route.
\<close>

definition builders_ok :: "('r, 't) routing \<Rightarrow> bool" where
  "builders_ok G \<longleftrightarrow>
     (\<forall>d p. route_key G (rt_new G d p) = (d, p) \<and> rt_gateway G (rt_new G d p) = None \<and> rt_if_index G (rt_new G d p) = None)
   \<and> (\<forall>i r. route_key G (with_if_index G i r) = route_key G r \<and> rt_gateway G (with_if_index G i r) = rt_gateway G r
        \<and> rt_if_index G (with_if_index G i r) = Some i)
   \<and> (\<forall>g r. route_key G (with_gateway G g r) = route_key G r \<and> rt_if_index G (with_gateway G g r) = rt_if_index G r
        \<and> rt_gateway G (with_gateway G g r) = Some g)"

definition table_ok :: "('r, 't) routing \<Rightarrow> ('t \<Rightarrow> 'r set) \<Rightarrow> bool" where
  "table_ok G routes \<longleftrightarrow>
     (\<forall>r t t'. rt_add G r t = (Inr (), t') \<longrightarrow> routes t' = insert r (routes t))
   \<and> (\<forall>r t e t'. rt_add G r t = (Inl e, t') \<longrightarrow> routes t' = routes t
        \<and> (is_route_exists_error e \<longrightarrow> (\<exists>q \<in> routes t. route_key G q = route_key G r)))
   \<and> (\<forall>r t. routes (snd (rt_delete G r t)) = routes t - {r})"

lemma table_okD:
  assumes "table_ok G routes"
  shows "rt_add G r t = (Inr u, t') \<Longrightarrow> routes t' = insert r (routes t)"
    and "rt_add G r t = (Inl e, t') \<Longrightarrow> routes t' = routes t"
    and "rt_add G r t = (Inl e, t') \<Longrightarrow> is_route_exists_error e \<Longrightarrow> \<exists>q \<in> routes t. route_key G q = route_key G r"
    and "routes (snd (rt_delete G r t)) = routes t - {r}"
  using assms by (simp_all add: table_ok_def)

lemma builders_simps [simp]:
  assumes "builders_ok G"
  shows "route_key G (rt_new G d p) = (d, p)" and "rt_gateway G (rt_new G d p) = None" and "rt_if_index G (rt_new G d p) = None"
    and "route_key G (with_if_index G i r) = route_key G r" and "rt_gateway G (with_if_index G i r) = rt_gateway G r"
    and "rt_if_index G (with_if_index G i r) = Some i"
    and "route_key G (with_gateway G g r) = route_key G r" and "rt_if_index G (with_gateway G g r) = rt_if_index G r"
    and "rt_gateway G (with_gateway G g r) = Some g"
  using assms unfolding builders_ok_def by blast+

lemma route_for_simps [simp]:
  assumes "builders_ok G"
  shows "route_key G (server_route_for G ip i gw) = (ip, host_prefix_len ip)"
    and "rt_if_index G (server_route_for G ip i gw) = i"
    and "rt_gateway G (server_route_for G ip i gw) = gw"
    and "route_key G (lan_route_for G j gw n) = n"
    and "route_key G (tunnel_route_for G m n) = n"
    and "rt_if_index G (tunnel_route_for G m n) = Some (rm_tun_index m)"
    and "rt_gateway G (tunnel_route_for G m n) = Some (rm_tun_peer_ip m)"
  using assms
  by (auto simp: server_route_for_def lan_route_for_def tunnel_route_for_def Let_def split: option.splits prod.splits)

lemma exec_state_Some: "exec_state x = Some s \<longleftrightarrow> (\<exists>a. x = Ret a s) \<or> (\<exists>e. x = Err e s)"
  by (cases x) auto

lemma add_route_Ret:
  assumes "table_ok G routes" and "add_route G r m = Ret u m'"
  obtains t where "m' = m\<lparr>rm_table := t\<rparr>" "routes (rm_table m) \<subseteq> routes t" "routes t \<subseteq> insert r (routes (rm_table m))"
    "\<exists>q \<in> routes t. route_key G q = route_key G r"
proof -
  obtain x t where a: "rt_add G r (rm_table m) = (x, t)" by force
  have m': "m' = m\<lparr>rm_table := t\<rparr>" using assms(2) a by (auto simp: add_route_def exec_defs split: sum.splits if_splits)
  show thesis
  proof (cases x)
    case (Inr v)
    then have "routes t = insert r (routes (rm_table m))" using a table_okD(1) [OF assms(1)] by simp
    then show thesis using that m' by blast
  next
    case (Inl e)
    then have e: "is_route_exists_error e" using assms(2) a by (auto simp: add_route_def exec_defs split: if_splits)
    then have "routes t = routes (rm_table m)" "\<exists>q \<in> routes (rm_table m). route_key G q = route_key G r"
      using a Inl table_okD(2,3) [OF assms(1)] by simp_all
    then show thesis using that m' by blast
  qed
qed

lemma add_route_Err:
  assumes "table_ok G routes" and "add_route G r m = Err e m'"
  obtains t where "m' = m\<lparr>rm_table := t\<rparr>" "routes t = routes (rm_table m)"
proof -
  obtain x t where a: "rt_add G r (rm_table m) = (x, t)" by force
  have m': "m' = m\<lparr>rm_table := t\<rparr>" and "\<exists>e. x = Inl e"
    using assms(2) a by (auto simp: add_route_def exec_defs split: sum.splits if_splits)
  then obtain e' where "x = Inl e'" by blast
  then have "routes t = routes (rm_table m)" using a table_okD(2) [OF assms(1)] by simp
  then show thesis using that m' by blast
qed

section \<open>The routes of the manager\<close>

definition managed_keys :: "ip_addr \<Rightarrow> ip_addr \<Rightarrow> (ip_addr \<times> u8) set" where
  "managed_keys server_ip dns_ip =
     {(server_ip, host_prefix_len server_ip), (dns_ip, host_prefix_len dns_ip)} \<union> set LAN_NETWORKS \<union> set TUNNEL_ROUTES"

definition owned_routes :: "('r, 't) route_manager \<Rightarrow> 'r set" where
  "owned_routes m = set (rm_vpn_routes m) \<union> set (rm_lan_routes m) \<union> set_option (rm_server_route m)"

text \<open>The routes to the managed destinations, and the others.\<close>

definition mine :: "('r, 't) routing \<Rightarrow> ('t \<Rightarrow> 'r set) \<Rightarrow> (ip_addr \<times> u8) set \<Rightarrow> 't \<Rightarrow> 'r set" where
  "mine G routes K t = {q \<in> routes t. route_key G q \<in> K}"

definition others :: "('r, 't) routing \<Rightarrow> ('t \<Rightarrow> 'r set) \<Rightarrow> (ip_addr \<times> u8) set \<Rightarrow> 't \<Rightarrow> 'r set" where
  "others G routes K t = {q \<in> routes t. route_key G q \<notin> K}"

text \<open>
  A step of the manager leaves the other routes and its own configuration alone, and keeps a
  record of every route it has in the table.
\<close>

definition tidy :: "('r, 't) routing \<Rightarrow> ('t \<Rightarrow> 'r set) \<Rightarrow> (ip_addr \<times> u8) set \<Rightarrow> ('r, 't) route_manager \<Rightarrow> bool" where
  "tidy G routes K m \<longleftrightarrow> mine G routes K (rm_table m) \<subseteq> owned_routes m \<and> route_key G ` owned_routes m \<subseteq> K"

definition tidy_step ::
  "('r, 't) routing \<Rightarrow> ('t \<Rightarrow> 'r set) \<Rightarrow> (ip_addr \<times> u8) set \<Rightarrow> ('r, 't) route_manager \<Rightarrow> ('r, 't) route_manager \<Rightarrow> bool" where
  "tidy_step G routes K m m' \<longleftrightarrow>
     (tidy G routes K m \<longrightarrow> tidy G routes K m' \<and> others G routes K (rm_table m') = others G routes K (rm_table m)
        \<and> rm_server_ip m' = rm_server_ip m \<and> rm_tun_dns_ip m' = rm_tun_dns_ip m)"

interpretation tidy: step_rel "tidy_step G routes K" for G routes K
  by unfold_locales (auto simp: tidy_step_def)

lemma tidy_record:
  assumes "table_ok G routes" and "route_key G r \<in> K"
    and rec: "\<And>t. rm_table (rec (m\<lparr>rm_table := t\<rparr>)) = t \<and> owned_routes (rec (m\<lparr>rm_table := t\<rparr>)) = insert r (owned_routes m)
      \<and> rm_server_ip (rec (m\<lparr>rm_table := t\<rparr>)) = rm_server_ip m \<and> rm_tun_dns_ip (rec (m\<lparr>rm_table := t\<rparr>)) = rm_tun_dns_ip m"
  shows "steps False (tidy_step G routes K) (then_do (add_route G r) (modify rec)) m"
proof (rule stepsI)
  fix m' assume run: "exec_state (then_do (add_route G r) (modify rec) m) = Some m'"
  then consider (ok) m1 where "add_route G r m = Ret () m1" "m' = rec m1" | (err) e where "add_route G r m = Err e m'"
    by (auto simp: exec_defs split: exec.splits)
  then show "tidy_step G routes K m m'"
  proof cases
    case ok
    obtain t where t: "m1 = m\<lparr>rm_table := t\<rparr>" "routes (rm_table m) \<subseteq> routes t" "routes t \<subseteq> insert r (routes (rm_table m))"
      using add_route_Ret [OF assms(1) ok(1)] .
    show ?thesis using t(2,3) assms(2) rec [of t] unfolding ok(2) t(1) tidy_step_def tidy_def mine_def others_def by auto
  next
    case err
    obtain t where "m' = m\<lparr>rm_table := t\<rparr>" "routes t = routes (rm_table m)" using add_route_Err [OF assms(1) err] .
    then show ?thesis by (auto simp: tidy_step_def tidy_def mine_def others_def owned_routes_def)
  qed
next
  show "then_do (add_route G r) (modify rec) m = OutOfFuel \<Longrightarrow> False"
    by (auto simp: exec_defs add_route_def split: prod.splits sum.splits if_splits exec.splits)
qed

lemma tidy_vpn: "table_ok G routes \<Longrightarrow> route_key G r \<in> K \<Longrightarrow> steps False (tidy_step G routes K) (add_route_vpn G r) m"
  unfolding add_route_vpn_def by (rule tidy_record) (auto simp: owned_routes_def)

lemma tidy_lan: "table_ok G routes \<Longrightarrow> route_key G r \<in> K \<Longrightarrow> steps False (tidy_step G routes K) (add_route_lan G r) m"
  unfolding add_route_lan_def by (rule tidy_record) (auto simp: owned_routes_def)

lemma tidy_server:
  assumes "table_ok G routes" and "route_key G r \<in> K"
  shows "steps False (tidy_step G routes K) (add_route_server G r) m"
  unfolding add_route_server_def
proof (rule tidy.steps_then_do [OF tidy.steps_check])
  fix u m' assume "check (\<lambda>m. rm_server_route m = None) ServerRouteAlreadyExists m = Ret u m'"
  then have "rm_server_route m' = None" by simp
  then show "steps False (tidy_step G routes K) (then_do (add_route G r) (modify (\<lambda>m. m\<lparr>rm_server_route := Some r\<rparr>))) m'"
    by (intro tidy_record [OF assms]) (auto simp: owned_routes_def)
qed

lemma tidy_for_each:
  assumes "\<And>x m. x \<in> set xs \<Longrightarrow> steps False (tidy_step G routes K) (f x) m"
  shows "steps False (tidy_step G routes K) (for_each f xs) m"
  using assms by (induction xs arbitrary: m) (auto intro!: steps_intros)

lemma steps_same: "(\<And>s'. exec_state (m s) = Some s' \<Longrightarrow> s' = s) \<Longrightarrow> m s \<noteq> OutOfFuel \<Longrightarrow> steps False (tidy_step G routes K) m s"
  by (rule stepsI) (auto intro: tidy.refl)

lemma find_default_same:
  "exec_state (find_default_interface_index_and_gateway G ip m) = Some m' \<Longrightarrow> m' = m"
  "find_default_interface_index_and_gateway G ip m \<noteq> OutOfFuel"
  by (auto simp: find_default_interface_index_and_gateway_def find_route_def exec_defs split: exec.splits sum.splits option.splits)

lemma find_best_same:
  "exec_state (find_best_default_route G ip m) = Some m' \<Longrightarrow> m' = m"
  "find_best_default_route G ip m \<noteq> OutOfFuel"
  by (auto simp: find_best_default_route_def exec_defs split: exec.splits sum.splits option.splits)

lemma managed_keysI [intro]:
  "(ip, host_prefix_len ip) \<in> managed_keys ip dns" "(dns, host_prefix_len dns) \<in> managed_keys ip dns"
  "n \<in> set LAN_NETWORKS \<Longrightarrow> n \<in> managed_keys ip dns" "n \<in> set TUNNEL_ROUTES \<Longrightarrow> n \<in> managed_keys ip dns"
  by (simp_all add: managed_keys_def)

lemma tidy_install:
  assumes "builders_ok G" and "table_ok G routes" and K: "K = managed_keys (rm_server_ip m) (rm_tun_dns_ip m)"
  shows "steps False (tidy_step G routes K) (install_routes G) m"
  unfolding install_routes_def
  by (rule steps_intros steps_same tidy_for_each tidy_server tidy_lan tidy_vpn assms(2) find_default_same
      | simp add: assms(1) K managed_keysI | (erule find_default_same))+

lemma tidy_drop_server:
  assumes "table_ok G routes" and "rm_server_route m = Some r"
  shows "tidy_step G routes K m (m\<lparr>rm_server_route := None, rm_table := snd (rt_delete G r (rm_table m))\<rparr>)"
  using assms(2) table_okD(4) [OF assms(1)]
  by (auto simp: tidy_step_def tidy_def mine_def others_def owned_routes_def)

lemma tidy_update:
  assumes "builders_ok G" and "table_ok G routes" and K: "K = managed_keys (rm_server_ip m) (rm_tun_dns_ip m)"
  shows "steps False (tidy_step G routes K) (check_and_update_server_route G) m"
proof -
  have drop: "steps False (tidy_step G routes K) (modify (\<lambda>m. m\<lparr>rm_server_route := None, rm_table := snd (rt_delete G r (rm_table m))\<rparr>)) m"
    if "rm_server_route m = Some r" for r
    by (rule tidy.steps_modify) (rule tidy_drop_server [OF assms(2) that])
  have steps_find: "steps False (tidy_step G routes K) (find_best_default_route G ip) m" for ip m
    by (rule steps_same) (erule find_best_same, rule find_best_same)
  have find: "find_best_default_route G ip m = Ret r m' \<Longrightarrow> m' = m" for ip r m'
    using find_best_same(1) [of G ip m m'] by simp
  show ?thesis
    unfolding check_and_update_server_route_def inner_check_and_update_server_route_def
    by (rule steps_intros steps_find tidy_server assms(2) | simp add: assms(1) K managed_keysI
        | (drule find, simp, rule drop [unfolded K]))+
qed

section \<open>A session\<close>

text \<open>
  The manager installs its routes, then handles network events until it is dropped. Before each
  event the rest of the system may have changed the table.
\<close>

fun route_run :: "('r, 't) routing \<Rightarrow> ('t \<Rightarrow> 't) list \<Rightarrow> ('r, 't) route_manager \<Rightarrow> ('r, 't) route_manager option" where
  "route_run G [] m = Some m"
| "route_run G (f # fs) m =
     Option.bind (exec_state (check_and_update_server_route G (m\<lparr>rm_table := f (rm_table m)\<rparr>))) (route_run G fs)"

definition ends :: "('s, 'e, 'a) proc \<Rightarrow> 's \<Rightarrow> bool" where
  "ends m s \<longleftrightarrow> exec_state (m s) \<noteq> None"

lemma ends_and_then: "ends m s \<Longrightarrow> (\<And>a s'. m s = Ret a s' \<Longrightarrow> ends (k a) s') \<Longrightarrow> ends (and_then m k) s"
  by (cases "m s") (auto simp: ends_def and_then_def)

lemma ends_then_do: "ends m s \<Longrightarrow> (\<And>a s'. m s = Ret a s' \<Longrightarrow> ends k s') \<Longrightarrow> ends (then_do m k) s"
  unfolding then_do_def by (rule ends_and_then)

lemma ends_basic [simp]: "ends (ret a) s" "ends (throw e) s" "ends (check b e) s" "ends (modify f) s"
  by (simp_all add: ends_def ret_def throw_def check_def modify_def)

lemma ends_add_route: "ends (add_route G r) m"
  by (auto simp: ends_def add_route_def exec_defs split: prod.splits sum.splits)

lemma ends_add: "ends (add_route_vpn G r) m" "ends (add_route_lan G r) m" "ends (add_route_server G r) m"
  unfolding add_route_vpn_def add_route_lan_def add_route_server_def by (intro ends_then_do ends_add_route; simp)+

lemma ends_for_each: "(\<And>x s. ends (f x) s) \<Longrightarrow> ends (for_each f xs) s"
  by (induction xs arbitrary: s) (auto intro!: ends_then_do)

lemma ends_find: "ends (find_default_interface_index_and_gateway G ip) m" "ends (find_best_default_route G ip) m"
  by (auto simp: ends_def find_default_interface_index_and_gateway_def find_route_def find_best_default_route_def exec_defs
      split: sum.splits option.splits)

lemma ends_with_state: "ends (f s) s \<Longrightarrow> ends (with_state f) s"
  by (simp add: ends_def with_state_def)

lemma ends_install: "ends (install_routes G) m"
  unfolding install_routes_def do_when_def
  by (auto intro!: ends_with_state ends_and_then ends_then_do ends_for_each ends_find ends_add split: prod.split)

lemma ends_update: "ends (check_and_update_server_route G) m"
  unfolding check_and_update_server_route_def inner_check_and_update_server_route_def
  by (auto intro!: ends_with_state ends_and_then ends_then_do ends_find ends_add split: option.split)

lemma route_run_tidy:
  assumes "builders_ok G" and "table_ok G routes" and "K = managed_keys (rm_server_ip m) (rm_tun_dns_ip m)"
    and "tidy G routes K m" and "\<forall>(f, g) \<in> set envs. \<forall>t. others G routes K (f t) = g (others G routes K t) \<and> mine G routes K (f t) \<subseteq> mine G routes K t"
  shows "\<exists>m'. route_run G (map fst envs) m = Some m' \<and> tidy G routes K m'
    \<and> others G routes K (rm_table m') = fold (\<lambda>(_, g). g) envs (others G routes K (rm_table m))"
  using assms(3-)
proof (induction envs arbitrary: m)
  case (Cons e envs)
  obtain f g where e: "e = (f, g)" by force
  let ?m = "m\<lparr>rm_table := f (rm_table m)\<rparr>"
  have fg: "others G routes K (f t) = g (others G routes K t)" "mine G routes K (f t) \<subseteq> mine G routes K t" for t
    using Cons.prems(3) by (auto simp: e)
  have t: "tidy G routes K ?m" using Cons.prems(2) fg(2) [of "rm_table m"] by (auto simp: tidy_def owned_routes_def)
  obtain m1 where m1: "exec_state (check_and_update_server_route G ?m) = Some m1" using ends_update unfolding ends_def by fast
  have "tidy_step G routes K ?m m1"
    using stepsD [OF tidy_update [OF assms(1,2)] m1] Cons.prems(1) by simp
  then have m1': "tidy G routes K m1" "others G routes K (rm_table m1) = g (others G routes K (rm_table m))"
    "K = managed_keys (rm_server_ip m1) (rm_tun_dns_ip m1)"
    using t fg(1) Cons.prems(1) by (simp_all add: tidy_step_def)
  have "\<forall>(f, g) \<in> set envs. \<forall>t. others G routes K (f t) = g (others G routes K t) \<and> mine G routes K (f t) \<subseteq> mine G routes K t"
    using Cons.prems(3) by simp
  then obtain m' where "route_run G (map fst envs) m1 = Some m'" "tidy G routes K m'"
    "others G routes K (rm_table m') = fold (\<lambda>(_, g). g) envs (others G routes K (rm_table m1))"
    using Cons.IH [OF m1'(3) m1'(1)] by blast
  then show ?case using m1 m1'(2) by (simp add: e)
qed simp

lemma routes_fold_delete: "table_ok G routes \<Longrightarrow> routes (fold (\<lambda>r t. snd (rt_delete G r t)) rs t) = routes t - set rs"
  by (induction rs arbitrary: t) (auto simp: table_okD(4))

lemma routes_cleanup: "table_ok G routes \<Longrightarrow> routes (cleanup_sync G m) = routes (rm_table m) - owned_routes m"
  by (auto simp: cleanup_sync_def Let_def owned_routes_def table_okD(4) routes_fold_delete split: option.splits)


lemma start_failed_restores:
  assumes "builders_ok G" and "table_ok G routes" and "owned_routes m = {}"
    and "mine G routes (managed_keys (rm_server_ip m) (rm_tun_dns_ip m)) (rm_table m) = {}"
    and "route_manager_start G (Some m) = Some (Inl (e, t))"
  shows "\<exists>t'. t = Some t' \<and> routes t' = routes (rm_table m)"
proof -
  let ?K = "managed_keys (rm_server_ip m) (rm_tun_dns_ip m)"
  obtain m' where m': "install_routes G m = Err e m'" "t = Some (cleanup_sync G m')"
    using assms(5) by (auto simp: route_manager_start_def split: exec.splits)
  have "tidy_step G routes ?K m m'" using steps_ErrD [OF tidy_install [OF assms(1,2) refl] m'(1)] .
  then show ?thesis
    using assms(3,4) m'(2) routes_cleanup [OF assms(2), of m'] by (auto simp: tidy_step_def tidy_def mine_def others_def)
qed

section \<open>Where traffic goes\<close>

text \<open>The kernel forwards to a most specific matching route.\<close>

fun prefix_matches :: "ip_addr \<times> u8 \<Rightarrow> ip_addr \<Rightarrow> bool" where
  "prefix_matches (IpAddrV4 d, p) (IpAddrV4 a) \<longleftrightarrow> p \<le> 32 \<and> drop_bit (32 - unat p) d = drop_bit (32 - unat p) a"
| "prefix_matches (IpAddrV6 d, p) (IpAddrV6 a) \<longleftrightarrow> p \<le> 128 \<and> drop_bit (128 - unat p) d = drop_bit (128 - unat p) a"
| "prefix_matches _ _ \<longleftrightarrow> False"

definition selects :: "('r, 't) routing \<Rightarrow> 'r set \<Rightarrow> ip_addr \<Rightarrow> 'r \<Rightarrow> bool" where
  "selects G T a r \<longleftrightarrow> r \<in> T \<and> prefix_matches (route_key G r) a
     \<and> (\<forall>q \<in> T. prefix_matches (route_key G q) a \<longrightarrow> rt_prefix G q \<le> rt_prefix G r)"

definition grows :: "('r, 't) routing \<Rightarrow> ('t \<Rightarrow> 'r set) \<Rightarrow> 'r set \<Rightarrow> ('r, 't) route_manager \<Rightarrow> ('r, 't) route_manager \<Rightarrow> bool" where
  "grows G routes S m m' \<longleftrightarrow> routes (rm_table m) \<subseteq> routes (rm_table m') \<and> routes (rm_table m') \<subseteq> routes (rm_table m) \<union> S
     \<and> (\<forall>r \<in> S. \<exists>q \<in> routes (rm_table m'). route_key G q = route_key G r)"

lemma grows_trans: "grows G routes S m m' \<Longrightarrow> grows G routes S' m' m'' \<Longrightarrow> grows G routes (S \<union> S') m m''"
  unfolding grows_def by blast

lemma grows_add:
  assumes "table_ok G routes"
  shows "add_route_vpn G r m = Ret u m' \<Longrightarrow> grows G routes {r} m m'"
    and "add_route_lan G r m = Ret u m' \<Longrightarrow> grows G routes {r} m m'"
    and "add_route_server G r m = Ret u m' \<Longrightarrow> grows G routes {r} m m'"
  by (auto simp: add_route_vpn_def add_route_lan_def add_route_server_def then_do_Ret grows_def elim!: add_route_Ret [OF assms])

lemma grows_for_each:
  assumes "\<And>x m m'. f x m = Ret () m' \<Longrightarrow> grows G routes {g x} m m'"
  shows "for_each f xs m = Ret u m' \<Longrightarrow> grows G routes (g ` set xs) m m'"
proof (induction xs arbitrary: m)
  case (Cons x xs)
  then obtain m1 where "f x m = Ret () m1" "for_each f xs m1 = Ret u m'" by (auto simp: then_do_Ret)
  then show ?case using grows_trans [OF assms Cons.IH] by simp
qed (simp add: ret_def grows_def)

definition planned_routes :: "('r, 't) routing \<Rightarrow> ('r, 't) route_manager \<Rightarrow> u32 \<Rightarrow> ip_addr option \<Rightarrow> 'r set" where
  "planned_routes G m i gw =
     {server_route_for G (rm_server_ip m) (Some i) gw}
     \<union> (if rm_routing_mode m = RouteLan then lan_route_for G i gw ` set LAN_NETWORKS else {})
     \<union> tunnel_route_for G m ` set TUNNEL_ROUTES
     \<union> {tunnel_route_for G m (rm_tun_dns_ip m, host_prefix_len (rm_tun_dns_ip m))}"

lemma install_grows:
  assumes "table_ok G routes" and "rm_routing_mode m \<noteq> RouteNoExec" and "install_routes G m = Ret u m'"
  obtains i gw dr where "rt_find_route G (rm_server_ip m) (rm_table m) = Inr (Some dr)" "rt_if_index G dr = Some i" "rt_gateway G dr = gw"
    "grows G routes (planned_routes G m i gw) m m'"
proof -
  obtain i gw m1 m2 m3 m4 where
    find: "find_default_interface_index_and_gateway G (rm_server_ip m) m = Ret (i, gw) m1" and
    server: "add_route_server G (server_route_for G (rm_server_ip m) (Some i) gw) m1 = Ret () m2" and
    lan: "do_when (rm_routing_mode m = RouteLan) (for_each (\<lambda>n. add_route_lan G (lan_route_for G i gw n)) LAN_NETWORKS) m2 = Ret () m3" and
    tun: "for_each (\<lambda>n. add_route_vpn G (tunnel_route_for G m n)) TUNNEL_ROUTES m3 = Ret () m4" and
    dns: "add_route_vpn G (tunnel_route_for G m (rm_tun_dns_ip m, host_prefix_len (rm_tun_dns_ip m))) m4 = Ret u m'"
    using assms(2,3) by (auto simp: install_routes_def with_state_def exec_splits_Ret then_do_Ret)
  have m1: "m1 = m" using find_default_same(1) [of G "rm_server_ip m" m m1] find by simp
  have dr: "\<exists>dr. rt_find_route G (rm_server_ip m) (rm_table m) = Inr (Some dr) \<and> rt_if_index G dr = Some i \<and> rt_gateway G dr = gw"
    using find by (auto simp: find_default_interface_index_and_gateway_def find_route_def exec_defs split: exec.splits sum.splits option.splits)
  have "grows G routes (if rm_routing_mode m = RouteLan then lan_route_for G i gw ` set LAN_NETWORKS else {}) m2 m3"
  proof (cases "rm_routing_mode m = RouteLan")
    case True
    then have "for_each (\<lambda>n. add_route_lan G (lan_route_for G i gw n)) LAN_NETWORKS m2 = Ret () m3" using lan by (simp add: do_when_def)
    from grows_for_each [OF _ this, of G routes "lan_route_for G i gw"] show ?thesis using grows_add(2) [OF assms(1)] True by simp
  qed (use lan in \<open>simp add: do_when_def ret_def grows_def\<close>)
  from grows_trans [OF grows_add(3) [OF assms(1) server] this]
  have a: "grows G routes ({server_route_for G (rm_server_ip m) (Some i) gw}
      \<union> (if rm_routing_mode m = RouteLan then lan_route_for G i gw ` set LAN_NETWORKS else {})) m m3" by (simp add: m1)
  have "grows G routes (tunnel_route_for G m ` set TUNNEL_ROUTES) m3 m4"
    by (rule grows_for_each [OF _ tun]) (rule grows_add(1) [OF assms(1)])
  from grows_trans [OF grows_trans [OF a this] grows_add(1) [OF assms(1) dns]]
  have "grows G routes (planned_routes G m i gw) m m'" by (simp add: planned_routes_def)
  then show thesis using that dr by blast
qed

lemma half_matches: "\<exists>n \<in> set TUNNEL_ROUTES. prefix_matches n (IpAddrV4 a)"
proof -
  have "unat a < 2 ^ 32" using unsigned_less [of a] by simp
  then have "unat (drop_bit 31 a) < 2" by (simp only: unat_drop_bit_eq) (simp add: drop_bit_eq_div less_mult_imp_div_less)
  moreover have "drop_bit 31 a = word_of_nat (unat (drop_bit 31 a))" by simp
  ultimately obtain k :: nat where k: "drop_bit 31 a = word_of_nat k" "k < 2" by blast
  from k(2) have "k = 0 \<or> k = 1" by auto
  then have "drop_bit 31 a = 0 \<or> drop_bit 31 a = 1" unfolding k(1) by auto
  moreover have "drop_bit 31 (0x80000000 :: u32) = 1" by simp
  ultimately show ?thesis by (auto simp: TUNNEL_ROUTES_def v4_def)
qed

lemma host_matches: "prefix_matches (d, host_prefix_len d) a \<longleftrightarrow> d = a"
  by (cases d; cases a) auto

lemma host_exact: "prefix_matches (d, p) a \<Longrightarrow> host_prefix_len a \<le> p \<Longrightarrow> (d, p) = (a, host_prefix_len a)"
  by (cases d; cases a) auto

lemma network_not_host: "(a, host_prefix_len a) \<notin> set LAN_NETWORKS" "(a, host_prefix_len a) \<notin> set TUNNEL_ROUTES"
  by (cases a) (auto simp: LAN_NETWORKS_def TUNNEL_ROUTES_def)

lemma route_key_pair: "route_key G r = (d, p) \<Longrightarrow> rt_prefix G r = p"
  by (simp add: route_key_def)

lemma planned_half:
  assumes B: "builders_ok G" and key: "\<And>r. r \<in> planned_routes G m i gw \<Longrightarrow> \<exists>q \<in> T. route_key G q = route_key G r"
  shows "\<exists>q \<in> T. prefix_matches (route_key G q) (IpAddrV4 a) \<and> rt_prefix G q = 1"
proof -
  obtain n where n: "n \<in> set TUNNEL_ROUTES" "prefix_matches n (IpAddrV4 a)" using half_matches by blast
  then obtain q where q: "q \<in> T" "route_key G q = n"
    using key [of "tunnel_route_for G m n"] B by (auto simp: planned_routes_def)
  moreover have "rt_prefix G q = 1" using q(2) n(1) by (auto simp: route_key_def TUNNEL_ROUTES_def)
  ultimately show ?thesis using n(2) by blast
qed

lemma planned_server_selected:
  assumes B: "builders_ok G" and sub: "T \<subseteq> routes t0 \<union> planned_routes G m i gw"
    and key: "\<And>r. r \<in> planned_routes G m i gw \<Longrightarrow> \<exists>q \<in> T. route_key G q = route_key G r"
    and fresh: "mine G routes (managed_keys (rm_server_ip m) (rm_tun_dns_ip m)) t0 = {}" and dns: "rm_tun_dns_ip m \<noteq> rm_server_ip m"
    and sel: "selects G T (rm_server_ip m) r"
  shows "rt_if_index G r = Some i \<and> rt_gateway G r = gw"
proof -
  let ?ip = "rm_server_ip m"
  obtain q where q: "q \<in> T" "route_key G q = (?ip, host_prefix_len ?ip)"
    using key [of "server_route_for G ?ip (Some i) gw"] B by (auto simp: planned_routes_def)
  then have "host_prefix_len ?ip \<le> rt_prefix G r"
    using sel route_key_pair [OF q(2)] host_matches [of ?ip ?ip] unfolding selects_def by (metis q(2))
  then have r: "route_key G r = (?ip, host_prefix_len ?ip)"
    using sel host_exact [of "rt_destination G r" "rt_prefix G r"] by (simp add: selects_def route_key_def)
  then have "r \<notin> routes t0" using fresh managed_keysI(1) [of ?ip "rm_tun_dns_ip m"] by (auto simp: mine_def)
  then have "r \<in> planned_routes G m i gw" using sel sub by (auto simp: selects_def)
  then show ?thesis using r B dns network_not_host [of ?ip] by (auto simp: planned_routes_def split: if_splits)
qed

text \<open>
  C20. Once the routes are installed no traffic escapes the tunnel: an IPv4 packet to any address
  other than the server's (and, in LAN mode, outside the local networks) for which the machine
  had only a default route is forwarded to the tunnel interface, and there is a route for it. The
  packets to the server itself keep the interface and the gateway the kernel used for them before,
  so the tunnel does not swallow its own packets.
\<close>

theorem tunnel_captures_traffic:
  assumes B: "builders_ok G" and T: "table_ok G routes"
    and new: "route_manager_new (Inr ()) (Inr ()) mode server_ip tun_index tun_peer_ip tun_dns_ip t0 = Inr m0"
    and "mode \<noteq> RouteNoExec" and fresh: "mine G routes (managed_keys server_ip tun_dns_ip) t0 = {}" and dns: "tun_dns_ip \<noteq> server_ip"
    and "install_routes G m0 = Ret u m1"
  shows "(\<forall>a r. selects G (routes (rm_table m1)) (IpAddrV4 a) r \<longrightarrow> IpAddrV4 a \<noteq> server_ip
        \<longrightarrow> (\<forall>q \<in> routes t0. prefix_matches (route_key G q) (IpAddrV4 a) \<longrightarrow> rt_prefix G q = 0)
        \<longrightarrow> (mode = RouteLan \<longrightarrow> (\<forall>n \<in> set LAN_NETWORKS. \<not> prefix_matches n (IpAddrV4 a)))
        \<longrightarrow> rt_if_index G r = Some tun_index \<and> rt_gateway G r = Some tun_peer_ip)
    \<and> (\<forall>a. \<exists>r \<in> routes (rm_table m1). prefix_matches (route_key G r) (IpAddrV4 a))
    \<and> (\<exists>dr. rt_find_route G server_ip t0 = Inr (Some dr)
        \<and> (\<forall>r. selects G (routes (rm_table m1)) server_ip r \<longrightarrow> rt_if_index G r = rt_if_index G dr \<and> rt_gateway G r = rt_gateway G dr))"
proof (intro conjI allI impI)
  have m0: "rm_server_ip m0 = server_ip" "rm_tun_dns_ip m0 = tun_dns_ip" "rm_table m0 = t0" "rm_routing_mode m0 = mode"
    "rm_tun_index m0 = tun_index" "rm_tun_peer_ip m0 = tun_peer_ip" using new by (auto simp: route_manager_new_def)
  obtain i gw dr where dr: "rt_find_route G server_ip t0 = Inr (Some dr)" "rt_if_index G dr = Some i" "rt_gateway G dr = gw"
    and "grows G routes (planned_routes G m0 i gw) m0 m1"
    using install_grows [OF T _ assms(7)] assms(4) m0 by metis
  then have sub: "routes (rm_table m1) \<subseteq> routes t0 \<union> planned_routes G m0 i gw"
    and key: "\<And>r. r \<in> planned_routes G m0 i gw \<Longrightarrow> \<exists>q \<in> routes (rm_table m1). route_key G q = route_key G r"
    using m0 by (auto simp: grows_def)
  have half: "\<exists>q \<in> routes (rm_table m1). prefix_matches (route_key G q) (IpAddrV4 a) \<and> rt_prefix G q = 1" for a
    by (rule planned_half [OF B key])
  then show "\<exists>r \<in> routes (rm_table m1). prefix_matches (route_key G r) (IpAddrV4 a)" for a by blast
  {
    fix a r
    assume sel: "selects G (routes (rm_table m1)) (IpAddrV4 a) r" and a: "IpAddrV4 a \<noteq> server_ip"
      and old: "\<forall>q \<in> routes t0. prefix_matches (route_key G q) (IpAddrV4 a) \<longrightarrow> rt_prefix G q = 0"
      and lan: "mode = RouteLan \<longrightarrow> (\<forall>n \<in> set LAN_NETWORKS. \<not> prefix_matches n (IpAddrV4 a))"
    have "1 \<le> rt_prefix G r" using half [of a] sel by (auto simp: selects_def)
    then have "rt_prefix G r \<noteq> 0" by auto
    then have "r \<in> planned_routes G m0 i gw" using sel sub old by (auto simp: selects_def)
    moreover have m: "prefix_matches (route_key G r) (IpAddrV4 a)" using sel by (simp add: selects_def)
    ultimately show "rt_if_index G r = Some tun_index" "rt_gateway G r = Some tun_peer_ip"
      using B a lan m0 by (auto simp: planned_routes_def host_matches split: if_splits)
  }
  have "rt_if_index G r = rt_if_index G dr \<and> rt_gateway G r = rt_gateway G dr"
    if "selects G (routes (rm_table m1)) server_ip r" for r
    using planned_server_selected [OF B, where ?routes = routes and ?t0.0 = t0, OF sub key, of r] that fresh dns dr m0 by simp
  then show "\<exists>dr. rt_find_route G server_ip t0 = Inr (Some dr)
      \<and> (\<forall>r. selects G (routes (rm_table m1)) server_ip r \<longrightarrow> rt_if_index G r = rt_if_index G dr \<and> rt_gateway G r = rt_gateway G dr)"
    using dr(1) by blast
qed

section \<open>Limits of the route manager\<close>

text \<open>
  A route that existed before is recorded as if it had been added: dropping the manager removes it.
\<close>

lemma existing_route_removed:
  assumes "table_ok G routes" and "rt_add G r (rm_table m) = (Inl e, t)" and "is_route_exists_error e"
  shows "\<exists>m'. add_route_vpn G r m = Ret () m' \<and> r \<notin> routes (cleanup_sync G m')"
  using assms(2,3) by (auto simp: add_route_vpn_def add_route_def exec_defs routes_cleanup [OF assms(1)] owned_routes_def)

text \<open>
  Once the replacement of the server route has failed after the old one was deleted, no later
  network event installs one again.
\<close>

lemma lost_server_route_stays_lost:
  assumes "rm_server_route m = None" and "exec_state (check_and_update_server_route G m) = Some m'"
  shows "m' = m"
  using assms
  by (auto simp: check_and_update_server_route_def inner_check_and_update_server_route_def find_best_default_route_def exec_defs
      split: if_splits sum.splits option.splits)

text \<open>
  The preference for the previous route among default routes of equal metric never applies: the
  manager compares with its server route, which is a host route.
\<close>

lemma best_default_no_preference:
  "(\<And>r. server_route = Some r \<Longrightarrow> rt_prefix G r \<noteq> 0) \<Longrightarrow>
    best_default G ip server_route rs best = best_default G ip None rs best"
  by (induction rs arbitrary: best) (auto simp: Let_def)

text \<open>What it chooses is a first default route of least metric; a metric of \<open>u32::MAX\<close> counts as none.\<close>

lemma best_default_least:
  assumes "best_default G ip None rs best = Some r" "q \<in> set rs" "is_ipv4 ip = is_ipv4 (rt_destination G q)" "rt_prefix G q = 0"
  shows "get_route_metric G r \<le> get_route_metric G q"
  using assms
proof (induction rs arbitrary: best)
  case (Cons p rs)
  have below: "get_route_metric G r \<le> get_route_metric G b" if "best_default G ip None rs (Some b) = Some r" for rs b
    using that
  proof (induction rs arbitrary: b)
    case (Cons p rs)
    then show ?case by (force simp: Let_def not_less split: if_splits)
  qed simp
  show ?case
  proof (cases "q = p")
    case True
    show ?thesis
    proof (cases "get_route_metric G p < (case best of Some b \<Rightarrow> get_route_metric G b | None \<Rightarrow> - 1)")
      case less: True
      then show ?thesis using Cons.prems(1,3,4) True below [of rs p] by (simp add: Let_def)
    next
      case False
      then have run: "best_default G ip None rs best = Some r" using Cons.prems(1,3,4) True by (auto simp: Let_def split: if_splits)
      show ?thesis
      proof (cases best)
        case None
        then have "get_route_metric G p = - 1" using False word_order.extremum_uniqueI [of "get_route_metric G p"] by (simp add: not_less)
        then show ?thesis using True by simp
      next
        case (Some b)
        then show ?thesis using False run below [of rs b] True by (simp add: not_less)
      qed
    qed
  next
    case False
    then show ?thesis using Cons.prems Cons.IH by (auto simp: Let_def split: if_splits)
  qed
qed simp

section \<open>A concrete table\<close>

text \<open>A kernel whose table is the list of its routes, without a bound and without failures.\<close>

record ex_route =
  er_dest :: ip_addr
  er_prefix :: u8
  er_gateway :: "ip_addr option"
  er_if_index :: "u32 option"
  er_metric :: "u32 option"

definition ex_routing :: "(ex_route, ex_route list) routing" where
  "ex_routing = \<lparr>rt_new = (\<lambda>d p. \<lparr>er_dest = d, er_prefix = p, er_gateway = None, er_if_index = None, er_metric = None\<rparr>),
     with_if_index = (\<lambda>i r. r\<lparr>er_if_index := Some i\<rparr>), with_gateway = (\<lambda>g r. r\<lparr>er_gateway := Some g\<rparr>),
     rt_destination = er_dest, rt_prefix = er_prefix, rt_gateway = er_gateway, rt_if_index = er_if_index, rt_metric = er_metric,
     rt_list = Inr, rt_find_route = (\<lambda>ip t. Inr (find (\<lambda>r. prefix_matches (er_dest r, er_prefix r) ip) t)),
     rt_add = (\<lambda>r t. if \<exists>q \<in> set t. er_dest q = er_dest r \<and> er_prefix q = er_prefix r
                     then (Inl \<lparr>raw_os_error = Some EEXIST, permission_denied = False\<rparr>, t) else (Inr (), r # t)),
     rt_delete = (\<lambda>r t. (Inr (), removeAll r t))\<rparr>"

definition ex_default :: "u32 \<Rightarrow> u32 \<Rightarrow> ex_route" where
  "ex_default gw i = \<lparr>er_dest = IpAddrV4 0, er_prefix = 0, er_gateway = Some (IpAddrV4 gw), er_if_index = Some i, er_metric = Some 100\<rparr>"

lemma ex_routing_ok: "builders_ok ex_routing" "table_ok ex_routing set"
  by (auto simp: builders_ok_def table_ok_def ex_routing_def route_key_def is_route_exists_error_def split: if_splits)

definition ex_server_ip :: ip_addr where "ex_server_ip = IpAddrV4 (v4 203 0 113 1)"
definition ex_dns_ip :: ip_addr where "ex_dns_ip = IpAddrV4 (v4 10 125 0 1)"

definition ex_manager_for :: "route_mode \<Rightarrow> (ex_route, ex_route list) route_manager" where
  "ex_manager_for mode =
     \<lparr>rm_routing_mode = mode, rm_table = [ex_default 1 2], rm_server_ip = ex_server_ip, rm_tun_index = 7, rm_tun_peer_ip = IpAddrV4 9,
      rm_tun_dns_ip = ex_dns_ip, rm_vpn_routes = [], rm_lan_routes = [], rm_server_route = None\<rparr>"

lemma ex_manager_new:
  "route_manager_new (Inr ()) (Inr ()) mode ex_server_ip 7 (IpAddrV4 9) ex_dns_ip [ex_default 1 2] = Inr (ex_manager_for mode)"
  by (simp add: route_manager_new_def ex_manager_for_def)

lemma ex_unmanaged:
  "mine ex_routing set (managed_keys ex_server_ip ex_dns_ip) [ex_default 1 2] = {}"
  by (auto simp: mine_def managed_keys_def route_key_def ex_routing_def ex_default_def LAN_NETWORKS_def TUNNEL_ROUTES_def
      ex_server_ip_def ex_dns_ip_def)

text \<open>The default route moves to another gateway and interface.\<close>

definition ex_move :: "ex_route list \<Rightarrow> ex_route list" where
  "ex_move t = ex_default 3 4 # removeAll (ex_default 1 2) t"


lemma ex_installed: "\<exists>m1. install_routes ex_routing (ex_manager_for RouteDefault) = Ret () m1"
  by (simp add: install_routes_def ex_manager_for_def find_default_interface_index_and_gateway_def find_route_def ex_routing_def
      exec_defs add_route_server_def add_route_def add_route_vpn_def TUNNEL_ROUTES_def tunnel_route_for_def server_route_for_def
      ex_default_def ex_server_ip_def ex_dns_ip_def v4_def split: prod.split)

theorem tunnel_captures_traffic_witness:
  "\<exists>m1. install_routes ex_routing (ex_manager_for RouteDefault) = Ret () m1
    \<and> (\<forall>r. selects ex_routing (set (rm_table m1)) (IpAddrV4 (v4 8 8 8 8)) r \<longrightarrow> er_if_index r = Some 7)
    \<and> (\<forall>r. selects ex_routing (set (rm_table m1)) ex_server_ip r \<longrightarrow> er_if_index r = Some 2)"
proof -
  obtain m1 where m1: "install_routes ex_routing (ex_manager_for RouteDefault) = Ret () m1" using ex_installed by blast
  have old: "\<forall>q \<in> set [ex_default 1 2]. prefix_matches (route_key ex_routing q) (IpAddrV4 (v4 8 8 8 8)) \<longrightarrow> rt_prefix ex_routing q = 0"
    by (simp add: ex_routing_def ex_default_def)
  have ne: "IpAddrV4 (v4 8 8 8 8) \<noteq> ex_server_ip" "ex_dns_ip \<noteq> ex_server_ip" by (simp_all add: ex_server_ip_def ex_dns_ip_def v4_def)
  have find: "rt_find_route ex_routing ex_server_ip [ex_default 1 2] = Inr (Some (ex_default 1 2))"
    by (simp add: ex_routing_def ex_default_def ex_server_ip_def v4_def)
  have acc: "rt_if_index ex_routing = er_if_index" by (simp add: ex_routing_def)
  note all = tunnel_captures_traffic [OF ex_routing_ok ex_manager_new [of RouteDefault] _ ex_unmanaged ne(2) m1]
  have "\<forall>r. selects ex_routing (set (rm_table m1)) (IpAddrV4 (v4 8 8 8 8)) r \<longrightarrow> er_if_index r = Some 7"
    using all ne(1) old unfolding acc by blast
  moreover have "\<forall>r. selects ex_routing (set (rm_table m1)) ex_server_ip r \<longrightarrow> er_if_index r = Some 2"
    using all find unfolding acc by (auto simp: ex_default_def)
  ultimately show ?thesis using m1 by blast
qed

end
