(* ===== verification/Inside_Path.thy ===== *)
theory Inside_Path
  imports Connection_Props Server_Ip Server_Connections
begin

text \<open>
  The inside path of both ends: the client's TUN device (lightway-client/src/io/inside/tun.rs) and
  packet loop (\<open>process_inside_packet\<close>, \<open>inside_io_task\<close> of lib.rs), the server's TUN device
  (lightway-server/src/io/inside/tun.rs) and packet loops (lib.rs). Every client sees the same
  inside address; the server gives each connection an address of its own and translates. The
  device itself is outside: what is modelled is the packet it is given.
\<close>

section \<open>The client\<close>

record client_tun =
  ct_ip :: u32
  ct_dns_ip :: u32

text \<open>The packet \<open>Tun::try_send\<close> and \<open>Tun::send\<close> hand to the device.\<close>

definition client_tun_send :: "pnet_ops \<Rightarrow> client_tun \<Rightarrow> inside_ip_config option \<Rightarrow> bytes \<Rightarrow> bytes" where
  "client_tun_send N tun ip_config pkt =
     (let pkt = ipv4_update_destination N (ct_ip tun) pkt in
      case ip_config of
        None \<Rightarrow> pkt
      | Some ip_config \<Rightarrow>
          if pn_ipv4_new N pkt \<and> pn_ipv4_source N pkt = dns_ip ip_config then ipv4_update_source N (ct_dns_ip tun) pkt
          else pkt)"

text \<open>\<open>ClientIpConfigCb\<close> stores the configuration in the application state: the last one of the log.\<close>

definition client_ip_config :: "app_log \<Rightarrow> inside_ip_config option" where
  "client_ip_config l = foldl (\<lambda>cfg a. case a of AppIpConfig c \<Rightarrow> Some c | _ \<Rightarrow> cfg) None l"

definition rewrite_inside_packet :: "pnet_ops \<Rightarrow> inside_ip_config option \<Rightarrow> u32 \<Rightarrow> bytes \<Rightarrow> bytes" where
  "rewrite_inside_packet N ip_config tun_dns_ip buf =
     (case ip_config of
        None \<Rightarrow> buf
      | Some ip_config \<Rightarrow>
          let buf = ipv4_update_source N (client_ip ip_config) buf in
          if pn_ipv4_new N buf \<and> pn_ipv4_destination N buf = tun_dns_ip then ipv4_update_destination N (dns_ip ip_config) buf
          else buf)"

text \<open>
  The result is the time of the last packet from the server, if the packet entered the tunnel,
  and the packet put back into the device, if a plugin replied.
\<close>

definition process_inside_packet ::
  "pnet_ops \<Rightarrow> client_tun \<Rightarrow> u32 \<Rightarrow> (bytes \<Rightarrow> ('s, 'k, 'm, unit) conn_op) \<Rightarrow> bytes \<Rightarrow> ('s, 'k, 'm, instant option \<times> bytes option) conn_op"
  where
  "process_inside_packet N tun tun_dns_ip dispatch buf = with_state (\<lambda>c.
     let ip_config = client_ip_config (cn_log c) in
     attempt (dispatch (rewrite_inside_packet N ip_config tun_dns_ip buf)) (\<lambda>r.
       case r of
         Inr _ \<Rightarrow> gets (\<lambda>c. (Some (last_outside_data_received (cn_activity c)), None))
       | Inl (CePluginDropWithReply reply) \<Rightarrow> ret (None, Some (client_tun_send N tun ip_config reply))
       | Inl CeInvalidState \<Rightarrow> ret (None, None)
       | Inl (CeInvalidInsidePacket _) \<Rightarrow> ret (None, None)
       | Inl err \<Rightarrow> throw err))"

text \<open>One packet of \<open>inside_io_task\<close>, with the downgrade of a stalled codec.\<close>

definition inside_io_step ::
  "('s, 'k, 'm) conn_env \<Rightarrow> client_tun \<Rightarrow> u32 \<Rightarrow> duration \<Rightarrow> bytes \<Rightarrow> ('s, 'k, 'm, instant option \<times> bytes option) conn_op" where
  "inside_io_step E tun tun_dns_ip stall_timeout =
     process_inside_packet (ce_pnet E) tun tun_dns_ip (\<lambda>buf.
       then_do (inside_data_received E buf) (ignoring (downgrade_inside_pkt_codec_if_stalled E stall_timeout) (ret ())))"

section \<open>The server\<close>

text \<open>\<open>Tun::send\<close>: \<open>None\<close> is a dropped packet, for which the caller is told that it was sent.\<close>

definition server_tun_send :: "pnet_ops \<Rightarrow> 'c connection_state \<Rightarrow> bytes \<Rightarrow> bytes option" where
  "server_tun_send N state buf =
     (case cs_internal_ip state of
        None \<Rightarrow> None
      | Some ip \<Rightarrow> Some (ipv4_update_source N ip buf))"

text \<open>One packet of \<open>inside_io_loop_default\<close> and \<open>inside_io_loop_batched\<close>: the connection and what it is given.\<close>

definition server_inside_packet :: "pnet_ops \<Rightarrow> 'c ip_manager \<Rightarrow> u32 \<Rightarrow> bytes \<Rightarrow> ('c \<times> bytes) option" where
  "server_inside_packet N ip_manager lightway_client_ip buf =
     (if \<not> pn_ipv4_new N buf then None
      else case find_connection (pn_ipv4_destination N buf) ip_manager of
          None \<Rightarrow> None
        | Some conn \<Rightarrow> Some (conn, ipv4_update_destination N lightway_client_ip buf))"

definition VIRTIO_NET_HDR_F_NEEDS_CSUM :: u8 where "VIRTIO_NET_HDR_F_NEEDS_CSUM = 1"

text \<open>One superpacket of \<open>inside_io_loop_gso\<close>; \<open>True\<close> for the GSO entry point of the connection.\<close>

definition server_inside_gso ::
  "pnet_ops \<Rightarrow> gso_ops \<Rightarrow> 'c ip_manager \<Rightarrow> u32 \<Rightarrow> virtio_net_hdr \<Rightarrow> bytes \<Rightarrow> ('c \<times> bool \<times> bytes) option" where
  "server_inside_gso N G ip_manager lightway_client_ip hdr pkt =
     (let pkt = (if vn_flags hdr AND VIRTIO_NET_HDR_F_NEEDS_CSUM \<noteq> 0
                 then gso_none_checksum G pkt (vn_csum_start hdr) (vn_csum_offset hdr) else pkt)
      in map_option (\<lambda>(conn, pkt). (conn, \<not> vn_is_gso_none hdr, pkt)) (server_inside_packet N ip_manager lightway_client_ip pkt))"

text \<open>\<open>handle_inside_io_error\<close>; \<open>closed\<close> is the view the core's \<open>disconnect\<close> leaves.\<close>

definition handle_inside_io_error :: "'c \<Rightarrow> (connection_error + unit) \<Rightarrow> conn_view \<Rightarrow> 'c server \<Rightarrow> 'c server" where
  "handle_inside_io_error conn result closed s =
     (case result of
        Inr _ \<Rightarrow> s
      | Inl CeInvalidState \<Rightarrow> s
      | Inl CeDisconnected \<Rightarrow> s
      | Inl (CeInvalidInsidePacket _) \<Rightarrow> s
      | Inl err \<Rightarrow> if is_fatal (cv_connection_type (sv_view s conn)) err then server_disconnect conn closed s else s)"

section \<open>Address translation\<close>

text \<open>The views of pnet: a setter changes its own field only, and an IPv4 view stays one.\<close>

definition addr_view_ok :: "pnet_ops \<Rightarrow> bool" where
  "addr_view_ok N \<longleftrightarrow>
     (\<forall>b ip. pn_ipv4_new N b \<longrightarrow>
        pn_ipv4_new N (pn_ipv4_set_source N ip b) \<and> pn_ipv4_source N (pn_ipv4_set_source N ip b) = ip
      \<and> pn_ipv4_destination N (pn_ipv4_set_source N ip b) = pn_ipv4_destination N b
      \<and> pn_ipv4_new N (pn_ipv4_set_destination N ip b) \<and> pn_ipv4_destination N (pn_ipv4_set_destination N ip b) = ip
      \<and> pn_ipv4_source N (pn_ipv4_set_destination N ip b) = pn_ipv4_source N b)
   \<and> (\<forall>b x. pn_ipv4_new N b \<longrightarrow>
        pn_ipv4_new N (pn_ipv4_set_checksum N x b)
      \<and> pn_ipv4_source N (pn_ipv4_set_checksum N x b) = pn_ipv4_source N b
      \<and> pn_ipv4_destination N (pn_ipv4_set_checksum N x b) = pn_ipv4_destination N b)
   \<and> (\<forall>b p. pn_ipv4_new N b \<longrightarrow> length p = length (pn_ipv4_payload N b) \<longrightarrow>
        pn_ipv4_new N (pn_ipv4_set_payload N p b)
      \<and> pn_ipv4_source N (pn_ipv4_set_payload N p b) = pn_ipv4_source N b
      \<and> pn_ipv4_destination N (pn_ipv4_set_payload N p b) = pn_ipv4_destination N b)
   \<and> (\<forall>x p. length (pn_tcp_set_checksum N x p) = length p \<and> length (pn_udp_set_checksum N x p) = length p)"

definition same_addr :: "pnet_ops \<Rightarrow> bytes \<Rightarrow> bytes \<Rightarrow> bool" where
  "same_addr N b b' \<longleftrightarrow>
     pn_ipv4_new N b' = pn_ipv4_new N b \<and> pn_ipv4_source N b' = pn_ipv4_source N b \<and> pn_ipv4_destination N b' = pn_ipv4_destination N b"

lemma adjust_same_addr:
  assumes "addr_view_ok N" and "pn_ipv4_new N b"
  shows "same_addr N b (ipv4_adjust_packet_checksum N u b)"
proof -
  define b' where "b' = pn_ipv4_set_checksum N (checksum_update (pn_ipv4_checksum N b) u) b"
  have b': "pn_ipv4_new N b'" "same_addr N b b'" using assms by (simp_all add: addr_view_ok_def b'_def same_addr_def)
  have payload: "same_addr N b (pn_ipv4_set_payload N p b')" if "length p = length (pn_ipv4_payload N b')" for p
    using assms(1) b' that by (simp add: addr_view_ok_def same_addr_def)
  have len: "length (pn_tcp_set_checksum N x p) = length p" "length (pn_udp_set_checksum N x p) = length p" for x p
    using assms(1) by (simp_all add: addr_view_ok_def)
  show ?thesis
    using b'(2) by (simp add: ipv4_adjust_packet_checksum_def tcp_adjust_packet_checksum_def udp_adjust_packet_checksum_def Let_def
        payload len flip: b'_def)
qed

lemma update_source_addr:
  assumes "addr_view_ok N" and "pn_ipv4_new N b"
  shows "pn_ipv4_new N (ipv4_update_source N ip b)" "pn_ipv4_source N (ipv4_update_source N ip b) = ip"
    "pn_ipv4_destination N (ipv4_update_source N ip b) = pn_ipv4_destination N b"
proof -
  have "pn_ipv4_new N (pn_ipv4_set_source N ip b)" "pn_ipv4_source N (pn_ipv4_set_source N ip b) = ip"
    "pn_ipv4_destination N (pn_ipv4_set_source N ip b) = pn_ipv4_destination N b"
    using assms by (simp_all add: addr_view_ok_def)
  then show "pn_ipv4_new N (ipv4_update_source N ip b)" "pn_ipv4_source N (ipv4_update_source N ip b) = ip"
    "pn_ipv4_destination N (ipv4_update_source N ip b) = pn_ipv4_destination N b"
    using adjust_same_addr [OF assms(1)] assms(2) by (simp_all add: ipv4_update_source_def Let_def same_addr_def)
qed

lemma update_destination_addr:
  assumes "addr_view_ok N" and "pn_ipv4_new N b"
  shows "pn_ipv4_new N (ipv4_update_destination N ip b)" "pn_ipv4_destination N (ipv4_update_destination N ip b) = ip"
    "pn_ipv4_source N (ipv4_update_destination N ip b) = pn_ipv4_source N b"
proof -
  have "pn_ipv4_new N (pn_ipv4_set_destination N ip b)" "pn_ipv4_destination N (pn_ipv4_set_destination N ip b) = ip"
    "pn_ipv4_source N (pn_ipv4_set_destination N ip b) = pn_ipv4_source N b"
    using assms by (simp_all add: addr_view_ok_def)
  then show "pn_ipv4_new N (ipv4_update_destination N ip b)" "pn_ipv4_destination N (ipv4_update_destination N ip b) = ip"
    "pn_ipv4_source N (ipv4_update_destination N ip b) = pn_ipv4_source N b"
    using adjust_same_addr [OF assms(1)] assms(2) by (simp_all add: ipv4_update_destination_def Let_def same_addr_def)
qed

lemmas update_addr = update_source_addr update_destination_addr

text \<open>
  C21. Address translation is transparent and keeps clients apart. A packet an application sends to
  \<open>d\<close> leaves the server with the inside address of its connection as the source, an address no
  other connection has, and with \<open>d\<close> as the destination, or the real name server if \<open>d\<close> is the
  name server of the TUN device. A reply to that packet is routed to the same connection and
  reaches the application from \<open>d\<close>, addressed to the TUN device. (An application that addresses
  the real name server directly is excluded: it sees the reply come from the TUN name server.)
\<close>

theorem inside_address_translation:
  assumes view: "addr_view_ok N"
    and pools: "distinct (in_hosts P net)" "\<And>xs. mset (shuffle xs) = mset xs" "distinct (map fst subnets)"
    and run: "ip_reachable (ip_manager_new P shuffle net subnets reserved cfg dyn rnd) l (m, st)"
    and held: "cs_internal_ip (st c) = Some ip"
    and p: "pn_ipv4_new N p" "pn_ipv4_destination N p = d" and d: "d = ct_dns_ip tun \<or> d \<noteq> dns_ip cfg'"
  shows "\<exists>q. server_tun_send N (st c) (rewrite_inside_packet N (Some cfg') (ct_dns_ip tun) p) = Some q
      \<and> pn_ipv4_source N q = ip \<and> (\<forall>c'. cs_internal_ip (st c') = Some ip \<longrightarrow> c' = c)
      \<and> pn_ipv4_destination N q = (if d = ct_dns_ip tun then dns_ip cfg' else d)
      \<and> (\<forall>r. pn_ipv4_new N r \<longrightarrow> pn_ipv4_source N r = pn_ipv4_destination N q \<longrightarrow> pn_ipv4_destination N r = pn_ipv4_source N q \<longrightarrow>
          (\<exists>r1. server_inside_packet N m lightway_client_ip r = Some (c, r1)
            \<and> pn_ipv4_source N (client_tun_send N tun (Some cfg') r1) = d
            \<and> pn_ipv4_destination N (client_tun_send N tun (Some cfg') r1) = ct_ip tun))"
proof -
  have found: "cs_internal_ip (st c') = Some ip \<longleftrightarrow> find_connection ip m = Some c'" for c'
    by (rule holds_ipsD(4) [OF holds_step [OF run holds_start [OF pools]]])
  let ?p1 = "rewrite_inside_packet N (Some cfg') (ct_dns_ip tun) p"
  have p1: "pn_ipv4_new N ?p1" "pn_ipv4_destination N ?p1 = (if d = ct_dns_ip tun then dns_ip cfg' else d)"
    using view p by (auto simp: rewrite_inside_packet_def Let_def update_addr)
  have reply: "\<exists>r1. server_inside_packet N m lightway_client_ip r = Some (c, r1)
      \<and> pn_ipv4_source N (client_tun_send N tun (Some cfg') r1) = d \<and> pn_ipv4_destination N (client_tun_send N tun (Some cfg') r1) = ct_ip tun"
    if r: "pn_ipv4_new N r" "pn_ipv4_source N r = (if d = ct_dns_ip tun then dns_ip cfg' else d)" "pn_ipv4_destination N r = ip" for r
    using view r d found [of c] held by (auto simp: server_inside_packet_def client_tun_send_def Let_def update_addr)
  let ?q = "ipv4_update_source N ip ?p1"
  have "server_tun_send N (st c) ?p1 = Some ?q" by (simp add: server_tun_send_def held)
  moreover have "pn_ipv4_source N ?q = ip" "pn_ipv4_destination N ?q = (if d = ct_dns_ip tun then dns_ip cfg' else d)"
    using view p1 by (simp_all add: update_addr)
  moreover have "\<forall>c'. cs_internal_ip (st c') = Some ip \<longrightarrow> c' = c" using found held by auto
  ultimately show ?thesis using reply by auto
qed

section \<open>A concrete view\<close>

definition patch :: "nat \<Rightarrow> bytes \<Rightarrow> bytes \<Rightarrow> bytes" where
  "patch off bs b = take off b @ bs @ drop (off + length bs) b"

definition field :: "nat \<Rightarrow> nat \<Rightarrow> bytes \<Rightarrow> bytes" where
  "field off n b = take n (drop off b)"

lemma length_patch: "off + length bs \<le> length b \<Longrightarrow> length (patch off bs b) = length b"
  by (simp add: patch_def)

lemma field_patch: "off \<le> length b \<Longrightarrow> field off (length bs) (patch off bs b) = bs"
  by (simp add: field_def patch_def)

lemma field_patch_other:
  assumes "off + length bs \<le> length b" and "off' + n \<le> off \<or> off + length bs \<le> off'"
  shows "field off' n (patch off bs b) = field off' n b"
  using assms by (auto simp: field_def patch_def drop_take min_def)

text \<open>An IPv4 header without options, and a transport header with its checksum at a fixed place.\<close>

definition flat_pnet :: pnet_ops where
  "flat_pnet = plain_pnet\<lparr>
     pn_ipv4_checksum := \<lambda>b. be_word (field 10 2 b), pn_ipv4_set_checksum := \<lambda>x b. if length b \<ge> 20 then patch 10 (be_bytes 2 x) b else b,
     pn_ipv4_source := \<lambda>b. be_word (field 12 4 b), pn_ipv4_set_source := \<lambda>ip b. patch 12 (be_bytes 4 ip) b,
     pn_ipv4_destination := \<lambda>b. be_word (field 16 4 b), pn_ipv4_set_destination := \<lambda>ip b. patch 16 (be_bytes 4 ip) b,
     pn_tcp_set_checksum := \<lambda>x p. if length p \<ge> 20 then patch 16 (be_bytes 2 x) p else p,
     pn_udp_set_checksum := \<lambda>x p. if length p \<ge> 8 then patch 6 (be_bytes 2 x) p else p\<rparr>"

lemma be_word32: "be_word (be_bytes 4 w) = (w :: u32)"
  by (simp add: be_word_be_bytes)

lemma field_take_payload: "off + n \<le> 20 \<Longrightarrow> 20 \<le> length b \<Longrightarrow> field off n (take 20 b @ p) = field off n b"
  by (auto simp: field_def drop_take)

lemma field_patch4: "off \<le> length b \<Longrightarrow> be_word (field off 4 (patch off (be_bytes 4 ip) b)) = (ip :: u32)"
  using field_patch [of off b "be_bytes 4 ip"] by (simp add: be_word32)

lemma flat_pnet_ok: "addr_view_ok flat_pnet"
  by (auto simp: addr_view_ok_def flat_pnet_def plain_pnet_def length_patch field_patch_other field_take_payload field_patch4)

definition ex_packet_to :: "u32 \<Rightarrow> bytes" where
  "ex_packet_to d = patch 16 (be_bytes 4 d) (0x45 # replicate 27 0)"

theorem inside_address_translation_witness:
  "\<exists>m st q. ip_reachable ex_manager (\<lambda>_. IpAddrV4 2) (m, st)
    \<and> server_tun_send flat_pnet (st 7) (rewrite_inside_packet flat_pnet (Some ex_ip) 53 (ex_packet_to 53)) = Some q
    \<and> pn_ipv4_source flat_pnet q = 106 \<and> pn_ipv4_destination flat_pnet q = 0x08080808"
proof -
  let ?l = "\<lambda>_ :: nat. IpAddrV4 2"
  let ?st = "\<lambda>c. \<lparr>cs_local_ip = ?l c, cs_internal_ip = None, cs_conn = Some (c :: nat)\<rparr>"
  have "map_option (\<lambda>(r, s, m). cs_internal_ip s) (server_alloc (\<lambda>_. True) (?st 7) ex_manager) = Some (Some 106)"
    by code_simp
  then obtain r s m where s: "server_alloc (\<lambda>_. True) (?st 7) ex_manager = Some (r, s, m)" "cs_internal_ip s = Some 106"
    by auto
  then have run: "ip_reachable ex_manager ?l (m, ?st(7 := s))"
    by (intro ip_reachable.alloc [OF ip_reachable.start])
  have hosts: "distinct (in_hosts range_net (100, 8))" by code_simp
  have keys: "distinct (map fst [(IpAddrV4 1, (100, 4))])" by simp
  have new: "pn_ipv4_new flat_pnet (ex_packet_to 53)" by (simp add: flat_pnet_def plain_pnet_def ex_packet_to_def length_patch)
  have dest: "pn_ipv4_destination flat_pnet (ex_packet_to 53) = 53"
    by (simp add: flat_pnet_def ex_packet_to_def field_patch4)
  have "\<exists>q. server_tun_send flat_pnet ((?st(7 := s)) 7) (rewrite_inside_packet flat_pnet (Some ex_ip) 53 (ex_packet_to 53)) = Some q
      \<and> pn_ipv4_source flat_pnet q = 106 \<and> pn_ipv4_destination flat_pnet q = 0x08080808"
    using inside_address_translation [OF flat_pnet_ok hosts _ keys run [unfolded ex_manager_def] _ new dest,
        of 7 106 "\<lparr>ct_ip = 1, ct_dns_ip = 53\<rparr>" ex_ip 5] s(2) by (auto simp: ex_ip_def)
  then show ?thesis using run by blast
qed

end
