(* ===== verification/Client_Tasks.thy ===== *)
theory Client_Tasks
  imports Inside_Path Keepalive Route_Manager
begin

text \<open>
  The tasks of a client (lightway-client/src/lib.rs): the event task, the outside loop, the tracer
  that asks for a keepalive when nothing was heard for a while, the reaction to a network change,
  on the connection and on the routes, and the packet and codec tasks. Each definition is one
  round of its task; what it tells the keepalive task is the list of messages.
\<close>

section \<open>Events\<close>

text \<open>Which of the two signals have been sent.\<close>

record client_signals =
  cs_connected :: bool
  cs_disconnected :: bool

text \<open>
  One round of \<open>handle_events\<close>: whether the loop goes on (and the event was forwarded to the
  handler of the application), the messages to the keepalive task, and the signals. \<open>alive\<close>
  tells whether the connection still exists; \<open>Panic\<close> is the \<open>unreachable!\<close> on a server event.
\<close>

definition client_handle_event ::
  "('s, 'k, 'm) conn_env \<Rightarrow> bool \<Rightarrow> bool \<Rightarrow> client_signals \<Rightarrow> event \<Rightarrow> ('s, 'k, 'm, bool \<times> keepalive_message list \<times> client_signals) conn_op" where
  "client_handle_event E alive enable_encoding_when_online signals ev =
     (case ev of
        StateChanged state \<Rightarrow>
          if state = Online then
            let signals = signals\<lparr>cs_connected := True\<rparr> in
            if \<not> alive then ret (False, [KaOnline], signals)
            else if enable_encoding_when_online then ignoring (set_encoding E True) (ret (True, [KaOnline], signals))
            else ret (True, [KaOnline], signals)
          else if state = Disconnected then ret (True, [], signals\<lparr>cs_disconnected := True\<rparr>)
          else ret (True, [], signals)
      | KeepaliveReply \<Rightarrow> ret (True, [KaReplyReceived], signals)
      | FirstPacketReceived \<Rightarrow> ret (True, [], signals)
      | ExpresslaneStateChanged _ \<Rightarrow> ret (True, [], signals)
      | EncodingStateChanged _ \<Rightarrow> ret (True, [], signals)
      | SessionIdRotationStarted _ _ \<Rightarrow> panic
      | SessionIdRotationAcknowledged _ _ \<Rightarrow> panic
      | TlsKeysUpdateStart \<Rightarrow> panic
      | TlsKeysUpdateCompleted \<Rightarrow> panic)"

section \<open>The outside loop\<close>

text \<open>The packets of one receive, and the message it sends.\<close>

definition outside_io_step ::
  "('s, 'k, 'm) conn_env \<Rightarrow> nat \<Rightarrow> connection_type \<Rightarrow> bytes list \<Rightarrow> ('s, 'k, 'm, keepalive_message list) conn_op" where
  "outside_io_step E fuel connection_type bufs =
     and_then (multiple_outside_data_received E fuel (is_fatal connection_type) (map (\<lambda>b. WirePkt b connection_type) bufs) 0)
       (\<lambda>frames_decoded. ret (if frames_decoded > 0 then [KaOutsideActivity] else []))"

section \<open>The tracer\<close>

definition DEFAULT_TRACER_TRIGGER_TIMEOUT :: duration where "DEFAULT_TRACER_TRIGGER_TIMEOUT = millis 10000"

record tracer_trigger =
  tt_timeout :: duration
  tt_last_fired_for :: "instant option"

definition tracer_trigger_new :: "keepalive_config \<Rightarrow> tracer_trigger" where
  "tracer_trigger_new cfg =
     \<lparr>tt_timeout =
        (if kc_continuous cfg then 0
         else case kc_tracer_trigger_timeout cfg of Some t \<Rightarrow> t | None \<Rightarrow> DEFAULT_TRACER_TRIGGER_TIMEOUT),
      tt_last_fired_for = None\<rparr>"

definition tracer_tick :: "instant \<Rightarrow> instant \<Rightarrow> tracer_trigger \<Rightarrow> keepalive_message list \<times> tracer_trigger" where
  "tracer_tick now last_received t =
     (if tt_timeout t = 0 then ([], t)
      else if elapsed now last_received > tt_timeout t \<and> tt_last_fired_for t \<noteq> Some last_received
        then ([KaTracerDeltaExceeded], t\<lparr>tt_last_fired_for := Some last_received\<rparr>)
      else ([], t))"

section \<open>Network changes\<close>

datatype client_result = UserDisconnect | NetworkChange

text \<open>One signal of \<open>handle_network_change\<close>: a message to the keepalive task, or the result of the task.\<close>

definition network_change_step :: "('s, 'k, 'm) conn_env \<Rightarrow> bool \<Rightarrow> ('s, 'k, 'm, client_result + keepalive_message list) conn_op" where
  "network_change_step E alive =
     (if \<not> alive then ret (Inl UserDisconnect)
      else with_state (\<lambda>c.
        case cn_connection_type c of
          Datagram \<Rightarrow> ret (Inr [KaNetworkChange])
        | Stream \<Rightarrow> ignoring (disconnect E) (ret (Inl NetworkChange))))"

text \<open>The packet tasks of the inside codec.\<close>

definition encoded_pkt_step :: "('s, 'k, 'm) conn_env \<Rightarrow> bytes \<Rightarrow> ('s, 'k, 'm, unit) conn_op" where
  "encoded_pkt_step E pkt =
     attempt (send_to_outside E pkt True) (\<lambda>r.
       case r of
         Inr _ \<Rightarrow> ret ()
       | Inl CeInvalidState \<Rightarrow> ret ()
       | Inl (CeInvalidInsidePacket _) \<Rightarrow> ret ()
       | Inl err \<Rightarrow> throw err)"

definition decoded_pkt_step :: "('s, 'k, 'm) conn_env \<Rightarrow> bytes \<Rightarrow> ('s, 'k, 'm, unit) conn_op" where
  "decoded_pkt_step E pkt =
     attempt (send_to_inside E pkt) (\<lambda>r.
       case r of
         Inr _ \<Rightarrow> ret ()
       | Inl err \<Rightarrow> with_state (\<lambda>c. if is_fatal (cn_connection_type c) err then throw err else ret ()))"

definition encoding_request_step :: "('s, 'k, 'm) conn_env \<Rightarrow> bool \<Rightarrow> bool \<Rightarrow> ('s, 'k, 'm, bool) conn_op" where
  "encoding_request_step E alive enable =
     (if \<not> alive then ret False else ignoring (set_encoding E enable) (ret True))"

text \<open>One reloaded configuration of \<open>config_reload_task\<close>: the request it sends to the task above.\<close>

record reloadable_client_config =
  rc_enable_inside_pkt_encoding :: "bool option"

definition config_reload_step :: "reloadable_client_config \<Rightarrow> bool list" where
  "config_reload_step new_config = (case rc_enable_inside_pkt_encoding new_config of None \<Rightarrow> [] | Some enabled \<Rightarrow> [enabled])"

section \<open>The network event coordinator\<close>

text \<open>
  The branch of the \<open>select!\<close> that completed: a route event (with whether a transition is pending
  too), the end of the route events, a transition, the end of the transitions. Not Apple.
\<close>

datatype network_event = RouteEvent bool | RouteEventsGone | TransitionEvent | TransitionsGone

text \<open>
  One round of \<open>network_event_coordinator\<close>. \<open>transitions\<close> tells whether \<open>transition_rx\<close> is still
  there. \<open>None\<close> ends the task, which drops the updater; otherwise whether the connection is
  nudged, and the new value of \<open>transitions\<close>.
\<close>

definition network_event_step ::
  "('r, 't) routing \<Rightarrow> bool \<Rightarrow> bool \<Rightarrow> network_event \<Rightarrow> ('r, 't, (bool \<times> bool) option) route_op" where
  "network_event_step G nudge_on_route_event transitions ev =
     (case ev of
        RouteEventsGone \<Rightarrow> ret None
      | TransitionsGone \<Rightarrow> ret (Some (False, False))
      | RouteEvent pending \<Rightarrow>
          ignoring (check_and_update_server_route G) (ret (Some (nudge_on_route_event \<or> transitions \<and> pending, transitions)))
      | TransitionEvent \<Rightarrow> ignoring (check_and_update_server_route G) (ret (Some (True, transitions))))"

section \<open>Properties\<close>

text \<open>
  C23. The two \<open>unreachable!\<close> of the event tasks are unreachable: of the events a connection
  reports, whatever its peer and its application do, a server's event task handles all of a server
  connection and a client's all of a client connection. The only panic left in the client's task
  would come from \<open>set_encoding\<close> itself.
\<close>

theorem events_reachable_handled:
  fixes c :: "('s, 'k, 'm) conn" and E' :: "('s2, 'k2, 'm2) conn_env"
  assumes "conn_reachable E args c" and "AppEvent ev \<in> set (cn_log c)"
  shows "(args_server args \<longrightarrow> handle_event has_cb alive conn rotated ev last_session_id s \<noteq> None)
    \<and> (\<not> args_server args \<longrightarrow> client_handle_event E' alive enable signals ev c' = Panic \<longrightarrow> set_encoding E' True c' = Panic)"
proof -
  have "is_server c = args_server args \<and> (\<forall>a \<in> set (cn_log c). fits_mode (args_server args) a)"
    by (rule modes.reachable_invariant [OF assms(1)]) (simp add: conn_init_def is_server_def args_server_def)
  then have "fits_mode (args_server args) (AppEvent ev)" using assms(2) by blast
  then show ?thesis
    by (cases ev) (auto simp: handle_event_def client_handle_event_def Let_def exec_defs split: if_splits exec.splits option.splits prod.splits)
qed

theorem events_reachable_handled_witness:
  "\<exists>c. conn_reachable ex_env (ex_args Stream ex_server) c \<and> AppEvent (StateChanged Online) \<in> set (cn_log c)
    \<and> handle_event False True (0 :: nat) (Inl CeGoodbye) (StateChanged Online) None (server_new (\<lambda>_. ex_view)) \<noteq> None"
proof -
  obtain c where c: "conn_reachable ex_env (ex_args Stream ex_server) c" "cn_log c = ex_log"
    using ex_session by blast
  then have ev: "AppEvent (StateChanged Online) \<in> set (cn_log c)" by (simp add: ex_log_def)
  have "args_server (ex_args Stream ex_server)" by (simp add: args_server_def ex_args_def ex_server_def)
  then have "handle_event False True (0 :: nat) (Inl CeGoodbye) (StateChanged Online) None (server_new (\<lambda>_. ex_view)) \<noteq> None"
    by (rule events_reachable_handled [OF c(1) ev, THEN conjunct1, THEN mp])
  then show ?thesis using c(1) ev by blast
qed

section \<open>The tracer fires once per silence\<close>

lemma tracer_fires: "fst (tracer_tick now t tr) \<noteq> [] \<longleftrightarrow>
    tt_timeout tr \<noteq> 0 \<and> tt_timeout tr < elapsed now t \<and> tt_last_fired_for tr \<noteq> Some t"
  by (simp add: tracer_tick_def)

lemma tracer_fires_once:
  "fst (tracer_tick now t tr) \<noteq> [] \<Longrightarrow> fst (tracer_tick now' t (snd (tracer_tick now t tr))) = []"
  by (auto simp: tracer_tick_def split: if_splits)

section \<open>The coordinator keeps the routes tidy\<close>

lemma tidy_network_event:
  assumes "builders_ok G" "table_ok G routes" "K = managed_keys (rm_server_ip m) (rm_tun_dns_ip m)"
  shows "steps False (tidy_step G routes K) (network_event_step G nudge transitions ev) m"
  using assms unfolding network_event_step_def by (auto intro!: steps_intros tidy_update split: network_event.split)

end
