(* ===== verification/Client_Select.thy ===== *)
theory Client_Select
  imports Client_Tasks
begin

text \<open>
  The start of a client (lightway-client/src/lib.rs): the checks of its configuration and the
  choice among several servers, \<open>find_best_connection\<close> inside \<open>select_best_from_futures\<close> inside
  \<open>client\<close>.
\<close>

section \<open>Choosing a server\<close>

text \<open>
  \<open>find_best_connection\<close>. A round of its \<open>select!\<close> is the branch that completed, with the answer of
  \<open>wait_timer_task.is_finished()\<close> when the round began and when the branch ran.
\<close>

datatype best_event =
    BestSetup nat
  | BestChannelClosed
  | BestTimer
  | BestOnline nat
  | BestOffline nat
  | BestElse

record best_state =
  bs_streams :: "nat list"
  bs_best :: "nat option"
  bs_channel_open :: bool

definition best_start :: best_state where
  "best_start = \<lparr>bs_streams = [], bs_best = None, bs_channel_open = True\<rparr>"

definition best_enabled :: "best_event \<Rightarrow> bool \<Rightarrow> best_state \<Rightarrow> bool" where
  "best_enabled ev finished s =
     (case ev of
        BestSetup _ \<Rightarrow> bs_channel_open s
      | BestChannelClosed \<Rightarrow> bs_channel_open s
      | BestTimer \<Rightarrow> \<not> finished
      | BestOnline i \<Rightarrow> i \<in> set (bs_streams s)
      | BestOffline i \<Rightarrow> i \<in> set (bs_streams s)
      | BestElse \<Rightarrow> \<not> bs_channel_open s \<and> finished \<and> bs_streams s = [])"

text \<open>\<open>Inl (Some i)\<close> is \<open>Ok(i)\<close>, \<open>Inl None\<close> the error that all connections disconnected.\<close>

definition best_step :: "best_event \<Rightarrow> bool \<Rightarrow> best_state \<Rightarrow> nat option + best_state" where
  "best_step ev finished_now s =
     (case ev of
        BestSetup i \<Rightarrow> Inr (s\<lparr>bs_streams := i # removeAll i (bs_streams s)\<rparr>)
      | BestChannelClosed \<Rightarrow> Inr (s\<lparr>bs_channel_open := False\<rparr>)
      | BestTimer \<Rightarrow> (case bs_best s of Some i \<Rightarrow> Inl (Some i) | None \<Rightarrow> Inr s)
      | BestOffline i \<Rightarrow> Inr (s\<lparr>bs_streams := removeAll i (bs_streams s)\<rparr>)
      | BestOnline i \<Rightarrow>
          if finished_now then Inl (Some i)
          else if i = 0 then Inl (Some i)
          else Inr (s\<lparr>bs_streams := removeAll i (bs_streams s),
                      bs_best := Some (case bs_best s of None \<Rightarrow> i | Some j \<Rightarrow> min j i)\<rparr>)
      | BestElse \<Rightarrow> Inl None)"

fun best_run :: "(best_event \<times> bool \<times> bool) list \<Rightarrow> best_state \<Rightarrow> (nat option + best_state) option" where
  "best_run [] s = Some (Inr s)"
| "best_run ((ev, finished, finished_now) # evs) s =
     (if \<not> best_enabled ev finished s then None
      else case best_step ev finished_now s of
          Inl r \<Rightarrow> (if evs = [] then Some (Inl r) else None)
        | Inr s \<Rightarrow> best_run evs s)"

definition online_in :: "(best_event \<times> bool \<times> bool) list \<Rightarrow> nat set" where
  "online_in evs = {i. \<exists>f g. (BestOnline i, f, g) \<in> set evs}"

section \<open>Running the connection attempts\<close>

text \<open>
  \<open>select_best_from_futures\<close> and its \<open>find_best_connection\<close> future: the attempts still running, the
  connections set up, the indices sent and not yet received, whether the sender is still there,
  and the state of the search. \<open>C\<close>, the connection itself, is named by its index.
\<close>

datatype select_error = NoServersAvailable | NoServersAreAbleToConnect | AllConnectionsDisconnected

record select_state =
  sl_connect_futs :: "nat list"
  sl_connections :: "nat list"
  sl_channel :: "nat list"
  sl_connection_setup_tx :: bool
  sl_find_best :: best_state

datatype select_event =
    FutReady nat bool
  | BestRound best_event bool bool

definition select_start :: "nat \<Rightarrow> select_error + select_state" where
  "select_start server_count =
     (if server_count = 0 then Inl NoServersAvailable
      else Inr \<lparr>sl_connect_futs = [0..<server_count], sl_connections = [], sl_channel = [], sl_connection_setup_tx = True,
                sl_find_best = best_start\<rparr>)"

text \<open>\<open>setup_complete\<close> is set exactly when the sender is dropped.\<close>

definition select_enabled :: "select_event \<Rightarrow> select_state \<Rightarrow> bool" where
  "select_enabled ev s =
     (case ev of
        FutReady i _ \<Rightarrow> sl_connection_setup_tx s \<and> i \<in> set (sl_connect_futs s)
      | BestRound b finished _ \<Rightarrow>
          best_enabled b finished (sl_find_best s)
          \<and> (case b of
               BestSetup i \<Rightarrow> (case sl_channel s of [] \<Rightarrow> False | j # _ \<Rightarrow> i = j)
             | BestChannelClosed \<Rightarrow> sl_channel s = [] \<and> \<not> sl_connection_setup_tx s
             | _ \<Rightarrow> True))"

definition select_step :: "select_event \<Rightarrow> select_state \<Rightarrow> (select_error + nat \<times> nat list) + select_state" where
  "select_step ev s =
     (case ev of
        FutReady i ok \<Rightarrow>
          let s = s\<lparr>sl_connect_futs := removeAll i (sl_connect_futs s)\<rparr>;
              s = (if ok then s\<lparr>sl_channel := sl_channel s @ [i], sl_connections := sl_connections s @ [i]\<rparr> else s)
          in if sl_connect_futs s \<noteq> [] then Inr s
             else if sl_connections s = [] then Inl (Inl NoServersAreAbleToConnect)
             else Inr (s\<lparr>sl_connection_setup_tx := False\<rparr>)
      | BestRound b _ finished_now \<Rightarrow>
          (case best_step b finished_now (sl_find_best s) of
             Inl None \<Rightarrow> Inl (Inl AllConnectionsDisconnected)
           | Inl (Some i) \<Rightarrow> Inl (Inr (i, sl_connections s))
           | Inr f \<Rightarrow>
               Inr (s\<lparr>sl_find_best := f, sl_channel := (case b of BestSetup _ \<Rightarrow> tl (sl_channel s) | _ \<Rightarrow> sl_channel s)\<rparr>)))"

fun select_run :: "select_event list \<Rightarrow> select_state \<Rightarrow> ((select_error + nat \<times> nat list) + select_state) option" where
  "select_run [] s = Some (Inr s)"
| "select_run (ev # evs) s =
     (if \<not> select_enabled ev s then None
      else case select_step ev s of
          Inl r \<Rightarrow> (if evs = [] then Some (Inl r) else None)
        | Inr s \<Rightarrow> select_run evs s)"

text \<open>What \<open>client\<close> does with the answer: \<open>None\<close> is the panic of the \<open>unwrap\<close>.\<close>

fun take_best :: "nat \<Rightarrow> nat list \<Rightarrow> (nat \<times> nat list) option" where
  "take_best best [] = None"
| "take_best best (i # connections) =
     (if i = best
      then Some (i, if connections = [] then [] else last connections # butlast connections)
      else map_option (\<lambda>(c, rest). (c, i # rest)) (take_best best connections))"

section \<open>The configuration\<close>

record client_check =
  cc_network_change_signal :: bool
  cc_keepalive_interval :: duration
  cc_inside_pkt_codec_config :: bool

datatype client_config_error = KeepaliveIntervalZero | NoServer | CodecConfigMissing

text \<open>\<open>servers\<close> tells of each server whether it has an inside packet codec.\<close>

definition validate_client_config :: "client_check \<Rightarrow> bool list \<Rightarrow> client_config_error + unit" where
  "validate_client_config config servers =
     (if cc_network_change_signal config \<and> cc_keepalive_interval config = 0 then Inl KeepaliveIntervalZero
      else if servers = [] then Inl NoServer
      else if \<exists>codec \<in> set servers. codec \<and> \<not> cc_inside_pkt_codec_config config then Inl CodecConfigMissing
      else Inr ())"

section \<open>The choice of a server\<close>

lemma online_in_simps [simp]: "online_in [] = {}" "online_in (evs @ [(BestOnline i, f, g)]) = insert i (online_in evs)"
  "(\<And>i. ev \<noteq> BestOnline i) \<Longrightarrow> online_in (evs @ [(ev, f, g)]) = online_in evs"
  by (auto simp: online_in_def)

lemma best_run_snoc:
  "best_run (evs @ [(ev, f, g)]) s = Some r \<longleftrightarrow> (\<exists>s'. best_run evs s = Some (Inr s') \<and> best_enabled ev f s' \<and> r = best_step ev g s')"
  by (induction evs s rule: best_run.induct) (auto split: sum.splits if_splits)

lemma best_is_least:
  "best_run evs best_start = Some (Inr s) \<Longrightarrow>
    (case bs_best s of None \<Rightarrow> online_in evs = {} | Some j \<Rightarrow> j \<in> online_in evs \<and> (\<forall>i \<in> online_in evs. j \<le> i) \<and> 0 < j)"
proof (induction evs arbitrary: s rule: rev_induct)
  case (snoc x evs)
  obtain ev f g where x: "x = (ev, f, g)" by (cases x)
  then obtain s' where s': "best_run evs best_start = Some (Inr s')" "Inr s = best_step ev g s'"
    using snoc.prems by (auto simp: best_run_snoc)
  note ih = snoc.IH [OF s'(1)]
  show ?case
    by (cases ev; use s'(2) ih in \<open>auto simp: x best_step_def min_def split: if_splits option.splits\<close>)
qed (simp add: best_start_def)

text \<open>
  The connection chosen came online; the preferred one is chosen if it did; and when the wait ends
  with connections online, the chosen one has the highest priority among them.
\<close>

lemma best_connection_sound:
  assumes "best_run (evs @ [(ev, f, g)]) best_start = Some (Inl (Some i))"
  shows "i \<in> online_in (evs @ [(ev, f, g)])" and "0 \<in> online_in (evs @ [(ev, f, g)]) \<Longrightarrow> i = 0"
    and "ev = BestTimer \<Longrightarrow> \<forall>j \<in> online_in evs. i \<le> j"
proof -
  obtain s where s: "best_run evs best_start = Some (Inr s)" "Inl (Some i) = best_step ev g s"
    using assms by (auto simp: best_run_snoc)
  then show "i \<in> online_in (evs @ [(ev, f, g)])" "0 \<in> online_in (evs @ [(ev, f, g)]) \<Longrightarrow> i = 0"
    "ev = BestTimer \<Longrightarrow> \<forall>j \<in> online_in evs. i \<le> j"
    using best_is_least [OF s(1)] by (cases ev; force simp: best_step_def split: if_splits option.splits)+
qed

text \<open>
  When the timer task finishes between two rounds, the timer branch is switched off before it was
  taken: a connection that is online is given up with an error once the others are gone.
\<close>

lemma late_timer_gives_up:
  "best_run [(BestSetup 1, False, False), (BestChannelClosed, False, False), (BestOnline 1, False, False), (BestElse, True, True)]
     best_start = Some (Inl None)"
  by (simp add: best_enabled_def best_step_def best_start_def)

section \<open>The selected connection\<close>

definition best_rounds :: "select_event list \<Rightarrow> (best_event \<times> bool \<times> bool) list" where
  "best_rounds evs = concat (map (\<lambda>ev. case ev of BestRound b f g \<Rightarrow> [(b, f, g)] | FutReady _ _ \<Rightarrow> []) evs)"

lemma best_rounds_simps [simp]: "best_rounds [] = []" "best_rounds (FutReady i ok # evs) = best_rounds evs"
  "best_rounds (BestRound b f g # evs) = (b, f, g) # best_rounds evs"
  by (simp_all add: best_rounds_def)

text \<open>The search sees a run of its own.\<close>

lemma select_run_best:
  "select_run evs s = Some (Inl (Inr (i, conns))) \<Longrightarrow> best_run (best_rounds evs) (sl_find_best s) = Some (Inl (Some i))"
proof (induction evs arbitrary: s)
  case (Cons ev evs)
  then show ?case
    by (cases ev) (fastforce simp: select_enabled_def select_step_def Let_def split: if_splits sum.splits option.splits)+
qed simp

text \<open>Everything the search knows of was set up.\<close>

definition select_ok :: "select_state \<Rightarrow> bool" where
  "select_ok s \<longleftrightarrow>
     distinct (sl_connect_futs s @ sl_connections s) \<and> set (sl_channel s) \<subseteq> set (sl_connections s)
     \<and> set (bs_streams (sl_find_best s)) \<subseteq> set (sl_connections s)
     \<and> (\<forall>i. bs_best (sl_find_best s) = Some i \<longrightarrow> i \<in> set (sl_connections s))"

lemma select_ok_fut:
  assumes "select_ok s" "select_enabled (FutReady i ok) s" "select_step (FutReady i ok) s = Inr s'"
  shows "select_ok s'"
  using assms by (auto simp: select_ok_def select_enabled_def select_step_def Let_def distinct_removeAll split: if_splits)

lemma select_ok_best:
  assumes "select_ok s" "select_enabled (BestRound b f g) s"
  shows "select_step (BestRound b f g) s = Inr s' \<Longrightarrow> select_ok s'"
    and "select_step (BestRound b f g) s = Inl (Inr (i, conns)) \<Longrightarrow> i \<in> set conns \<and> distinct conns"
  using assms
  by (cases b; auto simp: select_ok_def select_enabled_def best_enabled_def select_step_def best_step_def min_def
      split: if_splits option.splits list.splits; fail)+

lemma select_run_ok:
  "select_run evs s = Some (Inl (Inr (i, conns))) \<Longrightarrow> select_ok s \<Longrightarrow> i \<in> set conns \<and> distinct conns"
proof (induction evs arbitrary: s)
  case (Cons ev evs)
  then have en: "select_enabled ev s" by (auto split: if_splits)
  show ?case
  proof (cases ev)
    case (FutReady j ok)
    then obtain s' where "select_step ev s = Inr s'" "select_run evs s' = Some (Inl (Inr (i, conns)))"
      using Cons.prems(1) by (auto simp: select_step_def Let_def split: if_splits)
    then show ?thesis using Cons.IH select_ok_fut Cons.prems(2) en FutReady by blast
  next
    case (BestRound b f g)
    then show ?thesis
      using Cons.prems Cons.IH select_ok_best [OF Cons.prems(2) en [unfolded BestRound]]
      by (auto split: if_splits sum.splits)
  qed
qed simp

lemma take_best_total: "i \<in> set conns \<Longrightarrow> \<exists>rest. take_best i conns = Some (i, rest) \<and> add_mset i (mset rest) = mset conns"
proof (induction conns)
  case (Cons j conns)
  have "mset (last conns # butlast conns) = mset conns" if "conns \<noteq> []"
    using that by (metis append_butlast_last_id mset_append mset.simps(1) mset.simps(2) union_mset_add_mset_right add_0_right)
  then show ?case using Cons by (cases "j = i") auto
qed simp

text \<open>A connection that announced that it is online has an inside configuration.\<close>

interpretation announced: conn_invariant
  "\<lambda>c. is_server c = srv \<and> (AppEvent (StateChanged Online) \<in> set (cn_log c) \<longrightarrow> cleared srv (cn_log c))" E for srv E
proof (unfold_locales, goal_cases)
  case (7 c st)
  have "cleared srv (cn_log c) \<Longrightarrow> cleared srv (cn_log c @ [AppEvent (StateChanged st)])" by (rule cleared_mono)
  moreover have "st = Online \<Longrightarrow> cleared srv (cn_log c)" using 7 by (simp add: may_enter_def cleared_def split: if_splits)
  ultimately show ?case using 7 by auto
qed (auto simp: obs_def link_onlyD intro: cleared_mono)

lemma client_ip_config_snoc:
  "client_ip_config (l @ [a]) = (case a of AppIpConfig c \<Rightarrow> Some c | _ \<Rightarrow> client_ip_config l)"
  by (cases a) (simp_all add: client_ip_config_def)

lemma configured_ip_config: "configured l \<Longrightarrow> client_ip_config l \<noteq> None"
  by (induction l rule: rev_induct) (auto simp: configured_def client_ip_config_snoc split: app_call.splits)

text \<open>
  C22. The start of a client does not panic and takes the best server. The index
  \<open>select_best_from_futures\<close> returns belongs to a connection that was set up, so \<open>client\<close> finds it
  in the list (and stops exactly the others); that connection came online, and it is the preferred
  one if the preferred one did. A client connection that has announced that it is online, which is
  when its connected signal is sent, has the inside configuration the \<open>expect\<close> of \<open>client\<close> asks for.
\<close>

theorem selected_connection_ready:
  fixes c :: "('s, 'k, 'm) conn"
  assumes "select_start n = Inr s" and "select_run evs s = Some (Inl (Inr (i, conns)))"
  shows "(\<exists>rest. take_best i conns = Some (i, rest) \<and> add_mset i (mset rest) = mset conns)
    \<and> i \<in> online_in (best_rounds evs) \<and> (0 \<in> online_in (best_rounds evs) \<longrightarrow> i = 0)
    \<and> (conn_reachable E args c \<and> \<not> args_server args \<and> AppEvent (StateChanged Online) \<in> set (cn_log c)
        \<longrightarrow> client_ip_config (cn_log c) \<noteq> None)"
proof (intro conjI impI)
  have start: "select_ok s" "sl_find_best s = best_start"
    using assms(1) by (auto simp: select_start_def select_ok_def best_start_def split: if_splits)
  show "\<exists>rest. take_best i conns = Some (i, rest) \<and> add_mset i (mset rest) = mset conns"
    by (rule take_best_total [OF select_run_ok [OF assms(2) start(1), THEN conjunct1]])
  have run: "best_run (best_rounds evs) best_start = Some (Inl (Some i))"
    using select_run_best [OF assms(2)] start(2) by simp
  then obtain pre ev f g where last: "best_rounds evs = pre @ [(ev, f, g)]"
    by (cases "best_rounds evs" rule: rev_cases) auto
  show "i \<in> online_in (best_rounds evs)" "0 \<in> online_in (best_rounds evs) \<Longrightarrow> i = 0"
    using best_connection_sound [OF run [unfolded last]] unfolding last by blast+
next
  assume c: "conn_reachable E args c \<and> \<not> args_server args \<and> AppEvent (StateChanged Online) \<in> set (cn_log c)"
  have "is_server c = args_server args \<and> (AppEvent (StateChanged Online) \<in> set (cn_log c) \<longrightarrow> cleared (args_server args) (cn_log c))"
    by (rule announced.reachable_invariant [of E args]) (use c in \<open>simp_all add: conn_init_def is_server_def args_server_def\<close>)
  then show "client_ip_config (cn_log c) \<noteq> None" using c by (intro configured_ip_config) (simp add: cleared_def)
qed

text \<open>Two servers: the second comes online first, the wait ends, and the second is taken.\<close>

theorem selected_connection_ready_witness:
  "select_run [FutReady 1 True, BestRound (BestSetup 1) False False, FutReady 0 True, BestRound (BestOnline 1) False False,
      BestRound (BestSetup 0) False False, BestRound BestTimer False True]
     \<lparr>sl_connect_futs = [0, 1], sl_connections = [], sl_channel = [], sl_connection_setup_tx = True, sl_find_best = best_start\<rparr>
     = Some (Inl (Inr (1, [1, 0])))
   \<and> (\<exists>rest. take_best 1 [1, 0] = Some (1, rest) \<and> add_mset 1 (mset rest) = mset [1, 0])"
proof -
  let ?s = "\<lparr>sl_connect_futs = [0, 1], sl_connections = [], sl_channel = [], sl_connection_setup_tx = True, sl_find_best = best_start\<rparr>"
  have start: "select_start 2 = Inr ?s" by (simp add: select_start_def upt_rec)
  have run: "select_run [FutReady 1 True, BestRound (BestSetup 1) False False, FutReady 0 True, BestRound (BestOnline 1) False False,
      BestRound (BestSetup 0) False False, BestRound BestTimer False True] ?s = Some (Inl (Inr (1, [1, 0])))"
    by (simp add: select_enabled_def select_step_def best_enabled_def best_step_def best_start_def Let_def)
  show ?thesis using run selected_connection_ready [OF start run] by blast
qed

end
