(* ===== verification/Tls_Session.thy ===== *)
theory Tls_Session
  imports Connection_Loop Connection_Queue
begin

text \<open>
  The TLS session on BoringSSL (lightway-boring/src/session.rs, with the types of types.rs and
  config.rs): handshake, reads and writes that report progress instead of blocking, key updates,
  the DTLS timer and the shutdown. The crate boring and the functions of BoringSSL it binds are
  the parameter \<open>ssl_ops\<close>; \<open>boring_tls\<close> makes of them the session the core calls, and the
  assumptions the properties of a connection make about its session are derived from assumptions
  about BoringSSL.
\<close>

section \<open>Types\<close>

datatype tls_method = TlsClientV1_2 | TlsClientV1_3 | TlsServerV1_3 | DtlsClientV1_3 | DtlsServerV1_3

fun method_is_tls :: "tls_method \<Rightarrow> bool" where
  "method_is_tls DtlsClientV1_3 = False"
| "method_is_tls DtlsServerV1_3 = False"
| "method_is_tls _ = True"

definition method_is_dtls :: "tls_method \<Rightarrow> bool" where "method_is_dtls m \<longleftrightarrow> \<not> method_is_tls m"

fun method_is_server :: "tls_method \<Rightarrow> bool" where
  "method_is_server TlsServerV1_3 = True"
| "method_is_server DtlsServerV1_3 = True"
| "method_is_server _ = False"

definition method_is_client :: "tls_method \<Rightarrow> bool" where "method_is_client m \<longleftrightarrow> \<not> method_is_server m"

datatype curve_group = EccSecp256R1 | EccX25519 | X25519MLKEM768

definition curve_is_pq :: "curve_group \<Rightarrow> bool" where "curve_is_pq g \<longleftrightarrow> g \<notin> {EccX25519, EccSecp256R1}"

datatype ssl_verify_mode = SslVerifyNone | SslVerifyPeer

record session_config =
  sc_io :: io_adapter
  sc_dtls_mtu :: "u16 option"
  sc_checked_domain_name :: "string option"
  sc_server_name_indication :: "string option"
  sc_keyshare_group :: "curve_group option"
  sc_ssl_verify_mode :: "ssl_verify_mode option"

text \<open>An \<open>ErrorStack\<close> is a number; the texts of the errors are left out.\<close>

datatype tls_setup_error = BoringSslError nat | InvalidParameter | TlsIoError nat

section \<open>The library\<close>

text \<open>The codes of \<open>boring::ssl::ErrorCode\<close> the source tells apart, and the results of a verification.\<close>

datatype ssl_error_code = WantRead | WantWrite | ZeroReturn | OtherCode int

definition error_code_raw :: "ssl_error_code \<Rightarrow> int" where
  "error_code_raw c = (case c of WantRead \<Rightarrow> 2 | WantWrite \<Rightarrow> 3 | ZeroReturn \<Rightarrow> 6 | OtherCode n \<Rightarrow> n)"

datatype x509_verify_error =
    HostnameMismatch | UnableToGetIssuerCert | UnableToGetIssuerCertLocally | CertUntrusted | DepthZeroSelfSignedCert | OtherVerifyError int

text \<open>
  \<open>'b\<close> is the SSL object. Calls that drive the transport take the adapter; a panic of the adapter
  is \<open>None\<close>. \<open>ssl_read\<close> returns the bytes it put at the front of a buffer of the given size.
\<close>

record 'b ssl_ops =
  ssl_is_init_finished :: "'b \<Rightarrow> bool"
  ssl_connect :: "'b \<Rightarrow> io_adapter \<Rightarrow> ((ssl_error_code + unit) \<times> 'b \<times> io_adapter) option"
  ssl_accept :: "'b \<Rightarrow> io_adapter \<Rightarrow> ((ssl_error_code + unit) \<times> 'b \<times> io_adapter) option"
  ssl_verify_result :: "'b \<Rightarrow> x509_verify_error + unit"
  ssl_read :: "nat \<Rightarrow> 'b \<Rightarrow> io_adapter \<Rightarrow> ((ssl_error_code + bytes) \<times> 'b \<times> io_adapter) option"
  ssl_write :: "bytes \<Rightarrow> 'b \<Rightarrow> io_adapter \<Rightarrow> ((ssl_error_code + nat) \<times> 'b \<times> io_adapter) option"
  ssl_shutdown :: "'b \<Rightarrow> io_adapter \<Rightarrow> ((ssl_error_code + bool) \<times> 'b \<times> io_adapter) option"
  ssl_key_update :: "'b \<Rightarrow> int \<times> 'b"
  dtls_get_timeout :: "'b \<Rightarrow> (u64 \<times> u32) option"
  dtls_handle_timeout :: "'b \<Rightarrow> io_adapter \<Rightarrow> (int \<times> 'b \<times> io_adapter) option"
  ssl_get_error :: "int \<Rightarrow> 'b \<Rightarrow> ssl_error_code"
  ssl_version_str :: "'b \<Rightarrow> string"

text \<open>What \<open>Session::new\<close> asks of the library.\<close>

record 'b ssl_setup =
  su_new :: "nat + 'b"
  su_accept_moving_write_buffer :: "'b \<Rightarrow> 'b"
  su_set_mtu :: "u32 \<Rightarrow> 'b \<Rightarrow> nat + 'b"
  su_partial_chain :: "'b \<Rightarrow> 'b"
  su_set_host :: "string \<Rightarrow> 'b \<Rightarrow> nat + 'b"
  su_set_hostname :: "string \<Rightarrow> 'b \<Rightarrow> nat + 'b"
  su_set_verify :: "ssl_verify_mode \<Rightarrow> 'b \<Rightarrow> 'b"
  su_group_id :: "curve_group \<Rightarrow> u16"
  su_set1_client_key_shares :: "u16 list \<Rightarrow> 'b \<Rightarrow> int \<times> 'b"
  su_stream :: "'b \<Rightarrow> nat + 'b"

section \<open>The transport\<close>

text \<open>\<open>BioAdapter\<close>: what the library calls to move bytes. \<open>Inl None\<close> is the \<open>WouldBlock\<close> error.\<close>

definition bio_result :: "io_result \<Rightarrow> io_error option + usize" where
  "bio_result r = (case r of IoOk n \<Rightarrow> Inr n | IoWouldBlock \<Rightarrow> Inl None | IoErr e \<Rightarrow> Inl (Some e))"

definition bio_read :: "usize \<Rightarrow> io_adapter \<Rightarrow> (io_error option + usize) \<times> bytes \<times> io_adapter" where
  "bio_read len io = (case io_recv len io of ((r, d), io) \<Rightarrow> (bio_result r, d, io))"

definition bio_write :: "socket_ops \<Rightarrow> bytes \<Rightarrow> io_adapter \<Rightarrow> ((io_error option + usize) \<times> io_adapter) option" where
  "bio_write K buf io = map_option (map_prod bio_result id) (io_send K buf io)"

section \<open>The session\<close>

text \<open>The adapter inside the stream is the \<open>cn_io\<close> of the connection and is passed along.\<close>

record 'b boring_session =
  se_ssl :: 'b
  se_is_client :: bool
  se_is_dtls :: bool
  se_pending_key_update :: bool

definition or_fail :: "(nat + 'a) \<Rightarrow> ('a \<Rightarrow> tls_setup_error + 'c) \<Rightarrow> tls_setup_error + 'c" where
  "or_fail r k = (case r of Inl e \<Rightarrow> Inl (BoringSslError e) | Inr a \<Rightarrow> k a)"

definition when_some :: "'x option \<Rightarrow> ('x \<Rightarrow> 'b \<Rightarrow> nat + 'b) \<Rightarrow> 'b \<Rightarrow> nat + 'b" where
  "when_some x f b = (case x of None \<Rightarrow> Inr b | Some x \<Rightarrow> f x b)"

definition set_key_shares :: "'b ssl_setup \<Rightarrow> bool \<Rightarrow> curve_group option \<Rightarrow> 'b \<Rightarrow> tls_setup_error + 'b" where
  "set_key_shares U is_client keyshare_group ssl =
     (case keyshare_group of
        None \<Rightarrow> Inr ssl
      | Some g \<Rightarrow>
          if is_client \<and> curve_is_pq g then
            (case su_set1_client_key_shares U [su_group_id U g] ssl of
               (rc, ssl) \<Rightarrow> if rc \<noteq> 1 then Inl InvalidParameter else Inr ssl)
          else Inr ssl)"

definition session_new :: "'b ssl_setup \<Rightarrow> tls_method \<Rightarrow> session_config \<Rightarrow> tls_setup_error + ('b boring_session \<times> io_adapter)" where
  "session_new U m config =
     or_fail (su_new U) (\<lambda>ssl.
     let ssl = su_accept_moving_write_buffer U ssl;
         is_client = method_is_client m;
         is_dtls = method_is_dtls m
     in or_fail (if is_dtls then when_some (sc_dtls_mtu config) (\<lambda>mtu. su_set_mtu U (ucast mtu)) ssl else Inr ssl) (\<lambda>ssl.
        or_fail (when_some (sc_checked_domain_name config) (su_set_host U) (su_partial_chain U ssl)) (\<lambda>ssl.
        or_fail (when_some (sc_server_name_indication config) (su_set_hostname U) ssl) (\<lambda>ssl.
        let ssl = (case sc_ssl_verify_mode config of None \<Rightarrow> ssl | Some mode \<Rightarrow> su_set_verify U mode ssl)
        in case set_key_shares U is_client (sc_keyshare_group config) ssl of
             Inl e \<Rightarrow> Inl e
           | Inr ssl \<Rightarrow>
               or_fail (su_stream U ssl) (\<lambda>ssl.
                 Inr (\<lparr>se_ssl = ssl, se_is_client = is_client, se_is_dtls = is_dtls, se_pending_key_update = False\<rparr>, sc_io config))))))"

definition DTLS_DEFAULT_POLL_INTERVAL :: duration where "DTLS_DEFAULT_POLL_INTERVAL = millis 1000"

definition classify_handshake_error :: "x509_verify_error + unit \<Rightarrow> tls_error_kind" where
  "classify_handshake_error r =
     (case r of
        Inr _ \<Rightarrow> OtherErrorKind 0
      | Inl e \<Rightarrow>
          if e = HostnameMismatch then DomainNameMismatch
          else if e \<in> {UnableToGetIssuerCert, UnableToGetIssuerCertLocally, CertUntrusted, DepthZeroSelfSignedCert}
          then CaCertNotAvailable
          else CertVerificationFailed)"

text \<open>The calls that do not touch the buffers: the result, and the session with its new SSL object.\<close>

definition session_poll :: "'b ssl_ops \<Rightarrow> 'b boring_session \<Rightarrow> io_adapter \<Rightarrow> ('b boring_session, unit) tls_result" where
  "session_poll B s io =
     (if \<not> ssl_is_init_finished B (se_ssl s) then
        (case (if se_is_client s then ssl_connect B else ssl_accept B) (se_ssl s) io of
           None \<Rightarrow> None
         | Some (r, b, io) \<Rightarrow>
             Some ((case r of
                      Inr _ \<Rightarrow> Inr (Ready ())
                    | Inl WantRead \<Rightarrow> Inr PendingRead
                    | Inl WantWrite \<Rightarrow> Inr PendingWrite
                    | Inl _ \<Rightarrow> Inl (TlsFatal (classify_handshake_error (ssl_verify_result B b)))),
                   s\<lparr>se_ssl := b\<rparr>, io))
      else Some (Inr (Ready ()), s, io))"

definition READ_BUF :: nat where "READ_BUF = 16384"

text \<open>The slice past the bytes that were there is filled; what is not filled is cut off again.\<close>

definition session_read ::
  "'b ssl_ops \<Rightarrow> bytes \<Rightarrow> 'b boring_session \<Rightarrow> io_adapter \<Rightarrow> (bytes \<times> (tls_error + usize tls_poll) \<times> 'b boring_session \<times> io_adapter) option"
  where
  "session_read B buf s io =
     (let old_len = length buf;
          buf = buf @ replicate READ_BUF 0
      in case ssl_read B (length buf - old_len) (se_ssl s) io of
           None \<Rightarrow> None
         | Some (r, b, io) \<Rightarrow>
             let s = s\<lparr>se_ssl := b\<rparr> in
             (case r of
                Inr d \<Rightarrow>
                  let buf = take old_len buf @ d @ drop (old_len + length d) buf
                  in Some (take (old_len + length d) buf, Inr (Ready (length d)), s, io)
              | Inl WantRead \<Rightarrow> Some (take old_len buf, Inr PendingRead, s, io)
              | Inl WantWrite \<Rightarrow> Some (take old_len buf, Inr PendingWrite, s, io)
              | Inl ZeroReturn \<Rightarrow> Some (take old_len buf, Inl (TlsFatal PeerClosed), s, io)
              | Inl (OtherCode n) \<Rightarrow> Some (take old_len buf, Inl (TlsFatal (OtherErrorKind n)), s, io)))"

text \<open>\<open>None\<close> covers the assertion of \<open>advance\<close> too.\<close>

definition session_write ::
  "'b ssl_ops \<Rightarrow> bytes \<Rightarrow> 'b boring_session \<Rightarrow> io_adapter \<Rightarrow> (bytes \<times> (tls_error + usize tls_poll) \<times> 'b boring_session \<times> io_adapter) option"
  where
  "session_write B buf s io =
     (if buf = [] then Some (buf, Inr (Ready 0), s, io)
      else case ssl_write B buf (se_ssl s) io of
          None \<Rightarrow> None
        | Some (r, b, io) \<Rightarrow>
            let s = s\<lparr>se_ssl := b\<rparr> in
            (case r of
               Inr n \<Rightarrow>
                 if length buf < n then None
                 else Some (drop n buf, Inr (Ready n), s\<lparr>se_pending_key_update := False\<rparr>, io)
             | Inl WantRead \<Rightarrow> Some (buf, Inr PendingRead, s, io)
             | Inl WantWrite \<Rightarrow> Some (buf, Inr PendingWrite, s, io)
             | Inl e \<Rightarrow> Some (buf, Inl (TlsFatal (OtherErrorKind (error_code_raw e))), s, io)))"

definition session_trigger_update_key ::
  "'b ssl_ops \<Rightarrow> 'b boring_session \<Rightarrow> io_adapter \<Rightarrow> ('b boring_session, unit) tls_result" where
  "session_trigger_update_key B s io =
     (case ssl_key_update B (se_ssl s) of
        (rc, b) \<Rightarrow>
          if rc \<noteq> 1 then Some (Inl (TlsFatal (OtherErrorKind rc)), s\<lparr>se_ssl := b\<rparr>, io)
          else Some (Inr (Ready ()), s\<lparr>se_ssl := b, se_pending_key_update := True\<rparr>, io))"

definition session_current_timeout :: "'b ssl_ops \<Rightarrow> 'b boring_session \<Rightarrow> duration" where
  "session_current_timeout B s =
     (if \<not> se_is_dtls s then millis 0
      else case dtls_get_timeout B (se_ssl s) of
          Some (tv_sec, tv_usec) \<Rightarrow> millis (unat tv_sec * 1000) + unat (tv_usec * 1000)
        | None \<Rightarrow> DTLS_DEFAULT_POLL_INTERVAL)"

definition session_use_quick_timeout :: "'b ssl_ops \<Rightarrow> 'b boring_session \<Rightarrow> bool" where
  "session_use_quick_timeout B s \<longleftrightarrow> se_is_dtls s \<and> \<not> ssl_is_init_finished B (se_ssl s)"

definition session_timed_out ::
  "'b ssl_ops \<Rightarrow> 'b boring_session \<Rightarrow> io_adapter \<Rightarrow> (bool tls_poll \<times> 'b boring_session \<times> io_adapter) option" where
  "session_timed_out B s io =
     (if \<not> se_is_dtls s then Some (Ready False, s, io)
      else case dtls_handle_timeout B (se_ssl s) io of
          None \<Rightarrow> None
        | Some (rc, b, io) \<Rightarrow>
            Some (if rc = 0 then Ready False
                  else if rc = 1 then Ready False
                  else (case ssl_get_error B rc b of
                          WantWrite \<Rightarrow> PendingWrite
                        | WantRead \<Rightarrow> PendingRead
                        | _ \<Rightarrow> Ready True),
                  s\<lparr>se_ssl := b\<rparr>, io))"

definition session_version :: "'b ssl_ops \<Rightarrow> 'b boring_session \<Rightarrow> protocol_version" where
  "session_version B s =
     (let v = ssl_version_str B (se_ssl s) in
      if v = ''TLSv1.2'' then TlsV1_2
      else if v = ''TLSv1.3'' then TlsV1_3
      else if v = ''DTLSv1.3'' then DtlsV1_3
      else UnknownProtocol)"

definition session_shutdown :: "'b ssl_ops \<Rightarrow> 'b boring_session \<Rightarrow> io_adapter \<Rightarrow> ('b boring_session, bool) tls_result" where
  "session_shutdown B s io =
     (case ssl_shutdown B (se_ssl s) io of
        None \<Rightarrow> None
      | Some (r, b, io) \<Rightarrow>
          Some ((case r of
                   Inr received \<Rightarrow> Inr (Ready received)
                 | Inl WantWrite \<Rightarrow> Inr PendingWrite
                 | Inl WantRead \<Rightarrow> Inr PendingRead
                 | Inl e \<Rightarrow> Inl (TlsFatal (OtherErrorKind (error_code_raw e)))),
                s\<lparr>se_ssl := b\<rparr>, io))"

text \<open>The session as the core sees it. The core drops the answer of the shutdown.\<close>

definition boring_tls :: "'b ssl_ops \<Rightarrow> 'b boring_session tls_ops" where
  "boring_tls B = \<lparr>
     tls_try_negotiate = session_poll B,
     tls_try_write = session_write B,
     tls_try_read = session_read B,
     tls_try_shutdown = (\<lambda>s io. map_option (\<lambda>(r, rest). (map_sum id (map_tls_poll (\<lambda>_. ())) r, rest)) (session_shutdown B s io)),
     tls_try_trigger_update_key = session_trigger_update_key B,
     tls_dtls_has_timed_out = session_timed_out B,
     tls_is_update_keys_pending = se_pending_key_update,
     tls_dtls_current_timeout = session_current_timeout B,
     tls_dtls13_use_quick_timeout = session_use_quick_timeout B,
     tls_version = session_version B\<rparr>"

section \<open>What the session needs of the library\<close>

text \<open>
  A number of the SSL object and of the bytes the adapter holds that no call raises and a
  successful read lowers by more than it hands over: a record is longer than its plaintext.
\<close>

definition ssl_lowers :: "('b \<Rightarrow> bytes \<Rightarrow> nat) \<Rightarrow> ('b \<Rightarrow> io_adapter \<Rightarrow> ('r \<times> 'b \<times> io_adapter) option) \<Rightarrow> bool" where
  "ssl_lowers mu f \<longleftrightarrow> (\<forall>b io r b' io'. f b io = Some (r, b', io') \<longrightarrow> mu b' (io_recv_buf io') \<le> mu b (io_recv_buf io))"

definition ssl_progress :: "'b ssl_ops \<Rightarrow> ('b \<Rightarrow> bytes \<Rightarrow> nat) \<Rightarrow> bool" where
  "ssl_progress B mu \<longleftrightarrow>
     ssl_lowers mu (ssl_connect B) \<and> ssl_lowers mu (ssl_accept B) \<and> ssl_lowers mu (ssl_shutdown B)
     \<and> ssl_lowers mu (dtls_handle_timeout B) \<and> (\<forall>d. ssl_lowers mu (ssl_write B d))
     \<and> (\<forall>b x. mu (snd (ssl_key_update B b)) x \<le> mu b x)
     \<and> (\<forall>n b io d b' io'. ssl_read B n b io = Some (Inr d, b', io') \<longrightarrow>
          length d \<le> n \<and> mu b' (io_recv_buf io') + length d < mu b (io_recv_buf io))"

text \<open>\<open>w\<close> is the plaintext the SSL object took; writes only fail for want of transport.\<close>

definition ssl_keeps :: "('b \<Rightarrow> bytes) \<Rightarrow> ('b \<Rightarrow> io_adapter \<Rightarrow> ('r \<times> 'b \<times> io_adapter) option) \<Rightarrow> bool" where
  "ssl_keeps w f \<longleftrightarrow> (\<forall>b io r b' io'. f b io = Some (r, b', io') \<longrightarrow> w b' = w b)"

definition ssl_takes :: "'b ssl_ops \<Rightarrow> ('b \<Rightarrow> bytes) \<Rightarrow> bool" where
  "ssl_takes B w \<longleftrightarrow>
     ssl_keeps w (ssl_connect B) \<and> ssl_keeps w (ssl_accept B) \<and> ssl_keeps w (ssl_shutdown B)
     \<and> ssl_keeps w (dtls_handle_timeout B) \<and> (\<forall>n. ssl_keeps w (ssl_read B n))
     \<and> (\<forall>b. w (snd (ssl_key_update B b)) = w b)
     \<and> (\<forall>d b io n b' io'. ssl_write B d b io = Some (Inr n, b', io') \<longrightarrow> w b' = w b @ take n d)
     \<and> (\<forall>d b io e b' io'. ssl_write B d b io = Some (Inl e, b', io') \<longrightarrow> e \<in> {WantRead, WantWrite} \<and> w b' = w b)"

lemmas session_defs = session_poll_def session_read_def session_write_def session_trigger_update_key_def session_timed_out_def
  session_shutdown_def Let_def

text \<open>What each call of the session does to the SSL object and the adapter.\<close>

lemma session_poll_ssl: "session_poll B s io = Some (r, s', io') \<Longrightarrow>
    se_ssl s' = se_ssl s \<and> io' = io
    \<or> (\<exists>r. ssl_connect B (se_ssl s) io = Some (r, se_ssl s', io')) \<or> (\<exists>r. ssl_accept B (se_ssl s) io = Some (r, se_ssl s', io'))"
  by (auto simp: session_poll_def split: if_splits option.splits)

lemma session_shutdown_ssl: "session_shutdown B s io = Some (r, s', io') \<Longrightarrow> \<exists>r. ssl_shutdown B (se_ssl s) io = Some (r, se_ssl s', io')"
  by (auto simp: session_shutdown_def split: option.splits)

lemma session_timed_out_ssl: "session_timed_out B s io = Some (r, s', io') \<Longrightarrow>
    se_ssl s' = se_ssl s \<and> io' = io \<or> (\<exists>r. dtls_handle_timeout B (se_ssl s) io = Some (r, se_ssl s', io'))"
  by (auto simp: session_timed_out_def split: if_splits option.splits)

lemma session_trigger_ssl: "session_trigger_update_key B s io = Some (r, s', io') \<Longrightarrow>
    se_ssl s' = snd (ssl_key_update B (se_ssl s)) \<and> io' = io"
  by (auto simp: session_trigger_update_key_def split: if_splits prod.splits)

lemma session_write_ssl: "session_write B d s io = Some (d', r, s', io') \<Longrightarrow>
    d' = d \<and> r = Inr (Ready 0) \<and> s' = s \<and> io' = io \<and> d = []
    \<or> (\<exists>n. ssl_write B d (se_ssl s) io = Some (Inr n, se_ssl s', io') \<and> d' = drop n d \<and> r = Inr (Ready n) \<and> n \<le> length d)
    \<or> (\<exists>e. ssl_write B d (se_ssl s) io = Some (Inl e, se_ssl s', io') \<and> d' = d
        \<and> (r = Inr PendingRead \<and> e = WantRead \<or> r = Inr PendingWrite \<and> e = WantWrite \<or> e \<notin> {WantRead, WantWrite}))"
  by (auto simp: session_write_def Let_def split: if_splits option.splits sum.splits ssl_error_code.splits)

lemma session_read_ssl: "session_read B d s io = Some (d', r, s', io') \<Longrightarrow>
    (\<exists>x. ssl_read B READ_BUF (se_ssl s) io = Some (Inr x, se_ssl s', io') \<and> d' = d @ x \<and> r = Inr (Ready (length x)))
    \<or> (\<exists>e. ssl_read B READ_BUF (se_ssl s) io = Some (Inl e, se_ssl s', io') \<and> d' = d
        \<and> r \<in> {Inr PendingRead, Inr PendingWrite} \<union> range (\<lambda>k. Inl (TlsFatal k)))"
  by (auto simp: session_read_def Let_def split: option.splits sum.splits ssl_error_code.splits)

lemma boring_progress:
  assumes "ssl_progress B mu"
  shows "tls_progress (boring_tls B) (\<lambda>s. mu (se_ssl s))"
  using assms unfolding tls_progress_def tls_never_raises_def boring_tls_def tls_ops.simps ssl_progress_def ssl_lowers_def
  apply (intro conjI allI impI)
  subgoal by (fastforce dest!: session_poll_ssl)
  subgoal by (fastforce dest!: session_shutdown_ssl)
  subgoal by (fastforce dest!: session_trigger_ssl)
  subgoal by (fastforce dest!: session_timed_out_ssl)
  subgoal by (fastforce dest!: session_write_ssl)
  subgoal by (fastforce dest!: session_read_ssl)
  subgoal by (fastforce dest!: session_read_ssl)
  done

lemma ssl_takesD:
  assumes "ssl_takes B w"
  shows "ssl_write B d b io = Some (Inr n, b', io') \<Longrightarrow> w b' = w b @ take n d"
    and "ssl_write B d b io = Some (Inl e, b', io') \<Longrightarrow> e \<in> {WantRead, WantWrite} \<and> w b' = w b"
  using assms unfolding ssl_takes_def by (elim conjE; metis)+

lemma boring_write_takes:
  assumes "ssl_takes B w" and "session_write B d s io = Some (d', r, s', io')"
  shows "(\<exists>n. d' = drop n d \<and> w (se_ssl s') = w (se_ssl s) @ take n d) \<and> (\<forall>e. r \<noteq> Inl e) \<and> (\<forall>x. r \<noteq> Inr (AppData x))"
  using session_write_ssl [OF assms(2)]
proof (elim disjE exE conjE)
  fix n assume "ssl_write B d (se_ssl s) io = Some (Inr n, se_ssl s', io')" "d' = drop n d" "r = Inr (Ready n)"
  then show ?thesis using ssl_takesD(1) [OF assms(1)] by blast
next
  fix e assume "ssl_write B d (se_ssl s) io = Some (Inl e, se_ssl s', io')" "d' = d" "e \<notin> {WantRead, WantWrite}"
  then show ?thesis using ssl_takesD(2) [OF assms(1)] by blast
qed (auto intro!: exI [of _ 0] dest: ssl_takesD(2) [OF assms(1)])

lemma boring_writes:
  assumes "ssl_takes B w"
  shows "tls_writes (boring_tls B) (\<lambda>s. w (se_ssl s))"
  using assms unfolding tls_writes_def tls_takes_nothing_def boring_tls_def tls_ops.simps
  apply (intro conjI allI impI)
  subgoal unfolding ssl_takes_def ssl_keeps_def by (fastforce dest!: session_poll_ssl)
  subgoal unfolding ssl_takes_def ssl_keeps_def by (fastforce dest!: session_shutdown_ssl)
  subgoal unfolding ssl_takes_def ssl_keeps_def by (fastforce dest!: session_trigger_ssl)
  subgoal unfolding ssl_takes_def ssl_keeps_def by (fastforce dest!: session_timed_out_ssl)
  subgoal unfolding ssl_takes_def ssl_keeps_def by (fastforce dest!: session_read_ssl)
  subgoal by (drule (1) boring_write_takes) blast
  subgoal by (drule (1) boring_write_takes) blast
  subgoal by (drule (1) boring_write_takes) blast
  done

section \<open>Key updates\<close>

text \<open>
  A triggered key update is pending until the next write that takes data; no other call changes
  that, so \<open>maybe_complete_key_update\<close> of the connection reports the completion of an update only
  after its message was flushed.
\<close>

lemma session_pending:
  "session_trigger_update_key B s io = Some (Inr p, s', io') \<Longrightarrow> se_pending_key_update s'"
  "session_trigger_update_key B s io = Some (Inl e, s', io') \<Longrightarrow> se_pending_key_update s' = se_pending_key_update s"
  "session_write B d s io = Some (d', r, s', io') \<Longrightarrow>
     se_pending_key_update s' = (se_pending_key_update s \<and> (d = [] \<or> (\<forall>n. r \<noteq> Inr (Ready n))))"
  "session_poll B s io = Some (q, s', io') \<Longrightarrow> se_pending_key_update s' = se_pending_key_update s"
  "session_read B d s io = Some (d', r, s', io') \<Longrightarrow> se_pending_key_update s' = se_pending_key_update s"
  "session_shutdown B s io = Some (v, s', io') \<Longrightarrow> se_pending_key_update s' = se_pending_key_update s"
  "session_timed_out B s io = Some (t, s', io') \<Longrightarrow> se_pending_key_update s' = se_pending_key_update s"
  by (auto simp: session_defs split: if_splits prod.splits option.splits sum.splits ssl_error_code.splits)

section \<open>Verification\<close>

text \<open>
  A session for which a domain name was configured exists only if the library accepted the name
  for verification.
\<close>

lemma session_new_checks_domain:
  assumes "session_new U m config = Inr (s, io)" and "sc_checked_domain_name config = Some d"
  shows "\<exists>b b'. su_set_host U d b = Inr b'"
  using assms by (auto simp: session_new_def or_fail_def when_some_def Let_def split: sum.splits if_splits)

lemma session_new_start:
  "session_new U m config = Inr (s, io) \<Longrightarrow>
    se_is_client s = method_is_client m \<and> se_is_dtls s = method_is_dtls m \<and> \<not> se_pending_key_update s \<and> io = sc_io config"
  by (auto simp: session_new_def or_fail_def Let_def split: sum.splits)

text \<open>
  A datagram connection does not treat a failed certificate verification as fatal: of the kinds a
  handshake failure is given, only a wrong domain name and a missing issuer end it.
\<close>

lemma handshake_failure_fatal_iff:
  "is_fatal Datagram (CeTls (TlsFatal (classify_handshake_error r))) \<longleftrightarrow>
    r \<in> Inl ` {HostnameMismatch, UnableToGetIssuerCert, UnableToGetIssuerCertLocally, CertUntrusted, DepthZeroSelfSignedCert}"
  by (auto simp: classify_handshake_error_def is_fatal_def split: sum.splits if_splits)

section \<open>The contract\<close>


text \<open>A library that encrypts nothing: its object is the plaintext it took.\<close>

definition plain_ssl :: "bytes ssl_ops" where
  "plain_ssl = \<lparr>
     ssl_is_init_finished = (\<lambda>_. True),
     ssl_connect = (\<lambda>b io. Some (Inr (), b, io)), ssl_accept = (\<lambda>b io. Some (Inr (), b, io)),
     ssl_verify_result = (\<lambda>_. Inr ()),
     ssl_read = (\<lambda>n b io. case bio_read n io of
         (Inr k, d, io') \<Rightarrow> if d = [] then Some (Inl WantRead, b, io) else Some (Inr d, b, io')
       | (Inl _, d, io') \<Rightarrow> Some (Inl WantRead, b, io)),
     ssl_write = (\<lambda>d b io. case bio_write sink_socket d io of
         None \<Rightarrow> None
       | Some (Inr n, io) \<Rightarrow> Some (Inr n, b @ take n d, io)
       | Some (Inl _, io) \<Rightarrow> Some (Inl WantWrite, b, io)),
     ssl_shutdown = (\<lambda>b io. Some (Inr True, b, io)), ssl_key_update = (\<lambda>b. (1, b)),
     dtls_get_timeout = (\<lambda>_. None), dtls_handle_timeout = (\<lambda>b io. Some (0, b, io)), ssl_get_error = (\<lambda>_ _. WantWrite),
     ssl_version_str = (\<lambda>_. ''DTLSv1.3'')\<rparr>"

lemma bio_write_recv_buf: "bio_write K d io = Some (r, io') \<Longrightarrow> io_recv_buf io' = io_recv_buf io"
  by (auto simp: bio_write_def io_send_def dest: udp_send_recv_buf tcp_send_recv_buf split: connection_type.splits)

lemma bio_read_Inr: "bio_read n io = (Inr k, d, io') \<Longrightarrow> length d \<le> n \<and> io_recv_buf io = d @ io_recv_buf io'"
  by (auto simp: bio_read_def io_recv_def bio_result_def Let_def split: if_splits)

lemma plain_ssl_progress: "ssl_progress plain_ssl (\<lambda>_ x. 2 * length x)"
  by (auto simp: ssl_progress_def ssl_lowers_def plain_ssl_def dest: bio_write_recv_buf bio_read_Inr
      split: option.splits sum.splits prod.splits if_splits)

lemma plain_ssl_takes: "ssl_takes plain_ssl id"
  by (auto simp: ssl_takes_def ssl_keeps_def plain_ssl_def split: option.splits sum.splits prod.splits if_splits)

definition ex_boring_env :: "(bytes boring_session, bytes, nat \<times> (u16 \<times> fragmented_packet) list) conn_env" where
  "ex_boring_env = \<lparr>ce_tls = boring_tls plain_ssl, ce_sock = ce_sock ex_env, ce_aead = ce_aead ex_env, ce_lru = ce_lru ex_env,
     ce_pnet = ce_pnet ex_env, ce_gso = ce_gso ex_env, ce_now = ce_now ex_env, ce_random = ce_random ex_env,
     ce_ip_alloc = ce_ip_alloc ex_env, ce_authorize = ce_authorize ex_env, ce_expired = ce_expired ex_env, ce_stats = ce_stats ex_env,
     ce_encoder_store = ce_encoder_store ex_env, ce_encoder_state = ce_encoder_state ex_env, ce_decoder_store = ce_decoder_store ex_env\<rparr>"


end
