(* ===== verification/Tls_Context.thy ===== *)
theory Tls_Context
  imports Tls_Session
begin

text \<open>
  The TLS context on BoringSSL (lightway-boring/src/context.rs, with the types of cert.rs) and what
  the core puts in it (lightway-core/src/cipher.rs, keyshare.rs). An \<open>SSL_CTX\<close> is the list of the
  calls that succeeded on it. Which calls fail, what the parsers of the crate boring return and what
  the file system holds are the parameter \<open>boring_ctx\<close>; a certificate and a key are bytes.
\<close>

section \<open>Certificates\<close>

datatype root_certificate = RootPemBuffer bytes | RootAsn1Buffer bytes | RootPemFileOrDirectory string

datatype secret = SecretAsn1Buffer bytes | SecretAsn1File string | SecretPemBuffer bytes | SecretPemFile string

datatype ctx_call =
    CtxSetVerify ssl_verify_mode
  | CtxSetMinProtoVersion protocol_version
  | CtxSetMaxProtoVersion protocol_version
  | CtxSetVerifyCertStore "bytes list"
  | CtxSetPrivateKey bytes
  | CtxSetCertificate bytes
  | CtxSetCipherList string
  | CtxSetGroupIds "u16 list"

type_synonym ssl_ctx = "ctx_call list"

text \<open>An error is a number. \<open>bc_fails\<close> is the error of a call on a context, if it has one.\<close>

record boring_ctx =
  bc_new_fails :: "bool \<Rightarrow> nat option"
  bc_fails :: "ssl_ctx \<Rightarrow> ctx_call \<Rightarrow> nat option"
  bc_store_fails :: "nat option"
  bc_add_cert_fails :: "bytes list \<Rightarrow> bytes \<Rightarrow> nat option"
  bc_x509_from_der :: "bytes \<Rightarrow> nat + bytes"
  bc_x509_from_pem :: "bytes \<Rightarrow> nat + bytes"
  bc_x509_stack_from_pem :: "bytes \<Rightarrow> nat + bytes list"
  bc_private_key_from_der :: "bytes \<Rightarrow> nat + bytes"
  bc_private_key_from_pem :: "bytes \<Rightarrow> nat + bytes"
  bc_group_id :: "curve_group \<Rightarrow> u16"
  bc_is_dir :: "string \<Rightarrow> bool"
  bc_is_file :: "string \<Rightarrow> bool"
  bc_read_dir :: "string \<Rightarrow> nat + (nat + string) list"
  bc_read :: "string \<Rightarrow> nat + bytes"

section \<open>The builder\<close>

fun method_is_v1_3 :: "tls_method \<Rightarrow> bool" where
  "method_is_v1_3 TlsClientV1_2 = False"
| "method_is_v1_3 _ = True"

record context_builder =
  cb_ctx :: ssl_ctx
  cb_method :: tls_method

text \<open>One call on the context: the error, or the context after it.\<close>

definition ctx_do :: "boring_ctx \<Rightarrow> ctx_call \<Rightarrow> ssl_ctx \<Rightarrow> nat + ssl_ctx" where
  "ctx_do X call ctx = (case bc_fails X ctx call of Some e \<Rightarrow> Inl e | None \<Rightarrow> Inr (ctx @ [call]))"

fun method_version :: "tls_method \<Rightarrow> protocol_version" where
  "method_version TlsClientV1_3 = TlsV1_3"
| "method_version TlsServerV1_3 = TlsV1_3"
| "method_version DtlsClientV1_3 = DtlsV1_3"
| "method_version DtlsServerV1_3 = DtlsV1_3"
| "method_version TlsClientV1_2 = TlsV1_2"

text \<open>\<open>set_verify\<close> cannot fail.\<close>

definition context_builder_new :: "boring_ctx \<Rightarrow> tls_method \<Rightarrow> nat + context_builder" where
  "context_builder_new X m =
     (case bc_new_fails X (method_is_dtls m) of
        Some e \<Rightarrow> Inl e
      | None \<Rightarrow>
          (let ctx = (if method_is_client m then [CtxSetVerify SslVerifyPeer] else []) in
           case ctx_do X (CtxSetMinProtoVersion (method_version m)) ctx of
             Inl e \<Rightarrow> Inl e
           | Inr ctx \<Rightarrow>
               (case ctx_do X (CtxSetMaxProtoVersion (method_version m)) ctx of
                  Inl e \<Rightarrow> Inl e
                | Inr ctx \<Rightarrow> Inr \<lparr>cb_ctx = ctx, cb_method = m\<rparr>)))"

text \<open>The certificates of the files of a directory; what is no file is passed over.\<close>

fun dir_certs :: "boring_ctx \<Rightarrow> (nat + string) list \<Rightarrow> tls_setup_error + bytes list" where
  "dir_certs X [] = Inr []"
| "dir_certs X (Inl e # es) = Inl (TlsIoError e)"
| "dir_certs X (Inr file # es) =
     (if \<not> bc_is_file X file then dir_certs X es
      else case bc_read X file of
          Inl e \<Rightarrow> Inl (TlsIoError e)
        | Inr data \<Rightarrow>
            or_fail (bc_x509_stack_from_pem X data) (\<lambda>cs.
              case dir_certs X es of Inl e \<Rightarrow> Inl e | Inr rest \<Rightarrow> Inr (cs @ rest)))"

fun root_certs :: "boring_ctx \<Rightarrow> root_certificate \<Rightarrow> tls_setup_error + bytes list" where
  "root_certs X (RootAsn1Buffer buf) = or_fail (bc_x509_from_der X buf) (\<lambda>c. Inr [c])"
| "root_certs X (RootPemBuffer buf) = or_fail (bc_x509_stack_from_pem X buf) Inr"
| "root_certs X (RootPemFileOrDirectory path) =
     (if bc_is_dir X path then
        (case bc_read_dir X path of
           Inl e \<Rightarrow> Inl (TlsIoError e)
         | Inr es \<Rightarrow>
             (case dir_certs X es of
                Inl e \<Rightarrow> Inl e
              | Inr certs \<Rightarrow> if certs = [] then Inl InvalidParameter else Inr certs))
      else case bc_read X path of
          Inl e \<Rightarrow> Inl (TlsIoError e)
        | Inr data \<Rightarrow> or_fail (bc_x509_stack_from_pem X data) Inr)"

fun store_certs :: "boring_ctx \<Rightarrow> bytes list \<Rightarrow> bytes list \<Rightarrow> nat + bytes list" where
  "store_certs X store [] = Inr store"
| "store_certs X store (c # cs) =
     (case bc_add_cert_fails X store c of Some e \<Rightarrow> Inl e | None \<Rightarrow> store_certs X (store @ [c]) cs)"

definition cb_apply :: "boring_ctx \<Rightarrow> ctx_call \<Rightarrow> context_builder \<Rightarrow> tls_setup_error + context_builder" where
  "cb_apply X call b = or_fail (ctx_do X call (cb_ctx b)) (\<lambda>ctx. Inr (b\<lparr>cb_ctx := ctx\<rparr>))"

definition with_root_certificate :: "boring_ctx \<Rightarrow> root_certificate \<Rightarrow> context_builder \<Rightarrow> tls_setup_error + context_builder" where
  "with_root_certificate X cert b =
     (case bc_store_fails X of
        Some e \<Rightarrow> Inl (BoringSslError e)
      | None \<Rightarrow>
          (case root_certs X cert of
             Inl e \<Rightarrow> Inl e
           | Inr certs \<Rightarrow> or_fail (store_certs X [] certs) (\<lambda>store. cb_apply X (CtxSetVerifyCertStore store) b)))"

fun read_secret :: "boring_ctx \<Rightarrow> secret \<Rightarrow> tls_setup_error + bytes" where
  "read_secret X (SecretAsn1Buffer buf) = Inr buf"
| "read_secret X (SecretPemBuffer buf) = Inr buf"
| "read_secret X (SecretAsn1File path) = map_sum TlsIoError id (bc_read X path)"
| "read_secret X (SecretPemFile path) = map_sum TlsIoError id (bc_read X path)"

text \<open>DER first, then PEM.\<close>

definition der_or_pem :: "(bytes \<Rightarrow> nat + bytes) \<Rightarrow> (bytes \<Rightarrow> nat + bytes) \<Rightarrow> bytes \<Rightarrow> nat + bytes" where
  "der_or_pem der pem data = (case der data of Inr k \<Rightarrow> Inr k | Inl _ \<Rightarrow> pem data)"

definition with_private_key :: "boring_ctx \<Rightarrow> secret \<Rightarrow> context_builder \<Rightarrow> tls_setup_error + context_builder" where
  "with_private_key X key b =
     (case read_secret X key of
        Inl e \<Rightarrow> Inl e
      | Inr data \<Rightarrow> or_fail (der_or_pem (bc_private_key_from_der X) (bc_private_key_from_pem X) data) (\<lambda>pkey.
          cb_apply X (CtxSetPrivateKey pkey) b))"

definition with_certificate :: "boring_ctx \<Rightarrow> secret \<Rightarrow> context_builder \<Rightarrow> tls_setup_error + context_builder" where
  "with_certificate X cert b =
     (case read_secret X cert of
        Inl e \<Rightarrow> Inl e
      | Inr data \<Rightarrow> or_fail (der_or_pem (bc_x509_from_der X) (bc_x509_from_pem X) data) (\<lambda>x509.
          cb_apply X (CtxSetCertificate x509) b))"

text \<open>\<open>str::split\<close> and \<open>join\<close> at a separator.\<close>

fun split_str :: "char \<Rightarrow> string \<Rightarrow> string \<Rightarrow> string list" where
  "split_str sep acc [] = [acc]"
| "split_str sep acc (c # cs) = (if c = sep then acc # split_str sep [] cs else split_str sep (acc @ [c]) cs)"

fun join_str :: "char \<Rightarrow> string list \<Rightarrow> string" where
  "join_str sep [] = []"
| "join_str sep [s] = s"
| "join_str sep (s # ss) = s @ sep # join_str sep ss"

definition is_tls13_cipher :: "string \<Rightarrow> bool" where
  "is_tls13_cipher c \<longleftrightarrow> take 6 c = ''TLS13-''"

definition with_cipher_list :: "boring_ctx \<Rightarrow> string \<Rightarrow> context_builder \<Rightarrow> tls_setup_error + context_builder" where
  "with_cipher_list X cipher_list b =
     (if method_is_v1_3 (cb_method b) then Inr b
      else let entries = filter (\<lambda>c. c \<noteq> []) (split_str (CHR '':'') [] cipher_list);
               tls12 = filter (\<lambda>c. \<not> is_tls13_cipher c) entries
           in if tls12 = [] then Inr b else cb_apply X (CtxSetCipherList (join_str (CHR '':'') tls12)) b)"

definition with_groups :: "boring_ctx \<Rightarrow> curve_group list \<Rightarrow> context_builder \<Rightarrow> tls_setup_error + context_builder" where
  "with_groups X groups b =
     (if groups = [] then Inr b else cb_apply X (CtxSetGroupIds (map (bc_group_id X) groups)) b)"

record tls_context =
  tc_ssl_ctx :: ssl_ctx
  tc_method :: tls_method

definition context_build :: "context_builder \<Rightarrow> tls_context" where
  "context_build b = \<lparr>tc_ssl_ctx = cb_ctx b, tc_method = cb_method b\<rparr>"

text \<open>What the library does for a session depends on the context it is made from.\<close>

definition new_session :: "(ssl_ctx \<Rightarrow> 'b ssl_setup) \<Rightarrow> tls_context \<Rightarrow> session_config \<Rightarrow> tls_setup_error + ('b boring_session \<times> io_adapter)" where
  "new_session U ctx config = session_new (U (tc_ssl_ctx ctx)) (tc_method ctx) config"

section \<open>Ciphers and key shares\<close>

datatype cipher = Aes256 | Chacha20

fun as_cipher_list :: "cipher \<Rightarrow> connection_type \<Rightarrow> string" where
  "as_cipher_list Aes256 Stream = ''TLS13-AES256-GCM-SHA384''"
| "as_cipher_list Chacha20 Stream = ''TLS13-CHACHA20-POLY1305-SHA256''"
| "as_cipher_list Aes256 Datagram = ''TLS13-AES256-GCM-SHA384:ECDHE-RSA-AES256-GCM-SHA384''"
| "as_cipher_list Chacha20 Datagram = ''TLS13-CHACHA20-POLY1305-SHA256:ECDHE-RSA-CHACHA20-POLY1305''"

datatype key_share = KsX25519MLKEM768

fun as_curve_group :: "key_share \<Rightarrow> curve_group" where
  "as_curve_group KsX25519MLKEM768 = X25519MLKEM768"

section \<open>Session configurations\<close>

definition session_config_new :: "io_adapter \<Rightarrow> session_config" where
  "session_config_new io = \<lparr>sc_io = io, sc_dtls_mtu = None, sc_checked_domain_name = None,
     sc_server_name_indication = None, sc_keyshare_group = None, sc_ssl_verify_mode = None\<rparr>"

definition with_dtls_mtu :: "u16 \<Rightarrow> session_config \<Rightarrow> session_config" where
  "with_dtls_mtu mtu c = c\<lparr>sc_dtls_mtu := Some mtu\<rparr>"

definition with_checked_domain_name :: "string \<Rightarrow> session_config \<Rightarrow> session_config" where
  "with_checked_domain_name domain c = c\<lparr>sc_checked_domain_name := Some domain\<rparr>"

definition with_sni :: "string \<Rightarrow> session_config \<Rightarrow> session_config" where
  "with_sni sni c = c\<lparr>sc_server_name_indication := Some sni\<rparr>"

definition with_keyshare_group :: "curve_group \<Rightarrow> session_config \<Rightarrow> session_config" where
  "with_keyshare_group g c = c\<lparr>sc_keyshare_group := Some g\<rparr>"

lemmas session_config_defs = session_config_new_def with_dtls_mtu_def with_checked_domain_name_def with_sni_def with_keyshare_group_def

section \<open>What a context is made of\<close>

text \<open>
  \<open>ctx_grows b b'\<close>: from \<open>b\<close> to \<open>b'\<close> certificates, keys, ciphers and groups were set; the verification
  mode and the protocol versions were not touched.
\<close>

definition ctx_pinning :: "ctx_call \<Rightarrow> bool" where
  "ctx_pinning c \<longleftrightarrow> (case c of CtxSetVerify _ \<Rightarrow> True | CtxSetMinProtoVersion _ \<Rightarrow> True | CtxSetMaxProtoVersion _ \<Rightarrow> True | _ \<Rightarrow> False)"

lemma ctx_pinning_simps [simp]:
  "ctx_pinning (CtxSetVerify m)" "ctx_pinning (CtxSetMinProtoVersion v)" "ctx_pinning (CtxSetMaxProtoVersion v)"
  "\<not> ctx_pinning (CtxSetVerifyCertStore cs)" "\<not> ctx_pinning (CtxSetPrivateKey k)" "\<not> ctx_pinning (CtxSetCertificate c)"
  "\<not> ctx_pinning (CtxSetCipherList l)" "\<not> ctx_pinning (CtxSetGroupIds g)"
  by (simp_all add: ctx_pinning_def)

definition ctx_grows :: "context_builder \<Rightarrow> context_builder \<Rightarrow> bool" where
  "ctx_grows b b' \<longleftrightarrow> cb_method b' = cb_method b \<and> (\<exists>cs. cb_ctx b' = cb_ctx b @ cs \<and> filter ctx_pinning cs = [])"

lemma ctx_grows_refl [simp]: "ctx_grows b b"
  by (simp add: ctx_grows_def)

lemma ctx_grows_trans: "ctx_grows a b \<Longrightarrow> ctx_grows b c \<Longrightarrow> ctx_grows a c"
  unfolding ctx_grows_def by force

lemma or_fail_Inr: "or_fail r k = Inr y \<longleftrightarrow> (\<exists>a. r = Inr a \<and> k a = Inr y)"
  by (cases r) (auto simp: or_fail_def)

lemma cb_apply_Inr: "cb_apply X call b = Inr b' \<longleftrightarrow> bc_fails X (cb_ctx b) call = None \<and> b' = b\<lparr>cb_ctx := cb_ctx b @ [call]\<rparr>"
  by (auto simp: cb_apply_def or_fail_Inr ctx_do_def split: option.splits)

lemma cb_apply_grows: "cb_apply X call b = Inr b' \<Longrightarrow> \<not> ctx_pinning call \<Longrightarrow> ctx_grows b b'"
  by (auto simp: cb_apply_Inr ctx_grows_def)

lemma with_grows:
  "with_root_certificate X cert b = Inr b' \<Longrightarrow> ctx_grows b b'"
  "with_private_key X key b = Inr b' \<Longrightarrow> ctx_grows b b'"
  "with_certificate X crt b = Inr b' \<Longrightarrow> ctx_grows b b'"
  "with_cipher_list X l b = Inr b' \<Longrightarrow> ctx_grows b b'"
  "with_groups X gs b = Inr b' \<Longrightarrow> ctx_grows b b'"
  by (auto simp: with_root_certificate_def with_private_key_def with_certificate_def with_cipher_list_def with_groups_def
      or_fail_Inr Let_def intro: cb_apply_grows split: option.splits sum.splits if_splits)

lemma context_builder_new_ctx:
  "context_builder_new X m = Inr b \<Longrightarrow> cb_method b = m
    \<and> cb_ctx b = (if method_is_client m then [CtxSetVerify SslVerifyPeer] else [])
        @ [CtxSetMinProtoVersion (method_version m), CtxSetMaxProtoVersion (method_version m)]"
  by (auto simp: context_builder_new_def ctx_do_def Let_def split: option.splits sum.splits if_splits)

text \<open>The trusted certificates are exactly those of the root certificate.\<close>

lemma store_certs_Inr: "store_certs X store cs = Inr store' \<Longrightarrow> store' = store @ cs"
  by (induction cs arbitrary: store) (fastforce split: option.splits)+

lemma with_root_certificate_store:
  assumes "with_root_certificate X cert b = Inr b'"
  shows "\<exists>certs. root_certs X cert = Inr certs \<and> cb_ctx b' = cb_ctx b @ [CtxSetVerifyCertStore certs]"
  using assms by (auto simp: with_root_certificate_def or_fail_Inr cb_apply_Inr dest!: store_certs_Inr split: option.splits sum.splits)

text \<open>A directory without certificates is refused.\<close>

lemma root_directory_not_empty:
  "bc_is_dir X path \<Longrightarrow> root_certs X (RootPemFileOrDirectory path) = Inr certs \<Longrightarrow> certs \<noteq> []"
  by (auto split: sum.splits if_splits)

text \<open>
  The cipher the core asks for has no effect on the methods it uses: they are all of version 1.3,
  whose ciphers BoringSSL does not let a program choose.
\<close>

lemma cipher_list_ignored: "method_is_v1_3 (cb_method b) \<Longrightarrow> with_cipher_list X l b = Inr b"
  by (simp add: with_cipher_list_def)

end
