(* ===== verification/Connection_Builder.thy ===== *)
theory Connection_Builder
  imports Tls_Context Dplpmtud
begin

text \<open>
  Contexts and the connections made from them: lightway-core/src/context.rs (client and server
  context, their builders) and lightway-core/src/connection/builders.rs (the builders of a connection). Callbacks are the
  parameter \<open>conn_env\<close> of the connection and only their presence is recorded here. The TLS backend is
  BoringSSL.
\<close>

type_synonym plugin_factories = "(dyn_error + plugin) list"

definition MIN_OUTSIDE_MTU :: usize where [const_defs]: "MIN_OUTSIDE_MTU = 68"
definition MAX_OUTSIDE_MTU :: usize where [const_defs]: "MAX_OUTSIDE_MTU = 1500"
definition DEFAULT_EXPRESSLANE_KEYS_ROTATION_INTERVAL :: duration where
  [const_defs]: "DEFAULT_EXPRESSLANE_KEYS_ROTATION_INTERVAL = millis (15 * 60 * 1000)"

definition SERVER_CURVE_BASE_GROUPS :: "curve_group list" where
  "SERVER_CURVE_BASE_GROUPS = [EccSecp256R1, EccX25519]"

definition SERVER_CURVE_PQC_GROUPS :: "curve_group list" where
  "SERVER_CURVE_PQC_GROUPS = [X25519MLKEM768, EccSecp256R1, EccX25519]"

datatype context_builder_error =
    CbFailedNew nat
  | CbTls tls_setup_error
  | CbPluginFactory dyn_error
  | CbInvalidParameter version_range_error

text \<open>The question mark on the builder of the TLS context.\<close>

definition tls_step :: "(tls_setup_error + 'a) \<Rightarrow> ('a \<Rightarrow> context_builder_error + 'b) \<Rightarrow> context_builder_error + 'b" where
  "tls_step r k = (case r of Inl e \<Rightarrow> Inl (CbTls e) | Inr a \<Rightarrow> k a)"

section \<open>The client context\<close>

record client_context_builder =
  ccb_tls_ctx :: context_builder
  ccb_connection_type :: connection_type
  ccb_inside_io :: "usize option"
  ccb_inside_plugins :: plugin_factories
  ccb_outside_plugins :: plugin_factories
  ccb_expresslane :: bool
  ccb_expresslane_cb :: bool
  ccb_expresslane_metrics :: bool
  ccb_expresslane_keys_rotation_interval :: duration

definition client_context_new ::
  "boring_ctx \<Rightarrow> connection_type \<Rightarrow> root_certificate \<Rightarrow> usize option \<Rightarrow> context_builder_error + client_context_builder" where
  "client_context_new X ct root_ca inside_io =
     (let protocol = (case ct of Stream \<Rightarrow> TlsClientV1_3 | Datagram \<Rightarrow> DtlsClientV1_3) in
      case context_builder_new X protocol of
        Inl e \<Rightarrow> Inl (CbFailedNew e)
      | Inr tls \<Rightarrow>
          tls_step (with_root_certificate X root_ca tls) (\<lambda>tls.
          tls_step (with_cipher_list X (as_cipher_list Aes256 ct) tls) (\<lambda>tls.
            Inr \<lparr>ccb_tls_ctx = tls, ccb_connection_type = ct, ccb_inside_io = inside_io, ccb_inside_plugins = [],
              ccb_outside_plugins = [], ccb_expresslane = False, ccb_expresslane_cb = False, ccb_expresslane_metrics = False,
              ccb_expresslane_keys_rotation_interval = DEFAULT_EXPRESSLANE_KEYS_ROTATION_INTERVAL\<rparr>)))"

text \<open>The methods that change a builder, one constructor each.\<close>

datatype client_context_option =
    CcInsidePlugins plugin_factories
  | CcOutsidePlugins plugin_factories
  | CcCipher cipher
  | CcExpresslane duration
  | CcExpresslaneCb
  | CcExpresslaneMetrics
  | CcEnablePqCrypto

fun client_context_with :: "boring_ctx \<Rightarrow> client_context_option \<Rightarrow> client_context_builder \<Rightarrow> context_builder_error + client_context_builder" where
  "client_context_with X (CcInsidePlugins fs) b = Inr (b\<lparr>ccb_inside_plugins := fs\<rparr>)"
| "client_context_with X (CcOutsidePlugins fs) b = Inr (b\<lparr>ccb_outside_plugins := fs\<rparr>)"
| "client_context_with X (CcCipher cipher) b =
     tls_step (with_cipher_list X (as_cipher_list cipher (ccb_connection_type b)) (ccb_tls_ctx b)) (\<lambda>tls.
       Inr (b\<lparr>ccb_tls_ctx := tls\<rparr>))"
| "client_context_with X (CcExpresslane interval) b =
     Inr (b\<lparr>ccb_expresslane := True, ccb_expresslane_keys_rotation_interval := interval\<rparr>)"
| "client_context_with X CcExpresslaneCb b = Inr (b\<lparr>ccb_expresslane_cb := True\<rparr>)"
| "client_context_with X CcExpresslaneMetrics b = Inr (b\<lparr>ccb_expresslane_metrics := True\<rparr>)"
| "client_context_with X CcEnablePqCrypto b =
     tls_step (with_groups X SERVER_CURVE_PQC_GROUPS (ccb_tls_ctx b)) (\<lambda>tls. Inr (b\<lparr>ccb_tls_ctx := tls\<rparr>))"

record client_context =
  cc_tls_ctx :: tls_context
  cc_connection_type :: connection_type
  cc_inside_io :: "usize option"
  cc_inside_plugins :: plugin_factories
  cc_outside_plugins :: plugin_factories
  cc_expresslane :: bool
  cc_expresslane_cb :: bool
  cc_expresslane_metrics :: bool
  cc_expresslane_keys_rotation_interval :: duration

definition client_context_build :: "client_context_builder \<Rightarrow> client_context" where
  "client_context_build b =
     \<lparr>cc_tls_ctx = context_build (ccb_tls_ctx b), cc_connection_type = ccb_connection_type b, cc_inside_io = ccb_inside_io b,
      cc_inside_plugins = ccb_inside_plugins b, cc_outside_plugins = ccb_outside_plugins b, cc_expresslane = ccb_expresslane b,
      cc_expresslane_cb = ccb_expresslane_cb b, cc_expresslane_metrics = ccb_expresslane_metrics b,
      cc_expresslane_keys_rotation_interval = ccb_expresslane_keys_rotation_interval b\<rparr>"

section \<open>The server context\<close>

record server_context_builder =
  scb_tls_ctx :: context_builder
  scb_connection_type :: connection_type
  scb_inside_io :: usize
  scb_supported_protocol_versions :: version_range
  scb_key_update_interval :: duration
  scb_inside_plugins :: plugin_factories
  scb_outside_plugins :: plugin_factories
  scb_expresslane :: bool
  scb_expresslane_cb :: bool
  scb_expresslane_metrics :: bool
  scb_expresslane_keys_rotation_interval :: duration

definition server_context_new ::
  "boring_ctx \<Rightarrow> connection_type \<Rightarrow> secret \<Rightarrow> secret \<Rightarrow> usize \<Rightarrow> context_builder_error + server_context_builder" where
  "server_context_new X ct server_cert server_key inside_io =
     (let protocol = (case ct of Stream \<Rightarrow> TlsServerV1_3 | Datagram \<Rightarrow> DtlsServerV1_3);
          cipher_list = (case ct of Stream \<Rightarrow> ''TLS13-AES256-GCM-SHA384:TLS13-CHACHA20-POLY1305-SHA256''
            | Datagram \<Rightarrow> ''TLS13-CHACHA20-POLY1305-SHA256:TLS13-AES256-GCM-SHA384'')
      in case context_builder_new X protocol of
           Inl e \<Rightarrow> Inl (CbFailedNew e)
         | Inr tls \<Rightarrow>
             tls_step (with_private_key X server_key tls) (\<lambda>tls.
             tls_step (with_certificate X server_cert tls) (\<lambda>tls.
             tls_step (with_groups X SERVER_CURVE_BASE_GROUPS tls) (\<lambda>tls.
             tls_step (with_cipher_list X cipher_list tls) (\<lambda>tls.
               Inr \<lparr>scb_tls_ctx = tls, scb_connection_type = ct, scb_inside_io = inside_io,
                 scb_supported_protocol_versions = version_range_all, scb_key_update_interval = 0, scb_inside_plugins = [],
                 scb_outside_plugins = [], scb_expresslane = False, scb_expresslane_cb = False, scb_expresslane_metrics = False,
                 scb_expresslane_keys_rotation_interval = DEFAULT_EXPRESSLANE_KEYS_ROTATION_INTERVAL\<rparr>)))))"

datatype server_context_option =
    ScInsidePlugins plugin_factories
  | ScOutsidePlugins plugin_factories
  | ScMinimumProtocolVersion version
  | ScMaximumProtocolVersion version
  | ScKeyUpdateInterval duration
  | ScExpresslane duration
  | ScExpresslaneCb
  | ScExpresslaneMetrics
  | ScEnablePqCrypto

fun server_context_with :: "boring_ctx \<Rightarrow> server_context_option \<Rightarrow> server_context_builder \<Rightarrow> context_builder_error + server_context_builder" where
  "server_context_with X (ScInsidePlugins fs) b = Inr (b\<lparr>scb_inside_plugins := fs\<rparr>)"
| "server_context_with X (ScOutsidePlugins fs) b = Inr (b\<lparr>scb_outside_plugins := fs\<rparr>)"
| "server_context_with X (ScMinimumProtocolVersion v) b =
     (case version_range_set_minimum (scb_supported_protocol_versions b) v of
        Inl e \<Rightarrow> Inl (CbInvalidParameter e)
      | Inr r \<Rightarrow> Inr (b\<lparr>scb_supported_protocol_versions := r\<rparr>))"
| "server_context_with X (ScMaximumProtocolVersion v) b =
     (case version_range_set_maximum (scb_supported_protocol_versions b) v of
        Inl e \<Rightarrow> Inl (CbInvalidParameter e)
      | Inr r \<Rightarrow> Inr (b\<lparr>scb_supported_protocol_versions := r\<rparr>))"
| "server_context_with X (ScKeyUpdateInterval interval) b = Inr (b\<lparr>scb_key_update_interval := interval\<rparr>)"
| "server_context_with X (ScExpresslane interval) b =
     Inr (b\<lparr>scb_expresslane := True, scb_expresslane_keys_rotation_interval := interval\<rparr>)"
| "server_context_with X ScExpresslaneCb b = Inr (b\<lparr>scb_expresslane_cb := True\<rparr>)"
| "server_context_with X ScExpresslaneMetrics b = Inr (b\<lparr>scb_expresslane_metrics := True\<rparr>)"
| "server_context_with X ScEnablePqCrypto b =
     tls_step (with_groups X SERVER_CURVE_PQC_GROUPS (scb_tls_ctx b)) (\<lambda>tls. Inr (b\<lparr>scb_tls_ctx := tls\<rparr>))"

record server_context =
  sc_tls_ctx :: tls_context
  sc_connection_type :: connection_type
  sc_inside_io :: usize
  sc_supported_protocol_versions :: version_range
  sc_key_update_interval :: duration
  sc_inside_plugins :: plugin_factories
  sc_outside_plugins :: plugin_factories
  sc_outside_plugins_instance :: plugin_list
  sc_expresslane :: bool
  sc_expresslane_cb :: bool
  sc_expresslane_metrics :: bool
  sc_expresslane_keys_rotation_interval :: duration

text \<open>\<open>None\<close> is the failed \<open>debug_assert!\<close>.\<close>

definition server_context_build :: "server_context_builder \<Rightarrow> (context_builder_error + server_context) option" where
  "server_context_build b =
     (if \<not> version_range_valid (scb_supported_protocol_versions b) then None
      else case plugin_factory_list_build (scb_outside_plugins b) of
          Inl e \<Rightarrow> Some (Inl (CbPluginFactory e))
        | Inr plugins \<Rightarrow>
            Some (Inr \<lparr>sc_tls_ctx = context_build (scb_tls_ctx b), sc_connection_type = scb_connection_type b,
              sc_inside_io = scb_inside_io b, sc_supported_protocol_versions = scb_supported_protocol_versions b,
              sc_key_update_interval = scb_key_update_interval b, sc_inside_plugins = scb_inside_plugins b,
              sc_outside_plugins = scb_outside_plugins b, sc_outside_plugins_instance = plugins,
              sc_expresslane = scb_expresslane b, sc_expresslane_cb = scb_expresslane_cb b,
              sc_expresslane_metrics = scb_expresslane_metrics b,
              sc_expresslane_keys_rotation_interval = scb_expresslane_keys_rotation_interval b\<rparr>))"

definition is_supported_version :: "server_context \<Rightarrow> version \<Rightarrow> bool" where
  "is_supported_version ctx v \<longleftrightarrow> version_range_contains (sc_supported_protocol_versions ctx) v"

definition is_latest_version :: "server_context \<Rightarrow> version \<Rightarrow> bool" where
  "is_latest_version ctx v \<longleftrightarrow> version_range_maximum (sc_supported_protocol_versions ctx) = v"

definition parse_raw_outside_packet :: "server_context \<Rightarrow> outside_packet \<Rightarrow> (outside_packet_error + outside_packet) option" where
  "parse_raw_outside_packet ctx pkt = apply_ingress_chain (sc_outside_plugins_instance ctx) pkt"

section \<open>The connection builders\<close>

datatype connection_builder_error =
    AuthRequired
  | UnsupportedProtocolVersion version
  | UnsupportedOutsideMtu usize
  | FailedNewSession tls_setup_error
  | PluginFactoryFailed dyn_error
  | FailedConnect connection_error

definition tls_io_adapter :: "connection_type \<Rightarrow> version \<Rightarrow> bool \<Rightarrow> usize \<Rightarrow> session_id \<Rightarrow> plugin_list \<Rightarrow> io_adapter" where
  "tls_io_adapter ct v aggressive_send outside_mtu session_id plugins =
     \<lparr>io_connection_type = ct, io_protocol_version = v, io_outside_mtu = outside_mtu, io_aggressive_send = aggressive_send,
      io_recv_buf = [], io_send_buf = sb_new outside_mtu, io_gso_buf = gso_buffer_default, io_sock = [],
      io_session_id = session_id, io_outside_plugins = plugins\<rparr>"

text \<open>\<open>SessionConfig::new(io).when(is_datagram, ..)\<close>; the subtraction may underflow, the cast truncates.\<close>

definition connection_session_config :: "connection_type \<Rightarrow> usize \<Rightarrow> io_adapter \<Rightarrow> session_config option" where
  "connection_session_config ct outside_mtu io =
     (if is_datagram ct then
        (case max_dtls_outside_mtu outside_mtu of
           None \<Rightarrow> None
         | Some n \<Rightarrow> Some (with_dtls_mtu (word_of_int (int n)) (session_config_new io)))
      else Some (session_config_new io))"

record client_connection_builder =
  cnb_connection_type :: connection_type
  cnb_ctx :: client_context
  cnb_outside_mtu :: usize
  cnb_pmtud_base_mtu :: "u16 option"
  cnb_auth_method :: "auth_method option"
  cnb_session_config :: session_config
  cnb_event_cb :: bool
  cnb_max_fragment_map_entries :: usize
  cnb_pmtud_timer :: bool
  cnb_outside_plugins :: plugin_list
  cnb_inside_pkt_codec :: bool

text \<open>\<open>ClientContext::start_connect\<close> and \<open>ClientConnectionBuilder::new\<close>.\<close>

definition start_connect :: "client_context \<Rightarrow> usize \<Rightarrow> (connection_builder_error + client_connection_builder) option" where
  "start_connect ctx outside_mtu =
     (if \<not> (MIN_OUTSIDE_MTU \<le> outside_mtu \<and> outside_mtu \<le> MAX_OUTSIDE_MTU) then Some (Inl (UnsupportedOutsideMtu outside_mtu))
      else case plugin_factory_list_build (cc_outside_plugins ctx) of
          Inl e \<Rightarrow> Some (Inl (PluginFactoryFailed e))
        | Inr plugins \<Rightarrow>
            (let ct = cc_connection_type ctx;
                 io = tls_io_adapter ct version_MAXIMUM (is_datagram ct) outside_mtu SESSION_EMPTY plugins
             in case connection_session_config ct outside_mtu io of
                  None \<Rightarrow> None
                | Some config \<Rightarrow>
                    Some (Inr \<lparr>cnb_connection_type = ct, cnb_ctx = ctx, cnb_outside_mtu = outside_mtu, cnb_pmtud_base_mtu = None,
                      cnb_auth_method = None, cnb_session_config = config, cnb_event_cb = False,
                      cnb_max_fragment_map_entries = FRAGMENT_MAP_DEFAULT_MAX_ENTRIES, cnb_pmtud_timer = False,
                      cnb_outside_plugins = plugins, cnb_inside_pkt_codec = False\<rparr>)))"

datatype client_option =
    WithAuth auth_method
  | WithAuthUserPassword bytes bytes
  | WithAuthToken bytes
  | WithAuthVersionedToken bytes version
  | WithAuthCbData bytes
  | WithEventCb
  | WithServerDomainNameValidation string
  | WithPqCrypto key_share
  | WithSniHeader string
  | WithFragmentMapEntries u16
  | WithPmtudTimer
  | WithInsidePktCodec bool
  | WithPmtudBaseMtu u16

fun client_builder_with :: "client_option \<Rightarrow> client_connection_builder \<Rightarrow> client_connection_builder" where
  "client_builder_with (WithAuth am) b = b\<lparr>cnb_auth_method := Some am\<rparr>"
| "client_builder_with (WithAuthUserPassword user password) b = b\<lparr>cnb_auth_method := Some (UserPass user password)\<rparr>"
| "client_builder_with (WithAuthToken token) b = b\<lparr>cnb_auth_method := Some (VersionedToken version_MAXIMUM token)\<rparr>"
| "client_builder_with (WithAuthVersionedToken token v) b = b\<lparr>cnb_auth_method := Some (VersionedToken v token)\<rparr>"
| "client_builder_with (WithAuthCbData data) b = b\<lparr>cnb_auth_method := Some (CustomCallback data)\<rparr>"
| "client_builder_with WithEventCb b = b\<lparr>cnb_event_cb := True\<rparr>"
| "client_builder_with (WithServerDomainNameValidation dn) b =
     b\<lparr>cnb_session_config := with_checked_domain_name dn (cnb_session_config b)\<rparr>"
| "client_builder_with (WithPqCrypto keyshare) b =
     b\<lparr>cnb_session_config := with_keyshare_group (as_curve_group keyshare) (cnb_session_config b)\<rparr>"
| "client_builder_with (WithSniHeader hostname) b = b\<lparr>cnb_session_config := with_sni hostname (cnb_session_config b)\<rparr>"
| "client_builder_with (WithFragmentMapEntries n) b = b\<lparr>cnb_max_fragment_map_entries := unat n\<rparr>"
| "client_builder_with WithPmtudTimer b = b\<lparr>cnb_pmtud_timer := True\<rparr>"
| "client_builder_with (WithInsidePktCodec codec) b = b\<lparr>cnb_inside_pkt_codec := codec\<rparr>"
| "client_builder_with (WithPmtudBaseMtu mtu) b = b\<lparr>cnb_pmtud_base_mtu := Some mtu\<rparr>"

text \<open>\<open>Connection::new\<close> under the question mark.\<close>

definition build_connection :: "('s, 'k, 'm) conn_env \<Rightarrow> ('s, 'm) new_connection_args \<Rightarrow> (connection_builder_error + ('s, 'k, 'm) conn) option" where
  "build_connection E args =
     (case conn_new E args of
        Ret _ c \<Rightarrow> Some (Inr c)
      | Err e _ \<Rightarrow> Some (Inl (FailedConnect e))
      | _ \<Rightarrow> None)"

definition client_args ::
  "client_connection_builder \<Rightarrow> auth_method \<Rightarrow> 's \<Rightarrow> io_adapter \<Rightarrow> plugin_list \<Rightarrow> ('s, 'm) new_connection_args" where
  "client_args b am session io inside_plugins =
     \<lparr>na_connection_type = cnb_connection_type b, na_protocol_version = version_MAXIMUM, na_session = session, na_io = io,
      na_session_id = SESSION_EMPTY, na_mode = ClientMode am, na_outside_mtu = cnb_outside_mtu b,
      na_inside_io = cc_inside_io (cnb_ctx b), na_event_cb = cnb_event_cb b, na_inside_plugins = inside_plugins,
      na_outside_plugins = cnb_outside_plugins b, na_max_fragment_map_entries = cnb_max_fragment_map_entries b,
      na_pmtud_timer = cnb_pmtud_timer b, na_pmtud_base_mtu = map_option unat (cnb_pmtud_base_mtu b),
      na_inside_pkt_codec = cnb_inside_pkt_codec b, na_expresslane = cc_expresslane (cnb_ctx b),
      na_expresslane_cb = cc_expresslane_cb (cnb_ctx b), na_expresslane_metrics = cc_expresslane_metrics (cnb_ctx b),
      na_expresslane_keys_rotation_interval = cc_expresslane_keys_rotation_interval (cnb_ctx b)\<rparr>"

definition client_connect ::
  "(ssl_ctx \<Rightarrow> 'b ssl_setup) \<Rightarrow> ('b boring_session, 'k, 'm) conn_env \<Rightarrow> client_connection_builder
    \<Rightarrow> (connection_builder_error + ('b boring_session, 'k, 'm) conn) option" where
  "client_connect U E b =
     (case cnb_auth_method b of
        None \<Rightarrow> Some (Inl AuthRequired)
      | Some am \<Rightarrow>
          (case new_session U (cc_tls_ctx (cnb_ctx b)) (cnb_session_config b) of
             Inl e \<Rightarrow> Some (Inl (FailedNewSession e))
           | Inr (session, io) \<Rightarrow>
               (case plugin_factory_list_build (cc_inside_plugins (cnb_ctx b)) of
                  Inl e \<Rightarrow> Some (Inl (PluginFactoryFailed e))
                | Inr plugins \<Rightarrow> build_connection E (client_args b am session io plugins))))"

record server_connection_builder =
  snb_connection_type :: connection_type
  snb_protocol_version :: version
  snb_ctx :: server_context
  snb_session_config :: session_config
  snb_session_id :: session_id
  snb_event_cb :: bool
  snb_max_fragment_map_entries :: usize
  snb_outside_plugins :: plugin_list
  snb_inside_pkt_codec :: bool

text \<open>The loop that samples a session id, on the values the generator draws; \<open>None\<close>: it needs more.\<close>

fun sample_draws :: "session_id list \<Rightarrow> session_id option" where
  "sample_draws [] = None"
| "sample_draws (candidate # ds) = (if session_is_reserved candidate then sample_draws ds else Some candidate)"

definition start_accept ::
  "server_context \<Rightarrow> version \<Rightarrow> session_id list \<Rightarrow> (connection_builder_error + server_connection_builder) option" where
  "start_accept ctx v draws =
     (case sample_draws draws of
        None \<Rightarrow> None
      | Some session_id \<Rightarrow>
          (case plugin_factory_list_build (sc_outside_plugins ctx) of
             Inl e \<Rightarrow> Some (Inl (PluginFactoryFailed e))
           | Inr plugins \<Rightarrow>
               (let ct = sc_connection_type ctx;
                    io = tls_io_adapter ct v False MAX_OUTSIDE_MTU session_id plugins
                in case connection_session_config ct MAX_OUTSIDE_MTU io of
                     None \<Rightarrow> None
                   | Some config \<Rightarrow>
                       Some (Inr \<lparr>snb_connection_type = ct, snb_protocol_version = v, snb_ctx = ctx, snb_session_config = config,
                         snb_session_id = session_id, snb_event_cb = False,
                         snb_max_fragment_map_entries = FRAGMENT_MAP_DEFAULT_MAX_ENTRIES,
                         snb_outside_plugins = plugins, snb_inside_pkt_codec = False\<rparr>))))"

datatype server_option = WithServerEventCb | WithServerFragmentMapEntries u16 | WithServerInsidePktCodec bool

fun server_builder_with :: "server_option \<Rightarrow> server_connection_builder \<Rightarrow> server_connection_builder" where
  "server_builder_with WithServerEventCb b = b\<lparr>snb_event_cb := True\<rparr>"
| "server_builder_with (WithServerFragmentMapEntries n) b = b\<lparr>snb_max_fragment_map_entries := unat n\<rparr>"
| "server_builder_with (WithServerInsidePktCodec codec) b = b\<lparr>snb_inside_pkt_codec := codec\<rparr>"

definition server_args :: "server_connection_builder \<Rightarrow> 's \<Rightarrow> io_adapter \<Rightarrow> plugin_list \<Rightarrow> ('s, 'm) new_connection_args" where
  "server_args b session io inside_plugins =
     \<lparr>na_connection_type = snb_connection_type b, na_protocol_version = snb_protocol_version b, na_session = session, na_io = io,
      na_session_id = snb_session_id b,
      na_mode = ServerMode \<lparr>sm_auth_handle = None, sm_key_update = ku_new (sc_key_update_interval (snb_ctx b)),
        sm_pending_session_id = None\<rparr>,
      na_outside_mtu = MAX_OUTSIDE_MTU, na_inside_io = Some (sc_inside_io (snb_ctx b)), na_event_cb = snb_event_cb b,
      na_inside_plugins = inside_plugins, na_outside_plugins = snb_outside_plugins b,
      na_max_fragment_map_entries = snb_max_fragment_map_entries b, na_pmtud_timer = False, na_pmtud_base_mtu = None,
      na_inside_pkt_codec = snb_inside_pkt_codec b, na_expresslane = sc_expresslane (snb_ctx b),
      na_expresslane_cb = sc_expresslane_cb (snb_ctx b), na_expresslane_metrics = sc_expresslane_metrics (snb_ctx b),
      na_expresslane_keys_rotation_interval = sc_expresslane_keys_rotation_interval (snb_ctx b)\<rparr>"

definition server_accept ::
  "(ssl_ctx \<Rightarrow> 'b ssl_setup) \<Rightarrow> ('b boring_session, 'k, 'm) conn_env \<Rightarrow> server_connection_builder
    \<Rightarrow> (connection_builder_error + ('b boring_session, 'k, 'm) conn) option" where
  "server_accept U E b =
     (if \<not> is_supported_version (snb_ctx b) (snb_protocol_version b)
      then Some (Inl (UnsupportedProtocolVersion (snb_protocol_version b)))
      else case new_session U (sc_tls_ctx (snb_ctx b)) (snb_session_config b) of
          Inl e \<Rightarrow> Some (Inl (FailedNewSession e))
        | Inr (session, io) \<Rightarrow>
            (case plugin_factory_list_build (sc_inside_plugins (snb_ctx b)) of
               Inl e \<Rightarrow> Some (Inl (PluginFactoryFailed e))
             | Inr plugins \<Rightarrow> build_connection E (server_args b session io plugins)))"

section \<open>What is built\<close>

lemma tls_step_Inr: "tls_step r k = Inr y \<longleftrightarrow> (\<exists>a. r = Inr a \<and> k a = Inr y)"
  by (cases r) (auto simp: tls_step_def)

lemma max_dtls_outside_mtu_eq: "44 \<le> n \<Longrightarrow> max_dtls_outside_mtu n = Some (n - 44)"
  by (simp add: max_dtls_outside_mtu_def const_defs)

text \<open>Every MTU the builder takes leaves room for the headers, and the MTU of the session is not truncated.\<close>

lemma connection_session_config_eq:
  assumes "MIN_OUTSIDE_MTU \<le> mtu"
  shows "connection_session_config ct mtu io =
    Some (if is_datagram ct then with_dtls_mtu (word_of_int (int (mtu - 44))) (session_config_new io) else session_config_new io)"
  using assms by (simp add: connection_session_config_def max_dtls_outside_mtu_eq const_defs)

lemma start_connect_total: "start_connect ctx mtu \<noteq> None"
  by (auto simp: start_connect_def connection_session_config_eq Let_def split: sum.split)

lemma start_connect_Inr:
  assumes "start_connect ctx mtu = Some (Inr b)"
  shows "MIN_OUTSIDE_MTU \<le> mtu \<and> mtu \<le> MAX_OUTSIDE_MTU \<and> cnb_ctx b = ctx \<and> cnb_outside_mtu b = mtu
    \<and> cnb_connection_type b = cc_connection_type ctx
    \<and> (let c = cnb_session_config b in sc_ssl_verify_mode c = None \<and> sc_checked_domain_name c = None
        \<and> io_outside_mtu (sc_io c) = mtu \<and> io_session_id (sc_io c) = SESSION_EMPTY
        \<and> sc_dtls_mtu c = (if is_datagram (cc_connection_type ctx) then Some (word_of_int (int (mtu - 44))) else None))"
  using assms
  by (auto simp: start_connect_def connection_session_config_eq Let_def session_config_defs tls_io_adapter_def split: sum.splits if_splits)

text \<open>The domain name the last request for validation named.\<close>

fun checked_domain :: "client_option list \<Rightarrow> string option" where
  "checked_domain [] = None"
| "checked_domain (WithServerDomainNameValidation dn # os) = (case checked_domain os of None \<Rightarrow> Some dn | Some d \<Rightarrow> Some d)"
| "checked_domain (_ # os) = checked_domain os"

lemma client_builder_with_keeps:
  "cnb_ctx (client_builder_with w b) = cnb_ctx b \<and> cnb_outside_mtu (client_builder_with w b) = cnb_outside_mtu b
    \<and> cnb_connection_type (client_builder_with w b) = cnb_connection_type b
    \<and> sc_io (cnb_session_config (client_builder_with w b)) = sc_io (cnb_session_config b)
    \<and> sc_dtls_mtu (cnb_session_config (client_builder_with w b)) = sc_dtls_mtu (cnb_session_config b)
    \<and> sc_ssl_verify_mode (cnb_session_config (client_builder_with w b)) = sc_ssl_verify_mode (cnb_session_config b)"
  by (cases w) (simp_all add: session_config_defs)

lemma client_options_keep:
  "cnb_ctx (fold client_builder_with ws b) = cnb_ctx b \<and> cnb_outside_mtu (fold client_builder_with ws b) = cnb_outside_mtu b
    \<and> cnb_connection_type (fold client_builder_with ws b) = cnb_connection_type b
    \<and> sc_io (cnb_session_config (fold client_builder_with ws b)) = sc_io (cnb_session_config b)
    \<and> sc_dtls_mtu (cnb_session_config (fold client_builder_with ws b)) = sc_dtls_mtu (cnb_session_config b)
    \<and> sc_ssl_verify_mode (cnb_session_config (fold client_builder_with ws b)) = sc_ssl_verify_mode (cnb_session_config b)"
  by (induction ws arbitrary: b) (simp_all add: client_builder_with_keeps)

lemma client_options_domain:
  "sc_checked_domain_name (cnb_session_config (fold client_builder_with ws b)) =
    (case checked_domain ws of None \<Rightarrow> sc_checked_domain_name (cnb_session_config b) | Some d \<Rightarrow> Some d)"
proof (induction ws arbitrary: b)
  case (Cons w ws)
  then show ?case by (cases w) (auto simp: session_config_defs split: option.split)
qed simp

lemma build_connection_reachable: "build_connection E args = Some (Inr c) \<Longrightarrow> conn_reachable E args c"
  by (auto simp: build_connection_def conn_reachable_def intro: conn_runs.none split: exec.splits)

lemma client_connect_Inr:
  assumes "client_connect U E b = Some (Inr c)"
  obtains am session io plugins where "cnb_auth_method b = Some am" "new_session U (cc_tls_ctx (cnb_ctx b)) (cnb_session_config b) = Inr (session, io)"
    "conn_reachable E (client_args b am session io plugins) c"
  using assms that by (auto simp: client_connect_def dest!: build_connection_reachable split: option.splits sum.splits)

lemma server_accept_Inr:
  assumes "server_accept U E b = Some (Inr c)"
  obtains session io plugins where "is_supported_version (snb_ctx b) (snb_protocol_version b)"
    "new_session U (sc_tls_ctx (snb_ctx b)) (snb_session_config b) = Inr (session, io)"
    "conn_reachable E (server_args b session io plugins) c"
  using assms that by (auto simp: server_accept_def dest!: build_connection_reachable split: sum.splits if_splits)

section \<open>Clients verify their server\<close>

fun client_context_configure :: "boring_ctx \<Rightarrow> client_context_option list \<Rightarrow> client_context_builder \<Rightarrow> context_builder_error + client_context_builder" where
  "client_context_configure X [] b = Inr b"
| "client_context_configure X (opt # os) b =
     (case client_context_with X opt b of Inl e \<Rightarrow> Inl e | Inr b' \<Rightarrow> client_context_configure X os b')"

definition keeps_trust :: "context_builder \<Rightarrow> context_builder \<Rightarrow> bool" where
  "keeps_trust b b' \<longleftrightarrow> cb_method b' = cb_method b
    \<and> (\<exists>cs. cb_ctx b' = cb_ctx b @ cs \<and> (\<forall>c\<in>set cs. \<exists>g. c = CtxSetGroupIds g))"

lemma client_context_with_tls:
  assumes "client_context_with X opt b = Inr b'" and "method_is_v1_3 (cb_method (ccb_tls_ctx b))"
  shows "ccb_connection_type b' = ccb_connection_type b \<and> keeps_trust (ccb_tls_ctx b) (ccb_tls_ctx b')"
  using assms by (cases opt) (auto simp: tls_step_Inr cipher_list_ignored with_groups_def cb_apply_Inr keeps_trust_def split: if_splits)

lemma client_context_configure_tls:
  assumes "client_context_configure X os b = Inr b'" and "method_is_v1_3 (cb_method (ccb_tls_ctx b))"
  shows "ccb_connection_type b' = ccb_connection_type b \<and> keeps_trust (ccb_tls_ctx b) (ccb_tls_ctx b')"
  using assms
proof (induction os arbitrary: b)
  case (Cons opt os)
  then obtain b1 where b1: "client_context_with X opt b = Inr b1" "client_context_configure X os b1 = Inr b'"
    by (auto split: sum.splits)
  note one = client_context_with_tls [OF b1(1) Cons.prems(2)]
  then have "method_is_v1_3 (cb_method (ccb_tls_ctx b1))" using Cons.prems(2) by (simp add: keeps_trust_def)
  from Cons.IH [OF b1(2) this] one show ?case unfolding keeps_trust_def by force
qed (simp add: keeps_trust_def)

definition client_method :: "connection_type \<Rightarrow> tls_method" where
  "client_method ct = (case ct of Stream \<Rightarrow> TlsClientV1_3 | Datagram \<Rightarrow> DtlsClientV1_3)"

definition client_version :: "connection_type \<Rightarrow> protocol_version" where
  "client_version ct = (case ct of Stream \<Rightarrow> TlsV1_3 | Datagram \<Rightarrow> DtlsV1_3)"

lemma client_method_simps [simp]:
  "method_is_v1_3 (client_method ct)" "method_is_client (client_method ct)" "method_version (client_method ct) = client_version ct"
  by (cases ct; simp add: client_method_def client_version_def method_is_client_def)+

lemma client_context_new_tls:
  assumes "client_context_new X ct root_ca inside_io = Inr b"
  shows "\<exists>certs. root_certs X root_ca = Inr certs \<and> ccb_connection_type b = ct \<and> cb_method (ccb_tls_ctx b) = client_method ct
    \<and> cb_ctx (ccb_tls_ctx b) = [CtxSetVerify SslVerifyPeer, CtxSetMinProtoVersion (client_version ct),
         CtxSetMaxProtoVersion (client_version ct), CtxSetVerifyCertStore certs]"
proof -
  obtain t0 t1 where t: "context_builder_new X (client_method ct) = Inr t0" "with_root_certificate X root_ca t0 = Inr t1"
    "with_cipher_list X (as_cipher_list Aes256 ct) t1 = Inr (ccb_tls_ctx b)" "ccb_connection_type b = ct"
    using assms by (auto simp: client_context_new_def client_method_def [symmetric] Let_def tls_step_Inr split: sum.splits)
  note new = context_builder_new_ctx [OF t(1)]
  obtain certs where certs: "root_certs X root_ca = Inr certs" "cb_ctx t1 = cb_ctx t0 @ [CtxSetVerifyCertStore certs]"
    using with_root_certificate_store [OF t(2)] by blast
  have "cb_method t1 = client_method ct" using with_grows(1) [OF t(2)] new by (simp add: ctx_grows_def)
  then have "ccb_tls_ctx b = t1" using t(3) cipher_list_ignored [of t1] by simp
  then show ?thesis using new certs t(4) \<open>cb_method t1 = client_method ct\<close> by simp
qed

lemma built_client_session:
  fixes c :: "('b boring_session, 'k, 'm) conn"
  assumes "client_context_new X ct root_ca inside_io = Inr cb" and "client_context_configure X os cb = Inr cb'"
    and "start_connect (client_context_build cb') mtu = Some (Inr b)"
    and "client_connect U E (fold client_builder_with ws b) = Some (Inr c)"
  shows "\<exists>calls certs config session am plugins.
    cnb_auth_method (fold client_builder_with ws b) = Some am
    \<and> session_new (U ([CtxSetVerify SslVerifyPeer, CtxSetMinProtoVersion (client_version ct), CtxSetMaxProtoVersion (client_version ct),
        CtxSetVerifyCertStore certs] @ calls)) (client_method ct) config = Inr (session, sc_io config)
    \<and> (\<forall>call\<in>set calls. \<exists>g. call = CtxSetGroupIds g) \<and> root_certs X root_ca = Inr certs
    \<and> sc_ssl_verify_mode config = None \<and> sc_checked_domain_name config = checked_domain ws
    \<and> conn_reachable E (client_args (fold client_builder_with ws b) am session (sc_io config) plugins) c"
proof -
  let ?b = "fold client_builder_with ws b"
  obtain certs where new: "root_certs X root_ca = Inr certs" "cb_method (ccb_tls_ctx cb) = client_method ct"
    "cb_ctx (ccb_tls_ctx cb) = [CtxSetVerify SslVerifyPeer, CtxSetMinProtoVersion (client_version ct),
         CtxSetMaxProtoVersion (client_version ct), CtxSetVerifyCertStore certs]"
    using client_context_new_tls [OF assms(1)] by blast
  obtain calls where tls: "cb_method (ccb_tls_ctx cb') = client_method ct" "cb_ctx (ccb_tls_ctx cb') = cb_ctx (ccb_tls_ctx cb) @ calls"
    "\<forall>call\<in>set calls. \<exists>g. call = CtxSetGroupIds g"
    using client_context_configure_tls [OF assms(2)] new(2) unfolding keeps_trust_def by auto
  obtain am session io plugins where am: "cnb_auth_method ?b = Some am" and con: "new_session U (cc_tls_ctx (cnb_ctx ?b)) (cnb_session_config ?b) = Inr (session, io)"
    "conn_reachable E (client_args ?b am session io plugins) c"
    using assms(4) by (rule client_connect_Inr)
  have "cc_tls_ctx (cnb_ctx ?b) = context_build (ccb_tls_ctx cb')"
    using start_connect_Inr [OF assms(3)] client_options_keep [of ws b] by (simp add: client_context_build_def)
  then have run: "session_new (U (cb_ctx (ccb_tls_ctx cb) @ calls)) (client_method ct) (cnb_session_config ?b) = Inr (session, io)"
    using con(1) tls(1,2) by (simp add: new_session_def context_build_def)
  moreover have "io = sc_io (cnb_session_config ?b)" using session_new_start [OF run] by simp
  moreover have "sc_ssl_verify_mode (cnb_session_config ?b) = None" "sc_checked_domain_name (cnb_session_config ?b) = checked_domain ws"
    using start_connect_Inr [OF assms(3)] client_options_keep [of ws b] client_options_domain [of ws b]
    by (auto simp: Let_def split: option.split)
  ultimately show ?thesis using new(1,3) tls(3) con(2) am
    by (intro exI [of _ calls] exI [of _ certs] exI [of _ "cnb_session_config ?b"] exI [of _ session] exI [of _ am] exI [of _ plugins]) simp
qed


section \<open>Servers accept supported versions\<close>

fun server_context_configure :: "boring_ctx \<Rightarrow> server_context_option list \<Rightarrow> server_context_builder \<Rightarrow> context_builder_error + server_context_builder" where
  "server_context_configure X [] b = Inr b"
| "server_context_configure X (opt # os) b =
     (case server_context_with X opt b of Inl e \<Rightarrow> Inl e | Inr b' \<Rightarrow> server_context_configure X os b')"

lemma server_context_with_versions:
  "version_range_ok (scb_supported_protocol_versions b) \<Longrightarrow> server_context_with X opt b = Inr b'
    \<Longrightarrow> version_range_ok (scb_supported_protocol_versions b')"
  by (cases opt) (auto simp: tls_step_Inr split: sum.splits dest: version_range_ok_set_minimum version_range_ok_set_maximum)

lemma server_context_configure_versions:
  "version_range_ok (scb_supported_protocol_versions b) \<Longrightarrow> server_context_configure X os b = Inr b'
    \<Longrightarrow> version_range_ok (scb_supported_protocol_versions b')"
  by (induction os arbitrary: b) (auto split: sum.splits dest: server_context_with_versions)

lemma server_context_new_versions:
  "server_context_new X ct cert key inside_io = Inr b \<Longrightarrow> scb_supported_protocol_versions b = version_range_all"
  by (auto simp: server_context_new_def Let_def tls_step_Inr split: sum.splits)

text \<open>The \<open>debug_assert!\<close> of \<open>build\<close> holds.\<close>

lemma server_context_build_total:
  "version_range_ok (scb_supported_protocol_versions b) \<Longrightarrow> server_context_build b \<noteq> None"
  by (auto simp: server_context_build_def version_range_valid_def version_range_ok_def split: sum.split)

lemma sample_draws_Some: "sample_draws ds = Some sid \<Longrightarrow> sid \<in> set ds \<and> \<not> session_is_reserved sid"
  by (induction ds) (auto split: if_splits)

lemma start_accept_Inr:
  assumes "start_accept ctx v draws = Some (Inr b)"
  shows "snb_ctx b = ctx \<and> snb_protocol_version b = v \<and> snb_connection_type b = sc_connection_type ctx
    \<and> \<not> session_is_reserved (snb_session_id b) \<and> io_session_id (sc_io (snb_session_config b)) = snb_session_id b"
  using assms
  by (auto simp: start_accept_def connection_session_config_def Let_def session_config_defs tls_io_adapter_def
      dest: sample_draws_Some split: option.splits sum.splits if_splits)

lemma server_options_keep:
  "snb_ctx (fold server_builder_with ws b) = snb_ctx b \<and> snb_protocol_version (fold server_builder_with ws b) = snb_protocol_version b
    \<and> snb_session_id (fold server_builder_with ws b) = snb_session_id b
    \<and> snb_session_config (fold server_builder_with ws b) = snb_session_config b"
proof (induction ws arbitrary: b)
  case (Cons w ws)
  then show ?case by (cases w) simp_all
qed simp

text \<open>
  An accepted connection has a protocol version between the bounds the server was given, which are
  versions the library knows, and a session id that is not reserved.
\<close>

lemma accepted_connection_supported:
  assumes "server_context_new X ct cert key inside_io = Inr sb" and "server_context_configure X os sb = Inr sb'"
    and "server_context_build sb' = Some (Inr ctx)" and "start_accept ctx v draws = Some (Inr b)"
    and "server_accept U E (fold server_builder_with ws b) = Some (Inr c)"
  shows "\<exists>session io plugins.
    conn_reachable E (server_args (fold server_builder_with ws b) session io plugins) c
    \<and> io_session_id io = snb_session_id b \<and> \<not> session_is_reserved (snb_session_id b)
    \<and> version_range_contains (scb_supported_protocol_versions sb') v \<and> version_try_new (major v) (minor v) = Some v"
proof -
  let ?b = "fold server_builder_with ws b"
  obtain session io plugins where acc: "is_supported_version (snb_ctx ?b) (snb_protocol_version ?b)"
    "new_session U (sc_tls_ctx (snb_ctx ?b)) (snb_session_config ?b) = Inr (session, io)"
    "conn_reachable E (server_args ?b session io plugins) c"
    using assms(5) by (rule server_accept_Inr)
  have "io = sc_io (snb_session_config ?b)" using acc(2) unfolding new_session_def by (blast dest: session_new_start)
  then have io: "io_session_id io = snb_session_id b \<and> \<not> session_is_reserved (snb_session_id b)"
    using start_accept_Inr [OF assms(4)] server_options_keep [of ws b] by simp
  have "version_range_contains (sc_supported_protocol_versions ctx) v"
    using acc(1) start_accept_Inr [OF assms(4)] server_options_keep [of ws b] by (simp add: is_supported_version_def)
  then have v: "version_range_contains (scb_supported_protocol_versions sb') v"
    using assms(3) by (auto simp: server_context_build_def split: sum.splits if_splits)
  moreover have "version_range_ok (scb_supported_protocol_versions sb')"
    using server_context_configure_versions [OF _ assms(2)] server_context_new_versions [OF assms(1)] version_range_ok_all by simp
  ultimately have "version_MINIMUM \<le> v \<and> v \<le> version_MAXIMUM"
    unfolding version_range_ok_def version_range_contains_def by (meson order.trans)
  then have "version_try_new (major v) (minor v) = Some v" by (simp add: version_try_new_Some)
  with acc(3) io v show ?thesis by blast
qed

section \<open>Small path MTUs\<close>

text \<open>
  A client with path MTU discovery whose outside MTU leaves room for the default base size has a
  search that is safe by the properties of \<open>Dplpmtud\<close>. The builder takes smaller values too: below 81
  bytes the computation of the maximum underflows, and up to 1330 the base exceeds the maximum.
\<close>

lemma max_dtls_mtu_eq: "max_dtls_mtu n = (if n < 81 then None else Some (n - 81))"
  by (auto simp: max_dtls_mtu_def max_dtls_outside_mtu_def const_defs)

lemma pmtud_of_client:
  assumes "start_connect ctx mtu = Some (Inr b)" and "1331 \<le> mtu"
  shows "\<exists>n. max_dtls_mtu mtu = Some n \<and> dp_config_ok BASE_PLPMTU (n mod 65536)"
  using start_connect_Inr [OF assms(1)] assms(2) by (auto simp: max_dtls_mtu_eq dp_config_ok_def const_defs)

lemma small_mtu_panics:
  assumes "cnb_connection_type b = Datagram" and "cnb_pmtud_timer b" and "cnb_outside_mtu b < 81"
  shows "build_connection E (client_args b am session io plugins) = None"
  using assms by (simp add: build_connection_def conn_new_def client_args_def max_dtls_mtu_eq)

lemma small_mtu_base_above_maximum:
  assumes "81 \<le> mtu" "mtu < 1331"
  shows "\<exists>n. max_dtls_mtu mtu = Some n \<and> n mod 65536 < BASE_PLPMTU"
  using assms by (auto simp: max_dtls_mtu_eq const_defs)

section \<open>A concrete client\<close>

definition ex_boring_ctx :: boring_ctx where
  "ex_boring_ctx = \<lparr>bc_new_fails = (\<lambda>_. None), bc_fails = (\<lambda>_ _. None), bc_store_fails = None, bc_add_cert_fails = (\<lambda>_ _. None),
     bc_x509_from_der = Inr, bc_x509_from_pem = Inr, bc_x509_stack_from_pem = (\<lambda>b. Inr [b]), bc_private_key_from_der = Inr,
     bc_private_key_from_pem = Inr, bc_group_id = (\<lambda>_. 23), bc_is_dir = (\<lambda>_. False), bc_is_file = (\<lambda>_. True),
     bc_read_dir = (\<lambda>_. Inr []), bc_read = (\<lambda>_. Inr [1])\<rparr>"

definition ex_ssl_setup :: "ssl_ctx \<Rightarrow> bytes ssl_setup" where
  "ex_ssl_setup ctx = \<lparr>su_new = Inr [], su_accept_moving_write_buffer = id, su_set_mtu = (\<lambda>_. Inr), su_partial_chain = id,
     su_set_host = (\<lambda>_. Inr), su_set_hostname = (\<lambda>_. Inr), su_set_verify = (\<lambda>_. id), su_group_id = (\<lambda>_. 23),
     su_set1_client_key_shares = (\<lambda>_ b. (1, b)), su_stream = Inr\<rparr>"

definition ex_client_options :: "client_option list" where
  "ex_client_options = [WithAuthToken [97], WithServerDomainNameValidation ''a.b'']"

definition ex_client_env_with :: "gso_ops \<Rightarrow> (bytes boring_session, bytes, nat \<times> (u16 \<times> fragmented_packet) list) conn_env" where
  "ex_client_env_with G = \<lparr>ce_tls = boring_tls plain_ssl, ce_sock = sink_socket, ce_aead = sum_aead, ce_lru = lru_list,
     ce_pnet = plain_pnet, ce_gso = G, ce_now = (\<lambda>l. length l), ce_random = (\<lambda>l n. replicate n 7), ce_ip_alloc = (\<lambda>l. None),
     ce_authorize = (\<lambda>_ _. Denied), ce_expired = (\<lambda>l h. False), ce_stats = (\<lambda>l s. Inr (0, 0)),
     ce_encoder_store = (\<lambda>l b. (Inr SkipPacket, b)), ce_encoder_state = (\<lambda>l. False),
     ce_decoder_store = (\<lambda>l b. (Inr SkipPacket, b))\<rparr>"

definition ex_tls_builder :: context_builder where
  "ex_tls_builder = \<lparr>cb_ctx = [CtxSetVerify SslVerifyPeer, CtxSetMinProtoVersion TlsV1_3, CtxSetMaxProtoVersion TlsV1_3,
     CtxSetVerifyCertStore [[1]]], cb_method = TlsClientV1_3\<rparr>"

definition ex_context_builder :: "bool \<Rightarrow> duration \<Rightarrow> client_context_builder" where
  "ex_context_builder lane interval = \<lparr>ccb_tls_ctx = ex_tls_builder, ccb_connection_type = Stream, ccb_inside_io = Some 1350,
     ccb_inside_plugins = [], ccb_outside_plugins = [], ccb_expresslane = lane,
     ccb_expresslane_cb = False, ccb_expresslane_metrics = False, ccb_expresslane_keys_rotation_interval = interval\<rparr>"

lemma ex_context_new:
  "client_context_new ex_boring_ctx Stream (RootPemBuffer [1]) (Some 1350) =
     Inr (ex_context_builder False DEFAULT_EXPRESSLANE_KEYS_ROTATION_INTERVAL)"
  by (simp add: client_context_new_def context_builder_new_def with_root_certificate_def ctx_do_def cb_apply_def or_fail_def
      tls_step_def with_cipher_list_def ex_boring_ctx_def ex_context_builder_def ex_tls_builder_def method_is_client_def Let_def)

lemma ex_context_configure:
  "client_context_configure ex_boring_ctx [CcExpresslane 1000] (ex_context_builder False DEFAULT_EXPRESSLANE_KEYS_ROTATION_INTERVAL) =
     Inr (ex_context_builder True 1000)"
  by (simp add: ex_context_builder_def)

definition ex_client_builder :: client_connection_builder where
  "ex_client_builder =
     \<lparr>cnb_connection_type = Stream, cnb_ctx = client_context_build (ex_context_builder True 1000), cnb_outside_mtu = 1400,
      cnb_pmtud_base_mtu = None, cnb_auth_method = None,
      cnb_session_config = session_config_new (tls_io_adapter Stream version_MAXIMUM False 1400 SESSION_EMPTY []),
      cnb_event_cb = False, cnb_max_fragment_map_entries = FRAGMENT_MAP_DEFAULT_MAX_ENTRIES, cnb_pmtud_timer = False,
      cnb_outside_plugins = [], cnb_inside_pkt_codec = False\<rparr>"

lemma ex_start_connect: "start_connect (client_context_build (ex_context_builder True 1000)) 1400 = Some (Inr ex_client_builder)"
  by (simp add: start_connect_def connection_session_config_def ex_client_builder_def client_context_build_def ex_context_builder_def
      is_datagram_def MIN_OUTSIDE_MTU_def MAX_OUTSIDE_MTU_def Let_def)

lemma ex_client_connect:
  "map_option (map_sum id cn_state) (client_connect ex_ssl_setup (ex_client_env_with G)
     (fold client_builder_with ex_client_options ex_client_builder)) = Some (Inr Authenticating)"
  by code_simp

lemma built_InrD: "map_option (map_sum id f) x = Some (Inr y) \<Longrightarrow> \<exists>c. x = Some (Inr c)"
  by (cases x; cases "the x") auto


end
