(* ===== verification/Server_Auth.thy ===== *)
theory Server_Auth
  imports Connection_Props "HOL-Library.AList"
begin

text \<open>
  The authentication of a server: the dispatch on the kind of credentials (\<open>ServerAuth\<close> of
  lightway-core/src/context/server_auth.rs, \<open>AuthAdapter\<close> of lightway-server/src/lib.rs) and the
  password file and token backend of the binary (lightway-server/src/auth.rs). Password hashes are
  checked by the crate pwhash and tokens by the crate jsonwebtoken: the parameter \<open>verifiers\<close>. Its
  keys are \<open>'key\<close>.
\<close>

section \<open>The password file\<close>

text \<open>\<open>BufRead::lines\<close>: the ends of lines are dropped, a last line without an end is one.\<close>

fun lines_from :: "bytes \<Rightarrow> bytes \<Rightarrow> bytes list" where
  "lines_from acc [] = (if acc = [] then [] else [acc])"
| "lines_from acc (b # bs) =
     (if b = 10 then (if acc \<noteq> [] \<and> last acc = 13 then butlast acc else acc) # lines_from [] bs
      else lines_from (acc @ [b]) bs)"

definition split_once :: "u8 \<Rightarrow> bytes \<Rightarrow> (bytes \<times> bytes) option" where
  "split_once sep line =
     (let before = takeWhile (\<lambda>b. b \<noteq> sep) line in
      if length before = length line then None else Some (before, drop (Suc (length before)) line))"

datatype user_db_error =
    ReadError
  | FailedToParseLine nat
  | NoUserFoundInLine nat
  | NoHashFoundInLine nat
  | NoUsersFound

definition parse_user_line :: "nat \<Rightarrow> bytes \<Rightarrow> user_db_error + bytes \<times> bytes" where
  "parse_user_line nr line =
     (if \<not> valid_utf8 line then Inl ReadError
      else case split_once 58 line of
          None \<Rightarrow> Inl (FailedToParseLine (nr + 1))
        | Some (user, hash) \<Rightarrow>
            if user = [] then Inl (NoUserFoundInLine (nr + 1))
            else if hash = [] then Inl (NoHashFoundInLine (nr + 1))
            else Inr (user, hash))"

text \<open>Collecting stops at the first error; of two lines for a user the later one counts.\<close>

fun collect_users :: "nat \<Rightarrow> bytes list \<Rightarrow> (bytes \<times> bytes) list \<Rightarrow> user_db_error + (bytes \<times> bytes) list" where
  "collect_users nr [] db = Inr db"
| "collect_users nr (line # ls) db =
     (case parse_user_line nr line of
        Inl e \<Rightarrow> Inl e
      | Inr (user, hash) \<Rightarrow> collect_users (nr + 1) ls (AList.update user hash db))"

definition user_db_from_reader :: "bytes \<Rightarrow> user_db_error + (bytes \<times> bytes) list" where
  "user_db_from_reader content =
     (case collect_users 0 (lines_from [] content) [] of
        Inl e \<Rightarrow> Inl e
      | Inr db \<Rightarrow> if db = [] then Inl NoUsersFound else Inr db)"

section \<open>The backend\<close>

record 'key verifiers =
  unix_verify :: "bytes \<Rightarrow> bytes \<Rightarrow> bool"
  jwt_decode :: "bytes \<Rightarrow> 'key \<Rightarrow> bool"

record 'key auth =
  au_user_db :: "(bytes \<times> bytes) list option"
  au_token :: "'key option"

datatype auth_new_error = UserDbError user_db_error | TokenKeyError nat | NeitherProvided

text \<open>The files are given by what reading them gives: the text, or the key \<open>token_from_reader\<close> makes.\<close>

definition auth_new :: "(user_db_error + bytes) option \<Rightarrow> (nat + 'key) option \<Rightarrow> auth_new_error + 'key auth" where
  "auth_new user_db token =
     (case (case user_db of
              None \<Rightarrow> Inr None
            | Some (Inl e) \<Rightarrow> Inl e
            | Some (Inr content) \<Rightarrow> map_sum id Some (user_db_from_reader content)) of
        Inl e \<Rightarrow> Inl (UserDbError e)
      | Inr db \<Rightarrow>
          (case token of
             Some (Inl e) \<Rightarrow> Inl (TokenKeyError e)
           | Some (Inr key) \<Rightarrow> Inr \<lparr>au_user_db = db, au_token = Some key\<rparr>
           | None \<Rightarrow> if db = None then Inl NeitherProvided else Inr \<lparr>au_user_db = db, au_token = None\<rparr>))"

text \<open>The unit struct \<open>AuthHandle\<close>; it never expires.\<close>

definition auth_handle_unit :: auth_handle where
  "auth_handle_unit = \<lparr>ah_name = 0, ah_features = [InsidePktCodec]\<rparr>"

definition auth_handle_expired :: "auth_handle \<Rightarrow> bool" where
  "auth_handle_expired h \<longleftrightarrow> False"

definition authorize_user_password :: "'key verifiers \<Rightarrow> 'key auth \<Rightarrow> bytes \<Rightarrow> bytes \<Rightarrow> server_auth_result" where
  "authorize_user_password V a user password =
     (case au_user_db a of
        None \<Rightarrow> Denied
      | Some user_db \<Rightarrow>
          (case map_of user_db user of
             None \<Rightarrow> Denied
           | Some hash \<Rightarrow> if unix_verify V password hash then Granted (Some auth_handle_unit) None else Denied))"

definition authorize_token :: "'key verifiers \<Rightarrow> 'key auth \<Rightarrow> bytes \<Rightarrow> server_auth_result" where
  "authorize_token V a token =
     (case au_token a of
        None \<Rightarrow> Denied
      | Some key \<Rightarrow> if jwt_decode V token key then Granted (Some auth_handle_unit) None else Denied)"

text \<open>The backend does not override the default, which denies.\<close>

definition authorize_cb_data :: "bytes \<Rightarrow> server_auth_result" where
  "authorize_cb_data data = Denied"

text \<open>\<open>ServerAuth::authorize\<close>; \<open>AuthAdapter\<close> passes its answer on.\<close>

fun authorize :: "'key verifiers \<Rightarrow> 'key auth \<Rightarrow> auth_method \<Rightarrow> server_auth_result" where
  "authorize V a (UserPass user password) = authorize_user_password V a user password"
| "authorize V a (Token token) = authorize_token V a token"
| "authorize V a (VersionedToken _ token) = authorize_token V a token"
| "authorize V a (CustomCallback data) = authorize_cb_data data"

definition auth_adapter :: "'key verifiers \<Rightarrow> 'key auth \<Rightarrow> auth_method \<Rightarrow> server_auth_result" where
  "auth_adapter V a am = authorize V a am"

section \<open>What the file says\<close>

lemma takeWhile_sep: "sep \<notin> set u \<Longrightarrow> takeWhile (\<lambda>b. b \<noteq> sep) (u @ sep # h) = u"
  by (subst takeWhile_append2) auto

lemma split_once_eq: "split_once sep line = Some (u, h) \<longleftrightarrow> line = u @ sep # h \<and> sep \<notin> set u"
proof
  let ?t = "takeWhile (\<lambda>b. b \<noteq> sep) line"
  assume "split_once sep line = Some (u, h)"
  then have t: "length ?t \<noteq> length line" "u = ?t" "h = drop (Suc (length ?t)) line"
    by (auto simp: split_once_def Let_def split: if_splits)
  then have n: "length ?t < length line" using length_takeWhile_le [of _ line] by (metis nat_less_le)
  then have "line ! length ?t = sep" using nth_length_takeWhile by fastforce
  then show "line = u @ sep # h \<and> sep \<notin> set u"
    using id_take_nth_drop [OF n] takeWhile_eq_take [of _ line] t(2,3) by (metis (mono_tags, lifting) set_takeWhileD)
next
  assume "line = u @ sep # h \<and> sep \<notin> set u"
  then show "split_once sep line = Some (u, h)" using takeWhile_sep [of sep u h] by (simp add: split_once_def Let_def)
qed

text \<open>A line of a user, as the file has it.\<close>

lemma parse_user_line_eq:
  "parse_user_line nr line = Inr (u, h) \<longleftrightarrow> valid_utf8 line \<and> line = u @ 58 # h \<and> 58 \<notin> set u \<and> u \<noteq> [] \<and> h \<noteq> []"
  using split_once_eq [of 58 line u h] by (cases "split_once 58 line") (auto simp: parse_user_line_def split: if_splits)

text \<open>The database is the file read from its end: the last line of a user counts.\<close>

lemma collect_users_lookup:
  "collect_users nr ls db = Inr db' \<Longrightarrow> map_of db' = map_of (rev (map (the \<circ> split_once 58) ls) @ db)"
proof (induction ls arbitrary: nr db)
  case (Cons line ls)
  then obtain u h where "parse_user_line nr line = Inr (u, h)" "collect_users (nr + 1) ls (AList.update u h db) = Inr db'"
    by (auto split: sum.splits)
  moreover from this have "split_once 58 line = Some (u, h)" by (simp add: parse_user_line_eq split_once_eq)
  ultimately show ?case using Cons.IH by (simp add: update_conv')
qed simp

lemma collect_users_lines:
  "collect_users nr ls db = Inr db' \<Longrightarrow> l \<in> set ls \<Longrightarrow> \<exists>u h. split_once 58 l = Some (u, h)"
proof (induction ls arbitrary: nr db)
  case (Cons line ls)
  then obtain u h where "parse_user_line nr line = Inr (u, h)" "collect_users (nr + 1) ls (AList.update u h db) = Inr db'"
    by (auto split: sum.splits)
  then show ?case using Cons by (auto simp: parse_user_line_eq split_once_eq)
qed simp

lemma user_db_entry:
  assumes "user_db_from_reader content = Inr db" and "map_of db u = Some h"
  shows "u @ 58 # h \<in> set (lines_from [] content) \<and> 58 \<notin> set u"
proof -
  let ?ls = "lines_from [] content"
  have run: "collect_users 0 ?ls [] = Inr db" using assms(1) by (auto simp: user_db_from_reader_def split: sum.splits if_splits)
  have "map_of (rev (map (the \<circ> split_once 58) ?ls)) u = Some h" using collect_users_lookup [OF run] assms(2) by simp
  then obtain l where "l \<in> set ?ls" "the (split_once 58 l) = (u, h)" using map_of_SomeD by fastforce
  then have "split_once 58 l = Some (u, h)" using collect_users_lines [OF run] by force
  then show ?thesis using \<open>l \<in> set ?ls\<close> by (simp add: split_once_eq)
qed

section \<open>Who gets in\<close>

lemma auth_new_file:
  assumes "auth_new (Some (Inr content)) (map_option Inr key) = Inr a"
  shows "\<exists>db. user_db_from_reader content = Inr db \<and> a = \<lparr>au_user_db = Some db, au_token = key\<rparr>"
  using assms by (cases "user_db_from_reader content"; cases key) (auto simp: auth_new_def)

lemma authorize_granted:
  assumes "authorize V \<lparr>au_user_db = Some db, au_token = key\<rparr> am = Granted h v"
  shows "(\<exists>user password hash. am = UserPass user password \<and> map_of db user = Some hash \<and> unix_verify V password hash)
      \<or> (\<exists>token k. (am = Token token \<or> (\<exists>v. am = VersionedToken v token)) \<and> key = Some k \<and> jwt_decode V token k)"
  using assms
  by (cases am) (auto simp: authorize_user_password_def authorize_token_def authorize_cb_data_def split: option.splits if_splits)

text \<open>
  C2. Only credentials the operator accepted open the tunnel. On a server with the password file
  \<open>content\<close> and the token key \<open>key\<close>, whatever the peer sends and in whatever order, a packet is
  handed to the inside interface only if before it the peer presented a user and password such
  that the file has a line for that user whose hash the password matches, or a token that is valid
  for the key.
\<close>

theorem inside_needs_credentials:
  fixes c :: "('s, 'k, 'm) conn"
  assumes "conn_reachable E args c" and "args_server args"
    and "auth_new (Some (Inr content)) (map_option Inr key) = Inr a" and "ce_authorize E = (\<lambda>_. auth_adapter V a)"
    and "cn_log c = pre @ AppInsideSend p # post"
  shows "\<exists>am r. AppAuthorize am r \<in> set pre
    \<and> ((\<exists>user password hash. am = UserPass user password \<and> user @ 58 # hash \<in> set (lines_from [] content) \<and> 58 \<notin> set user
           \<and> unix_verify V password hash)
      \<or> (\<exists>token k. (am = Token token \<or> (\<exists>v. am = VersionedToken v token)) \<and> key = Some k \<and> jwt_decode V token k))"
proof -
  have "authorised (args_server args) c"
    by (rule auth.reachable_invariant [OF assms(1)])
      (simp add: authorised_def conn_init_def args_server_def is_server_def Cons_eq_append_conv)
  then have "cleared (args_server args) pre" using assms(5) unfolding authorised_def by blast
  then obtain am h v where am: "AppAuthorize am (Granted h v) \<in> set pre" using assms(2) by (auto simp: cleared_def granted_def)
  have "decisions_true E c"
    by (rule decisions.reachable_invariant [OF assms(1)]) (simp add: decisions_true_def conn_init_def Cons_eq_append_conv)
  moreover obtain x y where "pre = x @ AppAuthorize am (Granted h v) # y" using split_list [OF am] by blast
  ultimately have "authorize V a am = Granted h v"
    using assms(4,5) by (simp add: decisions_true_def auth_adapter_def) metis
  moreover obtain db where db: "user_db_from_reader content = Inr db" "a = \<lparr>au_user_db = Some db, au_token = key\<rparr>"
    using auth_new_file [OF assms(3)] by blast
  ultimately have "(\<exists>user password hash. am = UserPass user password \<and> map_of db user = Some hash \<and> unix_verify V password hash)
      \<or> (\<exists>token k. (am = Token token \<or> (\<exists>v. am = VersionedToken v token)) \<and> key = Some k \<and> jwt_decode V token k)"
    by (intro authorize_granted [of V db key am h v]) simp
  then show ?thesis using user_db_entry [OF db(1)] by (intro exI [of _ am] exI [of _ "Granted h v"] conjI am) metis
qed

section \<open>A concrete server\<close>

text \<open>The file has one user, whose password is its own hash.\<close>

definition ex_verifiers :: "unit verifiers" where
  "ex_verifiers = \<lparr>unix_verify = (\<lambda>p h. p = h), jwt_decode = (\<lambda>_ _. False)\<rparr>"

definition ex_passwd :: bytes where "ex_passwd = [97, 58, 98, 10]"

definition ex_auth_backend :: "unit auth" where
  "ex_auth_backend = \<lparr>au_user_db = Some [([97], [98])], au_token = None\<rparr>"

definition ex_auth_env_with :: "gso_ops \<Rightarrow> (bytes, bytes, nat \<times> (u16 \<times> fragmented_packet) list) conn_env" where
  "ex_auth_env_with G = \<lparr>ce_tls = plain_tls, ce_sock = sink_socket, ce_aead = sum_aead, ce_lru = lru_list, ce_pnet = plain_pnet,
     ce_gso = G, ce_now = (\<lambda>l. length l), ce_random = (\<lambda>l n. replicate n 7), ce_ip_alloc = (\<lambda>l. Some ex_ip),
     ce_authorize = (\<lambda>_. auth_adapter ex_verifiers ex_auth_backend), ce_expired = (\<lambda>l. auth_handle_expired),
     ce_stats = (\<lambda>l s. Inr (0, 0)), ce_encoder_store = (\<lambda>l b. (Inr SkipPacket, b)), ce_encoder_state = (\<lambda>l. False),
     ce_decoder_store = (\<lambda>l b. (Inr SkipPacket, b))\<rparr>"

definition ex_auth_env :: "(bytes, bytes, nat \<times> (u16 \<times> fragmented_packet) list) conn_env" where
  "ex_auth_env = ex_auth_env_with rfc_gso"

definition ex_login :: bytes where
  "ex_login = the (frame_append_to_wire (AuthRequest \<lparr>ar_auth_method = UserPass [97] [98]\<rparr>) [])"

lemma ex_auth_new: "auth_new (Some (Inr ex_passwd)) (map_option Inr None) = Inr ex_auth_backend"
  by code_simp

definition ex_login_log :: app_log where
  "ex_login_log = [AppNow 0, AppEvent (StateChanged LinkUp), AppNow 2, AppIpAlloc (Some ex_ip),
     AppAuthorize (UserPass [97] [98]) (Granted (Some auth_handle_unit) None), AppEvent (StateChanged Online), AppNow 6, AppNow 7]"

lemma ex_login_run:
  "map_option cn_log (conn_created (ex_auth_env_with G) 5 (ex_args Stream ex_server) [CallOutside (TcpFrame (ex_login @ ex_data))])
     = Some (ex_login_log @ [AppInsideSend ex_packet])"
  by code_simp

theorem inside_needs_credentials_witness:
  "\<exists>c am r. conn_reachable ex_auth_env (ex_args Stream ex_server) c \<and> AppAuthorize am r \<in> set ex_login_log
    \<and> (\<exists>user password hash. am = UserPass user password \<and> user @ 58 # hash \<in> set (lines_from [] ex_passwd)
         \<and> unix_verify ex_verifiers password hash)"
proof -
  obtain c where c: "conn_reachable ex_auth_env (ex_args Stream ex_server) c"
    "cn_log c = ex_login_log @ AppInsideSend ex_packet # []"
    using ex_login_run [of rfc_gso] by (auto simp: ex_auth_env_def dest: conn_created_reachable)
  have "args_server (ex_args Stream ex_server)" by (simp add: args_server_def ex_args_def ex_server_def)
  moreover have "ce_authorize ex_auth_env = (\<lambda>_. auth_adapter ex_verifiers ex_auth_backend)" by (simp add: ex_auth_env_def ex_auth_env_with_def)
  ultimately show ?thesis
    using inside_needs_credentials [OF c(1) _ ex_auth_new _ c(2), of ex_verifiers] c(1)
    by (auto simp: ex_verifiers_def)
qed

end
