(* ===== verification/Client_Sockets.thy ===== *)
theory Client_Sockets
  imports Io_Adapter
begin

text \<open>
  The outside sockets of a client (lightway-client/src/io/outside/udp.rs, udp/batch_receive.rs,
  tcp.rs). The kernel is a parameter: its answers depend on the calls made before. The connected
  mode of the UDP socket exists on Apple platforms and the dead socket callback on iOS; the platform
  is a parameter of the definitions.
\<close>

datatype platform = LinuxPlatform | MacOs | Ios

definition pf_apple :: "platform \<Rightarrow> bool" where "pf_apple P \<longleftrightarrow> P \<noteq> LinuxPlatform"
definition pf_ios :: "platform \<Rightarrow> bool" where "pf_ios P \<longleftrightarrow> P = Ios"

lemma platform_simps [simp]: "\<not> pf_apple LinuxPlatform" "pf_apple MacOs" "pf_apple Ios" "\<not> pf_ios LinuxPlatform" "\<not> pf_ios MacOs" "pf_ios Ios"
  by (simp_all add: pf_apple_def pf_ios_def)

text \<open>The kinds of \<open>std::io::Error\<close> and error numbers the source tells apart.\<close>

datatype sock_error =
    EWouldBlock | EInterrupted | ConnectionRefused | NetworkUnreachable | HostUnreachable | NoBufs | PermissionDenied
  | AddrNotAvailable | NotConnected | IsConnected | BrokenPipe | OtherOsError nat

datatype udp_syscall =
    SysBind
  | SysSetMark u32
  | SysSend bytes "sock_error + usize"
  | SysSendTo sock_addr bytes "sock_error + usize"
  | SysConnect sock_addr "sock_error option"
  | SysDisconnect "sock_error option"
  | DeadSocketCallback

record kernel =
  kn_send :: "udp_syscall list \<Rightarrow> bytes \<Rightarrow> sock_error + usize"
  kn_send_to :: "udp_syscall list \<Rightarrow> sock_addr \<Rightarrow> bytes \<Rightarrow> sock_error + usize"
  kn_connect :: "udp_syscall list \<Rightarrow> sock_addr \<Rightarrow> sock_error option"
  kn_disconnect :: "udp_syscall list \<Rightarrow> sock_error option"

section \<open>The UDP socket\<close>

record client_udp =
  us_calls :: "udp_syscall list"
  us_peer_addr :: sock_addr
  us_connect_requested :: bool
  us_connected :: bool
  us_dead_socket_cb :: bool
  us_dead :: bool
  us_swallowed_sends :: u64
  us_batch_receive_enabled :: bool

text \<open>
  \<open>Udp::new\<close>: the address the lookup gave, the outcome of the calls that may fail (bind, the
  current path MTU option, waiting until the socket is writable), and the firewall mark.
\<close>

definition udp_new ::
  "sock_error + sock_addr list \<Rightarrow> bool \<Rightarrow> sock_error option \<Rightarrow> sock_error option \<Rightarrow> sock_error option \<Rightarrow> u32 \<Rightarrow> sock_error option + client_udp" where
  "udp_new lookup sock_given bind_result mtu_discover_result writable_result fwmark =
     (case lookup of
        Inl e \<Rightarrow> Inl (Some e)
      | Inr [] \<Rightarrow> Inl None
      | Inr (peer_addr # _) \<Rightarrow>
          (case (if sock_given then None else bind_result) of
             Some e \<Rightarrow> Inl (Some e)
           | None \<Rightarrow>
               (let calls = (if sock_given then [] else [SysBind]) @ (if fwmark \<noteq> 0 then [SysSetMark fwmark] else []) in
                case mtu_discover_result of
                  Some e \<Rightarrow> Inl (Some e)
                | None \<Rightarrow>
                    (case writable_result of
                       Some e \<Rightarrow> Inl (Some e)
                     | None \<Rightarrow>
                         Inr \<lparr>us_calls = calls, us_peer_addr = peer_addr, us_connect_requested = False, us_connected = False,
                           us_dead_socket_cb = False, us_dead = False, us_swallowed_sends = 0, us_batch_receive_enabled = False\<rparr>))))"

definition udp_call :: "udp_syscall \<Rightarrow> client_udp \<Rightarrow> client_udp" where
  "udp_call c u = u\<lparr>us_calls := us_calls u @ [c]\<rparr>"

definition connect_socket :: "kernel \<Rightarrow> client_udp \<Rightarrow> sock_error option \<times> client_udp" where
  "connect_socket K u =
     (let r = kn_connect K (us_calls u) (us_peer_addr u) in (r, udp_call (SysConnect (us_peer_addr u) r) u))"

definition enable_connected_send :: "kernel \<Rightarrow> client_udp \<Rightarrow> sock_error option \<times> client_udp" where
  "enable_connected_send K u =
     (case connect_socket K (u\<lparr>us_connect_requested := True\<rparr>) of
        (Some e, u) \<Rightarrow> (Some e, u)
      | (None, u) \<Rightarrow> (None, u\<lparr>us_connected := True\<rparr>))"

text \<open>\<open>False\<close>: a callback was set before.\<close>

definition on_dead_socket :: "client_udp \<Rightarrow> bool \<times> client_udp" where
  "on_dead_socket u = (if us_dead_socket_cb u then (False, u) else (True, u\<lparr>us_dead_socket_cb := True\<rparr>))"

text \<open>The outcome of the system call decides only what is logged.\<close>

definition udp_downgrade :: "kernel \<Rightarrow> client_udp \<Rightarrow> client_udp" where
  "udp_downgrade K u =
     (let u = u\<lparr>us_connected := False\<rparr> in udp_call (SysDisconnect (kn_disconnect K (us_calls u))) u)"

definition note_swallowed_send :: "client_udp \<Rightarrow> client_udp" where
  "note_swallowed_send u = u\<lparr>us_swallowed_sends := us_swallowed_sends u + 1\<rparr>"

definition enable_batch_receive :: "platform \<Rightarrow> bool \<Rightarrow> client_udp \<Rightarrow> client_udp" where
  "enable_batch_receive P available u =
     (if pf_apple P \<and> \<not> available then u else u\<lparr>us_batch_receive_enabled := True\<rparr>)"

definition udp_reconnect :: "kernel \<Rightarrow> client_udp \<Rightarrow> client_udp" where
  "udp_reconnect K u =
     (if \<not> us_connect_requested u then u
      else case connect_socket K u of
          (None, u) \<Rightarrow> u\<lparr>us_connected := True\<rparr>
        | (Some _, u) \<Rightarrow> udp_downgrade K u)"

definition is_icmp_derived_err :: "sock_error \<Rightarrow> bool" where
  "is_icmp_derived_err e \<longleftrightarrow> e \<in> {ConnectionRefused, HostUnreachable, NetworkUnreachable}"

text \<open>The error as the core sees it: its number.\<close>

definition os_io_error :: "sock_error \<Rightarrow> io_error" where
  "os_io_error e = SocketError (case e of
     EWouldBlock \<Rightarrow> 11 | EInterrupted \<Rightarrow> 4 | ConnectionRefused \<Rightarrow> 111 | NetworkUnreachable \<Rightarrow> 101 | HostUnreachable \<Rightarrow> 113
   | NoBufs \<Rightarrow> 105 | PermissionDenied \<Rightarrow> 13 | AddrNotAvailable \<Rightarrow> 99 | NotConnected \<Rightarrow> 107 | IsConnected \<Rightarrow> 106 | BrokenPipe \<Rightarrow> 32
   | OtherOsError n \<Rightarrow> n)"

text \<open>The match of \<open>send\<close> on the result; \<open>connected\<close> was read before the call.\<close>

definition udp_send_result :: "platform \<Rightarrow> kernel \<Rightarrow> bool \<Rightarrow> bytes \<Rightarrow> sock_error + usize \<Rightarrow> client_udp \<Rightarrow> io_result \<times> client_udp" where
  "udp_send_result P K connected buf result u =
     (case result of
        Inr nr \<Rightarrow> (IoOk nr, u\<lparr>us_swallowed_sends := 0\<rparr>)
      | Inl e \<Rightarrow>
          if e = EWouldBlock then (IoWouldBlock, u)
          else if e \<in> {ConnectionRefused, NetworkUnreachable, NoBufs, PermissionDenied}
          then (IoOk (length buf), note_swallowed_send u)
          else if pf_apple P \<and> e = AddrNotAvailable
          then (IoOk (length buf), note_swallowed_send (if connected then udp_downgrade K u else u))
          else if pf_apple P \<and> connected \<and> e = HostUnreachable then (IoOk (length buf), note_swallowed_send u)
          else if pf_apple P \<and> us_connect_requested u \<and> e \<in> {NotConnected, IsConnected}
          then (IoOk (length buf), note_swallowed_send u)
          else if pf_ios P \<and> us_connect_requested u \<and> e = BrokenPipe \<and> us_dead_socket_cb u
          then (IoOk (length buf),
                note_swallowed_send (if us_dead u then u else udp_call DeadSocketCallback (u\<lparr>us_dead := True\<rparr>)))
          else (IoErr (os_io_error e), u))"

definition client_udp_send :: "platform \<Rightarrow> kernel \<Rightarrow> bytes \<Rightarrow> client_udp \<Rightarrow> io_result \<times> client_udp" where
  "client_udp_send P K buf u =
     (if pf_apple P \<and> us_connected u then
        let r = kn_send K (us_calls u) buf in udp_send_result P K True buf r (udp_call (SysSend buf r) u)
      else
        let r = kn_send_to K (us_calls u) (us_peer_addr u) buf
        in udp_send_result P K False buf r (udp_call (SysSendTo (us_peer_addr u) buf r) u))"

section \<open>Receiving\<close>

definition MAX_IO_BATCH_SIZE :: usize where [const_defs]: "MAX_IO_BATCH_SIZE = 32"

text \<open>The mapping of an error by \<open>recv_buf\<close>.\<close>

definition udp_recv_error :: "platform \<Rightarrow> client_udp \<Rightarrow> sock_error \<Rightarrow> io_result" where
  "udp_recv_error P u e =
     (if e = EWouldBlock then IoWouldBlock
      else if pf_apple P \<and> us_connect_requested u \<and> is_icmp_derived_err e then IoWouldBlock
      else IoErr (os_io_error e))"

definition udp_recv_buf :: "platform \<Rightarrow> client_udp \<Rightarrow> sock_error + bytes \<Rightarrow> bytes \<Rightarrow> io_result \<times> bytes" where
  "udp_recv_buf P u answer buf =
     (case answer of Inr d \<Rightarrow> (IoOk (length d), buf @ d) | Inl e \<Rightarrow> (udp_recv_error P u e, buf))"

text \<open>
  \<open>try_readable_io\<close> on the answers of its attempts, in order: interrupted ones are repeated. \<open>None\<close>:
  all of them were interrupted.
\<close>

fun try_readable_io :: "platform \<Rightarrow> client_udp \<Rightarrow> (sock_error + usize) list \<Rightarrow> io_result option" where
  "try_readable_io P u [] = None"
| "try_readable_io P u (Inr n # rs) = Some (IoOk n)"
| "try_readable_io P u (Inl e # rs) =
     (if e = EWouldBlock then Some IoWouldBlock
      else if e = EInterrupted then try_readable_io P u rs
      else if pf_apple P \<and> us_connect_requested u \<and> is_icmp_derived_err e then Some IoWouldBlock
      else Some (IoErr (os_io_error e)))"

text \<open>
  A receive buffer with its capacity. The kernel is shown the spare capacity of each buffer and cuts
  a datagram that is longer; \<open>msgs\<close> are the datagrams it has.
\<close>

record recv_buffer =
  rb_data :: bytes
  rb_capacity :: usize

definition rb_fill :: "recv_buffer \<Rightarrow> bytes \<Rightarrow> recv_buffer" where
  "rb_fill b msg = b\<lparr>rb_data := rb_data b @ take (rb_capacity b - length (rb_data b)) msg\<rparr>"

definition recv_multiple :: "recv_buffer list \<Rightarrow> usize \<Rightarrow> sock_error + bytes list \<Rightarrow> (sock_error + usize) \<times> recv_buffer list" where
  "recv_multiple bufs max_batch_size answer =
     (let msg_count = min max_batch_size MAX_IO_BATCH_SIZE in
      case answer of
        Inl e \<Rightarrow> (Inl e, bufs)
      | Inr msgs \<Rightarrow>
          if length msgs > msg_count then (Inl (OtherOsError 0), bufs)
          else (Inr (length msgs), map2 rb_fill (take (length msgs) bufs) msgs @ drop (length msgs) bufs))"

definition recv_bufs :: "platform \<Rightarrow> client_udp \<Rightarrow> sock_error + bytes list \<Rightarrow> recv_buffer list \<Rightarrow> io_result option \<times> recv_buffer list" where
  "recv_bufs P u answer bufs =
     (if \<not> us_batch_receive_enabled u then
        (case bufs of
           [] \<Rightarrow> (None, bufs)
         | b # rest \<Rightarrow>
             (case answer of
                Inl e \<Rightarrow> (Some (udp_recv_error P u e), bufs)
              | Inr msgs \<Rightarrow>
                  (case msgs of
                     [] \<Rightarrow> (Some IoWouldBlock, bufs)
                   | msg # _ \<Rightarrow> (Some (IoOk 1), rb_fill b msg # rest))))
      else case recv_multiple bufs MAX_IO_BATCH_SIZE answer of
          (r, bufs) \<Rightarrow> (try_readable_io P u [r], bufs))"

section \<open>The TCP socket\<close>

datatype tcp_syscall = TcpSocketNew bool | TcpSetMark u32 | TcpConnect sock_addr | TcpSetNodelay

definition sock_addr_is_ipv6 :: "sock_addr \<Rightarrow> bool" where
  "sock_addr_is_ipv6 a = (case a of SockAddrV4 _ _ \<Rightarrow> False | SockAddrV6 _ _ \<Rightarrow> True)"

text \<open>
  \<open>Tcp::new\<close> as the calls it makes until one fails; \<open>fails c\<close> is the error of the call \<open>c\<close>. A mark
  that cannot be set is only logged.
\<close>

fun tcp_calls :: "(tcp_syscall \<Rightarrow> sock_error option) \<Rightarrow> tcp_syscall list \<Rightarrow> sock_error option \<times> tcp_syscall list" where
  "tcp_calls fails [] = (None, [])"
| "tcp_calls fails (c # cs) =
     (case (case c of TcpSetMark _ \<Rightarrow> None | _ \<Rightarrow> fails c) of
        Some e \<Rightarrow> (Some e, [c])
      | None \<Rightarrow> map_prod id ((#) c) (tcp_calls fails cs))"

definition tcp_new :: "(tcp_syscall \<Rightarrow> sock_error option) \<Rightarrow> sock_addr \<Rightarrow> bool \<Rightarrow> u32 \<Rightarrow> sock_error option \<times> tcp_syscall list" where
  "tcp_new fails remote_addr sock_given fwmark =
     (let mark = (if fwmark \<noteq> 0 then [TcpSetMark fwmark] else []) in
      tcp_calls fails
        (if sock_given then mark @ [TcpSetNodelay]
         else TcpSocketNew (sock_addr_is_ipv6 remote_addr) # mark @ [TcpConnect remote_addr, TcpSetNodelay]))"

definition CONNECTION_ABORTED :: io_error where "CONNECTION_ABORTED = OtherError ''End of stream''"

definition tcp_recv_buf :: "sock_error + bytes \<Rightarrow> bytes \<Rightarrow> io_result \<times> bytes" where
  "tcp_recv_buf answer buf =
     (case answer of
        Inr d \<Rightarrow> if d = [] then (IoErr CONNECTION_ABORTED, buf) else (IoOk (length d), buf @ d)
      | Inl e \<Rightarrow> (if e = EWouldBlock then IoWouldBlock else IoErr (os_io_error e), buf))"

definition tcp_socket_send :: "sock_error + usize \<Rightarrow> io_result" where
  "tcp_socket_send answer =
     (case answer of Inr nr \<Rightarrow> IoOk nr | Inl e \<Rightarrow> if e = EWouldBlock then IoWouldBlock else IoErr (os_io_error e))"

section \<open>What the UDP socket does over time\<close>

datatype udp_op = OpSend bytes | OpReconnect | OpEnableConnectedSend | OpOnDeadSocket

text \<open>The connected mode can be reached on Apple platforms only.\<close>

fun udp_apply :: "platform \<Rightarrow> kernel \<Rightarrow> udp_op \<Rightarrow> client_udp \<Rightarrow> client_udp" where
  "udp_apply P K (OpSend buf) u = snd (client_udp_send P K buf u)"
| "udp_apply P K OpReconnect u = (if pf_apple P then udp_reconnect K u else u)"
| "udp_apply P K OpEnableConnectedSend u = (if pf_apple P then snd (enable_connected_send K u) else u)"
| "udp_apply P K OpOnDeadSocket u = (if pf_ios P then snd (on_dead_socket u) else u)"

fun call_target :: "udp_syscall \<Rightarrow> sock_addr option" where
  "call_target (SysSendTo a _ _) = Some a"
| "call_target (SysConnect a _) = Some a"
| "call_target _ = None"

definition udp_inv :: "platform \<Rightarrow> client_udp \<Rightarrow> bool" where
  "udp_inv P u \<longleftrightarrow> (us_connected u \<longrightarrow> us_connect_requested u) \<and> (us_connect_requested u \<longrightarrow> pf_apple P)
    \<and> (us_dead u \<longrightarrow> us_dead_socket_cb u)
    \<and> count_list (us_calls u) DeadSocketCallback = (if us_dead u then 1 else 0)
    \<and> (\<forall>c\<in>set (us_calls u). \<forall>a. call_target c = Some a \<longrightarrow> a = us_peer_addr u)"

lemma udp_new_inv: "udp_new lookup given b md w fwmark = Inr u \<Longrightarrow> udp_inv P u"
  by (auto simp: udp_new_def udp_inv_def Let_def split: sum.splits list.splits option.splits if_splits)

lemma udp_call_simps [simp]:
  "us_calls (udp_call c u) = us_calls u @ [c]" "us_connected (udp_call c u) = us_connected u"
  "us_connect_requested (udp_call c u) = us_connect_requested u" "us_dead (udp_call c u) = us_dead u"
  "us_dead_socket_cb (udp_call c u) = us_dead_socket_cb u" "us_peer_addr (udp_call c u) = us_peer_addr u"
  by (simp_all add: udp_call_def)

lemma udp_inv_call:
  "udp_inv P u \<Longrightarrow> c \<noteq> DeadSocketCallback \<Longrightarrow> call_target c \<in> {None, Some (us_peer_addr u)} \<Longrightarrow> udp_inv P (udp_call c u)"
  by (auto simp: udp_inv_def)

lemma udp_inv_downgrade: "udp_inv P u \<Longrightarrow> udp_inv P (udp_downgrade K u)"
  by (auto simp: udp_inv_def udp_downgrade_def Let_def)

lemma udp_inv_noted: "udp_inv P (note_swallowed_send u) \<longleftrightarrow> udp_inv P u"
  by (simp add: udp_inv_def note_swallowed_send_def)

lemma udp_inv_counter: "udp_inv P (u\<lparr>us_swallowed_sends := n\<rparr>) \<longleftrightarrow> udp_inv P u"
  by (simp add: udp_inv_def)

lemma udp_inv_dead:
  "udp_inv P u \<Longrightarrow> \<not> us_dead u \<Longrightarrow> us_dead_socket_cb u \<Longrightarrow> udp_inv P (udp_call DeadSocketCallback (u\<lparr>us_dead := True\<rparr>))"
  by (auto simp: udp_inv_def)

lemma udp_inv_result: "udp_inv P u \<Longrightarrow> udp_inv P (snd (udp_send_result P K c buf r u))"
  by (auto simp: udp_send_result_def udp_inv_noted udp_inv_counter intro: udp_inv_downgrade udp_inv_dead split: sum.split)

lemma udp_inv_send: "udp_inv P u \<Longrightarrow> udp_inv P (snd (client_udp_send P K buf u))"
  by (simp add: client_udp_send_def Let_def udp_inv_result udp_inv_call)

lemma udp_inv_connect:
  "udp_inv P u \<Longrightarrow> connect_socket K u = (r, u') \<Longrightarrow> udp_inv P u' \<and> us_connect_requested u' = us_connect_requested u"
  by (auto simp: connect_socket_def udp_inv_def Let_def)

lemma udp_inv_connected: "udp_inv P u \<Longrightarrow> us_connect_requested u \<Longrightarrow> udp_inv P (u\<lparr>us_connected := True\<rparr>)"
  by (simp add: udp_inv_def)

lemma udp_inv_requested: "udp_inv P u \<Longrightarrow> pf_apple P \<Longrightarrow> udp_inv P (u\<lparr>us_connect_requested := True\<rparr>)"
  by (simp add: udp_inv_def)

lemma udp_inv_reconnect: "udp_inv P u \<Longrightarrow> udp_inv P (udp_reconnect K u)"
  unfolding udp_reconnect_def
  by (auto split: prod.split option.split intro: udp_inv_downgrade udp_inv_connected dest: udp_inv_connect)

lemma udp_inv_enable: "udp_inv P u \<Longrightarrow> pf_apple P \<Longrightarrow> udp_inv P (snd (enable_connected_send K u))"
  unfolding enable_connected_send_def
  by (drule (1) udp_inv_requested) (auto split: prod.split option.split intro: udp_inv_connected dest: udp_inv_connect)

lemma udp_inv_apply: "udp_inv P u \<Longrightarrow> udp_inv P (udp_apply P K a u)"
  by (cases a) (auto simp: udp_inv_send udp_inv_reconnect udp_inv_enable on_dead_socket_def udp_inv_def [of P "us_dead_socket_cb_update _ _"]
      udp_inv_def [of P u])

lemma udp_inv_run: "udp_inv P u \<Longrightarrow> udp_inv P (fold (udp_apply P K) as u)"
  by (induction as arbitrary: u) (auto intro: udp_inv_apply)

text \<open>
  Over any use of a socket the request for a new one is made at most once, nothing is sent or
  connected to another address than that of the server, and the socket is connected only where
  that was asked for.
\<close>

lemma client_udp_sound:
  assumes "udp_new lookup given b md w fwmark = Inr u0" and "u = fold (udp_apply P K) as u0"
  shows "count_list (us_calls u) DeadSocketCallback \<le> 1
    \<and> (\<forall>c\<in>set (us_calls u). \<forall>a. call_target c = Some a \<longrightarrow> a = us_peer_addr u)
    \<and> (us_connected u \<longrightarrow> OpEnableConnectedSend \<in> set as \<and> pf_apple P)"
proof -
  have inv: "udp_inv P u" using udp_inv_run [OF udp_new_inv [OF assms(1)]] assms(2) by simp
  have keep: "OpEnableConnectedSend \<notin> set as \<Longrightarrow> \<not> us_connect_requested v \<Longrightarrow> \<not> us_connect_requested (fold (udp_apply P K) as v)" for v
  proof (induction as arbitrary: v)
    case (Cons a as)
    have "\<not> us_connect_requested (udp_apply P K a v)" using Cons.prems
      by (cases a) (auto simp: client_udp_send_def udp_send_result_def note_swallowed_send_def udp_downgrade_def udp_reconnect_def
          on_dead_socket_def Let_def split: sum.split)
    then show ?case using Cons by simp
  qed simp
  have "\<not> us_connect_requested u0" using assms(1)
    by (auto simp: udp_new_def Let_def split: sum.splits list.splits option.splits if_splits)
  then show ?thesis using inv keep assms(2) by (auto simp: udp_inv_def)
qed

text \<open>The firewall mark is set before anything is sent, and on a new TCP socket before the connection.\<close>

lemma udp_mark_first:
  "udp_new lookup given b md w fwmark = Inr u \<Longrightarrow> fwmark \<noteq> 0 \<Longrightarrow> us_calls u = (if given then [] else [SysBind]) @ [SysSetMark fwmark]"
  by (auto simp: udp_new_def Let_def split: sum.splits list.splits option.splits if_splits)

lemma tcp_mark_first:
  assumes "tcp_new fails addr given fwmark = (r, calls)" and "fwmark \<noteq> 0" and "calls = pre @ TcpConnect addr # post"
  shows "TcpSetMark fwmark \<in> set pre"
  using assms
  by (auto simp: tcp_new_def Let_def Cons_eq_append_conv split: if_splits option.splits)

text \<open>An error of the network does not end the connection; the exceptions are these.\<close>

definition send_error_fatal :: "platform \<Rightarrow> bool \<Rightarrow> client_udp \<Rightarrow> sock_error \<Rightarrow> bool" where
  "send_error_fatal P connected u e \<longleftrightarrow> (case e of
     HostUnreachable \<Rightarrow> \<not> (pf_apple P \<and> connected)
   | AddrNotAvailable \<Rightarrow> \<not> pf_apple P
   | NotConnected \<Rightarrow> \<not> (pf_apple P \<and> us_connect_requested u)
   | IsConnected \<Rightarrow> \<not> (pf_apple P \<and> us_connect_requested u)
   | BrokenPipe \<Rightarrow> \<not> (pf_ios P \<and> us_connect_requested u \<and> us_dead_socket_cb u)
   | EInterrupted \<Rightarrow> True
   | OtherOsError _ \<Rightarrow> True
   | _ \<Rightarrow> False)"

lemma udp_send_result_Err:
  "fst (udp_send_result P K c buf r u) = IoErr x \<longleftrightarrow> (\<exists>e. r = Inl e \<and> send_error_fatal P c u e \<and> x = os_io_error e)"
  by (cases r) (auto simp: udp_send_result_def send_error_fatal_def split: sock_error.splits if_splits)

text \<open>On a platform without connected sends every datagram goes through \<open>send_to\<close>.\<close>

lemma client_udp_send_plain:
  "\<not> pf_apple P \<Longrightarrow> fst (client_udp_send P K buf u) = fst (udp_send_result P K False buf (kn_send_to K (us_calls u) (us_peer_addr u) buf) u)"
  by (auto simp: client_udp_send_def udp_send_result_def Let_def split: sum.split)

section \<open>Batches\<close>

lemma rb_fill_capacity: "length (rb_data b) \<le> rb_capacity b \<Longrightarrow> length (rb_data (rb_fill b m)) \<le> rb_capacity (rb_fill b m)"
  by (simp add: rb_fill_def)

lemma recv_multiple_sound:
  assumes "recv_multiple bufs mx (Inr msgs) = (Inr n, bufs')" and "length bufs = MAX_IO_BATCH_SIZE"
    and "\<forall>b\<in>set bufs. rb_data b = []"
  shows "n = length msgs \<and> n \<le> length bufs \<and> length bufs' = length bufs
    \<and> (\<forall>i<n. rb_data (bufs' ! i) = take (rb_capacity (bufs ! i)) (msgs ! i)) \<and> (\<forall>i. n \<le> i \<and> i < length bufs \<longrightarrow> bufs' ! i = bufs ! i)"
proof -
  have n: "n = length msgs" "length msgs \<le> length bufs" and b: "bufs' = map2 rb_fill (take n bufs) msgs @ drop n bufs"
    using assms(1,2) by (auto simp: recv_multiple_def Let_def split: if_splits)
  then show ?thesis using assms(3) by (auto simp: nth_append rb_fill_def)
qed

section \<open>Under a connection\<close>

text \<open>
  The socket as the adapter of a connection sees it: the state is that after the sends of the log.
  The kernel of a client does not coalesce.
\<close>

fun udp_replay :: "platform \<Rightarrow> kernel \<Rightarrow> client_udp \<Rightarrow> socket_log \<Rightarrow> client_udp" where
  "udp_replay P K u [] = u"
| "udp_replay P K u (SockSend buf _ # l) = udp_replay P K (snd (client_udp_send P K buf u)) l"
| "udp_replay P K u (_ # l) = udp_replay P K u l"

definition client_udp_ops :: "platform \<Rightarrow> kernel \<Rightarrow> client_udp \<Rightarrow> socket_ops" where
  "client_udp_ops P K u = \<lparr>
     sk_send = (\<lambda>l buf. fst (client_udp_send P K buf (udp_replay P K u l))),
     sk_send_gso = (\<lambda>l bufs size. IoErr (OtherError ''unsupported'')),
     sk_peer_addr = (\<lambda>l. us_peer_addr u)\<rparr>"

text \<open>
  While the network fails only transiently, no send of a datagram connection fails on Linux: the TLS
  session keeps going, and its retransmission covers what was lost.
\<close>

definition transient_errors :: "sock_error set" where
  "transient_errors = {EWouldBlock, ConnectionRefused, NetworkUnreachable, NoBufs, PermissionDenied}"

lemma linux_send_fatal: "send_error_fatal LinuxPlatform c u e \<longleftrightarrow> e \<notin> transient_errors"
  by (cases e) (simp_all add: send_error_fatal_def transient_errors_def)

lemma linux_send_never_fails:
  assumes "\<forall>l a b e. kn_send_to K l a b = Inl e \<longrightarrow> e \<in> transient_errors"
  shows "sk_send (client_udp_ops LinuxPlatform K u) l buf \<noteq> IoErr x"
  using assms by (auto simp: client_udp_ops_def client_udp_send_plain udp_send_result_Err linux_send_fatal)

lemma transient_errors_invisible:
  assumes "\<forall>l a b e. kn_send_to K l a b = Inl e \<longrightarrow> e \<in> transient_errors" and "io_outside_plugins io = []"
    and "udp_send (client_udp_ops LinuxPlatform K u) buf lane io = Some (r, io')"
  shows "r \<noteq> IoErr x"
proof -
  have "fst (sock_send (client_udp_ops LinuxPlatform K u) b v) \<noteq> IoErr y" for b v y
    using linux_send_never_fails [OF assms(1)] by (simp add: sock_send_def Let_def)
  then have ok: "sock_send (client_udp_ops LinuxPlatform K u) b v \<noteq> (IoErr y, w)" for b v y w by (metis fst_conv)
  then have "udp_send_final (client_udp_ops LinuxPlatform K u) b buf v \<noteq> (IoErr x, w)" for b v w
    by (auto simp: udp_send_final_def split: prod.split io_result.split)
  with ok show ?thesis using assms(2,3)
    by (auto simp: udp_send_def do_egress_def Let_def bind_eq_Some_conv split: if_splits prod.splits io_result.splits)
qed

end
