(* ===== verification/App_Timers.thy ===== *)
theory App_Timers
  imports Connection_Laws
begin

text \<open>
  The timers of an application: the timer of the path MTU discovery
  (lightway-app-utils/src/dplpmtud_timer.rs) and the ticker of a connection
  (lightway-app-utils/src/connection_ticker.rs). A spawned task is polled at arbitrary times; when
  both branches of its \<open>select!\<close> are ready, either may be taken.
\<close>

section \<open>The timer of the path MTU discovery\<close>

record timer_task =
  tt_token :: nat
  tt_deadline :: instant

text \<open>
  \<open>pt_running\<close> is the token of the timer that was started last and not stopped, \<open>pt_cancelled\<close> the
  cancelled tokens, \<open>pt_sent\<close> the ticks with their time.
\<close>

record pmtud_timer =
  pt_running :: "nat option"
  pt_tasks :: "timer_task list"
  pt_cancelled :: "nat list"
  pt_next :: nat
  pt_sent :: "(nat \<times> instant) list"

definition pmtud_timer_new :: pmtud_timer where
  "pmtud_timer_new = \<lparr>pt_running = None, pt_tasks = [], pt_cancelled = [], pt_next = 0, pt_sent = []\<rparr>"

definition cancel_running :: "pmtud_timer \<Rightarrow> pmtud_timer" where
  "cancel_running t = (case pt_running t of None \<Rightarrow> t | Some token \<Rightarrow> t\<lparr>pt_cancelled := token # pt_cancelled t\<rparr>)"

definition pmtud_timer_start :: "duration \<Rightarrow> instant \<Rightarrow> pmtud_timer \<Rightarrow> pmtud_timer" where
  "pmtud_timer_start d now t =
     (let token = pt_next t; t = cancel_running t in
      t\<lparr>pt_running := Some token, pt_next := token + 1, pt_tasks := pt_tasks t @ [\<lparr>tt_token = token, tt_deadline = now + d\<rparr>]\<rparr>)"

definition pmtud_timer_stop :: "pmtud_timer \<Rightarrow> pmtud_timer" where
  "pmtud_timer_stop t = (cancel_running t)\<lparr>pt_running := None\<rparr>"

text \<open>The task of a token is polled at \<open>now\<close>; \<open>prefer_tick\<close> is the choice of \<open>select!\<close>.\<close>

definition poll_task :: "nat \<Rightarrow> instant \<Rightarrow> bool \<Rightarrow> pmtud_timer \<Rightarrow> pmtud_timer" where
  "poll_task token now prefer_tick t =
     (case find (\<lambda>k. tt_token k = token) (pt_tasks t) of
        None \<Rightarrow> t
      | Some k \<Rightarrow>
          (let cancelled = token \<in> set (pt_cancelled t); elapsed = tt_deadline k \<le> now;
               gone = t\<lparr>pt_tasks := filter (\<lambda>k. tt_token k \<noteq> token) (pt_tasks t)\<rparr>
           in if elapsed \<and> (\<not> cancelled \<or> prefer_tick) then gone\<lparr>pt_sent := pt_sent t @ [(token, now)]\<rparr>
              else if cancelled then gone
              else t))"

datatype timer_event = TimerStarted duration instant | TimerStopped | TaskPolled nat instant bool

fun timer_step :: "timer_event \<Rightarrow> pmtud_timer \<Rightarrow> pmtud_timer" where
  "timer_step (TimerStarted d now) t = pmtud_timer_start d now t"
| "timer_step TimerStopped t = pmtud_timer_stop t"
| "timer_step (TaskPolled token now prefer) t = poll_task token now prefer t"

text \<open>
  The timers started, by their token, with the deadline of each. A task is alive or has sent its
  tick, not both, and only the running one is not cancelled.
\<close>

definition starts :: "timer_event list \<Rightarrow> instant list" where
  "starts evs = concat (map (\<lambda>e. case e of TimerStarted d now \<Rightarrow> [now + d] | _ \<Rightarrow> []) evs)"

lemma starts_simps [simp]:
  "starts [] = []" "starts (evs @ [TimerStarted d now]) = starts evs @ [now + d]"
  "starts (evs @ [TimerStopped]) = starts evs" "starts (evs @ [TaskPolled k now p]) = starts evs"
  by (simp_all add: starts_def)

definition timer_inv :: "instant list \<Rightarrow> pmtud_timer \<Rightarrow> bool" where
  "timer_inv ds t \<longleftrightarrow> pt_next t = length ds
    \<and> (\<forall>k\<in>set (pt_tasks t). tt_token k < length ds \<and> tt_deadline k = ds ! tt_token k)
    \<and> distinct (map tt_token (pt_tasks t))
    \<and> (\<forall>(token, at)\<in>set (pt_sent t). token < length ds \<and> ds ! token \<le> at \<and> token \<notin> tt_token ` set (pt_tasks t))
    \<and> distinct (map fst (pt_sent t))
    \<and> (\<forall>k\<in>set (pt_tasks t). tt_token k \<in> set (pt_cancelled t) \<or> pt_running t = Some (tt_token k))"

lemma timer_inv_start: "timer_inv ds t \<Longrightarrow> timer_inv (ds @ [now + d]) (pmtud_timer_start d now t)"
  unfolding timer_inv_def pmtud_timer_start_def cancel_running_def Let_def
  by (cases "pt_running t") (fastforce simp: nth_append less_Suc_eq)+

lemma timer_inv_stop: "timer_inv ds t \<Longrightarrow> timer_inv ds (pmtud_timer_stop t)"
  unfolding timer_inv_def pmtud_timer_stop_def cancel_running_def by (cases "pt_running t") fastforce+

lemma timer_inv_gone: "timer_inv ds t \<Longrightarrow> timer_inv ds (t\<lparr>pt_tasks := filter (\<lambda>k. tt_token k \<noteq> token) (pt_tasks t)\<rparr>)"
  by (auto simp: timer_inv_def distinct_map_filter)

lemma timer_inv_sent:
  "timer_inv ds t \<Longrightarrow> token \<notin> tt_token ` set (pt_tasks t) \<Longrightarrow> token \<notin> fst ` set (pt_sent t) \<Longrightarrow> token < length ds
    \<Longrightarrow> ds ! token \<le> now \<Longrightarrow> timer_inv ds (t\<lparr>pt_sent := pt_sent t @ [(token, now)]\<rparr>)"
  by (auto simp: timer_inv_def)

lemma timer_inv_poll:
  assumes "timer_inv ds t"
  shows "timer_inv ds (poll_task token now prefer t)"
proof (cases "find (\<lambda>k. tt_token k = token) (pt_tasks t)")
  case (Some k)
  let ?gone = "t\<lparr>pt_tasks := filter (\<lambda>k. tt_token k \<noteq> token) (pt_tasks t)\<rparr>"
  have k: "k \<in> set (pt_tasks t)" "tt_token k = token" using Some by (auto simp: find_Some_iff)
  then have "token < length ds" "tt_deadline k = ds ! token" using assms by (auto simp: timer_inv_def)
  moreover have "token \<notin> fst ` set (pt_sent t)" using assms k unfolding timer_inv_def by fastforce
  ultimately have "tt_deadline k \<le> now \<Longrightarrow> timer_inv ds (?gone\<lparr>pt_sent := pt_sent ?gone @ [(token, now)]\<rparr>)"
    by (intro timer_inv_sent timer_inv_gone assms) auto
  then show ?thesis using Some assms timer_inv_gone [OF assms] by (simp add: poll_task_def Let_def)
qed (use assms in \<open>simp add: poll_task_def\<close>)

lemma timer_inv_run: "timer_inv (starts evs) (fold timer_step evs pmtud_timer_new)"
proof (induction evs rule: rev_induct)
  case (snoc e evs)
  then show ?case by (cases e) (simp_all add: timer_inv_start timer_inv_stop timer_inv_poll)
qed (simp add: timer_inv_def pmtud_timer_new_def)

text \<open>
  However starts, stops and polls interleave: every start gives at most one tick and none before its
  deadline, and at most one timer is pending that was neither stopped nor replaced.
\<close>

lemma pmtud_timer_sound:
  assumes "t = fold timer_step evs pmtud_timer_new"
  shows "distinct (map fst (pt_sent t)) \<and> length (pt_sent t) \<le> length (starts evs)
    \<and> (\<forall>(token, at)\<in>set (pt_sent t). starts evs ! token \<le> at)
    \<and> length (filter (\<lambda>k. tt_token k \<notin> set (pt_cancelled t)) (pt_tasks t)) \<le> 1"
proof -
  have inv: "timer_inv (starts evs) t" using timer_inv_run assms by simp
  then have "fst ` set (pt_sent t) \<subseteq> {..<length (starts evs)}" unfolding timer_inv_def by fastforce
  moreover have "length (pt_sent t) = card (fst ` set (pt_sent t))"
    using inv distinct_card [of "map fst (pt_sent t)"] by (simp add: timer_inv_def)
  ultimately have len: "length (pt_sent t) \<le> length (starts evs)" using card_mono [of "{..<length (starts evs)}"] by fastforce
  let ?live = "filter (\<lambda>k. tt_token k \<notin> set (pt_cancelled t)) (pt_tasks t)"
  have "tt_token ` set ?live \<subseteq> set_option (pt_running t)" using inv unfolding timer_inv_def by force
  moreover have fin: "finite (set_option (pt_running t))" by (cases "pt_running t") auto
  moreover have "distinct (map tt_token ?live)" using inv by (simp add: timer_inv_def distinct_map_filter)
  ultimately have "length ?live \<le> card (set_option (pt_running t))"
    using card_mono [OF fin] distinct_card by (metis length_map set_map)
  also have "\<dots> \<le> 1" by (cases "pt_running t") auto
  finally show ?thesis using len inv unfolding timer_inv_def by fastforce
qed

text \<open>A stopped timer whose task is polled in time gives no tick; one polled late may.\<close>

lemma stopped_in_time:
  assumes "pt_running t = Some token" and "find (\<lambda>k. tt_token k = token) (pt_tasks t) = Some k" and "now < tt_deadline k"
  shows "pt_sent (poll_task token now prefer (pmtud_timer_stop t)) = pt_sent t
    \<and> token \<notin> tt_token ` set (pt_tasks (poll_task token now prefer (pmtud_timer_stop t)))"
  using assms by (auto simp: poll_task_def pmtud_timer_stop_def cancel_running_def Let_def)

lemma stopped_late_may_tick:
  "pt_sent (poll_task 0 5 True (pmtud_timer_stop (pmtud_timer_start 5 0 pmtud_timer_new))) = [(0, 5)]"
  by (simp add: poll_task_def pmtud_timer_stop_def pmtud_timer_start_def cancel_running_def pmtud_timer_new_def Let_def)

section \<open>The ticker of a connection\<close>

text \<open>
  The task of the ticker on the ticks it receives; \<open>None\<close> in place of the connection is a weak
  reference that is gone. The result is the connection, and whether the task goes on.
\<close>

fun ticker_task ::
  "('s, 'k, 'm) conn_env \<Rightarrow> (tick_type \<times> bool) list \<Rightarrow> ('s, 'k, 'm) conn \<Rightarrow> (bool \<times> ('s, 'k, 'm) conn) option" where
  "ticker_task E [] c = Some (True, c)"
| "ticker_task E ((t, alive) # ts) c =
     (if \<not> alive then Some (False, c)
      else case tick E t c of
          Ret _ c \<Rightarrow> ticker_task E ts c
        | Err e c \<Rightarrow> if e = CeTimedOut then Some (False, c) else ticker_task E ts c
        | _ \<Rightarrow> None)"

lemma conn_runs_trans: "conn_runs E b c \<Longrightarrow> conn_runs E a b \<Longrightarrow> conn_runs E a c"
  by (induction rule: conn_runs.induct) (auto intro: conn_runs.call)

lemma disconnect_runs: "conn_runs E c c1 \<Longrightarrow> exec_state (disconnect E c1) = Some c' \<Longrightarrow> conn_runs E c c'"
  by (rule conn_runs.call [of E c c1 0 CallDisconnect]) simp_all

lemma ticker_task_runs: "ticker_task E ts c = Some (b, c') \<Longrightarrow> conn_runs E c c'"
proof (induction ts arbitrary: c)
  case (Cons x ts)
  obtain t alive where x: "x = (t, alive)" by (cases x)
  have one: "conn_runs E c c1" if "exec_state (tick E t c) = Some c1" for c1
    using conn_runs.call [OF conn_runs.none, of E 0 "CallTick t" c c1] that by simp
  show ?case using Cons x one by (cases "tick E t c") (auto intro: conn_runs.none conn_runs_trans split: if_splits)
qed (simp add: conn_runs.none)

text \<open>After a timeout of the DTLS session the task ends: ticks that come later are not delivered.\<close>

lemma ticker_stops_on_timeout: "tick E t c = Err CeTimedOut c1 \<Longrightarrow> ticker_task E ((t, True) # ts) c = Some (False, c1)"
  by simp

end
