(* ===== verification/Server_Sockets.thy ===== *)
theory Server_Sockets
  imports Client_Sockets Send_Queue App_Timers
begin

text \<open>
  The outside sockets of a server (lightway-server/src/io/outside/udp.rs with the metadata of
  udp/batch_receive.rs, and tcp.rs): which address a datagram arrived at, receiving one datagram or a
  batch, sending from the address the client contacted, the PROXY header and the task of a TCP
  connection. The kernel and the crate ppp are parameters.
\<close>

section \<open>Packet information\<close>

text \<open>An \<open>in_addr\<close> is four bytes in network order.\<close>

record in_pktinfo =
  ipi_ifindex :: int
  ipi_spec_dst :: bytes
  ipi_addr :: bytes

datatype cmsg_message = IpPktinfo in_pktinfo | UnknownMessage nat

datatype bind_mode = UnspecifiedAddress u16 | SpecificAddress sock_addr

definition needs_pktinfo :: "bind_mode \<Rightarrow> bool" where
  "needs_pktinfo m = (case m of UnspecifiedAddress _ \<Rightarrow> True | SpecificAddress _ \<Rightarrow> False)"

definition sock_addr_unspecified :: "sock_addr \<Rightarrow> bool" where
  "sock_addr_unspecified a = (case a of SockAddrV4 ip _ \<Rightarrow> ip = 0 | SockAddrV6 ip _ \<Rightarrow> ip = 0)"

definition sock_addr_port :: "sock_addr \<Rightarrow> u16" where
  "sock_addr_port a = (case a of SockAddrV4 _ p \<Rightarrow> p | SockAddrV6 _ p \<Rightarrow> p)"

text \<open>The bind mode \<open>UdpServer::new\<close> chooses.\<close>

definition bind_mode_for :: "sock_addr \<Rightarrow> bind_mode" where
  "bind_mode_for bind_address =
     (if sock_addr_unspecified bind_address then UnspecifiedAddress (sock_addr_port bind_address) else SpecificAddress bind_address)"

fun find_pktinfo_from_iter :: "cmsg_message list \<Rightarrow> u16 \<Rightarrow> (sock_addr \<times> in_pktinfo) option" where
  "find_pktinfo_from_iter [] local_port = None"
| "find_pktinfo_from_iter (IpPktinfo p # ms) local_port =
     Some (SockAddrV4 (be_word (ipi_spec_dst p)) local_port,
           \<lparr>ipi_ifindex = 0, ipi_spec_dst = ipi_spec_dst p, ipi_addr = [0, 0, 0, 0]\<rparr>)"
| "find_pktinfo_from_iter (UnknownMessage _ # ms) local_port = find_pktinfo_from_iter ms local_port"

section \<open>Receiving\<close>

text \<open>A datagram as the kernel hands it over: \<open>kd_from\<close> is \<open>None\<close> for an address that is no IP address.\<close>

record kernel_datagram =
  kd_payload :: bytes
  kd_from :: "sock_addr option"
  kd_control :: "cmsg_message list"

datatype recv_error = RecvOs sock_error | RecvInvalidAddr | RecvMissingPktinfo

record recv_metadata =
  rm_peer :: sock_addr
  rm_local :: sock_addr
  rm_reply_pktinfo :: "in_pktinfo option"

text \<open>The addresses of a received datagram, in \<open>read_single_from_socket\<close> and for each slot of a batch.\<close>

definition resolve_metadata :: "bind_mode \<Rightarrow> kernel_datagram \<Rightarrow> recv_error + recv_metadata" where
  "resolve_metadata m d =
     (case kd_from d of
        None \<Rightarrow> Inl RecvInvalidAddr
      | Some peer_addr \<Rightarrow>
          (case m of
             UnspecifiedAddress local_port \<Rightarrow>
               (case find_pktinfo_from_iter (kd_control d) local_port of
                  None \<Rightarrow> Inl RecvMissingPktinfo
                | Some (local_addr, pktinfo) \<Rightarrow> Inr \<lparr>rm_peer = peer_addr, rm_local = local_addr, rm_reply_pktinfo = Some pktinfo\<rparr>)
           | SpecificAddress local_addr \<Rightarrow> Inr \<lparr>rm_peer = peer_addr, rm_local = local_addr, rm_reply_pktinfo = None\<rparr>))"

text \<open>The buffer has \<open>MAX_OUTSIDE_MTU\<close> bytes; the rest of a longer datagram is cut off.\<close>

definition OUTSIDE_BUFFER :: usize where [const_defs]: "OUTSIDE_BUFFER = 1500"

definition read_single_from_socket :: "bind_mode \<Rightarrow> sock_error + kernel_datagram \<Rightarrow> recv_error + (bytes \<times> recv_metadata)" where
  "read_single_from_socket m answer =
     (case answer of
        Inl e \<Rightarrow> Inl (RecvOs e)
      | Inr d \<Rightarrow>
          (case resolve_metadata m d of Inl e \<Rightarrow> Inl e | Inr md \<Rightarrow> Inr (take OUTSIDE_BUFFER (kd_payload d), md)))"

fun slots_metadata :: "bind_mode \<Rightarrow> kernel_datagram list \<Rightarrow> recv_error + recv_metadata list" where
  "slots_metadata m [] = Inr []"
| "slots_metadata m (d # ds) =
     (case resolve_metadata m d of
        Inl e \<Rightarrow> Inl e
      | Inr md \<Rightarrow> (case slots_metadata m ds of Inl e \<Rightarrow> Inl e | Inr mds \<Rightarrow> Inr (md # mds)))"

definition read_multiple_from_socket ::
  "bind_mode \<Rightarrow> usize \<Rightarrow> sock_error + kernel_datagram list \<Rightarrow> recv_error + (bytes list \<times> recv_metadata list)" where
  "read_multiple_from_socket m max_batch_size answer =
     (case answer of
        Inl e \<Rightarrow> Inl (RecvOs e)
      | Inr ds \<Rightarrow>
          if length ds > min max_batch_size MAX_IO_BATCH_SIZE then Inl (RecvOs (OtherOsError 0))
          else (case slots_metadata m ds of
              Inl e \<Rightarrow> Inl e
            | Inr mds \<Rightarrow> Inr (map (\<lambda>d. take OUTSIDE_BUFFER (kd_payload d)) ds, mds)))"

text \<open>
  One round of \<open>run_single\<close> and of \<open>run_batch\<close>; \<open>handle\<close> is \<open>data_received\<close>. An error ends the server.
\<close>

definition run_single_round ::
  "(recv_metadata \<Rightarrow> bytes \<Rightarrow> 'st \<Rightarrow> 'st) \<Rightarrow> bind_mode \<Rightarrow> sock_error + kernel_datagram \<Rightarrow> 'st \<Rightarrow> recv_error + 'st" where
  "run_single_round handle m answer s =
     (case read_single_from_socket m answer of Inl e \<Rightarrow> Inl e | Inr (buf, md) \<Rightarrow> Inr (handle md buf s))"

definition run_batch_round ::
  "(recv_metadata \<Rightarrow> bytes \<Rightarrow> 'st \<Rightarrow> 'st) \<Rightarrow> bind_mode \<Rightarrow> sock_error + kernel_datagram list \<Rightarrow> 'st \<Rightarrow> recv_error + 'st" where
  "run_batch_round handle m answer s =
     (case read_multiple_from_socket m MAX_IO_BATCH_SIZE answer of
        Inl e \<Rightarrow> Inl e
      | Inr (bufs, mds) \<Rightarrow> Inr (fold (\<lambda>(buf, md). handle md buf) (zip bufs mds) s))"

fun run_single_rounds ::
  "(recv_metadata \<Rightarrow> bytes \<Rightarrow> 'st \<Rightarrow> 'st) \<Rightarrow> bind_mode \<Rightarrow> kernel_datagram list \<Rightarrow> 'st \<Rightarrow> recv_error + 'st" where
  "run_single_rounds handle m [] s = Inr s"
| "run_single_rounds handle m (d # ds) s =
     (case run_single_round handle m (Inr d) s of Inl e \<Rightarrow> Inl e | Inr s' \<Rightarrow> run_single_rounds handle m ds s')"

section \<open>Sending\<close>

datatype send_control = ControlPktinfo in_pktinfo | ControlUdpSegment u16

definition send_controls :: "in_pktinfo option \<Rightarrow> u16 option \<Rightarrow> send_control list" where
  "send_controls pktinfo gso_size =
     (case pktinfo of None \<Rightarrow> [] | Some p \<Rightarrow> [ControlPktinfo p]) @ (case gso_size of None \<Rightarrow> [] | Some n \<Rightarrow> [ControlUdpSegment n])"

text \<open>\<open>sendmsg\<close> takes the buffers, the address and the control messages.\<close>

type_synonym sendmsg = "bytes list \<Rightarrow> sock_addr \<Rightarrow> send_control list \<Rightarrow> sock_error + usize"

definition send_to_socket :: "sendmsg \<Rightarrow> bytes list \<Rightarrow> sock_addr \<Rightarrow> in_pktinfo option \<Rightarrow> u16 option \<Rightarrow> io_result" where
  "send_to_socket sendmsg bufs peer_addr pktinfo gso_size =
     (case sendmsg bufs peer_addr (send_controls pktinfo gso_size) of
        Inr nr \<Rightarrow> IoOk nr
      | Inl e \<Rightarrow> if e = EWouldBlock then IoWouldBlock else IoErr (os_io_error e))"

record server_udp_socket =
  su_peer_addr :: sock_addr
  su_reply_pktinfo :: "in_pktinfo option"

definition server_udp_send ::
  "sendmsg \<Rightarrow> bytes \<Rightarrow> server_udp_socket \<Rightarrow> in_pktinfo send_queue \<Rightarrow> io_result \<times> in_pktinfo send_queue" where
  "server_udp_send sendmsg buf u q =
     udp_socket_send (\<lambda>d. send_to_socket sendmsg [qd_data d] (qd_peer d) (qd_pktinfo d) None)
       \<lparr>qd_peer = su_peer_addr u, qd_pktinfo = su_reply_pktinfo u, qd_data = buf\<rparr> q"

definition server_udp_send_gso :: "sendmsg \<Rightarrow> bytes list \<Rightarrow> u16 \<Rightarrow> server_udp_socket \<Rightarrow> io_result" where
  "server_udp_send_gso sendmsg bufs gso_size u = send_to_socket sendmsg bufs (su_peer_addr u) (su_reply_pktinfo u) (Some gso_size)"

definition server_udp_set_peer_addr :: "sock_addr \<Rightarrow> server_udp_socket \<Rightarrow> sock_addr \<times> server_udp_socket" where
  "server_udp_set_peer_addr addr u = (su_peer_addr u, u\<lparr>su_peer_addr := addr\<rparr>)"

text \<open>The socket \<open>data_received\<close> makes for a new connection.\<close>

definition server_udp_socket_for :: "recv_metadata \<Rightarrow> server_udp_socket" where
  "server_udp_socket_for md = \<lparr>su_peer_addr = rm_peer md, su_reply_pktinfo = rm_reply_pktinfo md\<rparr>"

definition send_reject :: "sendmsg \<Rightarrow> sock_addr \<Rightarrow> in_pktinfo option \<Rightarrow> io_result" where
  "send_reject sendmsg peer_addr reply_pktinfo =
     send_to_socket sendmsg
       [header_append_to_wire \<lparr>hdr_version = version_MINIMUM, hdr_aggressive_mode = False, hdr_expresslane_data = False,
          hdr_session = SESSION_REJECTED\<rparr> []]
       peer_addr reply_pktinfo None"

section \<open>TCP\<close>

datatype proxy_addresses = ProxyUnspecified | ProxyIpv4 u32 u16 | ProxyIpv6 | ProxyUnix

text \<open>The parser of the crate ppp: the addresses, how many bytes are missing, or an error.\<close>

datatype proxy_parse = ProxyHeader proxy_addresses | ProxyPartial usize | ProxyParseError nat

datatype proxy_error =
    ProxyReadInitial | ProxyUnexpectedlyParsed | ProxyParseInitial nat | ProxyReadRemainder | ProxyParseComplete
  | ProxyUnspecifiedConnection | ProxyIpv6Connection | ProxyUnixConnection

definition PROXY_MINIMUM_LENGTH :: usize where [const_defs]: "PROXY_MINIMUM_LENGTH = 16"

text \<open>\<open>read_exact\<close> on a stream that ends after its bytes.\<close>

definition read_exact :: "usize \<Rightarrow> bytes \<Rightarrow> (bytes \<times> bytes) option" where
  "read_exact n stream = (if length stream < n then None else Some (take n stream, drop n stream))"

definition handle_proxy_protocol :: "(bytes \<Rightarrow> proxy_parse) \<Rightarrow> bytes \<Rightarrow> proxy_error + (sock_addr \<times> bytes)" where
  "handle_proxy_protocol parse stream =
     (case read_exact PROXY_MINIMUM_LENGTH stream of
        None \<Rightarrow> Inl ProxyReadInitial
      | Some (header, stream) \<Rightarrow>
          (case parse header of
             ProxyHeader _ \<Rightarrow> Inl ProxyUnexpectedlyParsed
           | ProxyParseError e \<Rightarrow> Inl (ProxyParseInitial e)
           | ProxyPartial rest \<Rightarrow>
               (case read_exact rest stream of
                  None \<Rightarrow> Inl ProxyReadRemainder
                | Some (remainder, stream) \<Rightarrow>
                    (case parse (header @ remainder) of
                       ProxyHeader ProxyUnspecified \<Rightarrow> Inl ProxyUnspecifiedConnection
                     | ProxyHeader (ProxyIpv4 ip port) \<Rightarrow> Inr (SockAddrV4 ip port, stream)
                     | ProxyHeader ProxyIpv6 \<Rightarrow> Inl ProxyIpv6Connection
                     | ProxyHeader ProxyUnix \<Rightarrow> Inl ProxyUnixConnection
                     | _ \<Rightarrow> Inl ProxyParseComplete))))"

text \<open>What completes in the \<open>select!\<close> of \<open>handle_connection\<close>, with the read that follows readiness.\<close>

datatype tcp_task_event = TcpNotReadable sock_error | TcpRead "sock_error + bytes" | TcpAgeTimer

datatype tcp_close_reason =
    TcpSockReadable sock_error | TcpNotOnline | TcpEndOfStream | TcpReadError sock_error | TcpFatal connection_error

text \<open>
  One round: the reason to leave the loop, if any, and the connection. \<open>None\<close> is a panic of the
  connection. A fatal error disconnects at once (\<open>handle_outside_data_error\<close>).
\<close>

definition tcp_task_round ::
  "('s, 'k, 'm) conn_env \<Rightarrow> nat \<Rightarrow> tcp_task_event \<Rightarrow> ('s, 'k, 'm) conn \<Rightarrow> (tcp_close_reason option \<times> ('s, 'k, 'm) conn) option" where
  "tcp_task_round E fuel ev c =
     (case ev of
        TcpNotReadable e \<Rightarrow> Some (Some (TcpSockReadable e), c)
      | TcpAgeTimer \<Rightarrow> Some (if cn_state c \<noteq> Online then Some TcpNotOnline else None, c)
      | TcpRead (Inl e) \<Rightarrow> Some (if e = EWouldBlock then None else Some (TcpReadError e), c)
      | TcpRead (Inr d) \<Rightarrow>
          if d = [] then Some (Some TcpEndOfStream, c)
          else (case outside_data_received E fuel (WirePkt d Stream) c of
              Ret _ c \<Rightarrow> Some (None, c)
            | Err e c \<Rightarrow>
                if is_fatal (cn_connection_type c) e
                then map_option (\<lambda>c. (Some (TcpFatal e), c)) (exec_state (disconnect E c))
                else Some (None, c)
            | _ \<Rightarrow> None))"

text \<open>The loop over the events, and the disconnection after it.\<close>

fun tcp_task ::
  "('s, 'k, 'm) conn_env \<Rightarrow> nat \<Rightarrow> tcp_task_event list \<Rightarrow> ('s, 'k, 'm) conn \<Rightarrow> (tcp_close_reason option \<times> ('s, 'k, 'm) conn) option" where
  "tcp_task E fuel [] c = Some (None, c)"
| "tcp_task E fuel (ev # evs) c =
     (case tcp_task_round E fuel ev c of
        None \<Rightarrow> None
      | Some (None, c) \<Rightarrow> tcp_task E fuel evs c
      | Some (Some reason, c) \<Rightarrow> map_option (\<lambda>c. (Some reason, c)) (exec_state (disconnect E c)))"

text \<open>\<open>handle_connection\<close> up to the creation of the connection: the address and what is left of the stream.\<close>

definition tcp_peer :: "(bytes \<Rightarrow> proxy_parse) \<Rightarrow> bool \<Rightarrow> sock_addr \<Rightarrow> bytes \<Rightarrow> (sock_addr \<times> bytes) option" where
  "tcp_peer parse proxy_protocol peer_addr stream =
     (if proxy_protocol then (case handle_proxy_protocol parse stream of Inl _ \<Rightarrow> None | Inr r \<Rightarrow> Some r)
      else Some (peer_addr, stream))"

section \<open>Batches are sequences of single receives\<close>

lemma slots_metadata_Inr:
  "slots_metadata m ds = Inr mds \<Longrightarrow> length mds = length ds \<and> (\<forall>i<length ds. resolve_metadata m (ds ! i) = Inr (mds ! i))"
proof (induction ds arbitrary: mds)
  case (Cons d ds)
  then obtain md rest where "resolve_metadata m d = Inr md" "slots_metadata m ds = Inr rest" "mds = md # rest"
    by (auto split: sum.splits)
  then show ?case using Cons.IH by (auto simp: nth_Cons split: nat.split)
qed simp

text \<open>
  A batch that resolves is handled like its datagrams received one at a time: each with its own
  bytes and addresses, in the order of their arrival.
\<close>

lemma run_batch_is_singles:
  assumes "run_batch_round handle m (Inr ds) s = Inr s'"
  shows "run_single_rounds handle m ds s = Inr s'"
proof -
  have mds: "\<exists>mds. slots_metadata m ds = Inr mds \<and> s' = fold (\<lambda>(buf, md). handle md buf) (zip (map (\<lambda>d. take OUTSIDE_BUFFER (kd_payload d)) ds) mds) s"
    using assms by (auto simp: run_batch_round_def read_multiple_from_socket_def split: sum.splits if_splits)
  have "slots_metadata m ds = Inr mds \<Longrightarrow>
      run_single_rounds handle m ds s = Inr (fold (\<lambda>(buf, md). handle md buf) (zip (map (\<lambda>d. take OUTSIDE_BUFFER (kd_payload d)) ds) mds) s)" for mds
  proof (induction ds arbitrary: mds s)
    case (Cons d ds)
    then obtain md rest where "resolve_metadata m d = Inr md" "slots_metadata m ds = Inr rest" "mds = md # rest"
      by (auto split: sum.splits)
    then show ?case using Cons.IH [of rest] by (simp add: run_single_round_def read_single_from_socket_def)
  qed simp
  with mds show ?thesis by blast
qed

lemma run_batch_total:
  assumes "length ds \<le> MAX_IO_BATCH_SIZE" and "run_single_rounds handle m ds s = Inr s'"
  shows "run_batch_round handle m (Inr ds) s = Inr s'"
proof -
  have "\<exists>mds. slots_metadata m ds = Inr mds" using assms(2)
    by (induction ds arbitrary: s) (force simp: run_single_round_def read_single_from_socket_def split: sum.splits)+
  then obtain r where "run_batch_round handle m (Inr ds) s = Inr r"
    using assms(1) by (auto simp: run_batch_round_def read_multiple_from_socket_def const_defs)
  then show ?thesis using run_batch_is_singles assms(2) by fastforce
qed

section \<open>Replies leave from the contacted address\<close>

text \<open>
  Behind a wildcard address, every datagram to a new client names as its source the address the
  client's first datagram arrived at, and goes back to where that came from; both hold for single
  sends, batches and segments.
\<close>

lemma replies_from_contacted_address:
  assumes "read_single_from_socket (UnspecifiedAddress port) (Inr d) = Inr (buf, md)"
  shows "\<exists>p. IpPktinfo p \<in> set (kd_control d) \<and> rm_local md = SockAddrV4 (be_word (ipi_spec_dst p)) port \<and> kd_from d = Some (rm_peer md)
    \<and> (let u = server_udp_socket_for md; reply = \<lparr>ipi_ifindex = 0, ipi_spec_dst = ipi_spec_dst p, ipi_addr = [0, 0, 0, 0]\<rparr> in
       server_udp_send_gso sendmsg bufs n u = send_to_socket sendmsg bufs (rm_peer md) (Some reply) (Some n)
       \<and> send_controls (su_reply_pktinfo u) (Some n) = [ControlPktinfo reply, ControlUdpSegment n]
       \<and> (sq_queue q = Some ds \<longrightarrow>
            snd (server_udp_send sendmsg out u q) = q\<lparr>sq_queue := Some (ds @ [\<lparr>qd_peer = rm_peer md, qd_pktinfo = Some reply, qd_data = out\<rparr>])\<rparr>)
       \<and> (sq_queue q = None \<longrightarrow> fst (server_udp_send sendmsg out u q) = send_to_socket sendmsg [out] (rm_peer md) (Some reply) None))"
proof -
  obtain p where p: "find_pktinfo_from_iter (kd_control d) port = Some (rm_local md, the (rm_reply_pktinfo md))"
    "rm_reply_pktinfo md = Some p" "kd_from d = Some (rm_peer md)"
    using assms by (auto simp: read_single_from_socket_def resolve_metadata_def split: sum.splits option.splits)
  have "\<exists>p. IpPktinfo p \<in> set ms \<and> local = SockAddrV4 (be_word (ipi_spec_dst p)) port
      \<and> reply = \<lparr>ipi_ifindex = 0, ipi_spec_dst = ipi_spec_dst p, ipi_addr = [0, 0, 0, 0]\<rparr>"
    if "find_pktinfo_from_iter ms port = Some (local, reply)" for ms local reply
    using that by (induction ms port rule: find_pktinfo_from_iter.induct) auto
  from this [OF p(1)] p(2,3) show ?thesis
    by (auto simp: server_udp_send_gso_def server_udp_send_def server_udp_socket_for_def send_controls_def udp_socket_send_def
        try_enqueue_def Let_def split: io_result.splits)
qed

section \<open>Streams\<close>

text \<open>The PROXY header is taken off the stream exactly: the connection reads the bytes behind it.\<close>

lemma proxy_header_consumed:
  assumes "handle_proxy_protocol parse stream = Inr (addr, rest)"
  shows "\<exists>header n ip port. stream = header @ rest \<and> length header = 16 + n \<and> parse (take 16 header) = ProxyPartial n
    \<and> parse header = ProxyHeader (ProxyIpv4 ip port) \<and> addr = SockAddrV4 ip port"
proof -
  obtain n ip port where h: "16 \<le> length stream" "parse (take 16 stream) = ProxyPartial n" "n \<le> length (drop 16 stream)"
    "parse (take 16 stream @ take n (drop 16 stream)) = ProxyHeader (ProxyIpv4 ip port)" "addr = SockAddrV4 ip port" "rest = drop n (drop 16 stream)"
    using assms by (auto simp: handle_proxy_protocol_def read_exact_def const_defs split: option.splits proxy_parse.splits proxy_addresses.splits if_splits)
  have "stream = (take 16 stream @ take n (drop 16 stream)) @ rest" using h(6) by (metis append_assoc append_take_drop_id)
  then show ?thesis using h by (intro exI [of _ "take 16 stream @ take n (drop 16 stream)"] exI [of _ n]) auto
qed

text \<open>The task stays within the runs of the model and leaves a connection that carries nothing any more.\<close>

definition closing :: "('s, 'k, 'm) conn \<Rightarrow> ('s, 'k, 'm) conn \<Rightarrow> bool" where
  "closing c c' \<longleftrightarrow> (cn_state c \<in> {Disconnecting, Disconnected} \<longrightarrow> cn_state c' \<in> {Disconnecting, Disconnected})"

interpretation closing: step_rel closing
  by unfold_locales (auto simp: closing_def)

lemma closing_calm: "steps F calm m c \<Longrightarrow> steps F closing m c"
  by (erule steps_mono) (simp add: closing_def calm_def)

lemma closing_set_state: "st \<in> {Disconnecting, Disconnected} \<Longrightarrow> steps F closing (set_state E st) c"
  by (auto simp: set_state_plain steps_def closing_def enter_state_def exec_defs conn_event_def app_note_def split: if_splits)

lemma disconnect_closes:
  assumes "exec_state (disconnect E c) = Some c'"
  shows "cn_state c' \<in> {Connecting, Disconnecting, Disconnected}"
proof (cases "cn_state c \<in> {Disconnecting, Connecting, Disconnected}")
  case True
  then show ?thesis using assms by (auto simp: disconnect_def exec_defs)
next
  case False
  let ?rest = "then_do (with_state (\<lambda>c. do_when (is_server c) (app_note AppIpFree)))
    (ignoring (send_frame_or_queue E Goodbye) (ignoring (session_call (tls_try_shutdown (ce_tls E))) (set_state E Disconnected)))"
  have "\<exists>c1. set_state E Disconnecting c = Ret () c1 \<and> cn_state c1 = Disconnecting"
    by (simp add: set_state_plain enter_state_def exec_defs conn_event_def app_note_def)
  then obtain c1 where c1: "set_state E Disconnecting c = Ret () c1" "cn_state c1 = Disconnecting" by blast
  have "steps True closing ?rest c1"
    by (intro closing.steps_then_do closing.steps_ignoring closing_calm [OF calm_free] closing_calm [OF calm_send] closing_calm [OF calm_call]
        closing_set_state) simp_all
  moreover have "exec_state (?rest c1) = Some c'"
    using assms False c1(1) by (simp add: disconnect_def then_do_def and_then_def check_def)
  ultimately have "closing c1 c'" by (rule stepsD)
  then show ?thesis using c1(2) by (auto simp: closing_def)
qed

lemma outside_runs:
  "exec_state (outside_data_received E fuel pkt c) = Some c' \<Longrightarrow> conn_runs E c c'"
  by (rule conn_runs.call [OF conn_runs.none, of E fuel "CallOutside pkt"])
    (cases "outside_data_received E fuel pkt c"; simp add: then_do_def and_then_def ret_def)

lemma outside_runs_cases:
  "outside_data_received E fuel pkt c = Ret n c' \<Longrightarrow> conn_runs E c c'"
  "outside_data_received E fuel pkt c = Err e c' \<Longrightarrow> conn_runs E c c'"
  using outside_runs [of E fuel pkt c c'] by simp_all

lemma tcp_task_round_runs:
  assumes "tcp_task_round E fuel ev c = Some (r, c')"
  shows "conn_runs E c c'"
  using assms unfolding tcp_task_round_def
  by (auto intro: conn_runs.none disconnect_runs outside_runs_cases split: tcp_task_event.splits sum.splits exec.splits if_splits)

lemma tcp_task_sound:
  assumes "tcp_task E fuel evs c = Some (r, c')"
  shows "conn_runs E c c' \<and> (r \<noteq> None \<longrightarrow> cn_state c' \<in> {Connecting, Disconnecting, Disconnected})"
  using assms
proof (induction evs arbitrary: c)
  case (Cons ev evs)
  then obtain r1 c1 where one: "tcp_task_round E fuel ev c = Some (r1, c1)" by (auto split: option.splits)
  note runs = tcp_task_round_runs [OF one]
  show ?case
  proof (cases r1)
    case None
    then show ?thesis using Cons one runs by (auto intro: conn_runs_trans)
  next
    case (Some reason)
    then show ?thesis using Cons.prems one runs by (auto intro: disconnect_runs dest: disconnect_closes)
  qed
qed (auto intro: conn_runs.none)

end
