(* ===== verification/Server_Batch.thy ===== *)
theory Server_Batch
  imports Server_Sockets
begin

text \<open>
  The slots a server receives batches of datagrams into (lightway-server/src/io/outside/udp/batch_receive.rs,
  Linux): what a slot carries from one call of \<open>recvmmsg\<close> to the next, and that the loop over them is the
  batch of \<open>Server_Sockets\<close>: no data, address or control message of an earlier datagram is ever seen again.
\<close>

section \<open>Slots\<close>

text \<open>
  The bytes of the control buffer count only up to the length the kernel reported, so the two are one
  field. The address storage is \<open>None\<close> when it is zeroed or holds no IP address.
\<close>

record batch_recv_slot =
  bs_buf :: bytes
  bs_capacity :: usize
  bs_has_control :: bool
  bs_control :: "cmsg_message list option"
  bs_peer :: "sock_addr option"
  bs_truncated :: bool

definition batch_slot_new :: "usize \<Rightarrow> batch_recv_slot" where
  "batch_slot_new control_size = \<lparr>bs_buf = [], bs_capacity = OUTSIDE_BUFFER, bs_has_control = control_size > 0,
     bs_control = None, bs_peer = None, bs_truncated = False\<rparr>"

text \<open>The address storage is not touched.\<close>

definition batch_slot_reset :: "batch_recv_slot \<Rightarrow> batch_recv_slot" where
  "batch_slot_reset s = s\<lparr>bs_buf := [], bs_capacity := max (bs_capacity s) OUTSIDE_BUFFER, bs_control := None, bs_truncated := False\<rparr>"

definition take_peer_addr :: "batch_recv_slot \<Rightarrow> sock_addr option \<times> batch_recv_slot" where
  "take_peer_addr s = (bs_peer s, s\<lparr>bs_peer := None\<rparr>)"

definition slot_spare :: "batch_recv_slot \<Rightarrow> usize" where
  "slot_spare s = bs_capacity s - length (bs_buf s)"

text \<open>What the kernel and the loop after the call leave in a slot.\<close>

definition slot_fill :: "batch_recv_slot \<Rightarrow> kernel_datagram \<Rightarrow> batch_recv_slot" where
  "slot_fill s d =
     (let iov_len = min (slot_spare s) OUTSIDE_BUFFER in
      s\<lparr>bs_buf := bs_buf s @ take iov_len (kd_payload d), bs_peer := kd_from d,
        bs_control := (if bs_has_control s then Some (kd_control d) else bs_control s),
        bs_truncated := length (kd_payload d) > iov_len\<rparr>)"

text \<open>\<open>None\<close> is the assertion on the spare capacity.\<close>

definition recv_multiple_with_metadata ::
  "usize \<Rightarrow> sock_error + kernel_datagram list \<Rightarrow> batch_recv_slot list \<Rightarrow> ((sock_error + usize) \<times> batch_recv_slot list) option" where
  "recv_multiple_with_metadata max_batch_size answer slots =
     (let msg_count = min max_batch_size MAX_IO_BATCH_SIZE in
      if \<exists>s\<in>set (take msg_count slots). slot_spare s < OUTSIDE_BUFFER then None
      else case answer of
          Inl e \<Rightarrow> Some (Inl e, slots)
        | Inr ds \<Rightarrow>
            if length ds > msg_count then Some (Inl (OtherOsError 0), slots)
            else Some (Inr (length ds), map2 slot_fill slots ds @ drop (length ds) slots))"

section \<open>The loop over the slots\<close>

definition slot_metadata :: "bind_mode \<Rightarrow> batch_recv_slot \<Rightarrow> (recv_error + recv_metadata) \<times> batch_recv_slot" where
  "slot_metadata m s =
     (case take_peer_addr s of
        (None, s) \<Rightarrow> (Inl RecvInvalidAddr, s)
      | (Some peer_addr, s) \<Rightarrow>
          (case m of
             UnspecifiedAddress local_port \<Rightarrow>
               (case bs_control s of
                  None \<Rightarrow> (Inl RecvMissingPktinfo, s)
                | Some control \<Rightarrow>
                    (case find_pktinfo_from_iter control local_port of
                       None \<Rightarrow> (Inl RecvMissingPktinfo, s)
                     | Some (local_addr, pktinfo) \<Rightarrow> (Inr \<lparr>rm_peer = peer_addr, rm_local = local_addr, rm_reply_pktinfo = Some pktinfo\<rparr>, s)))
           | SpecificAddress local_addr \<Rightarrow> (Inr \<lparr>rm_peer = peer_addr, rm_local = local_addr, rm_reply_pktinfo = None\<rparr>, s)))"

fun collect_metadata :: "bind_mode \<Rightarrow> batch_recv_slot list \<Rightarrow> (recv_error + recv_metadata list) \<times> batch_recv_slot list" where
  "collect_metadata m [] = (Inr [], [])"
| "collect_metadata m (s # ss) =
     (case slot_metadata m s of
        (Inl e, s) \<Rightarrow> (Inl e, s # ss)
      | (Inr md, s) \<Rightarrow>
          (case collect_metadata m ss of
             (Inl e, ss) \<Rightarrow> (Inl e, s # ss)
           | (Inr mds, ss) \<Rightarrow> (Inr (md # mds), s # ss)))"

definition read_slots_from_socket ::
  "bind_mode \<Rightarrow> usize \<Rightarrow> sock_error + kernel_datagram list \<Rightarrow> batch_recv_slot list
   \<Rightarrow> ((recv_error + recv_metadata list) \<times> batch_recv_slot list) option" where
  "read_slots_from_socket m max_batch_size answer slots =
     (case recv_multiple_with_metadata max_batch_size answer slots of
        None \<Rightarrow> None
      | Some (Inl e, slots) \<Rightarrow> Some (Inl (RecvOs e), slots)
      | Some (Inr n, slots) \<Rightarrow>
          (case collect_metadata m (take n slots) of (r, filled) \<Rightarrow> Some (r, filled @ drop n slots)))"

text \<open>
  One round of \<open>run_batch\<close>. \<open>handle\<close> is \<open>data_received\<close>, which may consume the buffer: \<open>used\<close> is what it leaves of it.
\<close>

fun handle_slots ::
  "(recv_metadata \<Rightarrow> bytes \<Rightarrow> 'st \<Rightarrow> 'st) \<Rightarrow> (batch_recv_slot \<Rightarrow> batch_recv_slot) \<Rightarrow> batch_recv_slot list \<Rightarrow> recv_metadata list \<Rightarrow> 'st
   \<Rightarrow> batch_recv_slot list \<times> 'st" where
  "handle_slots handle used (s # ss) (md # mds) st =
     (case handle_slots handle used ss mds (handle md (bs_buf s) st) of (ss, st) \<Rightarrow> (batch_slot_reset (used s) # ss, st))"
| "handle_slots handle used ss mds st = (ss, st)"

definition run_slots_round ::
  "(recv_metadata \<Rightarrow> bytes \<Rightarrow> 'st \<Rightarrow> 'st) \<Rightarrow> (batch_recv_slot \<Rightarrow> batch_recv_slot) \<Rightarrow> bind_mode \<Rightarrow> sock_error + kernel_datagram list
   \<Rightarrow> batch_recv_slot list \<Rightarrow> 'st \<Rightarrow> (recv_error + (batch_recv_slot list \<times> 'st)) option" where
  "run_slots_round handle used m answer slots st =
     (case read_slots_from_socket m MAX_IO_BATCH_SIZE answer slots of
        None \<Rightarrow> None
      | Some (Inl e, _) \<Rightarrow> Some (Inl e)
      | Some (Inr mds, slots) \<Rightarrow> Some (Inr (handle_slots handle used slots mds st)))"

section \<open>A batch leaves no trace\<close>

definition slot_ready :: "batch_recv_slot \<Rightarrow> bool" where
  "slot_ready s \<longleftrightarrow> bs_buf s = [] \<and> OUTSIDE_BUFFER \<le> bs_capacity s \<and> bs_has_control s \<and> bs_control s = None \<and> \<not> bs_truncated s"

lemma batch_slot_new_ready: "0 < n \<Longrightarrow> slot_ready (batch_slot_new n)"
  by (simp add: slot_ready_def batch_slot_new_def)

lemma batch_slot_reset_ready: "bs_has_control s \<Longrightarrow> slot_ready (batch_slot_reset s)"
  by (simp add: slot_ready_def batch_slot_reset_def)

lemma slot_fill_ready:
  assumes "slot_ready s"
  shows "bs_buf (slot_fill s d) = take OUTSIDE_BUFFER (kd_payload d)" and "bs_has_control (slot_fill s d)"
    and "fst (slot_metadata m (slot_fill s d)) = resolve_metadata m d"
    and "bs_truncated (slot_fill s d) \<longleftrightarrow> length (kd_payload d) > OUTSIDE_BUFFER"
    and "bs_buf (snd (slot_metadata m (slot_fill s d))) = take OUTSIDE_BUFFER (kd_payload d)"
    and "bs_has_control (snd (slot_metadata m (slot_fill s d)))"
  using assms
  by (auto simp: slot_ready_def slot_fill_def slot_spare_def slot_metadata_def take_peer_addr_def resolve_metadata_def Let_def
      split: option.splits bind_mode.splits)

lemma zip_take_left: "zip xs ys = zip (take (length ys) xs) ys"
  by (induction xs ys rule: list_induct2') simp_all

lemma collect_metadata_fill:
  assumes "list_all slot_ready ss" and "length ds = length ss"
  shows "fst (collect_metadata m (map2 slot_fill ss ds)) = slots_metadata m ds"
    and "map bs_buf (snd (collect_metadata m (map2 slot_fill ss ds))) = map (\<lambda>d. take OUTSIDE_BUFFER (kd_payload d)) ds"
    and "list_all bs_has_control (snd (collect_metadata m (map2 slot_fill ss ds)))"
proof -
  have "fst (collect_metadata m (map2 slot_fill ss ds)) = slots_metadata m ds
    \<and> map bs_buf (snd (collect_metadata m (map2 slot_fill ss ds))) = map (\<lambda>d. take OUTSIDE_BUFFER (kd_payload d)) ds
    \<and> list_all bs_has_control (snd (collect_metadata m (map2 slot_fill ss ds)))"
    using assms
  proof (induction ss ds rule: list_induct2')
    case (4 s ss d ds)
    have s: "slot_ready s" using 4 by simp
    have rest: "list_all bs_has_control (map2 slot_fill ss ds)" "map bs_buf (map2 slot_fill ss ds) = map (\<lambda>d. take OUTSIDE_BUFFER (kd_payload d)) ds"
      using 4(2,3) slot_fill_ready(1,2) by (induction ss ds rule: list_induct2') simp_all
    show ?case
      using 4 rest slot_fill_ready(1,2) [OF s, of d] slot_fill_ready(3,5,6) [OF s, of m d]
      by (auto split: prod.splits sum.splits)
  qed simp_all
  then show "fst (collect_metadata m (map2 slot_fill ss ds)) = slots_metadata m ds"
    and "map bs_buf (snd (collect_metadata m (map2 slot_fill ss ds))) = map (\<lambda>d. take OUTSIDE_BUFFER (kd_payload d)) ds"
    and "list_all bs_has_control (snd (collect_metadata m (map2 slot_fill ss ds)))" by auto
qed

lemma handle_slots_fold:
  assumes "length mds = length ss" and "list_all bs_has_control ss" and "\<And>s. bs_has_control (used s) = bs_has_control s"
    and "list_all slot_ready rest"
  shows "snd (handle_slots handle used (ss @ rest) mds st) = fold (\<lambda>(buf, md). handle md buf) (zip (map bs_buf ss) mds) st"
    and "list_all slot_ready (fst (handle_slots handle used (ss @ rest) mds st))"
    and "length (fst (handle_slots handle used (ss @ rest) mds st)) = length (ss @ rest)"
proof -
  have "snd (handle_slots handle used (ss @ rest) mds st) = fold (\<lambda>(buf, md). handle md buf) (zip (map bs_buf ss) mds) st
    \<and> list_all slot_ready (fst (handle_slots handle used (ss @ rest) mds st))
    \<and> length (fst (handle_slots handle used (ss @ rest) mds st)) = length (ss @ rest)"
    using assms(1,2)
  proof (induction mds ss arbitrary: st rule: list_induct2)
    case Nil
    then show ?case using assms(4) by simp
  next
    case (Cons md mds s ss)
    obtain ss' st' where "handle_slots handle used (ss @ rest) mds (handle md (bs_buf s) st) = (ss', st')" by fastforce
    then show ?case using Cons.IH [of "handle md (bs_buf s) st"] Cons.prems batch_slot_reset_ready assms(3) by simp
  qed
  then show "snd (handle_slots handle used (ss @ rest) mds st) = fold (\<lambda>(buf, md). handle md buf) (zip (map bs_buf ss) mds) st"
    and "list_all slot_ready (fst (handle_slots handle used (ss @ rest) mds st))"
    and "length (fst (handle_slots handle used (ss @ rest) mds st)) = length (ss @ rest)" by auto
qed

text \<open>
  On the slots of a server, whatever earlier datagrams went through them, a round does what the batch of
  datagrams alone determines: the assertion holds, the result is that of \<open>run_batch_round\<close>, and the slots are ready again.
\<close>

lemma run_slots_round_refines:
  assumes ready: "list_all slot_ready slots" and len: "length slots = MAX_IO_BATCH_SIZE"
    and used: "\<And>s. bs_has_control (used s) = bs_has_control s"
  shows "case run_batch_round handle m answer st of
      Inl e \<Rightarrow> run_slots_round handle used m answer slots st = Some (Inl e)
    | Inr st' \<Rightarrow> \<exists>slots'. run_slots_round handle used m answer slots st = Some (Inr (slots', st'))
        \<and> list_all slot_ready slots' \<and> length slots' = MAX_IO_BATCH_SIZE"
proof -
  have spare: "\<not> (\<exists>s\<in>set (take MAX_IO_BATCH_SIZE slots). slot_spare s < OUTSIDE_BUFFER)"
    using ready by (auto simp: list_all_iff slot_ready_def slot_spare_def dest!: in_set_takeD)
  consider e where "answer = Inl e" | ds where "answer = Inr ds" "length ds > MAX_IO_BATCH_SIZE" | ds where "answer = Inr ds" "length ds \<le> MAX_IO_BATCH_SIZE"
    by (cases answer) (blast, metis not_le)
  then show ?thesis
  proof cases
    case (3 ds)
    let ?n = "length ds" and ?ss = "take (length ds) slots"
    have ss: "list_all slot_ready ?ss" "length ds = length ?ss" "list_all slot_ready (drop ?n slots)"
      using ready len 3 by (auto simp: list_all_iff dest: in_set_takeD in_set_dropD)
    obtain r filled where cm: "collect_metadata m (map2 slot_fill ?ss ds) = (r, filled)" by fastforce
    note fill = collect_metadata_fill [OF ss(1,2), of m, unfolded cm, simplified]
    have read: "read_slots_from_socket m MAX_IO_BATCH_SIZE answer slots = Some (r, filled @ drop ?n slots)"
      using 3 spare len cm zip_take_left [of slots ds]
      by (simp add: read_slots_from_socket_def recv_multiple_with_metadata_def)
    show ?thesis
    proof (cases r)
      case (Inl e)
      then have "slots_metadata m ds = Inl e" using fill(1) by simp
      then show ?thesis
        using 3 read Inl by (simp add: run_batch_round_def read_multiple_from_socket_def run_slots_round_def)
    next
      case (Inr mds)
      then have sm: "slots_metadata m ds = Inr mds" using fill(1) by simp
      have lens: "length mds = length filled" "length filled = ?n"
        using slots_metadata_Inr [OF sm] arg_cong [OF fill(2), of length] by simp_all
      note handle = handle_slots_fold [where used = used, OF lens(1) fill(3) used ss(3), of handle st]
      show ?thesis
        using 3 sm read Inr handle lens len fill(2)
        by (cases "handle_slots handle used (filled @ drop ?n slots) mds st")
          (simp add: run_batch_round_def read_multiple_from_socket_def run_slots_round_def)
    qed
  qed (use spare in \<open>simp_all add: run_batch_round_def read_multiple_from_socket_def run_slots_round_def read_slots_from_socket_def recv_multiple_with_metadata_def\<close>)
qed

end
