(* ===== verification/Server_Stats.thy ===== *)
theory Server_Stats
  imports Connection_Core "HOL-Library.AList"
begin

text \<open>
  The periodic reports of a server: how many sessions are active or on standby
  (lightway-server/src/statistics.rs), and the polling of the counters of offloaded sessions
  (lightway-server/src/offload_stats.rs). The provider of the counters is a parameter.
\<close>

section \<open>Session statistics\<close>

definition FIVE_MINUTES :: duration where "FIVE_MINUTES = millis (5 * 60 * 1000)"
definition FIFTEEN_MINUTES :: duration where "FIFTEEN_MINUTES = millis (15 * 60 * 1000)"
definition SIXTY_MINUTES :: duration where "SIXTY_MINUTES = millis (60 * 60 * 1000)"

record connection_interval_stats =
  five_minutes :: nat
  fifteen_minutes :: nat
  sixty_minutes :: nat

definition stats_default :: connection_interval_stats where
  "stats_default = \<lparr>five_minutes = 0, fifteen_minutes = 0, sixty_minutes = 0\<rparr>"

text \<open>The body of the loop: the ages are saturating differences of instants.\<close>

definition count_session ::
  "instant \<Rightarrow> connection_activity \<Rightarrow> connection_interval_stats \<times> connection_interval_stats \<Rightarrow>
    connection_interval_stats \<times> connection_interval_stats" where
  "count_session now activity st =
     (let outside = now - last_outside_data_received activity;
          data = now - last_data_traffic_from_peer activity;
          (standby, active) = st;
          standby = (if outside \<le> FIVE_MINUTES \<and> data > FIVE_MINUTES then standby\<lparr>five_minutes := five_minutes standby + 1\<rparr> else standby);
          standby = (if outside \<le> FIFTEEN_MINUTES \<and> data > FIFTEEN_MINUTES then standby\<lparr>fifteen_minutes := fifteen_minutes standby + 1\<rparr> else standby);
          standby = (if outside \<le> SIXTY_MINUTES \<and> data > SIXTY_MINUTES then standby\<lparr>sixty_minutes := sixty_minutes standby + 1\<rparr> else standby);
          active = (if data \<le> FIVE_MINUTES then active\<lparr>five_minutes := five_minutes active + 1\<rparr> else active);
          active = (if data \<le> FIFTEEN_MINUTES then active\<lparr>fifteen_minutes := fifteen_minutes active + 1\<rparr> else active);
          active = (if data \<le> SIXTY_MINUTES then active\<lparr>sixty_minutes := sixty_minutes active + 1\<rparr> else active)
      in (standby, active))"

definition calculate_session_stats ::
  "instant \<Rightarrow> connection_activity list \<Rightarrow> connection_interval_stats \<times> connection_interval_stats" where
  "calculate_session_stats now current_sessions = foldl (\<lambda>st a. count_session now a st) (stats_default, stats_default) current_sessions"

text \<open>The counters are those of the sessions in each class.\<close>

definition heard_within :: "duration \<Rightarrow> instant \<Rightarrow> connection_activity \<Rightarrow> bool" where
  "heard_within d now a \<longleftrightarrow> now - last_outside_data_received a \<le> d"

definition active_within :: "duration \<Rightarrow> instant \<Rightarrow> connection_activity \<Rightarrow> bool" where
  "active_within d now a \<longleftrightarrow> now - last_data_traffic_from_peer a \<le> d"

definition counted :: "(duration \<Rightarrow> connection_activity \<Rightarrow> bool) \<Rightarrow> connection_activity list \<Rightarrow> connection_interval_stats" where
  "counted p as = \<lparr>five_minutes = length (filter (p FIVE_MINUTES) as), fifteen_minutes = length (filter (p FIFTEEN_MINUTES) as),
     sixty_minutes = length (filter (p SIXTY_MINUTES) as)\<rparr>"

lemma calculate_session_stats_counts:
  "calculate_session_stats now as =
     (counted (\<lambda>d a. heard_within d now a \<and> \<not> active_within d now a) as, counted (\<lambda>d a. active_within d now a) as)"
  unfolding calculate_session_stats_def
  by (induction as rule: rev_induct)
    (simp_all add: count_session_def counted_def stats_default_def heard_within_def active_within_def not_le Let_def)

text \<open>
  No session is counted twice for an interval, and for connections whose data is part of what they
  heard, every one heard from in the interval is either active or on standby.
\<close>

lemma session_stats_partition:
  assumes "\<forall>a\<in>set as. last_data_traffic_from_peer a \<le> last_outside_data_received a"
    and "calculate_session_stats now as = (standby, active)"
  shows "five_minutes standby + five_minutes active = length (filter (heard_within FIVE_MINUTES now) as)
    \<and> fifteen_minutes standby + fifteen_minutes active = length (filter (heard_within FIFTEEN_MINUTES now) as)
    \<and> sixty_minutes standby + sixty_minutes active = length (filter (heard_within SIXTY_MINUTES now) as)"
proof -
  have heard: "active_within d now a \<Longrightarrow> heard_within d now a" if "a \<in> set as" for a d
    using that assms(1) by (fastforce simp: active_within_def heard_within_def)
  have "length (filter (\<lambda>a. heard_within d now a \<and> \<not> active_within d now a) as) + length (filter (\<lambda>a. active_within d now a) as)
      = length (filter (heard_within d now) as)" for d
    using heard by (induction as) auto
  then show ?thesis using assms(2) by (auto simp: calculate_session_stats_counts counted_def)
qed

section \<open>Offloaded sessions\<close>

record packet_counters =
  pc_sent_packets :: u64
  pc_received_packets :: u64
  pc_sent_bytes :: u64
  pc_received_bytes :: u64

definition decide :: "packet_counters option \<Rightarrow> packet_counters \<Rightarrow> bool \<times> bool \<times> u64 \<times> u64" where
  "decide prev cur =
     (case prev of
        None \<Rightarrow> (False, False, 0, 0)
      | Some p \<Rightarrow> (pc_received_packets cur > pc_received_packets p, pc_sent_packets cur > pc_sent_packets p,
                   sat_sub (pc_received_bytes cur) (pc_received_bytes p), sat_sub (pc_sent_bytes cur) (pc_sent_bytes p)))"

text \<open>What the poll reports: the activity of a session and the bytes of each direction.\<close>

record poll_state =
  ps_seen :: "(session_id \<times> packet_counters) list"
  ps_marked :: "(session_id \<times> bool \<times> bool) list"
  ps_rx_bytes :: nat
  ps_tx_bytes :: nat

definition poll_session :: "(session_id \<Rightarrow> packet_counters option) \<Rightarrow> session_id \<Rightarrow> poll_state \<Rightarrow> poll_state" where
  "poll_session get_stats sid s =
     (case get_stats sid of
        None \<Rightarrow> s
      | Some cur \<Rightarrow>
          (case decide (map_of (ps_seen s) sid) cur of (rx, tx, rx_bytes, tx_bytes) \<Rightarrow>
             s\<lparr>ps_seen := AList.update sid cur (ps_seen s),
               ps_marked := (if rx \<or> tx then ps_marked s @ [(sid, rx, tx)] else ps_marked s),
               ps_rx_bytes := ps_rx_bytes s + unat rx_bytes, ps_tx_bytes := ps_tx_bytes s + unat tx_bytes\<rparr>))"

text \<open>One tick: the sessions online, then what is no longer online is forgotten.\<close>

definition offload_poll :: "session_id list \<Rightarrow> (session_id \<Rightarrow> packet_counters option) \<Rightarrow> poll_state \<Rightarrow> poll_state" where
  "offload_poll conns get_stats s =
     (let s = fold (poll_session get_stats) conns s in s\<lparr>ps_seen := filter (\<lambda>(sid, _). sid \<in> set conns) (ps_seen s)\<rparr>)"

text \<open>The bytes received that the poll of one session adds, and the reading it keeps.\<close>

definition rx_delta :: "packet_counters option \<Rightarrow> packet_counters option \<Rightarrow> nat" where
  "rx_delta prev reading = (case reading of None \<Rightarrow> 0 | Some cur \<Rightarrow> unat (fst (snd (snd (decide prev cur)))))"

definition kept :: "packet_counters option \<Rightarrow> packet_counters option \<Rightarrow> packet_counters option" where
  "kept prev reading = (case reading of None \<Rightarrow> prev | Some cur \<Rightarrow> Some cur)"

lemma poll_session_effect:
  "ps_rx_bytes (poll_session g sid s) = ps_rx_bytes s + rx_delta (map_of (ps_seen s) sid) (g sid)"
  "map_of (ps_seen (poll_session g sid s)) sid' = (if sid' = sid then kept (map_of (ps_seen s) sid) (g sid) else map_of (ps_seen s) sid')"
  by (auto simp: poll_session_def rx_delta_def kept_def update_conv' split: option.splits prod.splits)

lemma poll_sessions_effect:
  assumes "distinct conns"
  shows "ps_rx_bytes (fold (poll_session g) conns s) = ps_rx_bytes s + (\<Sum>sid\<leftarrow>conns. rx_delta (map_of (ps_seen s) sid) (g sid))
    \<and> (\<forall>sid. map_of (ps_seen (fold (poll_session g) conns s)) sid
         = (if sid \<in> set conns then kept (map_of (ps_seen s) sid) (g sid) else map_of (ps_seen s) sid))"
  using assms
proof (induction conns arbitrary: s)
  case (Cons c conns)
  have "(\<Sum>sid\<leftarrow>conns. rx_delta (map_of (ps_seen (poll_session g c s)) sid) (g sid)) = (\<Sum>sid\<leftarrow>conns. rx_delta (map_of (ps_seen s) sid) (g sid))"
    using Cons.prems by (intro arg_cong [where f = sum_list] map_cong) (auto simp: poll_session_effect)
  then show ?case using Cons.IH [of "poll_session g c s"] Cons.prems by (auto simp: poll_session_effect)
qed simp

lemma map_of_retain: "map_of (filter (\<lambda>(k, _). k \<in> A) l) k = (if k \<in> A then map_of l k else None)"
  by (induction l) auto

text \<open>Polls at which the same sessions are online, and the readings of one session.\<close>

definition offload_polls :: "session_id list \<Rightarrow> (session_id \<Rightarrow> packet_counters option) list \<Rightarrow> poll_state \<Rightarrow> poll_state" where
  "offload_polls conns gs s = fold (offload_poll conns) gs s"

fun rx_run :: "packet_counters option \<Rightarrow> packet_counters option list \<Rightarrow> nat" where
  "rx_run prev [] = 0"
| "rx_run prev (r # rs) = rx_delta prev r + rx_run (kept prev r) rs"

lemma offload_polls_rx:
  assumes "distinct conns"
  shows "ps_rx_bytes (offload_polls conns gs s) = ps_rx_bytes s + (\<Sum>sid\<leftarrow>conns. rx_run (map_of (ps_seen s) sid) (map (\<lambda>g. g sid) gs))"
proof (induction gs arbitrary: s)
  case (Cons g gs)
  let ?s = "offload_poll conns g s"
  have s: "ps_rx_bytes ?s = ps_rx_bytes s + (\<Sum>sid\<leftarrow>conns. rx_delta (map_of (ps_seen s) sid) (g sid))"
    "\<And>sid. sid \<in> set conns \<Longrightarrow> map_of (ps_seen ?s) sid = kept (map_of (ps_seen s) sid) (g sid)"
    using poll_sessions_effect [OF assms, of g s] by (simp_all add: offload_poll_def Let_def map_of_retain)
  have "(\<Sum>sid\<leftarrow>conns. rx_run (map_of (ps_seen ?s) sid) (map (\<lambda>g. g sid) gs))
      = (\<Sum>sid\<leftarrow>conns. rx_run (kept (map_of (ps_seen s) sid) (g sid)) (map (\<lambda>g. g sid) gs))"
    by (intro arg_cong [where f = sum_list] map_cong) (simp_all add: s(2))
  then show ?case using Cons.IH [of ?s] s(1) by (simp add: offload_polls_def sum_list_addf)
qed (simp add: offload_polls_def)

text \<open>The readings of a counter that never goes back, failed readings left out.\<close>

definition readings :: "packet_counters option list \<Rightarrow> nat list" where
  "readings rs = map (\<lambda>c. unat (pc_received_bytes c)) (List.map_filter id rs)"

lemma readings_simps [simp]:
  "readings [] = []" "readings (None # rs) = readings rs" "readings (Some c # rs) = unat (pc_received_bytes c) # readings rs"
  by (simp_all add: readings_def map_filter_def)

lemma rx_run_from:
  "sorted (unat (pc_received_bytes p) # readings rs) \<Longrightarrow>
    unat (pc_received_bytes p) + rx_run (Some p) rs = last (unat (pc_received_bytes p) # readings rs)"
proof (induction rs arbitrary: p)
  case (Cons r rs)
  show ?case
  proof (cases r)
    case (Some c)
    then have "unat (pc_received_bytes p) \<le> unat (pc_received_bytes c)" using Cons.prems by simp
    then have "unat (sat_sub (pc_received_bytes c) (pc_received_bytes p)) = unat (pc_received_bytes c) - unat (pc_received_bytes p)"
      by (simp add: sat_sub_def word_le_nat_alt unat_sub)
    then show ?thesis using Cons Some \<open>unat (pc_received_bytes p) \<le> unat (pc_received_bytes c)\<close>
      by (auto simp: rx_delta_def kept_def decide_def)
  qed (use Cons in \<open>auto simp: rx_delta_def kept_def\<close>)
qed simp

lemma rx_run_telescopes:
  "sorted (readings rs) \<Longrightarrow> rx_run None rs = (if readings rs = [] then 0 else last (readings rs) - hd (readings rs))"
proof (induction rs)
  case (Cons r rs)
  show ?case
  proof (cases r)
    case (Some c)
    then show ?thesis using rx_run_from [of c rs] Cons.prems by (simp add: rx_delta_def kept_def decide_def)
  qed (use Cons in \<open>auto simp: rx_delta_def kept_def\<close>)
qed simp

text \<open>
  While the same sessions are online, the bytes reported are exactly those received between the
  first and the last reading of each, whatever readings failed in between.
\<close>

lemma offload_bytes_exact:
  assumes "distinct conns" and "ps_seen s = []" and "\<forall>sid\<in>set conns. sorted (readings (map (\<lambda>g. g sid) gs))"
  shows "ps_rx_bytes (offload_polls conns gs s) = ps_rx_bytes s
    + (\<Sum>sid\<leftarrow>conns. let rs = readings (map (\<lambda>g. g sid) gs) in if rs = [] then 0 else last rs - hd rs)"
proof -
  have "(\<Sum>sid\<leftarrow>conns. rx_run None (map (\<lambda>g. g sid) gs))
      = (\<Sum>sid\<leftarrow>conns. let rs = readings (map (\<lambda>g. g sid) gs) in if rs = [] then 0 else last rs - hd rs)"
    using assms(3) by (intro arg_cong [where f = sum_list] map_cong) (simp_all add: rx_run_telescopes Let_def)
  then show ?thesis using offload_polls_rx [OF assms(1), of gs s] assms(2) by simp
qed

end
