(* ===== verification/Network_Monitor.thy ===== *)
theory Network_Monitor
  imports Route_Manager Key_Update
begin

text \<open>
  The monitor of network changes (lightway-app-utils/src/network_change_monitor.rs): which route
  changes matter, how snapshots of the addresses are compared, and the detector that pairs an
  address change with the arrival of a route. Listeners and clock are inputs. The detector
  is part of the macOS build; on Linux only route changes are published, on Windows every change is a
  transition.
\<close>

section \<open>Routes and addresses\<close>

datatype 'r route_change = RouteAdd 'r | RouteDelete 'r | RouteChange 'r

fun changed_route :: "'r route_change \<Rightarrow> 'r" where
  "changed_route (RouteAdd r) = r"
| "changed_route (RouteDelete r) = r"
| "changed_route (RouteChange r) = r"

fun ip_is_unspecified :: "ip_addr \<Rightarrow> bool" where
  "ip_is_unspecified (IpAddrV4 a) \<longleftrightarrow> a = 0"
| "ip_is_unspecified (IpAddrV6 a) \<longleftrightarrow> a = 0"

fun ip_is_loopback :: "ip_addr \<Rightarrow> bool" where
  "ip_is_loopback (IpAddrV4 a) \<longleftrightarrow> drop_bit 24 a = 127"
| "ip_is_loopback (IpAddrV6 a) \<longleftrightarrow> a = 1"

text \<open>169.254.0.0/16 and fe80::/10.\<close>

fun is_link_local :: "ip_addr \<Rightarrow> bool" where
  "is_link_local (IpAddrV4 a) \<longleftrightarrow> drop_bit 16 a = 0xA9FE"
| "is_link_local (IpAddrV6 a) \<longleftrightarrow> drop_bit 118 a = 0x3FA"

text \<open>\<open>if_scope\<close> exists on macOS only.\<close>

definition is_applicable_route :: "('r, 't) routing \<Rightarrow> ('r \<Rightarrow> bool) \<Rightarrow> 'r \<Rightarrow> bool" where
  "is_applicable_route G if_scope r \<longleftrightarrow>
     \<not> if_scope r \<and> rt_prefix G r = 0 \<and> (case rt_gateway G r of None \<Rightarrow> False | Some gw \<Rightarrow> \<not> ip_is_unspecified gw)"

definition relevant_addrs :: "ip_addr list \<Rightarrow> ip_addr list \<Rightarrow> ip_addr set" where
  "relevant_addrs addrs ignored =
     set (filter (\<lambda>ip. \<not> ip_is_loopback ip \<and> \<not> ip_is_unspecified ip \<and> \<not> is_link_local ip \<and> ip \<notin> set ignored) addrs)"

text \<open>One update of the address listener: whether a change is signalled, and the new snapshot.\<close>

definition addr_update :: "ip_addr list \<Rightarrow> ip_addr list \<Rightarrow> ip_addr set option \<Rightarrow> bool \<times> ip_addr set option" where
  "addr_update ignored addrs prev =
     (let now = relevant_addrs addrs ignored in (case prev of None \<Rightarrow> False | Some p \<Rightarrow> p \<noteq> now, Some now))"

fun addr_signals :: "ip_addr list \<Rightarrow> ip_addr set option \<Rightarrow> ip_addr list list \<Rightarrow> bool list" where
  "addr_signals ignored prev [] = []"
| "addr_signals ignored prev (addrs # us) =
     (case addr_update ignored addrs prev of (changed, prev) \<Rightarrow> changed # addr_signals ignored prev us)"

text \<open>The tunnel coming up, or any other address of no interest, signals nothing.\<close>

lemma ignored_addresses_silent:
  assumes "relevant_addrs a ignored = relevant_addrs b ignored"
  shows "fst (addr_update ignored b (Some (relevant_addrs a ignored))) = False"
  using assms by (simp add: addr_update_def)

lemma tunnel_address_silent: "tun \<in> set ignored \<Longrightarrow> relevant_addrs (tun # addrs) ignored = relevant_addrs addrs ignored"
  by (simp add: relevant_addrs_def)

section \<open>The transition detector\<close>

definition TRANSITION_WINDOW :: duration where "TRANSITION_WINDOW = millis 15000"
definition TRANSITION_COOLDOWN :: duration where "TRANSITION_COOLDOWN = millis 3000"

record transition_detector =
  td_window :: duration
  td_cooldown :: duration
  td_last_addr :: "instant option"
  td_last_route :: "instant option"
  td_last_emit :: "instant option"

definition transition_detector_new :: "duration \<Rightarrow> duration \<Rightarrow> transition_detector" where
  "transition_detector_new window cooldown =
     \<lparr>td_window = window, td_cooldown = cooldown, td_last_addr = None, td_last_route = None, td_last_emit = None\<rparr>"

text \<open>\<open>duration_since\<close> saturates at zero.\<close>

definition try_emit :: "instant \<Rightarrow> transition_detector \<Rightarrow> bool \<times> transition_detector" where
  "try_emit now d =
     (case (td_last_addr d, td_last_route d) of
        (Some addr, Some route) \<Rightarrow>
          (let paired = now - addr \<le> td_window d \<and> now - route \<le> td_window d;
               cooled = (case td_last_emit d of None \<Rightarrow> True | Some e \<Rightarrow> now - e \<ge> td_cooldown d)
           in if paired \<and> cooled then (True, d\<lparr>td_last_addr := None, td_last_route := None, td_last_emit := Some now\<rparr>)
              else (False, d))
      | _ \<Rightarrow> (False, d))"

definition on_addr :: "instant \<Rightarrow> transition_detector \<Rightarrow> bool \<times> transition_detector" where
  "on_addr now d = try_emit now (d\<lparr>td_last_addr := Some now\<rparr>)"

definition on_route :: "instant \<Rightarrow> transition_detector \<Rightarrow> bool \<times> transition_detector" where
  "on_route now d = try_emit now (d\<lparr>td_last_route := Some now\<rparr>)"

section \<open>The monitor\<close>

text \<open>
  What completes in the \<open>select!\<close>, with the time on the clock. An error of the route listener is
  waited out. The monitor itself keeps a receiver of both channels, so that the channels are closed
  only once it is dropped, which aborts the task: the \<open>break\<close> of the loop is not reached before that.
\<close>

datatype monitor_os = OnMac | OnWindows | OnOther

datatype 'r monitor_event = RouteEvent "'r route_change" instant | RouteListenerError | AddrEvent instant | AddrListenerEnded

record monitor =
  mo_detector :: transition_detector
  mo_addr_listener :: bool
  mo_routes :: nat
  mo_transitions :: "instant list"

definition signal_transition :: "instant \<Rightarrow> bool \<times> transition_detector \<Rightarrow> monitor \<Rightarrow> monitor" where
  "signal_transition now r m =
     m\<lparr>mo_detector := snd r, mo_transitions := (if fst r then mo_transitions m @ [now] else mo_transitions m)\<rparr>"

definition monitor_round :: "monitor_os \<Rightarrow> ('r, 't) routing \<Rightarrow> ('r \<Rightarrow> bool) \<Rightarrow> 'r monitor_event \<Rightarrow> monitor \<Rightarrow> monitor" where
  "monitor_round os G if_scope ev m =
     (case ev of
        RouteListenerError \<Rightarrow> m
      | AddrListenerEnded \<Rightarrow> m\<lparr>mo_addr_listener := False\<rparr>
      | RouteEvent change now \<Rightarrow>
          if \<not> is_applicable_route G if_scope (changed_route change) then m
          else let m = m\<lparr>mo_routes := mo_routes m + 1\<rparr> in
            (case os of
               OnMac \<Rightarrow>
                 (case change of
                    RouteDelete _ \<Rightarrow> m
                  | _ \<Rightarrow> signal_transition now (on_route now (mo_detector m)) m)
             | OnWindows \<Rightarrow> m\<lparr>mo_transitions := mo_transitions m @ [now]\<rparr>
             | OnOther \<Rightarrow> m)
      | AddrEvent now \<Rightarrow>
          if \<not> mo_addr_listener m then m
          else (case os of
               OnMac \<Rightarrow> signal_transition now (on_addr now (mo_detector m)) m
             | OnWindows \<Rightarrow> m\<lparr>mo_routes := mo_routes m + 1, mo_transitions := mo_transitions m @ [now]\<rparr>
             | OnOther \<Rightarrow> m))"

text \<open>\<open>spawn\<close>: the state in which the loop starts. On Windows the address listener may have failed to start.\<close>

definition monitor_spawn :: "bool \<Rightarrow> monitor" where
  "monitor_spawn listening = \<lparr>mo_detector = transition_detector_new TRANSITION_WINDOW TRANSITION_COOLDOWN,
     mo_addr_listener = listening, mo_routes = 0, mo_transitions = []\<rparr>"

definition monitor_run :: "monitor_os \<Rightarrow> ('r, 't) routing \<Rightarrow> ('r \<Rightarrow> bool) \<Rightarrow> 'r monitor_event list \<Rightarrow> monitor \<Rightarrow> monitor" where
  "monitor_run os G if_scope evs m = fold (monitor_round os G if_scope) evs m"

section \<open>Transitions keep the cooldown\<close>

text \<open>The last transition is the one the detector remembers; transitions are spaced by the cooldown.\<close>

definition monitor_inv :: "monitor \<Rightarrow> bool" where
  "monitor_inv m \<longleftrightarrow> td_cooldown (mo_detector m) = TRANSITION_COOLDOWN \<and> td_window (mo_detector m) = TRANSITION_WINDOW
    \<and> td_last_emit (mo_detector m) = (if mo_transitions m = [] then None else Some (last (mo_transitions m)))
    \<and> sorted_wrt (\<lambda>a b. a + TRANSITION_COOLDOWN \<le> b) (mo_transitions m)"

lemma try_emit_cases:
  "try_emit now d = (b, d') \<Longrightarrow> td_window d' = td_window d \<and> td_cooldown d' = td_cooldown d
    \<and> (if b then td_last_emit d' = Some now \<and> td_last_addr d' = None \<and> td_last_route d' = None
         \<and> (\<exists>a r. td_last_addr d = Some a \<and> td_last_route d = Some r \<and> now - a \<le> td_window d \<and> now - r \<le> td_window d)
         \<and> (\<forall>e. td_last_emit d = Some e \<longrightarrow> now - e \<ge> td_cooldown d)
       else d' = d)"
  by (auto simp: try_emit_def Let_def split: option.splits if_splits)

lemma spaced_snoc:
  assumes "sorted_wrt (\<lambda>a b. a + c \<le> b) xs" and "xs = [] \<or> last xs + c \<le> (now :: nat)"
  shows "sorted_wrt (\<lambda>a b. a + c \<le> b) (xs @ [now])"
proof (cases xs rule: rev_cases)
  case (snoc ys y)
  then show ?thesis using assms by (fastforce simp: sorted_wrt_append)
qed simp

lemma signal_transition_inv:
  assumes "monitor_inv m" and "try_emit now d = r" and "td_last_emit d = td_last_emit (mo_detector m)"
    and "td_window d = td_window (mo_detector m)" and "td_cooldown d = td_cooldown (mo_detector m)"
  shows "monitor_inv (signal_transition now r m)"
proof (cases r)
  case (Pair b d')
  note e = try_emit_cases [OF assms(2) [unfolded Pair]]
  show ?thesis
  proof (cases b)
    case True
    have "mo_transitions m \<noteq> [] \<Longrightarrow> TRANSITION_COOLDOWN \<le> now - last (mo_transitions m)"
      using e True assms(1,3,5) by (simp add: monitor_inv_def)
    then have "mo_transitions m = [] \<or> last (mo_transitions m) + TRANSITION_COOLDOWN \<le> now"
      by (cases "mo_transitions m = []") (auto simp: TRANSITION_COOLDOWN_def)
    then show ?thesis
      using e True assms(1,4,5) Pair by (simp add: monitor_inv_def signal_transition_def spaced_snoc)
  qed (use e assms Pair in \<open>simp add: monitor_inv_def signal_transition_def\<close>)
qed

lemma monitor_inv_fields [simp]:
  "monitor_inv (m\<lparr>mo_routes := n\<rparr>) = monitor_inv m" "monitor_inv (m\<lparr>mo_addr_listener := l\<rparr>) = monitor_inv m"
  by (simp_all add: monitor_inv_def)

lemma monitor_round_inv: "monitor_inv m \<Longrightarrow> os \<noteq> OnWindows \<Longrightarrow> monitor_inv (monitor_round os G if_scope ev m)"
  by (auto simp: monitor_round_def on_addr_def on_route_def Let_def
      intro!: signal_transition_inv [OF _ refl] split: monitor_event.splits monitor_os.splits route_change.splits)

text \<open>
  Away from Windows two transitions are at least the cooldown apart, whatever the listeners report;
  on Windows every applicable change is one, and nothing spaces them.
\<close>

lemma transitions_spaced:
  assumes "os \<noteq> OnWindows"
  shows "sorted_wrt (\<lambda>a b. a + TRANSITION_COOLDOWN \<le> b)
    (mo_transitions (monitor_run os G if_scope evs (monitor_spawn listening)))"
proof -
  have "monitor_inv m \<Longrightarrow> monitor_inv (monitor_run os G if_scope evs m)" for m
    unfolding monitor_run_def using assms by (induction evs arbitrary: m) (auto intro: monitor_round_inv)
  moreover have "monitor_inv (monitor_spawn listening)"
    by (simp add: monitor_inv_def monitor_spawn_def transition_detector_new_def)
  ultimately show ?thesis by (auto simp: monitor_inv_def)
qed

section \<open>Both legs are needed\<close>

text \<open>
  The two instants of the detector are those of events it has seen: what a transition is decided on
  is an address change and the arrival of an applicable route, both at most the window back.
\<close>

fun is_arrival :: "('r, 't) routing \<Rightarrow> ('r \<Rightarrow> bool) \<Rightarrow> 'r monitor_event \<Rightarrow> instant option" where
  "is_arrival G s (RouteEvent (RouteAdd r) t) = (if is_applicable_route G s r then Some t else None)"
| "is_arrival G s (RouteEvent (RouteChange r) t) = (if is_applicable_route G s r then Some t else None)"
| "is_arrival G s _ = None"

definition seen_inv :: "('r, 't) routing \<Rightarrow> ('r \<Rightarrow> bool) \<Rightarrow> 'r monitor_event list \<Rightarrow> monitor \<Rightarrow> bool" where
  "seen_inv G s evs m \<longleftrightarrow> td_window (mo_detector m) = TRANSITION_WINDOW
    \<and> (\<forall>t. td_last_addr (mo_detector m) = Some t \<longrightarrow> AddrEvent t \<in> set evs)
    \<and> (\<forall>t. td_last_route (mo_detector m) = Some t \<longrightarrow> (\<exists>e\<in>set evs. is_arrival G s e = Some t))
    \<and> (\<forall>now\<in>set (mo_transitions m). \<exists>a r. AddrEvent a \<in> set evs \<and> (\<exists>e\<in>set evs. is_arrival G s e = Some r)
         \<and> now - a \<le> TRANSITION_WINDOW \<and> now - r \<le> TRANSITION_WINDOW)"

lemma seen_inv_mono: "seen_inv G s evs m \<Longrightarrow> set evs \<subseteq> set evs' \<Longrightarrow> seen_inv G s evs' m"
  unfolding seen_inv_def by (meson subsetD)

lemma seen_inv_fields [simp]:
  "seen_inv G s evs (m\<lparr>mo_routes := n\<rparr>) = seen_inv G s evs m"
  "seen_inv G s evs (m\<lparr>mo_addr_listener := l\<rparr>) = seen_inv G s evs m"
  by (simp_all add: seen_inv_def)

lemma signal_transition_seen:
  assumes "seen_inv G s evs (m\<lparr>mo_detector := d\<rparr>)"
  shows "seen_inv G s evs (signal_transition now (try_emit now d) m)"
proof (cases "try_emit now d")
  case (Pair b d')
  show ?thesis
    using try_emit_cases [OF Pair] assms Pair
    by (cases b) (auto simp: seen_inv_def signal_transition_def, blast)
qed

lemma monitor_round_seen:
  assumes "seen_inv G s evs m"
  shows "seen_inv G s (ev # evs) (monitor_round OnMac G s ev m)"
proof -
  have m: "seen_inv G s (ev # evs) m" using assms by (rule seen_inv_mono) auto
  have addr: "seen_inv G s (ev # evs) (m\<lparr>mo_detector := mo_detector m\<lparr>td_last_addr := Some t\<rparr>\<rparr>)" if "ev = AddrEvent t" for t
    using m that by (auto simp: seen_inv_def)
  have route: "seen_inv G s (ev # evs) (m\<lparr>mo_routes := n, mo_detector := mo_detector m\<lparr>td_last_route := Some t\<rparr>\<rparr>)"
    if "is_arrival G s ev = Some t" for t n
    using m that by (auto simp: seen_inv_def)
  show ?thesis
    using m addr route
    by (cases ev) (auto simp: monitor_round_def on_addr_def on_route_def Let_def
        intro!: signal_transition_seen split: route_change.splits)
qed

lemma transition_has_both_legs:
  assumes "now \<in> set (mo_transitions (monitor_run OnMac G s evs (monitor_spawn listening)))"
  shows "\<exists>a r. AddrEvent a \<in> set evs \<and> (\<exists>e\<in>set evs. is_arrival G s e = Some r)
    \<and> now - a \<le> TRANSITION_WINDOW \<and> now - r \<le> TRANSITION_WINDOW"
proof -
  have "seen_inv G s es m \<Longrightarrow> seen_inv G s (rev evs @ es) (monitor_run OnMac G s evs m)" for es m
    unfolding monitor_run_def
  proof (induction evs arbitrary: es m)
    case (Cons e evs)
    show ?case using Cons.IH [OF monitor_round_seen [OF Cons.prems]] by simp
  qed simp
  moreover have "seen_inv G s [] (monitor_spawn listening)"
    by (simp add: seen_inv_def monitor_spawn_def transition_detector_new_def)
  ultimately have "seen_inv G s (rev evs @ []) (monitor_run OnMac G s evs (monitor_spawn listening))" by blast
  then show ?thesis using assms by (simp add: seen_inv_def)
qed

end
