(* ===== verification/Aead_Pool.thy ===== *)
theory Aead_Pool
  imports Expresslane_Session
begin

text \<open>
  The AEAD of ExpressLane as the build supplies it: the ciphers on BoringSSL's \<open>EVP_AEAD\<close>
  (lightway-boring/src/aes256.rs, chacha20_poly1305.rs), their adapter (\<open>TlsAesGcm\<close> of
  lightway-core/src/wire/expresslane_data.rs) and the pool that offers a shared interface over ciphers
  that need exclusive access (lightway-expresslane/src/aead/pool.rs). BoringSSL's contexts are a
  parameter: a context is read only, so a call is a function of it. \<open>Expresslane_Session\<close> takes the
  AEAD as a value with functions; the pool is shown to be one, under every interleaving of its callers.
\<close>

section \<open>The ciphers of BoringSSL\<close>

text \<open>\<open>AeadCtx\<close>: a new context of a key, \<open>seal_in_place\<close> (the buffer and the tag), \<open>open_in_place\<close>.\<close>

record 'x evp_aead =
  ev_new_default_tag :: "bytes \<Rightarrow> 'x option"
  ev_seal_in_place :: "'x \<Rightarrow> bytes \<Rightarrow> bytes \<Rightarrow> bytes \<Rightarrow> (bytes \<times> bytes) option"
  ev_open_in_place :: "'x \<Rightarrow> bytes \<Rightarrow> bytes \<Rightarrow> bytes \<Rightarrow> bytes \<Rightarrow> bytes option"

datatype aes256gcm_error = AesInitFailed | KeyNotSet | AuthTagMismatch | AesFatal

record 'x aes256gcm =
  ag_ctx :: "'x option"

definition aes256gcm_new :: "aes256gcm_error + 'x aes256gcm" where
  "aes256gcm_new = Inr \<lparr>ag_ctx = None\<rparr>"

definition aes256gcm_set_key :: "'x evp_aead \<Rightarrow> bytes \<Rightarrow> 'x aes256gcm \<Rightarrow> (aes256gcm_error + unit) \<times> 'x aes256gcm" where
  "aes256gcm_set_key B key c =
     (case ev_new_default_tag B key of None \<Rightarrow> (Inl AesInitFailed, c) | Some ctx \<Rightarrow> (Inr (), c\<lparr>ag_ctx := Some ctx\<rparr>))"

definition aes256gcm_encrypt ::
  "'x evp_aead \<Rightarrow> bytes \<Rightarrow> bytes \<Rightarrow> bytes \<Rightarrow> 'x aes256gcm \<Rightarrow> (aes256gcm_error + bytes \<times> bytes) \<times> 'x aes256gcm" where
  "aes256gcm_encrypt B iv plain_text auth_vec c =
     (case ag_ctx c of
        None \<Rightarrow> (Inl KeyNotSet, c)
      | Some ctx \<Rightarrow>
          (case ev_seal_in_place B ctx iv plain_text auth_vec of
             None \<Rightarrow> (Inl AesFatal, c)
           | Some (out, tag) \<Rightarrow> (Inr (out, tag), c)))"

definition aes256gcm_decrypt ::
  "'x evp_aead \<Rightarrow> bytes \<Rightarrow> bytes \<Rightarrow> bytes \<Rightarrow> bytes \<Rightarrow> 'x aes256gcm \<Rightarrow> (aes256gcm_error + bytes) \<times> 'x aes256gcm" where
  "aes256gcm_decrypt B iv cipher_text auth_vec auth_tag c =
     (case ag_ctx c of
        None \<Rightarrow> (Inl KeyNotSet, c)
      | Some ctx \<Rightarrow>
          (case ev_open_in_place B ctx iv cipher_text auth_tag auth_vec of
             None \<Rightarrow> (Inl AuthTagMismatch, c)
           | Some out \<Rightarrow> (Inr out, c)))"

text \<open>The ChaCha20 cipher keeps a failed initialisation for the first use.\<close>

record 'x chacha20_aead =
  cc_ctx :: "'x option"

definition chacha20_new :: "'x evp_aead \<Rightarrow> bytes \<Rightarrow> 'x chacha20_aead" where
  "chacha20_new B key = \<lparr>cc_ctx = ev_new_default_tag B key\<rparr>"

definition chacha20_encrypt :: "'x evp_aead \<Rightarrow> 'x chacha20_aead \<Rightarrow> bytes \<Rightarrow> bytes \<Rightarrow> string + bytes \<times> bytes" where
  "chacha20_encrypt B c iv plain_text =
     (case cc_ctx c of
        None \<Rightarrow> Inl ''Encrypt failed''
      | Some ctx \<Rightarrow>
          (case ev_seal_in_place B ctx iv plain_text [] of None \<Rightarrow> Inl ''Encrypt failed'' | Some (out, tag) \<Rightarrow> Inr (out, tag)))"

definition chacha20_decrypt :: "'x evp_aead \<Rightarrow> 'x chacha20_aead \<Rightarrow> bytes \<Rightarrow> bytes \<Rightarrow> bytes \<Rightarrow> string + bytes" where
  "chacha20_decrypt B c iv cipher_text auth_tag =
     (case cc_ctx c of
        None \<Rightarrow> Inl ''Decrypt failed''
      | Some ctx \<Rightarrow>
          (case ev_open_in_place B ctx iv cipher_text auth_tag [] of None \<Rightarrow> Inl ''Decrypt failed'' | Some out \<Rightarrow> Inr out))"

section \<open>The adapter\<close>

definition tls_aes_build :: "'x evp_aead \<Rightarrow> expresslane_key \<Rightarrow> expresslane_error + 'x aes256gcm" where
  "tls_aes_build B key =
     (case aes256gcm_new of
        Inl _ \<Rightarrow> Inl NewCipherFailed
      | Inr cipher \<Rightarrow>
          (case aes256gcm_set_key B key cipher of
             (Inl _, _) \<Rightarrow> Inl SetKeyFailed
           | (Inr _, cipher) \<Rightarrow> Inr cipher))"

definition tls_aes_encrypt ::
  "'x evp_aead \<Rightarrow> bytes \<Rightarrow> bytes \<Rightarrow> bytes \<Rightarrow> 'x aes256gcm \<Rightarrow> (expresslane_error + bytes \<times> bytes) \<times> 'x aes256gcm" where
  "tls_aes_encrypt B iv plaintext aad c =
     (case aes256gcm_encrypt B iv plaintext aad c of (Inl _, c) \<Rightarrow> (Inl EncryptFailed, c) | (Inr r, c) \<Rightarrow> (Inr r, c))"

definition tls_aes_decrypt ::
  "'x evp_aead \<Rightarrow> bytes \<Rightarrow> bytes \<Rightarrow> bytes \<Rightarrow> bytes \<Rightarrow> 'x aes256gcm \<Rightarrow> (expresslane_error + bytes) \<times> 'x aes256gcm" where
  "tls_aes_decrypt B iv ciphertext aad tag c =
     (case aes256gcm_decrypt B iv ciphertext aad tag c of (Inl _, c) \<Rightarrow> (Inl AuthFailed, c) | (Inr r, c) \<Rightarrow> (Inr r, c))"

section \<open>The pool\<close>

text \<open>\<open>PooledCipher\<close>, the trait: each method may change the instance it is called on.\<close>

record 'c pooled_cipher_ops =
  pc_build :: "expresslane_key \<Rightarrow> expresslane_error + 'c"
  pc_encrypt :: "bytes \<Rightarrow> bytes \<Rightarrow> bytes \<Rightarrow> 'c \<Rightarrow> (expresslane_error + bytes \<times> bytes) \<times> 'c"
  pc_decrypt :: "bytes \<Rightarrow> bytes \<Rightarrow> bytes \<Rightarrow> bytes \<Rightarrow> 'c \<Rightarrow> (expresslane_error + bytes) \<times> 'c"

definition tls_aes_gcm :: "'x evp_aead \<Rightarrow> 'x aes256gcm pooled_cipher_ops" where
  "tls_aes_gcm B = \<lparr>pc_build = tls_aes_build B, pc_encrypt = tls_aes_encrypt B, pc_decrypt = tls_aes_decrypt B\<rparr>"

text \<open>The default in-place methods; the copy panics (\<open>None\<close>) when the lengths do not fit.\<close>

definition pc_encrypt_into ::
  "'c pooled_cipher_ops \<Rightarrow> bytes \<Rightarrow> bytes \<Rightarrow> bytes \<Rightarrow> usize \<Rightarrow> 'c \<Rightarrow> (expresslane_error + bytes \<times> bytes) option \<times> 'c" where
  "pc_encrypt_into C iv plaintext aad out_len c =
     (case pc_encrypt C iv plaintext aad c of
        (Inl e, c) \<Rightarrow> (Some (Inl e), c)
      | (Inr (ct, tag), c) \<Rightarrow> (if length ct \<noteq> out_len then None else Some (Inr (ct, tag)), c))"

definition pc_decrypt_into ::
  "'c pooled_cipher_ops \<Rightarrow> bytes \<Rightarrow> bytes \<Rightarrow> bytes \<Rightarrow> bytes \<Rightarrow> bytes \<Rightarrow> 'c \<Rightarrow> (expresslane_error + usize \<times> bytes) option \<times> 'c" where
  "pc_decrypt_into C iv ciphertext aad tag out c =
     (case pc_decrypt C iv ciphertext aad tag c of
        (Inl e, c) \<Rightarrow> (Some (Inl e), c)
      | (Inr pt, c) \<Rightarrow> (if length out < length pt then None else Some (Inr (length pt, pt @ drop (length pt) out)), c))"

definition MAX_POOLED :: usize where [const_defs]: "MAX_POOLED = 64"

record 'c pooled_aead =
  pa_key :: expresslane_key
  pa_pool :: "'c list"

definition pool_take :: "'c pooled_cipher_ops \<Rightarrow> 'c pooled_aead \<Rightarrow> (expresslane_error + 'c) \<times> 'c pooled_aead" where
  "pool_take C p = (case pa_pool p of [] \<Rightarrow> (pc_build C (pa_key p), p) | c # cs \<Rightarrow> (Inr c, p\<lparr>pa_pool := cs\<rparr>))"

text \<open>The vector is a stack; its top is the head of the list.\<close>

definition give_back :: "'c \<Rightarrow> 'c pooled_aead \<Rightarrow> 'c pooled_aead" where
  "give_back c p = (if length (pa_pool p) < MAX_POOLED then p\<lparr>pa_pool := c # pa_pool p\<rparr> else p)"

definition pooled_new :: "'c pooled_cipher_ops \<Rightarrow> expresslane_key \<Rightarrow> expresslane_error + 'c pooled_aead" where
  "pooled_new C key = (case pc_build C key of Inl e \<Rightarrow> Inl e | Inr first \<Rightarrow> Inr \<lparr>pa_key = key, pa_pool = [first]\<rparr>)"

text \<open>The four operations share their shape: take an instance, use it, give it back.\<close>

definition with_pooled :: "'c pooled_cipher_ops \<Rightarrow> ('c \<Rightarrow> 'r \<times> 'c) \<Rightarrow> (expresslane_error \<Rightarrow> 'r) \<Rightarrow> 'c pooled_aead \<Rightarrow> 'r \<times> 'c pooled_aead" where
  "with_pooled C f err p =
     (case pool_take C p of
        (Inl e, p) \<Rightarrow> (err e, p)
      | (Inr c, p) \<Rightarrow> (case f c of (out, c) \<Rightarrow> (out, give_back c p)))"

definition pooled_seal where
  "pooled_seal C iv plaintext aad = with_pooled C (pc_encrypt C iv plaintext aad) Inl"

definition pooled_open where
  "pooled_open C iv ciphertext aad tag = with_pooled C (pc_decrypt C iv ciphertext aad tag) Inl"

definition pooled_seal_into where
  "pooled_seal_into C iv plaintext aad out_len = with_pooled C (pc_encrypt_into C iv plaintext aad out_len) (\<lambda>e. Some (Inl e))"

definition pooled_open_into where
  "pooled_open_into C iv ciphertext aad tag out = with_pooled C (pc_decrypt_into C iv ciphertext aad tag out) (\<lambda>e. Some (Inl e))"

text \<open>
  Callers share the pool. Taking and giving back hold its lock, the call between them does not: any
  number of threads may hold an instance each. The log has the calls with what they returned.
\<close>

datatype aead_call =
    CallSeal bytes bytes bytes "expresslane_error + bytes \<times> bytes"
  | CallOpen bytes bytes bytes bytes "expresslane_error + bytes"

record 'c shared_pool =
  sp_pool :: "'c pooled_aead"
  sp_held :: "nat \<Rightarrow> 'c option"
  sp_log :: "aead_call list"

inductive pool_step :: "'c pooled_cipher_ops \<Rightarrow> 'c shared_pool \<Rightarrow> 'c shared_pool \<Rightarrow> bool" for C where
  TakeStep: "sp_held s t = None \<Longrightarrow> pool_take C (sp_pool s) = (Inr c, p) \<Longrightarrow>
     pool_step C s (s\<lparr>sp_pool := p, sp_held := (sp_held s)(t := Some c)\<rparr>)"
| SealStep: "sp_held s t = Some c \<Longrightarrow> pc_encrypt C iv pt aad c = (r, c') \<Longrightarrow>
     pool_step C s (s\<lparr>sp_held := (sp_held s)(t := Some c'), sp_log := sp_log s @ [CallSeal iv pt aad r]\<rparr>)"
| OpenStep: "sp_held s t = Some c \<Longrightarrow> pc_decrypt C iv ct aad tag c = (r, c') \<Longrightarrow>
     pool_step C s (s\<lparr>sp_held := (sp_held s)(t := Some c'), sp_log := sp_log s @ [CallOpen iv ct aad tag r]\<rparr>)"
| GiveStep: "sp_held s t = Some c \<Longrightarrow>
     pool_step C s (s\<lparr>sp_pool := give_back c (sp_pool s), sp_held := (sp_held s)(t := None)\<rparr>)"

definition shared_start :: "'c pooled_aead \<Rightarrow> 'c shared_pool" where
  "shared_start p = \<lparr>sp_pool = p, sp_held = (\<lambda>_. None), sp_log = []\<rparr>"

fun call_by_key ::
  "(bytes \<Rightarrow> bytes \<Rightarrow> bytes \<Rightarrow> expresslane_error + bytes \<times> bytes) \<Rightarrow> (bytes \<Rightarrow> bytes \<Rightarrow> bytes \<Rightarrow> bytes \<Rightarrow> expresslane_error + bytes)
   \<Rightarrow> aead_call \<Rightarrow> bool" where
  "call_by_key enc dec (CallSeal iv pt aad r) \<longleftrightarrow> r = enc iv pt aad"
| "call_by_key enc dec (CallOpen iv ct aad tag r) \<longleftrightarrow> r = dec iv ct aad tag"

section \<open>What a cipher promises its pool\<close>

text \<open>
  The result of a call depends on the key alone, so that instances of one key are interchangeable.
  \<open>keyed k c\<close> says that \<open>c\<close> holds the key \<open>k\<close>; \<open>enc\<close> and \<open>dec\<close> are the cipher as a function of its key.
\<close>

locale stateless_cipher =
  fixes C :: "'c pooled_cipher_ops"
    and keyed :: "expresslane_key \<Rightarrow> 'c \<Rightarrow> bool"
    and enc :: "expresslane_key \<Rightarrow> bytes \<Rightarrow> bytes \<Rightarrow> bytes \<Rightarrow> expresslane_error + bytes \<times> bytes"
    and dec :: "expresslane_key \<Rightarrow> bytes \<Rightarrow> bytes \<Rightarrow> bytes \<Rightarrow> bytes \<Rightarrow> expresslane_error + bytes"
  assumes build_keyed: "pc_build C k = Inr c \<Longrightarrow> keyed k c"
    and encrypt_result: "keyed k c \<Longrightarrow> fst (pc_encrypt C iv pt aad c) = enc k iv pt aad"
    and encrypt_keyed: "keyed k c \<Longrightarrow> keyed k (snd (pc_encrypt C iv pt aad c))"
    and decrypt_result: "keyed k c \<Longrightarrow> fst (pc_decrypt C iv ct aad tag c) = dec k iv ct aad tag"
    and decrypt_keyed: "keyed k c \<Longrightarrow> keyed k (snd (pc_decrypt C iv ct aad tag c))"
begin

definition pool_inv :: "'c pooled_aead \<Rightarrow> bool" where
  "pool_inv p \<longleftrightarrow> length (pa_pool p) \<le> MAX_POOLED \<and> (\<forall>c\<in>set (pa_pool p). keyed (pa_key p) c)
     \<and> (\<exists>c. pc_build C (pa_key p) = Inr c)"

lemma pooled_new_inv: "pooled_new C key = Inr p \<Longrightarrow> pool_inv p \<and> pa_key p = key"
  by (auto simp: pooled_new_def pool_inv_def MAX_POOLED_def dest: build_keyed split: sum.splits)

lemma pool_take_inv:
  assumes "pool_inv p"
  shows "\<exists>c p'. pool_take C p = (Inr c, p') \<and> keyed (pa_key p) c \<and> pool_inv p' \<and> pa_key p' = pa_key p"
  using assms by (cases "pa_pool p") (auto simp: pool_take_def pool_inv_def dest: build_keyed)

lemma give_back_inv: "pool_inv p \<Longrightarrow> keyed (pa_key p) c \<Longrightarrow> pool_inv (give_back c p) \<and> pa_key (give_back c p) = pa_key p"
  by (auto simp: give_back_def pool_inv_def)

text \<open>Each operation returns what the key alone determines and leaves a good pool.\<close>

lemma with_pooled_spec:
  assumes "pool_inv p" and "\<And>c. keyed (pa_key p) c \<Longrightarrow> fst (f c) = r \<and> keyed (pa_key p) (snd (f c))"
  shows "\<exists>p'. with_pooled C f err p = (r, p') \<and> pool_inv p' \<and> pa_key p' = pa_key p"
proof -
  obtain c p' where take: "pool_take C p = (Inr c, p')" "keyed (pa_key p) c" "pool_inv p'" "pa_key p' = pa_key p"
    using pool_take_inv [OF assms(1)] by blast
  show ?thesis
    using take assms(2) [OF take(2)] give_back_inv [of p' "snd (f c)"] by (auto simp: with_pooled_def split: prod.split)
qed

lemma pooled_seal_spec:
  "pool_inv p \<Longrightarrow> \<exists>p'. pooled_seal C iv pt aad p = (enc (pa_key p) iv pt aad, p') \<and> pool_inv p' \<and> pa_key p' = pa_key p"
  unfolding pooled_seal_def by (rule with_pooled_spec) (simp_all add: encrypt_result encrypt_keyed)

lemma pooled_open_spec:
  "pool_inv p \<Longrightarrow> \<exists>p'. pooled_open C iv ct aad tag p = (dec (pa_key p) iv ct aad tag, p') \<and> pool_inv p' \<and> pa_key p' = pa_key p"
  unfolding pooled_open_def by (rule with_pooled_spec) (simp_all add: decrypt_result decrypt_keyed)

lemma encrypt_into_result:
  assumes "keyed k c"
  shows "fst (pc_encrypt_into C iv pt aad n c) =
    (case enc k iv pt aad of Inl e \<Rightarrow> Some (Inl e) | Inr (ct, tag) \<Rightarrow> if length ct \<noteq> n then None else Some (Inr (ct, tag)))"
    and "keyed k (snd (pc_encrypt_into C iv pt aad n c))"
  using encrypt_result [OF assms, of iv pt aad] encrypt_keyed [OF assms, of iv pt aad]
  by (auto simp: pc_encrypt_into_def split: prod.splits sum.splits)

lemma decrypt_into_result:
  assumes "keyed k c"
  shows "fst (pc_decrypt_into C iv ct aad tag out c) =
    (case dec k iv ct aad tag of Inl e \<Rightarrow> Some (Inl e)
     | Inr pt \<Rightarrow> if length out < length pt then None else Some (Inr (length pt, pt @ drop (length pt) out)))"
    and "keyed k (snd (pc_decrypt_into C iv ct aad tag out c))"
  using decrypt_result [OF assms, of iv ct aad tag] decrypt_keyed [OF assms, of iv ct aad tag]
  by (auto simp: pc_decrypt_into_def split: prod.splits sum.splits)

text \<open>Under every interleaving of the callers each result is the one its key determines.\<close>

definition shared_inv :: "expresslane_key \<Rightarrow> 'c shared_pool \<Rightarrow> bool" where
  "shared_inv key s \<longleftrightarrow> pool_inv (sp_pool s) \<and> pa_key (sp_pool s) = key
     \<and> (\<forall>t c. sp_held s t = Some c \<longrightarrow> keyed key c) \<and> list_all (call_by_key (enc key) (dec key)) (sp_log s)"

lemma pool_step_inv: "pool_step C s s' \<Longrightarrow> shared_inv key s \<Longrightarrow> shared_inv key s'"
proof (induction rule: pool_step.induct)
  case (TakeStep s t c p)
  then show ?case using pool_take_inv [of "sp_pool s"] by (auto simp: shared_inv_def)
next
  case (SealStep s t c iv pt aad r c')
  then have "keyed key c" by (simp add: shared_inv_def)
  then have "keyed key c'" "r = enc key iv pt aad"
    using encrypt_keyed [of key c iv pt aad] encrypt_result [of key c iv pt aad] SealStep.hyps by auto
  then show ?case using SealStep by (auto simp: shared_inv_def)
next
  case (OpenStep s t c iv ct aad tag r c')
  then have "keyed key c" by (simp add: shared_inv_def)
  then have "keyed key c'" "r = dec key iv ct aad tag"
    using decrypt_keyed [of key c iv ct aad tag] decrypt_result [of key c iv ct aad tag] OpenStep.hyps by auto
  then show ?case using OpenStep by (auto simp: shared_inv_def)
next
  case (GiveStep s t c)
  then show ?case using give_back_inv [of "sp_pool s" c] by (auto simp: shared_inv_def)
qed

lemma shared_calls_by_key:
  assumes "pooled_new C key = Inr p" and "(pool_step C)\<^sup>*\<^sup>* (shared_start p) s"
  shows "list_all (call_by_key (enc key) (dec key)) (sp_log s)" and "length (pa_pool (sp_pool s)) \<le> MAX_POOLED"
proof -
  have "shared_inv key (shared_start p)"
    using pooled_new_inv [OF assms(1)] by (simp add: shared_inv_def shared_start_def)
  with assms(2) have "shared_inv key s"
    by (induction rule: rtranclp_induct) (auto intro: pool_step_inv)
  then show "list_all (call_by_key (enc key) (dec key)) (sp_log s)" and "length (pa_pool (sp_pool s)) \<le> MAX_POOLED"
    by (simp_all add: shared_inv_def pool_inv_def)
qed

end

section \<open>AES on BoringSSL as the AEAD of a session\<close>

definition evp_enc :: "'x evp_aead \<Rightarrow> expresslane_key \<Rightarrow> bytes \<Rightarrow> bytes \<Rightarrow> bytes \<Rightarrow> expresslane_error + bytes \<times> bytes" where
  "evp_enc B k iv pt aad =
     (case Option.bind (ev_new_default_tag B k) (\<lambda>x. ev_seal_in_place B x iv pt aad) of None \<Rightarrow> Inl EncryptFailed | Some r \<Rightarrow> Inr r)"

definition evp_dec :: "'x evp_aead \<Rightarrow> expresslane_key \<Rightarrow> bytes \<Rightarrow> bytes \<Rightarrow> bytes \<Rightarrow> bytes \<Rightarrow> expresslane_error + bytes" where
  "evp_dec B k iv ct aad tag =
     (case Option.bind (ev_new_default_tag B k) (\<lambda>x. ev_open_in_place B x iv ct tag aad) of None \<Rightarrow> Inl AuthFailed | Some r \<Rightarrow> Inr r)"

definition evp_keyed :: "'x evp_aead \<Rightarrow> expresslane_key \<Rightarrow> 'x aes256gcm \<Rightarrow> bool" where
  "evp_keyed B k c \<longleftrightarrow> (\<exists>x. ev_new_default_tag B k = Some x \<and> ag_ctx c = Some x)"

interpretation tls_aes: stateless_cipher "tls_aes_gcm B" "evp_keyed B" "evp_enc B" "evp_dec B" for B :: "'x evp_aead"
  by unfold_locales
    (auto simp: tls_aes_gcm_def tls_aes_build_def tls_aes_encrypt_def tls_aes_decrypt_def aes256gcm_new_def
      aes256gcm_set_key_def aes256gcm_encrypt_def aes256gcm_decrypt_def evp_keyed_def evp_enc_def evp_dec_def
      split: option.splits prod.splits)

text \<open>The AEAD a session is given, as a value: the key itself, with the functions of the cipher.\<close>

definition keyed_aead :: "'x evp_aead \<Rightarrow> expresslane_key aead_ops" where
  "keyed_aead B = \<lparr>aead_new = (\<lambda>k. case ev_new_default_tag B k of None \<Rightarrow> Inl SetKeyFailed | Some _ \<Rightarrow> Inr k),
     aead_seal = evp_enc B, aead_open = evp_dec B\<rparr>"

definition pool_represents :: "'x evp_aead \<Rightarrow> expresslane_key \<Rightarrow> 'x aes256gcm pooled_aead \<Rightarrow> bool" where
  "pool_represents B k p \<longleftrightarrow> tls_aes.pool_inv B p \<and> pa_key p = k"

text \<open>
  The pool implements that AEAD: it is created when the value is, and each of the four operations
  returns what the function of the value does, panics of the copies included.
\<close>

lemma pooled_new_refines:
  "case aead_new (keyed_aead B) k of
     Inl e \<Rightarrow> pooled_new (tls_aes_gcm B) k = Inl e
   | Inr a \<Rightarrow> \<exists>p. pooled_new (tls_aes_gcm B) k = Inr p \<and> pool_represents B a p"
proof (cases "ev_new_default_tag B k")
  case (Some x)
  then obtain p where p: "pooled_new (tls_aes_gcm B) k = Inr p"
    by (simp add: pooled_new_def tls_aes_gcm_def tls_aes_build_def aes256gcm_new_def aes256gcm_set_key_def)
  then show ?thesis using Some tls_aes.pooled_new_inv [OF p] by (simp add: keyed_aead_def pool_represents_def)
qed (simp add: keyed_aead_def pooled_new_def tls_aes_gcm_def tls_aes_build_def aes256gcm_new_def aes256gcm_set_key_def)

lemma pooled_ops_refine:
  assumes "pool_represents B a p"
  shows "\<exists>p'. pooled_seal (tls_aes_gcm B) iv pt aad p = (aead_seal (keyed_aead B) a iv pt aad, p') \<and> pool_represents B a p'"
    and "\<exists>p'. pooled_open (tls_aes_gcm B) iv ct aad tag p = (aead_open (keyed_aead B) a iv ct aad tag, p') \<and> pool_represents B a p'"
    and "\<exists>p'. pooled_seal_into (tls_aes_gcm B) iv pt aad n p = (aead_seal_into (keyed_aead B) a iv pt aad n, p') \<and> pool_represents B a p'"
    and "\<exists>p'. pooled_open_into (tls_aes_gcm B) iv ct aad tag out p = (aead_open_into (keyed_aead B) a iv ct aad tag out, p')
      \<and> pool_represents B a p'"
proof -
  have inv: "tls_aes.pool_inv B p" and key: "pa_key p = a" using assms by (simp_all add: pool_represents_def)
  show "\<exists>p'. pooled_seal (tls_aes_gcm B) iv pt aad p = (aead_seal (keyed_aead B) a iv pt aad, p') \<and> pool_represents B a p'"
    using tls_aes.pooled_seal_spec [OF inv, of iv pt aad] key by (simp add: pool_represents_def keyed_aead_def)
  show "\<exists>p'. pooled_open (tls_aes_gcm B) iv ct aad tag p = (aead_open (keyed_aead B) a iv ct aad tag, p') \<and> pool_represents B a p'"
    using tls_aes.pooled_open_spec [OF inv, of iv ct aad tag] key by (simp add: pool_represents_def keyed_aead_def)
  show "\<exists>p'. pooled_seal_into (tls_aes_gcm B) iv pt aad n p = (aead_seal_into (keyed_aead B) a iv pt aad n, p') \<and> pool_represents B a p'"
    using tls_aes.with_pooled_spec [OF inv, where f = "pc_encrypt_into (tls_aes_gcm B) iv pt aad n" and err = "\<lambda>e. Some (Inl e)"]
      tls_aes.encrypt_into_result [of B a _ iv pt aad n] key
    by (simp add: pooled_seal_into_def pool_represents_def keyed_aead_def aead_seal_into_def)
  show "\<exists>p'. pooled_open_into (tls_aes_gcm B) iv ct aad tag out p = (aead_open_into (keyed_aead B) a iv ct aad tag out, p')
      \<and> pool_represents B a p'"
    using tls_aes.with_pooled_spec [OF inv, where f = "pc_decrypt_into (tls_aes_gcm B) iv ct aad tag out" and err = "\<lambda>e. Some (Inl e)"]
      tls_aes.decrypt_into_result [of B a _ iv ct aad tag out] key
    by (simp add: pooled_open_into_def pool_represents_def keyed_aead_def aead_open_into_def)
qed

text \<open>What BoringSSL documents of an AEAD: opening with the same key, nonce and data undoes sealing.\<close>

definition evp_correct :: "'x evp_aead \<Rightarrow> bool" where
  "evp_correct B \<longleftrightarrow> (\<forall>x iv pt aad ct tag. ev_seal_in_place B x iv pt aad = Some (ct, tag) \<longrightarrow>
     length ct = length pt \<and> length tag = 16 \<and> ev_open_in_place B x iv ct tag aad = Some pt)"

text \<open>Two pools of one key, at the two ends of a tunnel: what one seals the other opens.\<close>

lemma pools_interoperate:
  assumes "evp_correct B" and "pool_represents B k p" and "pool_represents B k q"
    and "pooled_seal (tls_aes_gcm B) iv pt aad p = (Inr (ct, tag), p')"
  shows "fst (pooled_open (tls_aes_gcm B) iv ct aad tag q) = Inr pt"
proof -
  have "evp_enc B k iv pt aad = Inr (ct, tag)"
    using pooled_ops_refine(1) [OF assms(2), of iv pt aad] assms(4) by (simp add: keyed_aead_def)
  then have "evp_dec B k iv ct aad tag = Inr pt"
    using assms(1) by (fastforce simp: evp_enc_def evp_dec_def evp_correct_def split: option.splits bind_splits)
  then show ?thesis
    using pooled_ops_refine(2) [OF assms(3), of iv ct aad tag] by (auto simp: keyed_aead_def)
qed

lemma chacha20_roundtrip:
  assumes "evp_correct B" and "chacha20_encrypt B (chacha20_new B key) iv pt = Inr (ct, tag)"
  shows "chacha20_decrypt B (chacha20_new B key) iv ct tag = Inr pt"
  using assms by (fastforce simp: chacha20_encrypt_def chacha20_decrypt_def chacha20_new_def evp_correct_def split: option.splits)

end
