(* ===== verification/Io_Uring.thy ===== *)
theory Io_Uring
  imports Client_Sockets "HOL-Library.Multiset"
begin

text \<open>
  The io_uring backend of a device (lightway-app-utils/src/iouring.rs): a ring of submissions and
  completions shared with the kernel, and two channels to the rest of the program. Half of the slots
  are for reads and half for writes; a slot names the buffer the kernel works on. The kernel takes
  submissions and completes them in any order; how many a call of \<open>submit\<close> takes is a parameter.
  Shown is what the unsafe blocks of the source claim: slots are always in bounds, and a buffer
  is neither dropped nor reused while the kernel may still access it.
\<close>

section \<open>Slots\<close>

text \<open>The index is an \<open>isize\<close> that is never negative.\<close>

datatype slot_idx = TxSlot nat | RxSlot nat

definition from_user_data :: "u64 \<Rightarrow> slot_idx" where
  "from_user_data u = (if sint u < 0 then RxSlot (unat (not u)) else TxSlot (unat u))"

fun slot_index :: "slot_idx \<Rightarrow> nat" where
  "slot_index (TxSlot i) = i"
| "slot_index (RxSlot i) = i"

fun user_data :: "slot_idx \<Rightarrow> u64" where
  "user_data (TxSlot i) = of_nat i"
| "user_data (RxSlot i) = not (of_nat i)"

lemma sint_of_nat_64: "i < 2 ^ 63 \<Longrightarrow> sint (of_nat i :: u64) = int i"
  by (simp add: signed_of_nat signed_take_bit_int_eq_self)

lemma from_user_data_user_data:
  assumes "slot_index s < 2 ^ 63"
  shows "from_user_data (user_data s) = s"
proof (cases s)
  case (TxSlot i)
  then show ?thesis using assms by (simp add: from_user_data_def sint_of_nat_64 unsigned_of_nat take_bit_nat_eq_self)
next
  case (RxSlot i)
  have "sint (not (of_nat i :: u64)) = - int i - 1"
    using assms RxSlot sint_of_nat_64 [of i] by (simp add: signed_not_eq not_int_def signed_take_bit_int_eq_self)
  then show ?thesis using assms RxSlot by (simp add: from_user_data_def unsigned_of_nat take_bit_nat_eq_self)
qed

section \<open>The ring\<close>

datatype sqe = SqeWrite (sqe_user_data: u64) bytes | SqeRead (sqe_user_data: u64)

text \<open>A completion: the user data, the result, and for a read the bytes that are now in its buffer.\<close>

datatype cqe = Cqe (cqe_user_data: u64) (cqe_result: int) (cqe_data: bytes)

datatype uring_error = SubmitFailed sock_error | TxQueueClosed | RxQueueClosed

text \<open>
  The vectors of free slots are stacks, their tops the heads of the lists. \<open>ur_kernel\<close> has the submissions
  the kernel has taken and not completed. A read buffer without a permit to send has \<open>False\<close> in \<open>ur_rx_senders\<close>.
\<close>

record uring =
  ur_sq :: "sqe list"
  ur_sq_entries :: nat
  ur_kernel :: "sqe list"
  ur_cq :: "cqe list"
  ur_submits :: nat
  ur_tx_queue :: "bytes list"
  ur_tx_closed :: bool
  ur_tx_slots :: "slot_idx list"
  ur_tx_bufs :: "bytes option list"
  ur_rx_queue :: "bytes list"
  ur_rx_closed :: bool
  ur_rx_slots :: "slot_idx list"
  ur_rx_senders :: "bool list"

text \<open>\<open>IOUring::recv\<close>, \<open>recv_many\<close> and \<open>try_send\<close>: the ends of the channels the rest of the program has. \<open>None\<close>
  for an empty queue is the error of a closed channel; an open one is waited for.\<close>

definition iouring_recv :: "uring \<Rightarrow> bytes option \<times> uring" where
  "iouring_recv r = (case ur_rx_queue r of [] \<Rightarrow> (None, r) | pkt # q \<Rightarrow> (Some pkt, r\<lparr>ur_rx_queue := q\<rparr>))"

definition iouring_recv_many :: "bytes list \<Rightarrow> nat \<Rightarrow> uring \<Rightarrow> (nat \<times> bytes list) option \<times> uring" where
  "iouring_recv_many out max_pkts r =
     (if max_pkts = 0 then (Some (0, out), r)
      else let n = min max_pkts (length (ur_rx_queue r)) in
        if n = 0 then (None, r)
        else (Some (n, out @ take n (ur_rx_queue r)), r\<lparr>ur_rx_queue := drop n (ur_rx_queue r)\<rparr>))"

definition iouring_try_send :: "nat \<Rightarrow> io_error \<Rightarrow> bytes \<Rightarrow> uring \<Rightarrow> io_result \<times> uring" where
  "iouring_try_send channel_size send_error buf r =
     (if ur_tx_closed r then (IoErr send_error, r)
      else if length (ur_tx_queue r) \<ge> channel_size then (IoWouldBlock, r)
      else (IoOk (length buf), r\<lparr>ur_tx_queue := ur_tx_queue r @ [buf]\<rparr>))"

text \<open>\<open>submit\<close>: the kernel takes some of the queue, or refuses. With \<open>sqpoll\<close> it may take none yet.\<close>

datatype submit_outcome = Submitted nat | SubmitBusy | SubmitError sock_error

definition uring_submit :: "(nat \<Rightarrow> submit_outcome) \<Rightarrow> uring \<Rightarrow> submit_outcome \<times> uring" where
  "uring_submit K r =
     (let out = K (ur_submits r); r = r\<lparr>ur_submits := ur_submits r + 1\<rparr> in
      case out of
        Submitted n \<Rightarrow> (out, r\<lparr>ur_sq := drop n (ur_sq r), ur_kernel := ur_kernel r @ take n (ur_sq r)\<rparr>)
      | _ \<Rightarrow> (out, r))"

definition sq_full :: "uring \<Rightarrow> bool" where
  "sq_full r \<longleftrightarrow> length (ur_sq r) \<ge> ur_sq_entries r"

text \<open>The common head of the two loops: \<open>Inl None\<close> breaks out of the loop, \<open>Inl (Some e)\<close> is its error.\<close>

definition make_room :: "(nat \<Rightarrow> submit_outcome) \<Rightarrow> uring \<Rightarrow> (uring_error option + unit) \<times> uring" where
  "make_room K r =
     (if \<not> sq_full r then (Inr (), r)
      else case uring_submit K r of
          (Submitted _, r) \<Rightarrow> (Inr (), r)
        | (SubmitBusy, r) \<Rightarrow> (Inl None, r)
        | (SubmitError e, r) \<Rightarrow> (Inl (Some (SubmitFailed e)), r))"

section \<open>Filling the slots\<close>

text \<open>\<open>None\<close> stands for a panic and for an access out of bounds. A failed push drops the packet.\<close>

definition push_one_tx_event_to :: "bytes \<Rightarrow> slot_idx \<Rightarrow> uring \<Rightarrow> ((slot_idx + unit) \<times> uring) option" where
  "push_one_tx_event_to buf slot r =
     (if sq_full r then Some (Inl slot, r)
      else if slot_index slot \<ge> length (ur_tx_bufs r) then None
      else Some (Inr (), r\<lparr>ur_sq := ur_sq r @ [SqeWrite (user_data slot) buf],
                           ur_tx_bufs := (ur_tx_bufs r)[slot_index slot := Some buf]\<rparr>))"

text \<open>\<open>slots\<close> are the free slots; each round of the loop uses one or ends it.\<close>

fun push_tx_loop :: "(nat \<Rightarrow> submit_outcome) \<Rightarrow> slot_idx list \<Rightarrow> uring \<Rightarrow> ((uring_error + unit) \<times> uring) option" where
  "push_tx_loop K [] r = Some (Inr (), r\<lparr>ur_tx_slots := []\<rparr>)"
| "push_tx_loop K (slot # slots) r =
     (case make_room K r of
        (Inl None, r) \<Rightarrow> Some (Inr (), r\<lparr>ur_tx_slots := slot # slots\<rparr>)
      | (Inl (Some e), r) \<Rightarrow> Some (Inl e, r\<lparr>ur_tx_slots := slot # slots\<rparr>)
      | (Inr _, r) \<Rightarrow>
          (case ur_tx_queue r of
             [] \<Rightarrow> Some (if ur_tx_closed r then Inl TxQueueClosed else Inr (), r\<lparr>ur_tx_slots := slot # slots\<rparr>)
           | buf # q \<Rightarrow>
               (case push_one_tx_event_to buf slot (r\<lparr>ur_tx_queue := q\<rparr>) of
                  None \<Rightarrow> None
                | Some (Inl slot, r) \<Rightarrow> Some (Inr (), r\<lparr>ur_tx_slots := slot # slots\<rparr>)
                | Some (Inr _, r) \<Rightarrow> push_tx_loop K slots r)))"

definition push_tx_events_to :: "(nat \<Rightarrow> submit_outcome) \<Rightarrow> uring \<Rightarrow> ((uring_error + unit) \<times> uring) option" where
  "push_tx_events_to K r = push_tx_loop K (ur_tx_slots r) r"

fun push_rx_loop :: "(nat \<Rightarrow> submit_outcome) \<Rightarrow> slot_idx list \<Rightarrow> uring \<Rightarrow> ((uring_error + unit) \<times> uring) option" where
  "push_rx_loop K slots r =
     (case make_room K r of
        (Inl None, r) \<Rightarrow> Some (Inr (), r\<lparr>ur_rx_slots := slots\<rparr>)
      | (Inl (Some e), r) \<Rightarrow> Some (Inl e, r\<lparr>ur_rx_slots := slots\<rparr>)
      | (Inr _, r) \<Rightarrow>
          (case slots of
             [] \<Rightarrow> Some (Inr (), r\<lparr>ur_rx_slots := []\<rparr>)
           | slot # slots \<Rightarrow>
               if slot_index slot \<ge> length (ur_rx_senders r) then None
               else if sq_full r then Some (Inr (), r\<lparr>ur_rx_slots := slot # slots\<rparr>)
               else push_rx_loop K slots (r\<lparr>ur_sq := ur_sq r @ [SqeRead (user_data slot)]\<rparr>)))"

definition push_rx_events_to :: "(nat \<Rightarrow> submit_outcome) \<Rightarrow> uring \<Rightarrow> ((uring_error + unit) \<times> uring) option" where
  "push_rx_events_to K r = push_rx_loop K (ur_rx_slots r) r"

section \<open>The task\<close>

text \<open>One completion. A read that brought data sends it and reserves the next place in the channel, waiting for one.\<close>

definition handle_cqe :: "cqe \<Rightarrow> uring \<Rightarrow> ((uring_error + unit) \<times> uring) option" where
  "handle_cqe c r =
     (case from_user_data (cqe_user_data c) of
        RxSlot i \<Rightarrow>
          if cqe_result c > 0 then
            if i \<ge> length (ur_rx_senders r) then None
            else if \<not> ur_rx_senders r ! i then None
            else let r = r\<lparr>ur_rx_queue := ur_rx_queue r @ [cqe_data c]\<rparr> in
              if ur_rx_closed r then Some (Inl RxQueueClosed, r\<lparr>ur_rx_senders := (ur_rx_senders r)[i := False]\<rparr>)
              else Some (Inr (), r\<lparr>ur_rx_slots := RxSlot i # ur_rx_slots r\<rparr>)
          else Some (Inr (), r\<lparr>ur_rx_slots := RxSlot i # ur_rx_slots r\<rparr>)
      | TxSlot i \<Rightarrow>
          if i \<ge> length (ur_tx_bufs r) then None
          else Some (Inr (), r\<lparr>ur_tx_bufs := (ur_tx_bufs r)[i := None], ur_tx_slots := TxSlot i # ur_tx_slots r\<rparr>))"

fun handle_cq :: "cqe list \<Rightarrow> uring \<Rightarrow> ((uring_error + unit) \<times> uring) option" where
  "handle_cq [] r = Some (Inr (), r)"
| "handle_cq (c # cq) r =
     (case handle_cqe c (r\<lparr>ur_cq := cq\<rparr>) of
        None \<Rightarrow> None
      | Some (Inl e, r) \<Rightarrow> Some (Inl e, r)
      | Some (Inr _, r) \<Rightarrow> handle_cq cq r)"

text \<open>
  What ends the wait when there is nothing to do: a packet to send, for which there must be a slot and
  room, or the event of a completion. The kernel completes entries at any time, in any order;
  \<open>completed\<close> are those the task finds in the queue beside the ones of earlier rounds.
\<close>

datatype wait_event = WaitTx bytes | WaitEventFd

definition uring_wait :: "wait_event \<Rightarrow> uring \<Rightarrow> uring option" where
  "uring_wait ev r =
     (if ur_cq r \<noteq> [] \<or> ur_tx_queue r \<noteq> [] then Some r
      else case ev of
          WaitEventFd \<Rightarrow> Some r
        | WaitTx buf \<Rightarrow>
            (case ur_tx_slots r of
               [] \<Rightarrow> Some r
             | slot # slots \<Rightarrow>
                 if sq_full r then Some r
                 else (case push_one_tx_event_to buf slot (r\<lparr>ur_tx_slots := slots\<rparr>) of
                     None \<Rightarrow> None
                   | Some (Inl slot, r) \<Rightarrow> Some (r\<lparr>ur_tx_slots := slot # ur_tx_slots r\<rparr>)
                   | Some (Inr _, r) \<Rightarrow> Some r)))"

fun remove_sqe :: "u64 \<Rightarrow> sqe list \<Rightarrow> sqe list" where
  "remove_sqe ud [] = []"
| "remove_sqe ud (e # es) = (if sqe_user_data e = ud then es else e # remove_sqe ud es)"

definition kernel_completes :: "cqe \<Rightarrow> uring \<Rightarrow> uring" where
  "kernel_completes c r = r\<lparr>ur_kernel := remove_sqe (cqe_user_data c) (ur_kernel r), ur_cq := ur_cq r @ [c]\<rparr>"

text \<open>The kernel completes what it was given.\<close>

fun completions_ok :: "cqe list \<Rightarrow> uring \<Rightarrow> bool" where
  "completions_ok [] r \<longleftrightarrow> True"
| "completions_ok (c # cs) r \<longleftrightarrow> cqe_user_data c \<in> sqe_user_data ` set (ur_kernel r) \<and> completions_ok cs (kernel_completes c r)"

definition iouring_round :: "(nat \<Rightarrow> submit_outcome) \<Rightarrow> wait_event \<Rightarrow> (uring \<Rightarrow> cqe list) \<Rightarrow> uring \<Rightarrow> ((uring_error + unit) \<times> uring) option" where
  "iouring_round K ev completed r =
     (case uring_submit K r of
        (SubmitBusy, r) \<Rightarrow> Some (Inl (SubmitFailed (OtherOsError 16)), r)
      | (SubmitError e, r) \<Rightarrow> Some (Inl (SubmitFailed e), r)
      | (Submitted _, r) \<Rightarrow>
          (case uring_wait ev r of
             None \<Rightarrow> None
           | Some r \<Rightarrow>
               (case push_tx_events_to K r of
                  None \<Rightarrow> None
                | Some (Inl e, r) \<Rightarrow> Some (Inl e, r)
                | Some (Inr _, r) \<Rightarrow>
                    (case push_rx_events_to K r of
                       None \<Rightarrow> None
                     | Some (Inl e, r) \<Rightarrow> Some (Inl e, r)
                     | Some (Inr _, r) \<Rightarrow> (let r = fold kernel_completes (completed r) r in handle_cq (ur_cq r) r)))))"

text \<open>The start of the task: every read slot is submitted at once; the channel has room for them.\<close>

definition iouring_start :: "nat \<Rightarrow> nat \<Rightarrow> uring" where
  "iouring_start ring_size sq_entries =
     (let n = ring_size div 2 in
      \<lparr>ur_sq = map (\<lambda>i. SqeRead (user_data (RxSlot i))) [0..<n], ur_sq_entries = sq_entries, ur_kernel = [], ur_cq = [],
       ur_submits = 0, ur_tx_queue = [], ur_tx_closed = False, ur_tx_slots = map TxSlot (rev [0..<n]),
       ur_tx_bufs = replicate n None, ur_rx_queue = [], ur_rx_closed = False, ur_rx_slots = [], ur_rx_senders = replicate n True\<rparr>)"

section \<open>Slots and buffers\<close>

definition all_slots :: "nat \<Rightarrow> slot_idx list" where
  "all_slots n = map TxSlot [0..<n] @ map RxSlot [0..<n]"

abbreviation sqe_slot :: "sqe \<Rightarrow> slot_idx" where "sqe_slot e \<equiv> from_user_data (sqe_user_data e)"
abbreviation cqe_slot :: "cqe \<Rightarrow> slot_idx" where "cqe_slot c \<equiv> from_user_data (cqe_user_data c)"

fun is_tx :: "slot_idx \<Rightarrow> bool" where
  "is_tx (TxSlot _) \<longleftrightarrow> True"
| "is_tx (RxSlot _) \<longleftrightarrow> False"

fun sqe_owned :: "nat \<Rightarrow> bytes option list \<Rightarrow> sqe \<Rightarrow> bool" where
  "sqe_owned n bufs (SqeWrite ud b) \<longleftrightarrow> (\<exists>i<n. ud = user_data (TxSlot i) \<and> bufs ! i = Some b)"
| "sqe_owned n bufs (SqeRead ud) \<longleftrightarrow> (\<exists>i<n. ud = user_data (RxSlot i))"

text \<open>Where a slot is besides the free ones: submitted, in the kernel, or completed.\<close>

definition busy_slots :: "uring \<Rightarrow> slot_idx multiset" where
  "busy_slots r = mset (map sqe_slot (ur_sq r)) + mset (map sqe_slot (ur_kernel r)) + mset (map cqe_slot (ur_cq r))"

text \<open>
  Every slot is in exactly one place, and the buffer of every write that the kernel has or will get is still
  held unchanged by the program.
\<close>

definition uring_inv :: "nat \<Rightarrow> uring \<Rightarrow> bool" where
  "uring_inv n r \<longleftrightarrow> n < 2 ^ 63
    \<and> mset (ur_tx_slots r) + mset (ur_rx_slots r) + busy_slots r = mset (all_slots n)
    \<and> (\<forall>s\<in>set (ur_tx_slots r). is_tx s) \<and> (\<forall>s\<in>set (ur_rx_slots r). \<not> is_tx s)
    \<and> length (ur_tx_bufs r) = n \<and> ur_rx_senders r = replicate n True
    \<and> (\<forall>e\<in>set (ur_sq r) \<union> set (ur_kernel r). sqe_owned n (ur_tx_bufs r) e)"

lemma distinct_all_slots: "distinct (all_slots n)"
  by (auto simp: all_slots_def distinct_map inj_on_def)

lemma count_all_slots: "count (mset (all_slots n)) s \<le> 1"
  using distinct_all_slots [of n] by (simp add: distinct_count_atmost_1)

lemma in_all_slots: "s \<in> set (all_slots n) \<longleftrightarrow> slot_index s < n"
  by (cases s) (auto simp: all_slots_def)

lemma slot_once:
  assumes "add_mset s A = mset (all_slots n)"
  shows "s \<notin># A" and "slot_index s < n"
proof -
  have "count A s + 1 \<le> 1" using count_all_slots [of n s] by (simp flip: assms)
  then show "s \<notin># A" by (simp add: not_in_iff)
  have "s \<in># mset (all_slots n)" by (simp flip: assms)
  then show "slot_index s < n" by (simp add: in_all_slots)
qed

lemma uring_inv_unused [simp]:
  "uring_inv n (r\<lparr>ur_submits := m\<rparr>) = uring_inv n r" "uring_inv n (r\<lparr>ur_tx_queue := q\<rparr>) = uring_inv n r"
  "uring_inv n (r\<lparr>ur_rx_queue := q\<rparr>) = uring_inv n r" "uring_inv n (r\<lparr>ur_tx_closed := b\<rparr>) = uring_inv n r"
  "uring_inv n (r\<lparr>ur_rx_closed := b\<rparr>) = uring_inv n r"
  by (simp_all add: uring_inv_def busy_slots_def)

lemma submit_inv:
  "uring_inv n (r\<lparr>ur_sq := drop k (ur_sq r), ur_kernel := ur_kernel r @ take k (ur_sq r)\<rparr>) = uring_inv n r"
proof -
  have "mset (map sqe_slot (drop k (ur_sq r))) + mset (map sqe_slot (take k (ur_sq r))) = mset (map sqe_slot (ur_sq r))"
    by (metis append_take_drop_id map_append mset_append union_commute)
  moreover have "set (drop k (ur_sq r)) \<union> (set (ur_kernel r) \<union> set (take k (ur_sq r))) = set (ur_sq r) \<union> set (ur_kernel r)"
    by (metis append_take_drop_id set_append sup.commute sup.left_commute)
  ultimately show ?thesis by (simp add: uring_inv_def busy_slots_def ac_simps)
qed

text \<open>\<open>submit\<close> moves entries to the kernel and touches nothing else.\<close>

lemma uring_submit_shape:
  "uring_submit K r = (out, r') \<Longrightarrow>
    \<exists>k. r' = r\<lparr>ur_submits := ur_submits r + 1, ur_sq := drop k (ur_sq r), ur_kernel := ur_kernel r @ take k (ur_sq r)\<rparr>"
  by (cases "K (ur_submits r)") (auto simp: uring_submit_def Let_def intro: exI [where x = 0])

lemma make_room_shape:
  assumes "make_room K r = (out, r')"
  shows "\<exists>k m. r' = r\<lparr>ur_submits := m, ur_sq := drop k (ur_sq r), ur_kernel := ur_kernel r @ take k (ur_sq r)\<rparr>"
proof (cases "sq_full r")
  case True
  then obtain out' where "uring_submit K r = (out', r')"
    using assms by (auto simp: make_room_def split: prod.splits submit_outcome.splits)
  then show ?thesis by (blast dest: uring_submit_shape)
next
  case False
  then have "r' = r\<lparr>ur_submits := ur_submits r, ur_sq := drop 0 (ur_sq r), ur_kernel := ur_kernel r @ take 0 (ur_sq r)\<rparr>"
    using assms by (simp add: make_room_def)
  then show ?thesis by blast
qed

lemma submitted_inv:
  "uring_inv n (r\<lparr>ur_submits := m, ur_sq := drop k (ur_sq r), ur_kernel := ur_kernel r @ take k (ur_sq r)\<rparr>) = uring_inv n r"
  using submit_inv [of n "r\<lparr>ur_submits := m\<rparr>" k] by simp

lemma uring_submit_inv: "uring_submit K r = (out, r') \<Longrightarrow> uring_inv n r \<Longrightarrow> uring_inv n r'"
  by (drule uring_submit_shape) (auto simp: submitted_inv)

text \<open>The same while a loop holds the free slots in a variable of its own.\<close>

lemma slots_last:
  "r\<lparr>ur_submits := m, ur_sq := a, ur_kernel := b, ur_tx_slots := s\<rparr> = r\<lparr>ur_tx_slots := s, ur_submits := m, ur_sq := a, ur_kernel := b\<rparr>"
  "r\<lparr>ur_submits := m, ur_sq := a, ur_kernel := b, ur_rx_slots := s\<rparr> = r\<lparr>ur_rx_slots := s, ur_submits := m, ur_sq := a, ur_kernel := b\<rparr>"
  "r\<lparr>ur_tx_queue := q, ur_tx_slots := s\<rparr> = r\<lparr>ur_tx_slots := s, ur_tx_queue := q\<rparr>"
  by (rule uring.equality; simp)+

lemma make_room_tx: "make_room K r = (out, r') \<Longrightarrow> uring_inv n (r\<lparr>ur_tx_slots := s\<rparr>) \<Longrightarrow> uring_inv n (r'\<lparr>ur_tx_slots := s\<rparr>)"
  using submitted_inv [of n "r\<lparr>ur_tx_slots := s\<rparr>"] by (auto simp: slots_last dest!: make_room_shape)

lemma make_room_rx: "make_room K r = (out, r') \<Longrightarrow> uring_inv n (r\<lparr>ur_rx_slots := s\<rparr>) \<Longrightarrow> uring_inv n (r'\<lparr>ur_rx_slots := s\<rparr>)"
  using submitted_inv [of n "r\<lparr>ur_rx_slots := s\<rparr>"] by (auto simp: slots_last dest!: make_room_shape)

lemma sqe_owned_other: "sqe_owned n bufs e \<Longrightarrow> n < 2 ^ 63 \<Longrightarrow> sqe_slot e \<noteq> TxSlot i \<Longrightarrow> sqe_owned n (bufs[i := b]) e"
  using from_user_data_user_data [of "TxSlot _"] by (cases e) (auto simp: nth_list_update)

lemma busy_sqe: "e \<in> set (ur_sq r) \<union> set (ur_kernel r) \<Longrightarrow> sqe_slot e \<in># busy_slots r"
  by (auto simp: busy_slots_def)

lemma push_one_inv:
  assumes "uring_inv n (r\<lparr>ur_tx_slots := slot # slots\<rparr>)"
  shows "\<exists>out r'. push_one_tx_event_to buf slot r = Some (out, r')
    \<and> (case out of Inl s \<Rightarrow> s = slot \<and> r' = r | Inr _ \<Rightarrow> uring_inv n (r'\<lparr>ur_tx_slots := slots\<rparr>))"
proof (cases "sq_full r")
  case False
  have all: "add_mset slot (mset slots + mset (ur_rx_slots r) + busy_slots r) = mset (all_slots n)"
    and tx: "is_tx slot" and n: "n < 2 ^ 63" and len: "length (ur_tx_bufs r) = n"
    and own: "\<forall>e\<in>set (ur_sq r) \<union> set (ur_kernel r). sqe_owned n (ur_tx_bufs r) e"
    using assms by (simp_all add: uring_inv_def busy_slots_def)
  obtain i where i: "slot = TxSlot i" using tx by (cases slot) simp_all
  have lt: "i < n" and free: "TxSlot i \<notin># busy_slots r" using slot_once [OF all] i by auto
  have "\<forall>e\<in>set (ur_sq r) \<union> set (ur_kernel r). sqe_slot e \<noteq> TxSlot i"
    using free busy_sqe by metis
  then have "\<forall>e\<in>set (ur_sq r) \<union> set (ur_kernel r). sqe_owned n ((ur_tx_bufs r)[i := Some buf]) e"
    using own n sqe_owned_other by blast
  moreover have "from_user_data (of_nat i) = TxSlot i" using from_user_data_user_data [of "TxSlot i"] lt n by simp
  ultimately show ?thesis
    using False assms i lt n len by (auto simp: push_one_tx_event_to_def uring_inv_def busy_slots_def)
qed (simp add: push_one_tx_event_to_def)

lemma push_tx_loop_inv:
  "uring_inv n (r\<lparr>ur_tx_slots := slots\<rparr>) \<Longrightarrow> \<exists>out r'. push_tx_loop K slots r = Some (out, r') \<and> uring_inv n r'"
proof (induction slots arbitrary: r)
  case (Cons slot slots)
  obtain room r1 where room: "make_room K r = (room, r1)" by fastforce
  have inv: "uring_inv n (r1\<lparr>ur_tx_slots := slot # slots\<rparr>)" using make_room_tx [OF room Cons.prems] .
  show ?case
  proof (cases "ur_tx_queue r1")
    case Nil
    then show ?thesis using room inv by (auto split: sum.splits option.splits)
  next
    case (Cons buf q)
    have "uring_inv n (r1\<lparr>ur_tx_queue := q, ur_tx_slots := slot # slots\<rparr>)"
      using inv by (simp add: slots_last)
    then obtain out r2 where push: "push_one_tx_event_to buf slot (r1\<lparr>ur_tx_queue := q\<rparr>) = Some (out, r2)"
      and out: "case out of Inl s \<Rightarrow> s = slot \<and> r2 = r1\<lparr>ur_tx_queue := q\<rparr> | Inr _ \<Rightarrow> uring_inv n (r2\<lparr>ur_tx_slots := slots\<rparr>)"
      using push_one_inv [where r = "r1\<lparr>ur_tx_queue := q\<rparr>"] by blast
    then show ?thesis
      using room inv Cons Cons.IH [of r2] \<open>uring_inv n (r1\<lparr>ur_tx_queue := q, ur_tx_slots := slot # slots\<rparr>)\<close>
      by (auto split: sum.splits option.splits)
  qed
qed auto

lemma push_rx_loop_inv:
  "uring_inv n (r\<lparr>ur_rx_slots := slots\<rparr>) \<Longrightarrow> \<exists>out r'. push_rx_loop K slots r = Some (out, r') \<and> uring_inv n r'"
proof (induction slots arbitrary: r)
  case Nil
  obtain room r1 where room: "make_room K r = (room, r1)" by fastforce
  show ?case using room make_room_rx [OF room Nil] by (auto split: sum.splits option.splits)
next
  case (Cons slot slots)
  obtain room r1 where room: "make_room K r = (room, r1)" by fastforce
  have inv: "uring_inv n (r1\<lparr>ur_rx_slots := slot # slots\<rparr>)" using make_room_rx [OF room Cons.prems] .
  have all: "add_mset slot (mset (ur_tx_slots r1) + mset slots + busy_slots r1) = mset (all_slots n)" and rx: "\<not> is_tx slot"
    and n: "n < 2 ^ 63" and len: "length (ur_rx_senders r1) = n"
    using inv by (simp_all add: uring_inv_def busy_slots_def)
  obtain i where i: "slot = RxSlot i" "i < n" using rx slot_once(2) [OF all] by (cases slot) auto
  have "from_user_data (not (of_nat i)) = RxSlot i" using from_user_data_user_data [of "RxSlot i"] i n by simp
  then have "uring_inv n (r1\<lparr>ur_sq := ur_sq r1 @ [SqeRead (user_data slot)], ur_rx_slots := slots\<rparr>)"
    using inv i by (auto simp: uring_inv_def busy_slots_def)
  then show ?case using room inv i len Cons.IH by (auto split: sum.splits option.splits)
qed

section \<open>The task is safe\<close>

lemma push_one_slots: "push_one_tx_event_to buf slot r = Some (out, r') \<Longrightarrow> r'\<lparr>ur_tx_slots := ur_tx_slots r\<rparr> = r'"
  by (auto simp: push_one_tx_event_to_def split: if_splits)

lemma uring_wait_inv:
  assumes "uring_inv n r"
  shows "\<exists>r'. uring_wait ev r = Some r' \<and> uring_inv n r'"
proof (cases "\<exists>buf slot slots. ev = WaitTx buf \<and> ur_tx_slots r = slot # slots \<and> \<not> sq_full r \<and> ur_cq r = [] \<and> ur_tx_queue r = []")
  case True
  then obtain buf slot slots where ev: "ev = WaitTx buf" "ur_tx_slots r = slot # slots" "\<not> sq_full r" "ur_cq r = []" "ur_tx_queue r = []"
    by blast
  have "uring_inv n (r\<lparr>ur_tx_slots := slots, ur_tx_slots := slot # slots\<rparr>)" using assms by (simp flip: ev(2))
  then obtain out r' where push: "push_one_tx_event_to buf slot (r\<lparr>ur_tx_slots := slots\<rparr>) = Some (out, r')"
    and out: "case out of Inl s \<Rightarrow> s = slot \<and> r' = r\<lparr>ur_tx_slots := slots\<rparr> | Inr _ \<Rightarrow> uring_inv n (r'\<lparr>ur_tx_slots := slots\<rparr>)"
    using push_one_inv by blast
  show ?thesis
  proof (cases out)
    case (Inl s)
    then show ?thesis using push ev(3) by (auto simp: push_one_tx_event_to_def sq_full_def split: if_splits)
  next
    case (Inr u)
    then show ?thesis using ev push out push_one_slots [OF push] by (simp add: uring_wait_def)
  qed
next
  case False
  then have "uring_wait ev r = Some r" by (auto simp: uring_wait_def split: wait_event.split list.split)
  then show ?thesis using assms by simp
qed

lemma remove_sqe_mset:
  "ud \<in> sqe_user_data ` set es \<Longrightarrow> add_mset (from_user_data ud) (mset (map sqe_slot (remove_sqe ud es))) = mset (map sqe_slot es)"
  by (induction es) auto

lemma set_remove_sqe: "set (remove_sqe ud es) \<subseteq> set es"
  by (induction es) auto

lemma kernel_completes_inv:
  assumes "uring_inv n r" and "cqe_user_data c \<in> sqe_user_data ` set (ur_kernel r)"
  shows "uring_inv n (kernel_completes c r)"
  using assms set_remove_sqe [of "cqe_user_data c" "ur_kernel r"] remove_sqe_mset [OF assms(2), symmetric]
  by (auto simp: uring_inv_def busy_slots_def kernel_completes_def)

lemma completions_inv: "uring_inv n r \<Longrightarrow> completions_ok cs r \<Longrightarrow> uring_inv n (fold kernel_completes cs r)"
  by (induction cs arbitrary: r) (auto intro: kernel_completes_inv)

lemma handle_cqe_inv:
  assumes "uring_inv n r" and "ur_cq r = c # cq"
  shows "\<exists>out r'. handle_cqe c (r\<lparr>ur_cq := cq\<rparr>) = Some (out, r') \<and> ur_cq r' = cq \<and> (out = Inr () \<longrightarrow> uring_inv n r')"
proof -
  let ?rest = "mset (ur_tx_slots r) + mset (ur_rx_slots r) + busy_slots (r\<lparr>ur_cq := cq\<rparr>)"
  have all: "add_mset (cqe_slot c) ?rest = mset (all_slots n)" and n: "n < 2 ^ 63" and len: "length (ur_tx_bufs r) = n"
    using assms by (simp_all add: uring_inv_def busy_slots_def)
  have lt: "slot_index (cqe_slot c) < n" and once: "cqe_slot c \<notin># ?rest" using slot_once [OF all] by auto
  show ?thesis
  proof (cases "cqe_slot c")
    case (TxSlot i)
    have "\<forall>e\<in>set (ur_sq r) \<union> set (ur_kernel r). sqe_slot e \<noteq> TxSlot i"
      using once TxSlot busy_sqe [of _ "r\<lparr>ur_cq := cq\<rparr>"] by fastforce
    then have "\<forall>e\<in>set (ur_sq r) \<union> set (ur_kernel r). sqe_owned n ((ur_tx_bufs r)[i := None]) e"
      using assms(1) sqe_owned_other unfolding uring_inv_def by blast
    then show ?thesis
      using assms TxSlot lt len by (auto simp: handle_cqe_def uring_inv_def busy_slots_def)
  next
    case (RxSlot i)
    then show ?thesis
      using assms lt by (auto simp: handle_cqe_def uring_inv_def busy_slots_def Let_def)
  qed
qed

lemma handle_cq_inv:
  "uring_inv n r \<Longrightarrow> ur_cq r = cq \<Longrightarrow> \<exists>out r'. handle_cq cq r = Some (out, r') \<and> (out = Inr () \<longrightarrow> uring_inv n r')"
proof (induction cq arbitrary: r)
  case (Cons c cq)
  obtain out r' where "handle_cqe c (r\<lparr>ur_cq := cq\<rparr>) = Some (out, r')" "ur_cq r' = cq" "out = Inr () \<longrightarrow> uring_inv n r'"
    using handle_cqe_inv [OF Cons.prems] by blast
  then show ?case using Cons.IH [of r'] by (cases out) auto
qed simp

lemma iouring_start_inv:
  assumes "ring_size < 2 ^ 63"
  shows "uring_inv (ring_size div 2) (iouring_start ring_size entries)"
proof -
  have "from_user_data (not (of_nat i)) = RxSlot i" if "i < ring_size div 2" for i
    using from_user_data_user_data [of "RxSlot i"] that assms by simp
  then have "map (\<lambda>i. from_user_data (not (of_nat i))) [0..<ring_size div 2] = map RxSlot [0..<ring_size div 2]" by simp
  from arg_cong [OF this, of mset] show ?thesis
    using assms unfolding uring_inv_def busy_slots_def iouring_start_def all_slots_def Let_def
    by (auto simp: comp_def simp flip: rev_map)
qed

text \<open>
  Whatever the kernel completes and the channels bring, a round neither panics nor accesses a slot out of
  bounds, and unless it ends the task no slot is lost or used twice and the writes keep their buffers.
\<close>

lemma iouring_round_safe:
  assumes "uring_inv n r" and "\<And>r. completions_ok (completed r) r"
  shows "\<exists>out r'. iouring_round K ev completed r = Some (out, r') \<and> (out = Inr () \<longrightarrow> uring_inv n r')"
proof -
  obtain sub r1 where submit: "uring_submit K r = (sub, r1)" by fastforce
  obtain r2 where wait: "uring_wait ev r1 = Some r2" "uring_inv n r2"
    using uring_wait_inv [OF uring_submit_inv [OF submit assms(1)]] by blast
  obtain tx r3 where tx: "push_tx_events_to K r2 = Some (tx, r3)" "uring_inv n r3"
    using push_tx_loop_inv [where r = r2 and slots = "ur_tx_slots r2" and n = n and K = K] wait(2) by (auto simp: push_tx_events_to_def)
  obtain rx r4 where rx: "push_rx_events_to K r3 = Some (rx, r4)" "uring_inv n r4"
    using push_rx_loop_inv [where r = r3 and slots = "ur_rx_slots r3" and n = n and K = K] tx(2) by (auto simp: push_rx_events_to_def)
  let ?r5 = "fold kernel_completes (completed r4) r4"
  have "uring_inv n ?r5" using completions_inv [OF rx(2) assms(2)] .
  from handle_cq_inv [OF this refl] show ?thesis
    using submit wait(1) tx(1) rx(1) by (cases sub; cases tx; cases rx) (auto simp: iouring_round_def)
qed

definition iouring_runs :: "(nat \<Rightarrow> submit_outcome) \<Rightarrow> uring \<Rightarrow> uring \<Rightarrow> bool" where
  "iouring_runs K r r' \<longleftrightarrow> (\<exists>ev completed. (\<forall>r. completions_ok (completed r) r) \<and> iouring_round K ev completed r = Some (Inr (), r'))"

text \<open>The steps of the other threads: packets put into one channel and taken from the other, and their ends closed.\<close>

inductive uring_step :: "(nat \<Rightarrow> submit_outcome) \<Rightarrow> uring \<Rightarrow> uring \<Rightarrow> bool" for K where
  RoundStep: "iouring_runs K r r' \<Longrightarrow> uring_step K r r'"
| SendStep: "iouring_try_send channel_size e buf r = (res, r') \<Longrightarrow> uring_step K r r'"
| RecvStep: "iouring_recv r = (res, r') \<Longrightarrow> uring_step K r r'"
| RecvManyStep: "iouring_recv_many out max_pkts r = (res, r') \<Longrightarrow> uring_step K r r'"
| CloseStep: "uring_step K r (r\<lparr>ur_tx_closed := True, ur_rx_closed := True\<rparr>)"

lemma uring_step_inv: "uring_step K r r' \<Longrightarrow> uring_inv n r \<Longrightarrow> uring_inv n r'"
proof (induction rule: uring_step.induct)
  case (RoundStep r r')
  then obtain ev completed where "\<And>r. completions_ok (completed r) r" "iouring_round K ev completed r = Some (Inr (), r')"
    by (auto simp: iouring_runs_def)
  then show ?case using iouring_round_safe [OF RoundStep.prems, of completed K ev] by auto
qed (auto simp: iouring_try_send_def iouring_recv_def iouring_recv_many_def Let_def split: if_splits list.splits)

text \<open>
  In every state of a running task the buffer of each write submitted or in the kernel is held unchanged, no two of
  them share a slot, and the next round is safe as well.
\<close>

lemma iouring_buffers_owned:
  assumes "(uring_step K)\<^sup>*\<^sup>* (iouring_start ring_size entries) r" and "ring_size < 2 ^ 63"
  shows "\<forall>e\<in>set (ur_sq r) \<union> set (ur_kernel r). sqe_owned (ring_size div 2) (ur_tx_bufs r) e"
    and "distinct (map sqe_slot (ur_sq r @ ur_kernel r))"
    and "(\<And>r. completions_ok (completed r) r) \<Longrightarrow> iouring_round K ev completed r \<noteq> None"
proof -
  have inv: "uring_inv (ring_size div 2) r"
    using assms(1) by (induction rule: rtranclp_induct) (auto intro: iouring_start_inv [OF assms(2)] uring_step_inv)
  show "\<forall>e\<in>set (ur_sq r) \<union> set (ur_kernel r). sqe_owned (ring_size div 2) (ur_tx_bufs r) e" using inv by (simp add: uring_inv_def)
  have "mset (ur_tx_slots r @ ur_rx_slots r @ map sqe_slot (ur_sq r @ ur_kernel r) @ map cqe_slot (ur_cq r)) = mset (all_slots (ring_size div 2))"
    using inv by (simp add: uring_inv_def busy_slots_def ac_simps)
  from mset_eq_imp_distinct_iff [OF this] show "distinct (map sqe_slot (ur_sq r @ ur_kernel r))"
    unfolding distinct_append by (auto simp: distinct_all_slots)
  show "(\<And>r. completions_ok (completed r) r) \<Longrightarrow> iouring_round K ev completed r \<noteq> None"
    using iouring_round_safe [OF inv, of completed K ev] by auto
qed

text \<open>
  The claim ends with the task. When the other end of a channel is dropped the next round returns with the
  reads of the idle slots still in the kernel: the task drops their buffers before it closes the ring.
\<close>

lemma closed_task_leaves_reads:
  assumes "2 \<le> ring_size" and "K 0 = Submitted (ring_size div 2)" and "ring_size \<le> entries"
  shows "\<exists>r. iouring_round K WaitEventFd (\<lambda>_. []) ((iouring_start ring_size entries)\<lparr>ur_tx_closed := True\<rparr>) = Some (Inl TxQueueClosed, r)
    \<and> length (ur_kernel r) = ring_size div 2"
proof -
  let ?n = "ring_size div 2"
  obtain s ss where slots: "map TxSlot (rev [0..<?n]) = s # ss"
    using assms(1) by (cases "map TxSlot (rev [0..<?n])") auto
  show ?thesis
    using assms slots
    by (simp add: iouring_round_def iouring_start_def Let_def uring_submit_def uring_wait_def push_tx_events_to_def make_room_def sq_full_def)
qed

text \<open>With \<open>sqpoll\<close> a packet taken from the channel can meet a queue that is still full: it is dropped, though \<open>try_send\<close> accepted it.\<close>

lemma full_queue_drops_packet:
  assumes "sq_full r" and "K (ur_submits r) = Submitted 0" and "ur_tx_slots r = slot # slots" and "ur_tx_queue r = buf # q"
  shows "push_tx_events_to K r = Some (Inr (), r\<lparr>ur_submits := ur_submits r + 1, ur_tx_queue := q\<rparr>)"
proof -
  have "r\<lparr>ur_submits := ur_submits r + 1, ur_tx_queue := q, ur_tx_slots := slot # slots\<rparr> = r\<lparr>ur_submits := ur_submits r + 1, ur_tx_queue := q\<rparr>"
    using assms(3) by simp
  then show ?thesis
    using assms by (simp add: push_tx_events_to_def make_room_def uring_submit_def Let_def push_one_tx_event_to_def sq_full_def)
qed

end
