(* ===== verification/Tun_Device.thy ===== *)
theory Tun_Device
  imports Gso Io_Uring
begin

text \<open>
  The TUN device (lightway-app-utils/src/tun.rs): its configuration and creation, reads and writes with and
  without the \<open>virtio_net_hdr\<close> of an offloading device, and who closes its descriptor. The build is Linux
  on a desktop; the device of the crate tun_rs is a parameter, in form of the answers it gives. Reads of the
  io_uring backend come from \<open>Io_Uring\<close>. \<open>VirtioNetHdr::from_bytes\<close> (lightway-core/src/gso.rs) reinterprets memory of
  a little endian machine.
\<close>

section \<open>Configuration and creation\<close>

record tun_config =
  tc_tun_name :: "string option"
  tc_address :: "ip_addr option"
  tc_destination :: "u32 option"
  tc_prefix :: "u8 option"
  tc_mtu :: "u16 option"
  tc_enabled :: bool
  tc_fd :: "int option"
  tc_close_fd_on_drop :: bool
  tc_offload :: bool

definition tun_config_default :: tun_config where
  "tun_config_default = \<lparr>tc_tun_name = None, tc_address = None, tc_destination = None, tc_prefix = None, tc_mtu = None,
     tc_enabled = False, tc_fd = None, tc_close_fd_on_drop = True, tc_offload = False\<rparr>"

datatype tun_setting =
    SetTunName string | SetAddress ip_addr | SetDestination u32 | SetPrefix u8 | SetMtu u16 | SetUp | SetRawFd int | SetCloseFdOnDrop bool

fun tun_config_set :: "tun_setting \<Rightarrow> tun_config \<Rightarrow> tun_config" where
  "tun_config_set (SetTunName name) c = c\<lparr>tc_tun_name := Some name\<rparr>"
| "tun_config_set (SetAddress a) c = c\<lparr>tc_address := Some a\<rparr>"
| "tun_config_set (SetDestination a) c = c\<lparr>tc_destination := Some a\<rparr>"
| "tun_config_set (SetPrefix p) c = c\<lparr>tc_prefix := Some p\<rparr>"
| "tun_config_set (SetMtu m) c = c\<lparr>tc_mtu := Some m\<rparr>"
| "tun_config_set SetUp c = c\<lparr>tc_enabled := True\<rparr>"
| "tun_config_set (SetRawFd fd) c = c\<lparr>tc_fd := Some fd\<rparr>"
| "tun_config_set (SetCloseFdOnDrop b) c = c\<lparr>tc_close_fd_on_drop := b\<rparr>"

datatype tun_call =
    FromRawFd int
  | BuildAsync "string option" bool
  | DevSetMtu u16
  | DevEnabled bool
  | SetNetworkAddress u32 u8 "u32 option"
  | AddAddressV6 "128 word" u8

text \<open>The calls of \<open>create_as_async\<close>, of which the first that fails ends it.\<close>

definition address_calls :: "tun_config \<Rightarrow> tun_call list" where
  "address_calls c =
     (case tc_address c of
        None \<Rightarrow> []
      | Some (IpAddrV4 a) \<Rightarrow> [SetNetworkAddress a (case tc_prefix c of None \<Rightarrow> 32 | Some x \<Rightarrow> min x 32) (tc_destination c)]
      | Some (IpAddrV6 a) \<Rightarrow> [AddAddressV6 a (case tc_prefix c of None \<Rightarrow> 128 | Some x \<Rightarrow> min x 128)])"

definition create_calls :: "tun_config \<Rightarrow> tun_call list" where
  "create_calls c =
     (case tc_fd c of
        Some fd \<Rightarrow> [FromRawFd fd]
      | None \<Rightarrow>
          [BuildAsync (tc_tun_name c) (tc_offload c)]
          @ (case tc_mtu c of None \<Rightarrow> [] | Some mtu \<Rightarrow> [DevSetMtu mtu])
          @ [DevEnabled (tc_enabled c)] @ address_calls c)"

fun run_tun_calls :: "(tun_call \<Rightarrow> sock_error option) \<Rightarrow> tun_call list \<Rightarrow> tun_call list \<Rightarrow> sock_error option \<times> tun_call list" where
  "run_tun_calls D [] made = (None, made)"
| "run_tun_calls D (c # cs) made = (case D c of None \<Rightarrow> run_tun_calls D cs (made @ [c]) | Some e \<Rightarrow> (Some e, made @ [c]))"

definition create_as_async :: "(tun_call \<Rightarrow> sock_error option) \<Rightarrow> tun_config \<Rightarrow> sock_error option \<times> tun_call list" where
  "create_as_async D c = run_tun_calls D (create_calls c) []"

record tun_direct =
  tn_mtu :: u16
  tn_fd :: int
  tn_close_fd_on_drop :: bool
  tn_vnet_hdr :: bool

text \<open>\<open>TunDirect::new\<close>; the descriptor and the MTU are those the device reports.\<close>

definition tun_direct_new ::
  "(tun_call \<Rightarrow> sock_error option) \<Rightarrow> int \<Rightarrow> sock_error + u16 \<Rightarrow> tun_config \<Rightarrow> sock_error + tun_direct" where
  "tun_direct_new D fd dev_mtu c =
     (case fst (create_as_async D c) of
        Some e \<Rightarrow> Inl e
      | None \<Rightarrow>
          (case dev_mtu of
             Inl e \<Rightarrow> Inl e
           | Inr mtu \<Rightarrow> Inr \<lparr>tn_mtu = mtu, tn_fd = fd, tn_close_fd_on_drop = tc_close_fd_on_drop c, tn_vnet_hdr = tc_offload c\<rparr>))"

section \<open>Reading\<close>

definition VIRTIO_NET_HDR_LEN :: usize where [const_defs]: "VIRTIO_NET_HDR_LEN = 10"

definition vnet_headroom :: "tun_direct \<Rightarrow> usize" where
  "vnet_headroom t = (if tn_vnet_hdr t then VIRTIO_NET_HDR_LEN else 0)"

definition strip_vnet_hdr :: "bytes \<Rightarrow> io_result \<times> bytes" where
  "strip_vnet_hdr buf =
     (if length buf \<le> VIRTIO_NET_HDR_LEN then (IoWouldBlock, [])
      else let buf = drop VIRTIO_NET_HDR_LEN buf in (IoOk (length buf), buf))"

text \<open>The device's answer is an error or the bytes it put into the buffer.\<close>

definition tun_recv_buf :: "tun_direct \<Rightarrow> sock_error + bytes \<Rightarrow> bytes \<Rightarrow> io_result \<times> bytes" where
  "tun_recv_buf t answer buf =
     (case answer of
        Inr [] \<Rightarrow> (IoWouldBlock, buf)
      | Inr got \<Rightarrow> if tn_vnet_hdr t then strip_vnet_hdr got else (IoOk (length got), got)
      | Inl EWouldBlock \<Rightarrow> (IoWouldBlock, buf)
      | Inl e \<Rightarrow> (IoErr (os_io_error e), buf))"

definition tun_recv_capacity :: "tun_direct \<Rightarrow> usize" where
  "tun_recv_capacity t = unat (tn_mtu t) + vnet_headroom t"

definition tun_recv_buf_many :: "tun_direct \<Rightarrow> (usize \<Rightarrow> sock_error + bytes) \<Rightarrow> bytes list \<Rightarrow> io_result \<times> bytes list" where
  "tun_recv_buf_many t dev pkts =
     (let cap = tun_recv_capacity t in
      case tun_recv_buf t (dev cap) (replicate cap 0) of
        (IoOk _, buf) \<Rightarrow> (IoOk 1, pkts @ [buf])
      | (IoWouldBlock, _) \<Rightarrow> (IoWouldBlock, pkts)
      | (IoErr e, _) \<Rightarrow> (IoErr e, pkts))"

definition le16 :: "u8 \<Rightarrow> u8 \<Rightarrow> u16" where
  "le16 lo hi = or (ucast lo) (push_bit 8 (ucast hi))"

text \<open>\<open>aligned\<close>: the memory is aligned to two bytes.\<close>

definition vnet_from_bytes :: "bool \<Rightarrow> bytes \<Rightarrow> virtio_net_hdr option" where
  "vnet_from_bytes aligned buf =
     (if length buf < VIRTIO_NET_HDR_LEN \<or> \<not> aligned then None
      else Some \<lparr>vn_flags = buf ! 0, vn_gso_type = buf ! 1, vn_hdr_len = le16 (buf ! 2) (buf ! 3), vn_gso_size = le16 (buf ! 4) (buf ! 5),
                 vn_csum_start = le16 (buf ! 6) (buf ! 7), vn_csum_offset = le16 (buf ! 8) (buf ! 9)\<rparr>)"

datatype gso_recv = GsoOk usize virtio_net_hdr | GsoWouldBlock | GsoErr io_error

definition tun_recv_gso :: "bool \<Rightarrow> sock_error + bytes \<Rightarrow> bytes \<Rightarrow> gso_recv \<times> bytes" where
  "tun_recv_gso aligned answer buf =
     (case answer of
        Inl EWouldBlock \<Rightarrow> (GsoWouldBlock, buf)
      | Inl e \<Rightarrow> (GsoErr (os_io_error e), buf)
      | Inr got \<Rightarrow>
          if length got \<le> VIRTIO_NET_HDR_LEN then (GsoWouldBlock, buf)
          else (case vnet_from_bytes aligned (take VIRTIO_NET_HDR_LEN got) of
              None \<Rightarrow> (GsoWouldBlock, [])
            | Some hdr \<Rightarrow> (let pkt = drop VIRTIO_NET_HDR_LEN got in (GsoOk (length pkt) hdr, pkt))))"

section \<open>Writing\<close>

definition map_send_result :: "sock_error + usize \<Rightarrow> io_result" where
  "map_send_result res = (case res of Inr nr \<Rightarrow> IoOk nr | Inl EWouldBlock \<Rightarrow> IoWouldBlock | Inl e \<Rightarrow> IoErr (os_io_error e))"

text \<open>The chunks of one vectored write; \<open>dev\<close> is the answer of the device to their concatenation.\<close>

definition tun_send_chunks :: "(bytes \<Rightarrow> sock_error + usize) \<Rightarrow> bytes list \<Rightarrow> sock_error + usize" where
  "tun_send_chunks dev chunks = dev (concat chunks)"

definition tun_try_send :: "tun_direct \<Rightarrow> (bytes \<Rightarrow> sock_error + usize) \<Rightarrow> bytes \<Rightarrow> io_result" where
  "tun_try_send t dev buf =
     (if tn_vnet_hdr t then
        let hdr = replicate VIRTIO_NET_HDR_LEN 0
        in map_send_result (map_sum id (\<lambda>n. n - length hdr) (tun_send_chunks dev [hdr, buf]))
      else map_send_result (dev buf))"

section \<open>The two backends\<close>

datatype tun = TunDirect tun_direct | TunIoUring tun_direct uring

fun tun_mtu :: "tun \<Rightarrow> usize" where
  "tun_mtu (TunDirect t) = unat (tn_mtu t)"
| "tun_mtu (TunIoUring t _) = unat (tn_mtu t)"

fun tun_vnet_headroom :: "tun \<Rightarrow> usize" where
  "tun_vnet_headroom (TunDirect t) = vnet_headroom t"
| "tun_vnet_headroom (TunIoUring _ _) = 0"

fun tun_supports_gso :: "tun \<Rightarrow> bool" where
  "tun_supports_gso (TunDirect t) \<longleftrightarrow> tn_vnet_hdr t"
| "tun_supports_gso (TunIoUring _ _) \<longleftrightarrow> False"

text \<open>
  \<open>Drop\<close> closes the descriptor with the device, unless it was told not to: then it releases it.
  \<open>into_raw_fd\<close> gives the descriptor away and drops the rest.
\<close>

definition tun_drop :: "tun_direct \<Rightarrow> int set \<Rightarrow> int set" where
  "tun_drop t open_fds = (if tn_close_fd_on_drop t then open_fds - {tn_fd t} else open_fds)"

definition tun_into_raw_fd :: "tun_direct \<Rightarrow> int set \<Rightarrow> int \<times> int set" where
  "tun_into_raw_fd t open_fds = (let t = t\<lparr>tn_close_fd_on_drop := False\<rparr> in (tn_fd t, tun_drop t open_fds))"

section \<open>What the device gives and gets\<close>

text \<open>A device with offload puts its header in front of every packet; a read takes what fits the buffer.\<close>

definition tun_frame :: "tun_direct \<Rightarrow> bytes \<Rightarrow> bytes \<Rightarrow> bytes" where
  "tun_frame t hdr pkt = (if tn_vnet_hdr t then hdr @ pkt else pkt)"

lemma tun_recv_got:
  "got \<noteq> [] \<Longrightarrow> tun_recv_buf t (Inr got) buf = (if tn_vnet_hdr t then strip_vnet_hdr got else (IoOk (length got), got))"
  by (cases got) (simp_all add: tun_recv_buf_def)

lemma strip_vnet_hdr_append:
  "length hdr = VIRTIO_NET_HDR_LEN \<Longrightarrow> pkt \<noteq> [] \<Longrightarrow> strip_vnet_hdr (hdr @ pkt) = (IoOk (length pkt), pkt)"
  by (simp add: strip_vnet_hdr_def)

lemma recv_whole_packet:
  assumes "length hdr = VIRTIO_NET_HDR_LEN" and "pkt \<noteq> []" and "length pkt \<le> unat (tn_mtu t)"
  shows "tun_recv_buf t (Inr (take (tun_recv_capacity t) (tun_frame t hdr pkt))) buf = (IoOk (length pkt), pkt)"
proof -
  have "take (tun_recv_capacity t) (tun_frame t hdr pkt) = tun_frame t hdr pkt"
    using assms(1,3) by (simp add: tun_recv_capacity_def tun_frame_def vnet_headroom_def)
  then show ?thesis
    using assms by (simp add: tun_recv_got tun_frame_def strip_vnet_hdr_append)
qed

text \<open>Without the headroom the end of a full packet is lost, and nothing but a warning tells.\<close>

lemma recv_without_headroom:
  assumes "tn_vnet_hdr t" and "length hdr = VIRTIO_NET_HDR_LEN" and "length pkt = unat (tn_mtu t)" and "VIRTIO_NET_HDR_LEN < length pkt"
  shows "tun_recv_buf t (Inr (take (unat (tn_mtu t)) (tun_frame t hdr pkt))) buf
    = (IoOk (length pkt - VIRTIO_NET_HDR_LEN), take (length pkt - VIRTIO_NET_HDR_LEN) pkt)"
proof -
  have "take (unat (tn_mtu t)) (tun_frame t hdr pkt) = hdr @ take (length pkt - VIRTIO_NET_HDR_LEN) pkt"
    using assms by (simp add: tun_frame_def)
  moreover have "take (length pkt - VIRTIO_NET_HDR_LEN) pkt \<noteq> []" using assms(4) by auto
  ultimately show ?thesis
    using assms(1,2) by (simp add: tun_recv_got strip_vnet_hdr_append)
qed

lemma recv_many_delivers:
  assumes "length hdr = VIRTIO_NET_HDR_LEN" and "pkt \<noteq> []" and "length pkt \<le> unat (tn_mtu t)"
  shows "tun_recv_buf_many t (\<lambda>cap. Inr (take cap (tun_frame t hdr pkt))) pkts = (IoOk 1, pkts @ [pkt])"
  using recv_whole_packet [OF assms] by (simp add: tun_recv_buf_many_def Let_def)

text \<open>What is written is the packet in the device's framing, and the count is that of the packet.\<close>

lemma try_send_frames:
  "tun_try_send t dev buf =
    (case dev (tun_frame t (replicate VIRTIO_NET_HDR_LEN 0) buf) of
       Inr n \<Rightarrow> IoOk (n - vnet_headroom t) | Inl EWouldBlock \<Rightarrow> IoWouldBlock | Inl e \<Rightarrow> IoErr (os_io_error e))"
  by (auto simp: tun_try_send_def tun_frame_def tun_send_chunks_def map_send_result_def vnet_headroom_def Let_def
      split: sum.split sock_error.split)

text \<open>A packet written to one offloading device is read from another as a packet that needs no segmentation and no checksum.\<close>

lemma written_packet_is_gso_none:
  assumes "tn_vnet_hdr t" and "pkt \<noteq> []"
  shows "\<exists>hdr. tun_recv_gso True (Inr (tun_frame t (replicate VIRTIO_NET_HDR_LEN 0) pkt)) buf = (GsoOk (length pkt) hdr, pkt)
    \<and> vn_is_gso_none hdr \<and> vn_flags hdr = 0"
  using assms
  by (simp add: tun_recv_gso_def tun_frame_def vnet_from_bytes_def VIRTIO_NET_HDR_LEN_def vn_is_gso_none_def
      VIRTIO_NET_HDR_GSO_NONE_def VIRTIO_NET_HDR_GSO_ECN_def Let_def)

text \<open>An address is added with a mask that fits its family; a descriptor that was handed in is not configured.\<close>

lemma address_masks_fit:
  assumes "c \<in> set (snd (create_as_async D cfg))"
  shows "(\<forall>a m d. c = SetNetworkAddress a m d \<longrightarrow> m \<le> 32) \<and> (\<forall>a m. c = AddAddressV6 a m \<longrightarrow> m \<le> 128)
    \<and> (\<forall>fd. tc_fd cfg = Some fd \<longrightarrow> c = FromRawFd fd)"
proof -
  have "set (snd (run_tun_calls D cs made)) \<subseteq> set made \<union> set cs" for cs made
    by (induction cs arbitrary: made) (fastforce split: option.splits)+
  then have c: "c \<in> set (create_calls cfg)" using assms by (fastforce simp: create_as_async_def)
  show ?thesis
  proof (cases "tc_address cfg")
    case (Some a)
    then show ?thesis using c by (cases a) (auto simp: create_calls_def address_calls_def split: option.splits)
  qed (use c in \<open>auto simp: create_calls_def address_calls_def split: option.splits\<close>)
qed

lemma into_raw_fd_keeps_open: "tun_into_raw_fd t fds = (tn_fd t, fds)"
  by (simp add: tun_into_raw_fd_def tun_drop_def)

end
