(* ===== verification/Dns_Manager.thy ===== *)
theory Dns_Manager
  imports Prelude
begin

text \<open>
  The name server settings of a client on Linux (lightway-client/src/dns_manager.rs,
  platform/linux/dns_manager.rs and its backends). The file system has names that refer to files, so
  that a hard link and a rename are what they are; which calls fail, what the external commands answer
  and the text of an address are parameters. Shown is that the original \<open>resolv.conf\<close> comes back.
\<close>

section \<open>The file system\<close>

datatype inode = RegularFile string | SymLink string

record fs =
  fs_names :: "string \<rightharpoonup> nat"
  fs_data :: "nat \<Rightarrow> inode"
  fs_fresh :: nat

datatype fs_error = FsNotFound | FsOther string

datatype fs_call = FsRemove string | FsHardLink string string | FsWrite string string | FsRename string string

text \<open>The name a path stands for once its symbolic links are followed, at most 40 of them.\<close>

fun fs_follow :: "nat \<Rightarrow> fs \<Rightarrow> string \<Rightarrow> string option" where
  "fs_follow 0 d p = None"
| "fs_follow (Suc n) d p =
     (case fs_names d p of
        Some i \<Rightarrow> (case fs_data d i of SymLink q \<Rightarrow> fs_follow n d q | RegularFile _ \<Rightarrow> Some p)
      | None \<Rightarrow> Some p)"

definition MAX_LINKS :: nat where "MAX_LINKS = 40"

definition fs_read :: "fs \<Rightarrow> string \<Rightarrow> string option" where
  "fs_read d p =
     (case fs_follow MAX_LINKS d p of
        None \<Rightarrow> None
      | Some q \<Rightarrow>
          (case fs_names d q of
             None \<Rightarrow> None
           | Some i \<Rightarrow> (case fs_data d i of RegularFile c \<Rightarrow> Some c | SymLink _ \<Rightarrow> None)))"

definition fs_exists :: "fs \<Rightarrow> string \<Rightarrow> bool" where
  "fs_exists d p \<longleftrightarrow> fs_read d p \<noteq> None"

definition fs_read_link :: "fs \<Rightarrow> string \<Rightarrow> string option" where
  "fs_read_link d p =
     (case fs_names d p of None \<Rightarrow> None | Some i \<Rightarrow> (case fs_data d i of SymLink q \<Rightarrow> Some q | RegularFile _ \<Rightarrow> None))"

definition fs_remove :: "string \<Rightarrow> fs \<Rightarrow> (fs_error + unit) \<times> fs" where
  "fs_remove p d = (case fs_names d p of None \<Rightarrow> (Inl FsNotFound, d) | Some _ \<Rightarrow> (Inr (), d\<lparr>fs_names := (fs_names d)(p := None)\<rparr>))"

text \<open>A link refers to the same file, a symbolic link included; the new name must be free.\<close>

definition fs_hard_link :: "string \<Rightarrow> string \<Rightarrow> fs \<Rightarrow> (fs_error + unit) \<times> fs" where
  "fs_hard_link p q d =
     (case fs_names d p of
        None \<Rightarrow> (Inl FsNotFound, d)
      | Some i \<Rightarrow> if fs_names d q \<noteq> None then (Inl (FsOther ''File exists''), d)
                   else (Inr (), d\<lparr>fs_names := (fs_names d)(q \<mapsto> i)\<rparr>))"

definition fs_write :: "string \<Rightarrow> string \<Rightarrow> fs \<Rightarrow> (fs_error + unit) \<times> fs" where
  "fs_write p content d =
     (case fs_follow MAX_LINKS d p of
        None \<Rightarrow> (Inl (FsOther ''Too many levels of symbolic links''), d)
      | Some q \<Rightarrow>
          (case fs_names d q of
             Some i \<Rightarrow> (Inr (), d\<lparr>fs_data := (fs_data d)(i := RegularFile content)\<rparr>)
           | None \<Rightarrow> (Inr (), d\<lparr>fs_names := (fs_names d)(q \<mapsto> fs_fresh d), fs_data := (fs_data d)(fs_fresh d := RegularFile content),
                                fs_fresh := fs_fresh d + 1\<rparr>)))"

text \<open>Renaming one link of a file to another of the same file does nothing.\<close>

definition fs_rename :: "string \<Rightarrow> string \<Rightarrow> fs \<Rightarrow> (fs_error + unit) \<times> fs" where
  "fs_rename p q d =
     (case fs_names d p of
        None \<Rightarrow> (Inl FsNotFound, d)
      | Some i \<Rightarrow> if fs_names d q = Some i then (Inr (), d) else (Inr (), d\<lparr>fs_names := (fs_names d)(q \<mapsto> i, p := None)\<rparr>))"

text \<open>A call that the environment makes fail changes nothing.\<close>

definition fs_do :: "(fs_call \<Rightarrow> fs_error option) \<Rightarrow> fs_call \<Rightarrow> fs \<Rightarrow> (fs_error + unit) \<times> fs" where
  "fs_do F c d =
     (case F c of
        Some e \<Rightarrow> (Inl e, d)
      | None \<Rightarrow> (case c of
            FsRemove p \<Rightarrow> fs_remove p d
          | FsHardLink p q \<Rightarrow> fs_hard_link p q d
          | FsWrite p content \<Rightarrow> fs_write p content d
          | FsRename p q \<Rightarrow> fs_rename p q d))"

section \<open>Writing the file directly\<close>

datatype dns_manager_error = FailedToSetDnsConfig | NoResolvConfBackup | FailedToRestoreDnsConfig | DnsAlreadyConfigured

definition RESOLV_CONF :: string where "RESOLV_CONF = ''/etc/resolv.conf''"
definition RESOLV_CONF_BACKUP :: string where "RESOLV_CONF_BACKUP = ''/etc/resolv.conf.lightway-orig''"
definition RESOLV_CONF_TMP :: string where "RESOLV_CONF_TMP = ''/etc/resolv.conf.lightway-new''"
definition GENERATED_MARKER :: string where "GENERATED_MARKER = ''Generated by lightway''"

fun str_contains :: "string \<Rightarrow> string \<Rightarrow> bool" where
  "str_contains pat [] \<longleftrightarrow> pat = []"
| "str_contains pat (c # cs) \<longleftrightarrow> take (length pat) (c # cs) = pat \<or> str_contains pat cs"

definition generated_by_lightway :: "string \<Rightarrow> fs \<Rightarrow> bool" where
  "generated_by_lightway path d =
     (case fs_read d path of
        None \<Rightarrow> False
      | Some content \<Rightarrow> str_contains GENERATED_MARKER (takeWhile (\<lambda>c. c \<noteq> CHR 0x0A) content))"

definition dns_backup :: "(fs_call \<Rightarrow> fs_error option) \<Rightarrow> fs \<Rightarrow> (dns_manager_error + unit) \<times> fs" where
  "dns_backup F d =
     (if \<not> fs_exists d RESOLV_CONF \<or> generated_by_lightway RESOLV_CONF d then (Inr (), d)
      else let d = snd (fs_do F (FsRemove RESOLV_CONF_BACKUP) d) in
        case fs_do F (FsHardLink RESOLV_CONF RESOLV_CONF_BACKUP) d of
          (Inl _, d) \<Rightarrow> (Inl FailedToSetDnsConfig, d)
        | (Inr _, d) \<Rightarrow> (Inr (), d))"

definition write_atomic :: "(fs_call \<Rightarrow> fs_error option) \<Rightarrow> string \<Rightarrow> fs \<Rightarrow> (dns_manager_error + unit) \<times> fs" where
  "write_atomic F content d =
     (case fs_do F (FsWrite RESOLV_CONF_TMP content) d of
        (Inl _, d) \<Rightarrow> (Inl FailedToSetDnsConfig, d)
      | (Inr _, d) \<Rightarrow>
          (case fs_do F (FsRename RESOLV_CONF_TMP RESOLV_CONF) d of
             (Inl _, d) \<Rightarrow> (Inl FailedToSetDnsConfig, d)
           | (Inr _, d) \<Rightarrow> (Inr (), d)))"

definition resolv_content :: "string \<Rightarrow> string" where
  "resolv_content server =
     ''# '' @ GENERATED_MARKER @ [CHR 0x0A] @ ''search lightway'' @ [CHR 0x0A] @ ''nameserver '' @ server @ [CHR 0x0A]"

definition direct_set :: "(fs_call \<Rightarrow> fs_error option) \<Rightarrow> string \<Rightarrow> fs \<Rightarrow> (dns_manager_error + unit) \<times> fs" where
  "direct_set F server d =
     (case dns_backup F d of
        (Inl e, d) \<Rightarrow> (Inl e, d)
      | (Inr _, d) \<Rightarrow> write_atomic F (resolv_content server) d)"

definition direct_reset :: "(fs_call \<Rightarrow> fs_error option) \<Rightarrow> fs \<Rightarrow> (dns_manager_error + unit) \<times> fs" where
  "direct_reset F d =
     (if \<not> generated_by_lightway RESOLV_CONF d then (Inr (), snd (fs_do F (FsRemove RESOLV_CONF_BACKUP) d))
      else case fs_do F (FsRename RESOLV_CONF_BACKUP RESOLV_CONF) d of
          (Inr _, d) \<Rightarrow> (Inr (), d)
        | (Inl FsNotFound, d) \<Rightarrow> (Inl NoResolvConfBackup, d)
        | (Inl _, d) \<Rightarrow> (Inl FailedToRestoreDnsConfig, d))"

section \<open>The commands\<close>

text \<open>An external command with its input; the answer is whether it was started and ended with success.\<close>

record dns_env =
  de_fails :: "fs_call \<Rightarrow> fs_error option"
  de_command :: "(string list \<times> string) list \<Rightarrow> string list \<times> string \<Rightarrow> bool"

record dns_world =
  dw_fs :: fs
  dw_commands :: "(string list \<times> string) list"

definition dns_command :: "dns_env \<Rightarrow> string list \<Rightarrow> string \<Rightarrow> dns_manager_error \<Rightarrow> dns_world \<Rightarrow> (dns_manager_error + unit) \<times> dns_world" where
  "dns_command E args input err w =
     (let ok = de_command E (dw_commands w) (args, input); w = w\<lparr>dw_commands := dw_commands w @ [(args, input)]\<rparr>
      in (if ok then Inr () else Inl err, w))"

datatype dns_backend = DirectFile | Resolvectl string | Resolvconf string bool

definition resolvectl_set :: "dns_env \<Rightarrow> string \<Rightarrow> string \<Rightarrow> dns_world \<Rightarrow> (dns_manager_error + unit) \<times> dns_world" where
  "resolvectl_set E iface server w =
     (case dns_command E [''resolvectl'', ''dns'', iface, server] [] FailedToSetDnsConfig w of
        (Inl e, w) \<Rightarrow> (Inl e, w)
      | (Inr _, w) \<Rightarrow> dns_command E [''resolvectl'', ''domain'', iface, ''~.''] [] FailedToSetDnsConfig w)"

definition resolvectl_reset :: "dns_env \<Rightarrow> string \<Rightarrow> dns_world \<Rightarrow> (dns_manager_error + unit) \<times> dns_world" where
  "resolvectl_reset E iface w = dns_command E [''resolvectl'', ''revert'', iface] [] FailedToRestoreDnsConfig w"

definition resolvconf_set :: "dns_env \<Rightarrow> string \<Rightarrow> bool \<Rightarrow> string \<Rightarrow> dns_world \<Rightarrow> (dns_manager_error + unit) \<times> dns_world" where
  "resolvconf_set E iface exclusive server w =
     dns_command E ([''resolvconf'', ''-a'', iface] @ (if exclusive then [''-x''] else [''-m'', ''0'']))
       (''nameserver '' @ server @ [CHR 0x0A] @ ''search lightway'' @ [CHR 0x0A]) FailedToSetDnsConfig w"

definition resolvconf_reset :: "dns_env \<Rightarrow> string \<Rightarrow> dns_world \<Rightarrow> (dns_manager_error + unit) \<times> dns_world" where
  "resolvconf_reset E iface w = dns_command E [''resolvconf'', ''-d'', iface] [] FailedToRestoreDnsConfig w"

fun dns_backend_set :: "dns_env \<Rightarrow> dns_backend \<Rightarrow> string \<Rightarrow> dns_world \<Rightarrow> (dns_manager_error + unit) \<times> dns_world" where
  "dns_backend_set E DirectFile server w = (case direct_set (de_fails E) server (dw_fs w) of (r, d) \<Rightarrow> (r, w\<lparr>dw_fs := d\<rparr>))"
| "dns_backend_set E (Resolvectl iface) server w = resolvectl_set E iface server w"
| "dns_backend_set E (Resolvconf iface exclusive) server w = resolvconf_set E iface exclusive server w"

fun dns_backend_reset :: "dns_env \<Rightarrow> dns_backend \<Rightarrow> dns_world \<Rightarrow> (dns_manager_error + unit) \<times> dns_world" where
  "dns_backend_reset E DirectFile w = (case direct_reset (de_fails E) (dw_fs w) of (r, d) \<Rightarrow> (r, w\<lparr>dw_fs := d\<rparr>))"
| "dns_backend_reset E (Resolvectl iface) w = resolvectl_reset E iface w"
| "dns_backend_reset E (Resolvconf iface exclusive) w = resolvconf_reset E iface w"

section \<open>The manager\<close>

definition STUB_RESOLV_CONF :: string where "STUB_RESOLV_CONF = ''/run/systemd/resolve/stub-resolv.conf''"

definition systemd_resolved_running :: "(string \<Rightarrow> string option) \<Rightarrow> fs \<Rightarrow> bool" where
  "systemd_resolved_running canonicalize d =
     (if \<not> fs_exists d STUB_RESOLV_CONF then False
      else case fs_read_link d RESOLV_CONF of
          None \<Rightarrow> False
        | Some target \<Rightarrow>
            let abs = (if take 1 target = ''/'' then target else ''/etc/'' @ target) in canonicalize abs = canonicalize STUB_RESOLV_CONF)"

definition detect_backend :: "string option \<Rightarrow> (string \<Rightarrow> bool) \<Rightarrow> (string \<Rightarrow> string option) \<Rightarrow> fs \<Rightarrow> dns_backend" where
  "detect_backend ifname binary_in_path canonicalize d =
     (case ifname of
        None \<Rightarrow> DirectFile
      | Some iface \<Rightarrow>
          if binary_in_path ''resolvectl'' \<and> systemd_resolved_running canonicalize d then Resolvectl iface
          else if binary_in_path ''resolvconf'' \<and> fs_exists d ''/run/resolvconf/resolv.conf''
            then Resolvconf iface (fs_exists d ''/etc/resolvconf.conf'')
          else DirectFile)"

record dns_manager =
  dm_backend :: dns_backend
  dm_setup :: bool

definition dns_manager_new :: "dns_backend \<Rightarrow> dns_manager" where
  "dns_manager_new backend = \<lparr>dm_backend = backend, dm_setup = False\<rparr>"

definition set_dns :: "dns_env \<Rightarrow> string \<Rightarrow> dns_manager \<Rightarrow> dns_world \<Rightarrow> (dns_manager_error + unit) \<times> dns_manager \<times> dns_world" where
  "set_dns E server m w =
     (if dm_setup m then (Inl DnsAlreadyConfigured, m, w)
      else case dns_backend_set E (dm_backend m) server w of
          (Inl e, w) \<Rightarrow> (Inl e, m, w)
        | (Inr _, w) \<Rightarrow> (Inr (), m\<lparr>dm_setup := True\<rparr>, w))"

definition reset_dns :: "dns_env \<Rightarrow> dns_manager \<Rightarrow> dns_world \<Rightarrow> (dns_manager_error + unit) \<times> dns_manager \<times> dns_world" where
  "reset_dns E m w =
     (if dm_setup m then
        (case dns_backend_reset E (dm_backend m) w of
           (Inl e, w) \<Rightarrow> (Inl e, m, w)
         | (Inr _, w) \<Rightarrow> (Inr (), m\<lparr>dm_setup := False\<rparr>, w))
      else (Inr (), m\<lparr>dm_setup := False\<rparr>, w))"

text \<open>\<open>Drop\<close>; an error is only logged.\<close>

definition dns_drop :: "dns_env \<Rightarrow> dns_manager \<Rightarrow> dns_world \<Rightarrow> dns_world" where
  "dns_drop E m w = snd (snd (reset_dns E m w))"

section \<open>The original file comes back\<close>

lemma resolv_names [simp]:
  "RESOLV_CONF \<noteq> RESOLV_CONF_BACKUP" "RESOLV_CONF \<noteq> RESOLV_CONF_TMP" "RESOLV_CONF_BACKUP \<noteq> RESOLV_CONF_TMP"
  "RESOLV_CONF_BACKUP \<noteq> RESOLV_CONF" "RESOLV_CONF_TMP \<noteq> RESOLV_CONF" "RESOLV_CONF_TMP \<noteq> RESOLV_CONF_BACKUP"
  by (simp_all add: RESOLV_CONF_def RESOLV_CONF_BACKUP_def RESOLV_CONF_TMP_def)

lemma follow_plain:
  "fs_names d p = None \<Longrightarrow> fs_follow MAX_LINKS d p = Some p"
  "fs_names d p = Some i \<Longrightarrow> fs_data d i = RegularFile c \<Longrightarrow> fs_follow MAX_LINKS d p = Some p"
  by (simp_all add: MAX_LINKS_def eval_nat_numeral)

lemma fs_exists_name: "fs_exists d p \<Longrightarrow> \<exists>i. fs_names d p = Some i"
  using follow_plain(1) by (cases "fs_names d p") (auto simp: fs_exists_def fs_read_def)

lemma content_marked: "str_contains GENERATED_MARKER (takeWhile (\<lambda>c. c \<noteq> CHR 0x0A) (resolv_content server))"
  by (simp add: resolv_content_def GENERATED_MARKER_def)

lemma generated_when:
  "fs_names d p = Some i \<Longrightarrow> fs_data d i = RegularFile (resolv_content server) \<Longrightarrow> generated_by_lightway p d"
  by (simp add: generated_by_lightway_def fs_read_def follow_plain(2) content_marked)

text \<open>Names refer to files below the next fresh one, and no temporary file is left from before.\<close>

definition fs_ok :: "fs \<Rightarrow> bool" where
  "fs_ok d \<longleftrightarrow> fs_names d RESOLV_CONF_TMP = None \<and> (\<forall>p i. fs_names d p = Some i \<longrightarrow> i < fs_fresh d)"

lemma dns_backup_shape:
  assumes "dns_backup F d = (Inr (), d1)" and "fs_exists d RESOLV_CONF" and "\<not> generated_by_lightway RESOLV_CONF d"
  shows "\<exists>i. fs_names d RESOLV_CONF = Some i \<and> d1 = d\<lparr>fs_names := (fs_names d)(RESOLV_CONF_BACKUP \<mapsto> i)\<rparr>"
proof -
  obtain i where i: "fs_names d RESOLV_CONF = Some i" using fs_exists_name [OF assms(2)] by blast
  let ?d = "snd (fs_do F (FsRemove RESOLV_CONF_BACKUP) d)"
  have "?d = d \<or> ?d = d\<lparr>fs_names := (fs_names d)(RESOLV_CONF_BACKUP := None)\<rparr>"
    by (auto simp: fs_do_def fs_remove_def split: option.splits)
  moreover have "fs_do F (FsHardLink RESOLV_CONF RESOLV_CONF_BACKUP) ?d = (Inr (), d1)"
    using assms by (auto simp: dns_backup_def Let_def split: prod.splits sum.splits)
  ultimately show ?thesis
    using i by (auto simp: fs_do_def fs_hard_link_def split: option.splits if_splits)
qed

lemma write_atomic_shape:
  assumes "write_atomic F content d = (Inr (), d1)" and "fs_ok d"
  shows "fs_names d1 = (fs_names d)(RESOLV_CONF \<mapsto> fs_fresh d) \<and> fs_data d1 = (fs_data d)(fs_fresh d := RegularFile content)"
proof -
  have tmp: "fs_names d RESOLV_CONF_TMP = None" and fresh: "fs_names d RESOLV_CONF \<noteq> Some (fs_fresh d)"
    using assms(2) by (auto simp: fs_ok_def)
  have "(fs_names d)(RESOLV_CONF_TMP := None) = fs_names d" using tmp by auto
  then show ?thesis
    using assms(1) tmp fresh
    by (auto simp: write_atomic_def fs_do_def fs_write_def fs_rename_def follow_plain(1) fun_upd_twist split: option.splits prod.splits sum.splits)
qed

lemma direct_set_shape:
  assumes set: "direct_set F server d = (Inr (), d1)"
    and orig: "fs_exists d RESOLV_CONF" "\<not> generated_by_lightway RESOLV_CONF d" and ok: "fs_ok d"
  shows "\<exists>i. fs_names d RESOLV_CONF = Some i \<and> i < fs_fresh d
    \<and> fs_names d1 = (fs_names d)(RESOLV_CONF_BACKUP \<mapsto> i, RESOLV_CONF \<mapsto> fs_fresh d)
    \<and> fs_data d1 = (fs_data d)(fs_fresh d := RegularFile (resolv_content server)) \<and> generated_by_lightway RESOLV_CONF d1"
proof -
  obtain d0 where backup: "dns_backup F d = (Inr (), d0)" and wr: "write_atomic F (resolv_content server) d0 = (Inr (), d1)"
    using set by (auto simp: direct_set_def split: prod.splits sum.splits)
  obtain i where i: "fs_names d RESOLV_CONF = Some i" and d0: "d0 = d\<lparr>fs_names := (fs_names d)(RESOLV_CONF_BACKUP \<mapsto> i)\<rparr>"
    using dns_backup_shape [OF backup orig] by blast
  have "i < fs_fresh d" using ok i by (simp add: fs_ok_def)
  then have "fs_ok d0" using ok by (simp add: fs_ok_def d0)
  then have d1: "fs_names d1 = (fs_names d0)(RESOLV_CONF \<mapsto> fs_fresh d)" "fs_data d1 = (fs_data d)(fs_fresh d := RegularFile (resolv_content server))"
    using write_atomic_shape [OF wr] by (simp_all add: d0)
  have "generated_by_lightway RESOLV_CONF d1" using generated_when [of d1 RESOLV_CONF "fs_fresh d" server] d1 by simp
  then show ?thesis using i \<open>i < fs_fresh d\<close> d1 by (simp add: d0)
qed

text \<open>
  The name of the file refers to the original file again, whatever it is, with its data, and nothing of
  the client is left, when its settings are set and taken back; the latter fails only if the system call does.
\<close>

lemma resolv_conf_reset:
  assumes "direct_set F server d = (Inr (), d1)" and orig: "fs_exists d RESOLV_CONF" "\<not> generated_by_lightway RESOLV_CONF d" and "fs_ok d"
    and "F (FsRename RESOLV_CONF_BACKUP RESOLV_CONF) = None"
  shows "\<exists>d2. direct_reset F d1 = (Inr (), d2)"
proof -
  obtain i where "i < fs_fresh d" "fs_names d1 = (fs_names d)(RESOLV_CONF_BACKUP \<mapsto> i, RESOLV_CONF \<mapsto> fs_fresh d)"
    "generated_by_lightway RESOLV_CONF d1"
    using direct_set_shape [OF assms(1-4)] by blast
  then show ?thesis using assms(5) by (simp add: direct_reset_def fs_do_def fs_rename_def)
qed

lemma resolv_conf_restored:
  assumes set: "direct_set F server d = (Inr (), d1)" and reset: "direct_reset F d1 = (Inr (), d2)"
    and orig: "fs_exists d RESOLV_CONF" "\<not> generated_by_lightway RESOLV_CONF d" and ok: "fs_ok d"
  shows "fs_names d2 = (fs_names d)(RESOLV_CONF_BACKUP := None) \<and> (\<forall>i<fs_fresh d. fs_data d2 i = fs_data d i)"
proof -
  obtain i where i: "fs_names d RESOLV_CONF = Some i" "i < fs_fresh d"
    and d1: "fs_names d1 = (fs_names d)(RESOLV_CONF_BACKUP \<mapsto> i, RESOLV_CONF \<mapsto> fs_fresh d)"
      "fs_data d1 = (fs_data d)(fs_fresh d := RegularFile (resolv_content server))" and gen: "generated_by_lightway RESOLV_CONF d1"
    using direct_set_shape [OF set orig ok] by blast
  have "fs_do F (FsRename RESOLV_CONF_BACKUP RESOLV_CONF) d1 = (Inr (), d2)"
    using reset gen by (auto simp: direct_reset_def split: prod.splits sum.splits fs_error.splits)
  then have "d2 = d1\<lparr>fs_names := (fs_names d1)(RESOLV_CONF \<mapsto> i, RESOLV_CONF_BACKUP := None)\<rparr>"
    using i(2) by (auto simp: fs_do_def fs_rename_def d1(1) split: option.splits if_splits)
  moreover have "(fs_names d)(RESOLV_CONF \<mapsto> i) = fs_names d" using i(1) by auto
  ultimately show ?thesis
    using d1 by (auto simp: fun_upd_twist)
qed

text \<open>A file that someone else has written in between is left alone.\<close>

lemma foreign_resolv_conf_kept:
  assumes "\<not> generated_by_lightway RESOLV_CONF d" and "direct_reset F d = (r, d')"
  shows "fs_names d' RESOLV_CONF = fs_names d RESOLV_CONF \<and> fs_data d' = fs_data d"
  using assms by (auto simp: direct_reset_def fs_do_def fs_remove_def split: option.splits)

text \<open>After a crash the backup of the earlier run is kept, so that it still has the original file.\<close>

lemma backup_survives_crash:
  assumes "generated_by_lightway RESOLV_CONF d" and "direct_set F server d = (Inr (), d1)" and "fs_ok d"
  shows "fs_names d1 RESOLV_CONF_BACKUP = fs_names d RESOLV_CONF_BACKUP"
proof -
  have "write_atomic F (resolv_content server) d = (Inr (), d1)"
    using assms(1,2) by (simp add: direct_set_def dns_backup_def)
  from write_atomic_shape [OF this assms(3)] show ?thesis by simp
qed

text \<open>Where there was no file, the generated one stays behind with its name server.\<close>

lemma missing_resolv_conf_not_restored:
  assumes "fs_names d RESOLV_CONF = None" and "fs_names d RESOLV_CONF_BACKUP = None" and "fs_ok d"
    and "direct_set F server d = (Inr (), d1)" and "direct_reset F d1 = (r, d2)"
  shows "r \<noteq> Inr () \<and> generated_by_lightway RESOLV_CONF d2"
proof -
  have "\<not> fs_exists d RESOLV_CONF" using fs_exists_name assms(1) by fastforce
  then have "write_atomic F (resolv_content server) d = (Inr (), d1)"
    using assms(4) by (simp add: direct_set_def dns_backup_def)
  note d1 = write_atomic_shape [OF this assms(3)]
  have gen: "generated_by_lightway RESOLV_CONF d1" using generated_when [of d1 RESOLV_CONF "fs_fresh d" server] d1 by simp
  moreover have "fs_names d1 RESOLV_CONF_BACKUP = None" using d1 assms(2) by simp
  ultimately show ?thesis
    using assms(5) by (auto simp: direct_reset_def fs_do_def fs_rename_def split: option.splits fs_error.splits)
qed

text \<open>A command that fails halfway is not taken back: the manager does not know that it set anything.\<close>

lemma half_set_not_reverted:
  assumes "de_command E [] ([''resolvectl'', ''dns'', iface, server], [])"
    and "\<not> de_command E [([''resolvectl'', ''dns'', iface, server], [])] ([''resolvectl'', ''domain'', iface, ''~.''], [])"
  shows "case set_dns E server (dns_manager_new (Resolvectl iface)) \<lparr>dw_fs = d, dw_commands = []\<rparr> of
    (r, m, w) \<Rightarrow> r = Inl FailedToSetDnsConfig \<and> dns_drop E m w = w"
  using assms by (simp add: set_dns_def dns_manager_new_def resolvectl_set_def dns_command_def dns_drop_def reset_dns_def)

end
