(* ===== verification/App_Config.thy ===== *)
theory App_Config
  imports Wire_Auth Plugin Tls_Context
begin

text \<open>
  The parts of the configurations that decide something: the servers a client tries, with the
  credentials and certificates each ends up with, and the checks of both configurations
  (lightway-client/src/config.rs, lightway-server/src/config.rs). Reading files is a parameter; the parsing
  of configuration files and command lines is that of the crates serde and clap. The desktop build.
\<close>

section \<open>The servers of a client\<close>

record connection_config =
  cg_server :: string
  cg_mode :: connection_type
  cg_server_dn :: "string option"
  cg_cipher :: cipher
  cg_user :: "string option"
  cg_password :: "string option"
  cg_token :: "string option"
  cg_outside_mtu :: usize
  cg_ca_cert :: "string option"

record client_file_config =
  cf_servers :: "connection_config list"
  cf_server :: string
  cf_mode :: connection_type
  cf_server_dn :: string
  cf_cipher :: cipher
  cf_user :: "string option"
  cf_password :: "string option"
  cf_token :: "string option"
  cf_outside_mtu :: usize
  cf_ca_cert :: string
  cf_unknowns :: "string list"
  cf_accept_unknowns :: bool

datatype config_error = InvalidCertificate | InsufficientAuth | CaFileNotFound

definition config_len :: "client_file_config \<Rightarrow> usize" where
  "config_len c = (if cf_server c = [] then length (cf_servers c) else length (cf_servers c) + 1)"

definition config_is_empty :: "client_file_config \<Rightarrow> bool" where
  "config_is_empty c \<longleftrightarrow> cf_servers c = [] \<and> cf_server c = []"

definition check_cert_header :: "string \<Rightarrow> bool" where
  "check_cert_header content \<longleftrightarrow> take 27 content = ''-----BEGIN CERTIFICATE-----''"

text \<open>The body of the loop over the servers.\<close>

definition normalize_server ::
  "(string \<Rightarrow> string option) \<Rightarrow> client_file_config \<Rightarrow> string option \<Rightarrow> connection_config \<Rightarrow> config_error + connection_config" where
  "normalize_server read_file c ca_content s =
     (let s = (if cg_user s = None \<and> cg_password s = None \<and> cg_token s = None
               then s\<lparr>cg_user := cf_user c, cg_password := cf_password c, cg_token := cf_token c\<rparr> else s)
      in case cg_ca_cert s of
           Some ca_cert \<Rightarrow>
             if check_cert_header ca_cert then Inr s
             else (case read_file ca_cert of None \<Rightarrow> Inl CaFileNotFound | Some content \<Rightarrow> Inr (s\<lparr>cg_ca_cert := Some content\<rparr>))
         | None \<Rightarrow> if ca_content = None then Inl CaFileNotFound else Inr (s\<lparr>cg_ca_cert := ca_content\<rparr>))"

fun normalize_servers ::
  "(string \<Rightarrow> string option) \<Rightarrow> client_file_config \<Rightarrow> string option \<Rightarrow> connection_config list \<Rightarrow> config_error + connection_config list" where
  "normalize_servers read_file c ca_content [] = Inr []"
| "normalize_servers read_file c ca_content (s # ss) =
     (case normalize_server read_file c ca_content s of
        Inl e \<Rightarrow> Inl e
      | Inr s \<Rightarrow> (case normalize_servers read_file c ca_content ss of Inl e \<Rightarrow> Inl e | Inr ss \<Rightarrow> Inr (s # ss)))"

definition take_servers :: "(string \<Rightarrow> string option) \<Rightarrow> client_file_config \<Rightarrow> config_error + connection_config list" where
  "take_servers read_file c =
     (let servers = (if cf_servers c = [] then
            [\<lparr>cg_server = cf_server c, cg_mode = cf_mode c, cg_server_dn = (if cf_server_dn c = [] then None else Some (cf_server_dn c)),
              cg_cipher = cf_cipher c, cg_user = None, cg_password = None, cg_token = None, cg_outside_mtu = cf_outside_mtu c, cg_ca_cert = None\<rparr>]
          else cf_servers c);
          ca_content = (if check_cert_header (cf_ca_cert c) then Some (cf_ca_cert c) else read_file (cf_ca_cert c))
      in normalize_servers read_file c ca_content servers)"

definition take_auth :: "(string \<Rightarrow> bytes) \<Rightarrow> string option \<Rightarrow> string option \<Rightarrow> string option \<Rightarrow> config_error + auth_method" where
  "take_auth as_bytes token user password =
     (case (token, user, password) of
        (Some token, _, _) \<Rightarrow> Inr (VersionedToken version_MAXIMUM (as_bytes token))
      | (None, Some user, Some password) \<Rightarrow> Inr (UserPass (as_bytes user) (as_bytes password))
      | _ \<Rightarrow> Inl InsufficientAuth)"

definition client_config_validate :: "client_file_config \<Rightarrow> bool" where
  "client_config_validate c \<longleftrightarrow> cf_unknowns c = [] \<or> cf_accept_unknowns c"

section \<open>The configuration of a server\<close>

record server_file_config =
  sf_mode :: connection_type
  sf_enable_expresslane :: bool
  sf_proxy_protocol :: bool
  sf_enable_batch_send :: bool
  sf_enable_tun_offload :: bool
  sf_unknowns :: "string list"
  sf_accept_unknowns :: bool

definition server_config_validate :: "server_file_config \<Rightarrow> string + unit" where
  "server_config_validate c =
     (if sf_unknowns c \<noteq> [] \<and> \<not> sf_accept_unknowns c then Inl ''unknown config fields''
      else if sf_enable_expresslane c \<and> sf_mode c \<noteq> Datagram then Inl ''Expresslane only work in udp mode''
      else if sf_proxy_protocol c \<and> sf_mode c \<noteq> Stream then Inl ''Proxy protocol only support with tcp mode''
      else if sf_enable_batch_send c \<and> sf_enable_tun_offload c then Inl ''Batch send cannot be used with tun offload''
      else Inr ())"

section \<open>What the servers end up with\<close>

lemma normalize_servers_all:
  "normalize_servers read_file c ca ss = Inr rs \<Longrightarrow>
    length rs = length ss \<and> (\<forall>i<length ss. normalize_server read_file c ca (ss ! i) = Inr (rs ! i))"
proof (induction ss arbitrary: rs)
  case (Cons s ss)
  then show ?case by (auto simp: nth_Cons split: sum.splits nat.split)
qed simp

text \<open>
  Every server that is tried has a certificate, its own or the common one, and either its own
  credentials unchanged or, if it has none at all, the common ones.
\<close>

lemma taken_servers_complete:
  assumes "take_servers read_file c = Inr rs" and "r \<in> set rs"
  shows "\<exists>ca. cg_ca_cert r = Some ca \<and> (check_cert_header ca \<or> ca \<in> ran read_file)"
proof -
  let ?ca = "if check_cert_header (cf_ca_cert c) then Some (cf_ca_cert c) else read_file (cf_ca_cert c)"
  obtain ss where "normalize_servers read_file c ?ca ss = Inr rs" using assms(1) by (auto simp: take_servers_def Let_def)
  then obtain s where "normalize_server read_file c ?ca s = Inr r"
    using normalize_servers_all assms(2) by (metis in_set_conv_nth)
  then show ?thesis by (auto simp: normalize_server_def Let_def ran_def split: option.splits if_splits)
qed

lemma credentials_inherited_whole:
  assumes "normalize_server read_file c ca s = Inr r"
  shows "(cg_user r, cg_password r, cg_token r) =
    (if cg_user s = None \<and> cg_password s = None \<and> cg_token s = None then (cf_user c, cf_password c, cf_token c)
     else (cg_user s, cg_password s, cg_token s))"
  using assms by (auto simp: normalize_server_def Let_def split: option.splits if_splits)

text \<open>A token wins over a password; half a password is not completed from the common credentials.\<close>

lemma take_auth_cases:
  "(\<exists>m. take_auth as_bytes t u p = Inr m) \<longleftrightarrow> t \<noteq> None \<or> (u \<noteq> None \<and> p \<noteq> None)"
  by (auto simp: take_auth_def split: option.splits)

text \<open>
  \<open>take_servers\<close> never returns as many servers as \<open>len\<close> counts when both the list and the single server are given;
  the single server is then not used.
\<close>

lemma len_counts_unused_server:
  assumes "cf_servers c \<noteq> []" and "take_servers read_file c = Inr rs" and "cf_server c \<noteq> []"
  shows "config_len c = length rs + 1"
  using assms normalize_servers_all by (auto simp: take_servers_def config_len_def Let_def)

text \<open>A configuration that passes allows ExpressLane on datagrams only and the PROXY header on streams only.\<close>

lemma server_config_validate_ok:
  "server_config_validate c = Inr () \<longleftrightarrow>
    (sf_unknowns c = [] \<or> sf_accept_unknowns c) \<and> (sf_enable_expresslane c \<longrightarrow> sf_mode c = Datagram)
    \<and> (sf_proxy_protocol c \<longrightarrow> sf_mode c = Stream) \<and> \<not> (sf_enable_batch_send c \<and> sf_enable_tun_offload c)
    \<and> \<not> (sf_enable_expresslane c \<and> sf_proxy_protocol c)"
  by (cases "sf_mode c") (auto simp: server_config_validate_def)

end
