(* ===== verification/Client_Connect.thy ===== *)
theory Client_Connect
  imports Connection_Builder Client_Select Client_Sockets App_Timers Dns_Manager App_Config
begin

text \<open>
  How a client puts its parts together (lightway-client/src/lib.rs): the settings of one server, \<open>connect\<close>,
  which opens the socket and builds context and connection, the end of the task of a connection,
  and the session of \<open>client\<close> after a server was chosen, from the routes and name servers to their
  removal. The build has the BoringSSL backend; whether it has post-quantum key exchange is a parameter.
\<close>

section \<open>Settings\<close>

record client_settings =
  cl_outside_mtu :: usize
  cl_keyshare :: key_share
  cl_enable_expresslane :: bool
  cl_enable_connected_udp :: bool
  cl_expresslane_keys_rotation_interval :: duration
  cl_expresslane_cb :: bool
  cl_expresslane_metrics :: bool
  cl_keepalive_interval :: duration
  cl_keepalive_timeout :: duration
  cl_continuous_keepalive :: bool
  cl_tracer_packet_timeout :: duration
  cl_sndbuf :: u64
  cl_rcvbuf :: u64
  cl_enable_batch_receive :: bool
  cl_fwmark :: u32
  cl_enable_pmtud :: bool
  cl_pmtud_base_mtu :: "u16 option"

text \<open>The flag tells whether the caller gave a socket.\<close>

datatype client_connection_mode = ModeStream bool | ModeDatagram bool

record client_connection_config =
  cx_mode :: client_connection_mode
  cx_cipher :: cipher
  cx_server_dn :: "string option"
  cx_server :: sock_addr
  cx_auth :: auth_method
  cx_cert_content :: string
  cx_inside_plugins :: plugin_factories
  cx_outside_plugins :: plugin_factories
  cx_inside_pkt_codec :: bool

datatype connection_config_error = CxAuth config_error | CxLookup sock_error | CxNoAddress | CxCertMissing

definition try_from_connection_config ::
  "(string \<Rightarrow> bytes) \<Rightarrow> (string \<Rightarrow> sock_error + sock_addr list) \<Rightarrow> connection_config \<Rightarrow> connection_config_error + client_connection_config" where
  "try_from_connection_config as_bytes lookup_host config =
     (case take_auth as_bytes (cg_token config) (cg_user config) (cg_password config) of
        Inl e \<Rightarrow> Inl (CxAuth e)
      | Inr auth \<Rightarrow>
          (case lookup_host (cg_server config) of
             Inl e \<Rightarrow> Inl (CxLookup e)
           | Inr [] \<Rightarrow> Inl CxNoAddress
           | Inr (server_addr # _) \<Rightarrow>
               (case cg_ca_cert config of
                  None \<Rightarrow> Inl CxCertMissing
                | Some ca_cert \<Rightarrow>
                    Inr \<lparr>cx_mode = (case cg_mode config of Stream \<Rightarrow> ModeStream False | Datagram \<Rightarrow> ModeDatagram False),
                      cx_cipher = cg_cipher config, cx_server_dn = cg_server_dn config, cx_server = server_addr, cx_auth = auth,
                      cx_cert_content = ca_cert, cx_inside_plugins = [], cx_outside_plugins = [], cx_inside_pkt_codec = False\<rparr>)))"

definition reloadable_from :: "bool \<Rightarrow> reloadable_client_config" where
  "reloadable_from enable_inside_pkt_encoding = \<lparr>rc_enable_inside_pkt_encoding = Some enable_inside_pkt_encoding\<rparr>"

definition reloadable_delta :: "reloadable_client_config \<Rightarrow> reloadable_client_config \<Rightarrow> reloadable_client_config" where
  "reloadable_delta c prev =
     \<lparr>rc_enable_inside_pkt_encoding =
        (if rc_enable_inside_pkt_encoding c \<noteq> rc_enable_inside_pkt_encoding prev then rc_enable_inside_pkt_encoding c else None)\<rparr>"

section \<open>Opening the socket\<close>

text \<open>What the calls answer.\<close>

record socket_answers =
  sa_platform :: platform
  sa_kernel :: kernel
  sa_lookup :: "sock_addr \<Rightarrow> sock_error + sock_addr list"
  sa_bind :: "sock_error option"
  sa_mtu_discover :: "sock_error option"
  sa_writable :: "sock_error option"
  sa_batch_available :: bool
  sa_set_send_buffer :: "u64 \<Rightarrow> sock_error option"
  sa_set_recv_buffer :: "u64 \<Rightarrow> sock_error option"
  sa_tcp :: "tcp_syscall \<Rightarrow> sock_error option"

datatype outside_socket = UdpOutside client_udp | TcpOutside "tcp_syscall list"

datatype connect_error =
    OutsideIoUdp "sock_error option"
  | OutsideIoTcp sock_error
  | BufferSize sock_error
  | ContextFailed context_builder_error
  | BuilderFailed connection_builder_error

definition set_buffer_sizes :: "socket_answers \<Rightarrow> client_settings \<Rightarrow> sock_error option" where
  "set_buffer_sizes A cfg =
     (case sa_set_send_buffer A (cl_sndbuf cfg) of Some e \<Rightarrow> Some e | None \<Rightarrow> sa_set_recv_buffer A (cl_rcvbuf cfg))"

text \<open>The socket is not connected where that fails; only macOS sizes the buffers of a stream.\<close>

definition connect_outside :: "socket_answers \<Rightarrow> client_settings \<Rightarrow> client_connection_config \<Rightarrow> connect_error + outside_socket" where
  "connect_outside A cfg sv =
     (case cx_mode sv of
        ModeDatagram sock_given \<Rightarrow>
          (case udp_new (sa_lookup A (cx_server sv)) sock_given (sa_bind A) (sa_mtu_discover A) (sa_writable A) (cl_fwmark cfg) of
             Inl e \<Rightarrow> Inl (OutsideIoUdp e)
           | Inr sock \<Rightarrow>
               (let sock = (if cl_enable_batch_receive cfg then enable_batch_receive (sa_platform A) (sa_batch_available A) sock else sock) in
                case set_buffer_sizes A cfg of
                  Some e \<Rightarrow> Inl (BufferSize e)
                | None \<Rightarrow>
                    Inr (UdpOutside (if pf_apple (sa_platform A) \<and> cl_enable_connected_udp cfg
                      then snd (enable_connected_send (sa_kernel A) sock) else sock))))
      | ModeStream sock_given \<Rightarrow>
          (case tcp_new (sa_tcp A) (cx_server sv) sock_given (cl_fwmark cfg) of
             (Some e, _) \<Rightarrow> Inl (OutsideIoTcp e)
           | (None, calls) \<Rightarrow>
               (case (if sa_platform A = MacOs then set_buffer_sizes A cfg else None) of
                  Some e \<Rightarrow> Inl (BufferSize e)
                | None \<Rightarrow> Inr (TcpOutside calls))))"

section \<open>Building the connection\<close>

definition mode_connection_type :: "client_connection_mode \<Rightarrow> connection_type" where
  "mode_connection_type m = (case m of ModeStream _ \<Rightarrow> Stream | ModeDatagram _ \<Rightarrow> Datagram)"

definition connect_context_options :: "bool \<Rightarrow> client_settings \<Rightarrow> client_connection_config \<Rightarrow> client_context_option list" where
  "connect_context_options postquantum cfg sv =
     [CcCipher (cx_cipher sv), CcInsidePlugins (cx_inside_plugins sv), CcOutsidePlugins (cx_outside_plugins sv)]
     @ (if cl_enable_expresslane cfg then [CcExpresslane (cl_expresslane_keys_rotation_interval cfg)] else [])
     @ (if cl_expresslane_cb cfg then [CcExpresslaneCb] else [])
     @ (if cl_expresslane_metrics cfg then [CcExpresslaneMetrics] else [])
     @ (if postquantum then [CcEnablePqCrypto] else [])"

definition connect_options :: "bool \<Rightarrow> client_settings \<Rightarrow> client_connection_config \<Rightarrow> client_option list" where
  "connect_options postquantum cfg sv =
     [WithAuth (cx_auth sv), WithEventCb, WithInsidePktCodec (cx_inside_pkt_codec sv)]
     @ (case cl_pmtud_base_mtu cfg of None \<Rightarrow> [] | Some mtu \<Rightarrow> [WithPmtudBaseMtu mtu])
     @ (case cx_server_dn sv of None \<Rightarrow> [] | Some sdn \<Rightarrow> [WithServerDomainNameValidation sdn])
     @ (if is_datagram (mode_connection_type (cx_mode sv)) \<and> cl_enable_pmtud cfg then [WithPmtudTimer] else [])
     @ (if postquantum then [WithPqCrypto (cl_keyshare cfg)] else [])"

definition connect_keepalive :: "client_settings \<Rightarrow> keepalive_config" where
  "connect_keepalive cfg =
     \<lparr>kc_interval = cl_keepalive_interval cfg, kc_timeout = cl_keepalive_timeout cfg, kc_continuous = cl_continuous_keepalive cfg,
      kc_tracer_trigger_timeout = Some (cl_tracer_packet_timeout cfg)\<rparr>"

record ('s, 'k, 'm) client_connection =
  ct_conn :: "('s, 'k, 'm) conn"
  ct_outside_io :: outside_socket
  ct_keepalive :: keepalive_config
  ct_signals :: client_signals

text \<open>\<open>connect\<close> up to the tasks it spawns; \<open>as_bytes\<close> is the encoding of a string.\<close>

definition connect ::
  "(string \<Rightarrow> bytes) \<Rightarrow> boring_ctx \<Rightarrow> (ssl_ctx \<Rightarrow> 'b ssl_setup) \<Rightarrow> ('b boring_session, 'k, 'm) conn_env \<Rightarrow> socket_answers \<Rightarrow> bool
    \<Rightarrow> client_settings \<Rightarrow> client_connection_config \<Rightarrow> (connect_error + ('b boring_session, 'k, 'm) client_connection) option" where
  "connect as_bytes X U E A postquantum cfg sv =
     (case connect_outside A cfg sv of
        Inl e \<Rightarrow> Some (Inl e)
      | Inr outside_io \<Rightarrow>
          (case client_context_new X (mode_connection_type (cx_mode sv)) (RootPemBuffer (as_bytes (cx_cert_content sv))) None of
             Inl e \<Rightarrow> Some (Inl (ContextFailed e))
           | Inr cb \<Rightarrow>
               (case client_context_configure X (connect_context_options postquantum cfg sv) cb of
                  Inl e \<Rightarrow> Some (Inl (ContextFailed e))
                | Inr cb \<Rightarrow>
                    (case start_connect (client_context_build cb) (cl_outside_mtu cfg) of
                       None \<Rightarrow> None
                     | Some (Inl e) \<Rightarrow> Some (Inl (BuilderFailed e))
                     | Some (Inr b) \<Rightarrow>
                         (case client_connect U E (fold client_builder_with (connect_options postquantum cfg sv) b) of
                            None \<Rightarrow> None
                          | Some (Inl e) \<Rightarrow> Some (Inl (BuilderFailed e))
                          | Some (Inr conn) \<Rightarrow>
                              Some (Inr \<lparr>ct_conn = conn, ct_outside_io = outside_io, ct_keepalive = connect_keepalive cfg,
                                ct_signals = \<lparr>cs_connected = False, cs_disconnected = False\<rparr>\<rparr>))))))"

section \<open>The end of a connection\<close>

text \<open>
  The branch of the \<open>select!\<close> that completed. The result of the network change task is \<open>None\<close> if it
  could not be joined.
\<close>

datatype task_exit =
    StopRequested
  | KeepaliveExpired
  | OutsideLoopExited
  | InsideLoopExited
  | EncodedSendExited
  | DecodedSendExited
  | TickerStopped
  | NetworkChangeDone "client_result option"

datatype task_error = TaskDisconnect connection_error | TaskExited task_exit

definition exit_enabled :: "bool \<Rightarrow> task_exit \<Rightarrow> bool" where
  "exit_enabled inside_pkt_codec ex \<longleftrightarrow> ex \<in> {EncodedSendExited, DecodedSendExited} \<longrightarrow> inside_pkt_codec"

definition exit_result :: "('s, 'k, 'm) conn_env \<Rightarrow> task_exit \<Rightarrow> ('s, 'k, 'm, task_error + client_result) conn_op" where
  "exit_result E ex =
     (case ex of
        StopRequested \<Rightarrow> attempt (disconnect E) (\<lambda>r. ret (case r of Inr _ \<Rightarrow> Inr UserDisconnect | Inl e \<Rightarrow> Inl (TaskDisconnect e)))
      | NetworkChangeDone (Some client_result) \<Rightarrow> ret (Inr client_result)
      | _ \<Rightarrow> ret (Inl (TaskExited ex)))"

text \<open>The task up to the wait for the disconnected signal.\<close>

definition connection_task_end :: "('s, 'k, 'm) conn_env \<Rightarrow> task_exit \<Rightarrow> ('s, 'k, 'm, task_error + client_result) conn_op" where
  "connection_task_end E ex =
     and_then (exit_result E ex) (\<lambda>result.
       case result of
         Inr _ \<Rightarrow> ret result
       | Inl _ \<Rightarrow> ignoring (disconnect E) (ret result))"

section \<open>Routes and name servers\<close>

datatype dns_config_mode = DnsDefault | DnsNoExec

datatype client_session_error =
    SessionIo sock_error
  | SessionRoutes routing_table_error
  | SessionDns dns_manager_error
  | SessionJoin
  | SessionTask task_error

text \<open>What the system answers: the interface, the constructors of the route managers, the monitor.\<close>

record ('r, 't) session_env =
  se_routing :: "('r, 't) routing"
  se_if_index :: "sock_error + u32"
  se_sync :: "os_error + unit"
  se_async :: "os_error + unit"
  se_monitor :: "sock_error option"
  se_dns :: dns_env
  se_detect :: "u32 \<Rightarrow> fs \<Rightarrow> dns_backend"

record session_settings =
  ss_route_mode :: route_mode
  ss_tun_peer_ip :: ip_addr
  ss_tun_dns_ip :: ip_addr
  ss_dns_config_mode :: dns_config_mode
  ss_network_change_signal :: bool

text \<open>The table the failed installation leaves comes with the error.\<close>

definition initialize_routes ::
  "('r, 't) session_env \<Rightarrow> session_settings \<Rightarrow> ip_addr \<Rightarrow> 't \<Rightarrow> (client_session_error \<times> 't + ('r, 't) route_manager) option" where
  "initialize_routes S cfg peer_ip t =
     (case se_if_index S of
        Inl e \<Rightarrow> Some (Inl (SessionIo e, t))
      | Inr tun_index \<Rightarrow>
          (case route_manager_new (se_sync S) (se_async S) (ss_route_mode cfg) peer_ip tun_index (ss_tun_peer_ip cfg) (ss_tun_dns_ip cfg) t of
             Inl e \<Rightarrow> Some (Inl (SessionRoutes e, t))
           | Inr inner \<Rightarrow>
               (case route_manager_start (se_routing S) (Some inner) of
                  None \<Rightarrow> None
                | Some (Inl (e, left)) \<Rightarrow> Some (Inl (SessionRoutes e, case left of None \<Rightarrow> t | Some t' \<Rightarrow> t'))
                | Some (Inr m) \<Rightarrow> Some (Inr m))))"

text \<open>\<open>detect\<close> is the choice of the backend for an interface; on an error the manager is dropped.\<close>

definition connection_set_dns ::
  "('r, 't) session_env \<Rightarrow> dns_config_mode \<Rightarrow> string \<Rightarrow> dns_world \<Rightarrow> (dns_manager_error + dns_manager option) \<times> dns_world" where
  "connection_set_dns S mode dns_server w =
     (if mode \<noteq> DnsDefault then (Inr None, w)
      else case se_if_index S of
          Inl _ \<Rightarrow> (Inl FailedToSetDnsConfig, w)
        | Inr tun_index \<Rightarrow>
            (case set_dns (se_dns S) dns_server (dns_manager_new (se_detect S tun_index (dw_fs w))) w of
               (Inl e, m, w) \<Rightarrow> (Inl e, dns_drop (se_dns S) m w)
             | (Inr _, m, w) \<Rightarrow> (Inr (Some m), w)))"

text \<open>
  What a session leaves of the routes: a table without them, or the manager in the hands of the
  coordinator task, which nobody stops.
\<close>

datatype ('r, 't) routes_left = RoutesRemoved 't | CoordinatorRunning "('r, 't) route_manager"

text \<open>
  \<open>client\<close> from the monitor to the end. \<open>events\<close> is what the rest of the system does to the table before
  each network event, \<open>dns_server\<close> the address as text, \<open>task\<close> the outcome of the connection's task, \<open>None\<close>
  if it cannot be joined.
\<close>

definition client_session ::
  "('r, 't) session_env \<Rightarrow> session_settings \<Rightarrow> ip_addr \<Rightarrow> string \<Rightarrow> ('t \<Rightarrow> 't) list \<Rightarrow> (task_error + client_result) option \<Rightarrow> 't \<Rightarrow> dns_world
    \<Rightarrow> ((client_session_error + client_result) \<times> ('r, 't) routes_left \<times> dns_world) option" where
  "client_session S cfg peer_ip dns_server events task t w =
     (case (if ss_network_change_signal cfg then None else se_monitor S) of
        Some e \<Rightarrow> Some (Inl (SessionIo e), RoutesRemoved t, w)
      | None \<Rightarrow>
          (case initialize_routes S cfg peer_ip t of
             None \<Rightarrow> None
           | Some (Inl (e, t)) \<Rightarrow> Some (Inl e, RoutesRemoved t, w)
           | Some (Inr m) \<Rightarrow>
               (case connection_set_dns S (ss_dns_config_mode cfg) dns_server w of
                  (Inl e, w) \<Rightarrow> Some (Inl (SessionDns e), CoordinatorRunning m, w)
                | (Inr dns, w) \<Rightarrow>
                    (case route_run (se_routing S) events m of
                       None \<Rightarrow> None
                     | Some m \<Rightarrow>
                         (let w = (case dns of None \<Rightarrow> w | Some dm \<Rightarrow> dns_drop (se_dns S) dm w) in
                          case task of
                            None \<Rightarrow> Some (Inl SessionJoin, CoordinatorRunning m, w)
                          | Some result \<Rightarrow>
                              Some (case result of Inl e \<Rightarrow> Inl (SessionTask e) | Inr r \<Rightarrow> Inr r,
                                RoutesRemoved (cleanup_sync (se_routing S) m), w))))))"

section \<open>What a connection is built with\<close>

lemma connect_Inr:
  assumes "connect as_bytes X U E A pq cfg sv = Some (Inr r)"
  obtains cb cb' b where "client_context_new X (mode_connection_type (cx_mode sv)) (RootPemBuffer (as_bytes (cx_cert_content sv))) None = Inr cb"
    "client_context_configure X (connect_context_options pq cfg sv) cb = Inr cb'"
    "start_connect (client_context_build cb') (cl_outside_mtu cfg) = Some (Inr b)"
    "client_connect U E (fold client_builder_with (connect_options pq cfg sv) b) = Some (Inr (ct_conn r))"
  using assms that by (auto simp: connect_def split: sum.splits option.splits)

lemma connect_checked_domain: "checked_domain (connect_options pq cfg sv) = cx_server_dn sv"
  by (cases "cx_server_dn sv"; cases "cl_pmtud_base_mtu cfg") (simp_all add: connect_options_def)

lemma connect_options_set:
  "cnb_auth_method (fold client_builder_with (connect_options pq cfg sv) b) = Some (cx_auth sv)
    \<and> cnb_event_cb (fold client_builder_with (connect_options pq cfg sv) b)"
  by (cases "cx_server_dn sv"; cases "cl_pmtud_base_mtu cfg") (simp_all add: connect_options_def)

text \<open>
  Whatever the settings, the connection \<open>connect\<close> returns authenticates its server with the certificate and
  the domain name of the server's configuration, sends that configuration's credentials, and reports its
  events.
\<close>

lemma connect_verifies:
  assumes "connect as_bytes X U E A pq cfg sv = Some (Inr r)"
  shows "\<exists>calls certs config session plugins b.
    session_new (U ([CtxSetVerify SslVerifyPeer, CtxSetMinProtoVersion (client_version (mode_connection_type (cx_mode sv))),
        CtxSetMaxProtoVersion (client_version (mode_connection_type (cx_mode sv))), CtxSetVerifyCertStore certs] @ calls))
      (client_method (mode_connection_type (cx_mode sv))) config = Inr (session, sc_io config)
    \<and> (\<forall>call\<in>set calls. \<exists>g. call = CtxSetGroupIds g) \<and> root_certs X (RootPemBuffer (as_bytes (cx_cert_content sv))) = Inr certs
    \<and> sc_ssl_verify_mode config = None \<and> sc_checked_domain_name config = cx_server_dn sv
    \<and> conn_reachable E (client_args b (cx_auth sv) session (sc_io config) plugins) (ct_conn r) \<and> cnb_event_cb b"
proof -
  obtain cb cb' b where steps:
    "client_context_new X (mode_connection_type (cx_mode sv)) (RootPemBuffer (as_bytes (cx_cert_content sv))) None = Inr cb"
    "client_context_configure X (connect_context_options pq cfg sv) cb = Inr cb'"
    "start_connect (client_context_build cb') (cl_outside_mtu cfg) = Some (Inr b)"
    "client_connect U E (fold client_builder_with (connect_options pq cfg sv) b) = Some (Inr (ct_conn r))"
    using assms by (rule connect_Inr)
  have am: "(cnb_auth_method (fold client_builder_with (connect_options pq cfg sv) b) = Some am) = (am = cx_auth sv)" for am
    using connect_options_set [of pq cfg sv b] by auto
  show ?thesis using built_client_session [OF steps] connect_options_set [of pq cfg sv b] unfolding connect_checked_domain am by blast
qed

section \<open>The end of a connection\<close>

lemma disconnect_Err: "disconnect E c = Err e c' \<Longrightarrow> c' = c \<and> e = CeInvalidState \<and> cn_state c \<in> {Disconnecting, Connecting, Disconnected}"
  by (auto simp: disconnect_def set_state_plain enter_state_def conn_event_def app_note_def exec_defs split: if_splits exec.splits)

lemma disconnect_Ret: "disconnect E c = Ret u c' \<Longrightarrow> cn_state c' = Disconnected"
  by (auto simp: disconnect_def set_state_plain then_do_Ret ignoring_Ret dest!: enter_state_Ret)

text \<open>
  However the task of a connection ends, other than by a network change, the connection is over: it is disconnected, or
  it never was connected and there is nobody to say goodbye to, or another call is disconnecting it.
\<close>

lemma task_end_disconnects:
  assumes "connection_task_end E ex c = Ret r c'" and "\<And>cr. ex \<noteq> NetworkChangeDone (Some cr)"
  shows "cn_state c' = Disconnected \<or> (c' = c \<and> cn_state c \<in> {Connecting, Disconnecting})"
  using assms
  by (auto simp: connection_task_end_def exit_result_def exec_defs split: exec.splits sum.splits task_exit.splits option.splits
      dest!: disconnect_Err disconnect_Ret)

text \<open>
  The task does not wait in vain for the disconnected signal: when it waits after a stop, or after
  a network change on a stream that was connected, the event that makes the event task send the signal was reported.
\<close>

lemma lifecycle_path_last: "lifecycle_path srv st ss st' \<Longrightarrow> st \<noteq> st' \<Longrightarrow> st' \<in> set ss"
proof (induction ss arbitrary: st)
  case (Cons s ss)
  then show ?case using Cons.IH [of s] by (cases "s = st'") auto
qed simp

lemma state_events_set: "st \<in> set (state_events l) \<Longrightarrow> AppEvent (StateChanged st) \<in> set l"
  by (induction l rule: state_events.induct) auto

lemma disconnected_reported:
  fixes c :: "('s, 'k, 'm) conn"
  assumes "conn_reachable E args c" and "na_event_cb args" and "cn_state c = Disconnected"
  shows "AppEvent (StateChanged Disconnected) \<in> set (cn_log c)"
proof -
  have "follows_lifecycle (args_server args) c"
    by (rule life.reachable_invariant [OF assms(1)])
      (simp add: follows_lifecycle_def conn_init_def args_server_def is_server_def assms(2))
  then show ?thesis using assms(3) by (auto simp: follows_lifecycle_def dest: lifecycle_path_last intro: state_events_set)
qed

lemma disconnect_reported:
  assumes "conn_reachable E args c" and "na_event_cb args" and "disconnect E c = Ret u c'"
  shows "AppEvent (StateChanged Disconnected) \<in> set (cn_log c')"
proof -
  have "exec_state (disconnect E c) = Some c'" using assms(3) by simp
  then have "conn_reachable E args c'"
    using assms(1) disconnect_runs unfolding conn_reachable_def by blast
  then show ?thesis using assms(2) disconnect_Ret [OF assms(3)] by (rule disconnected_reported)
qed

lemma stop_wait_ends:
  assumes "conn_reachable E args c" and "na_event_cb args" and "connection_task_end E StopRequested c = Ret (Inr r) c'"
  shows "AppEvent (StateChanged Disconnected) \<in> set (cn_log c')"
proof -
  have "disconnect E c = Ret () c'"
    using assms(3) by (auto simp: connection_task_end_def exit_result_def exec_defs split: exec.splits sum.splits)
  then show ?thesis by (rule disconnect_reported [OF assms(1,2)])
qed

lemma network_change_wait_ends:
  assumes "conn_reachable E args c" and "na_event_cb args" and "network_change_step E True c = Ret (Inl NetworkChange) c'"
    and "cn_state c \<in> {LinkUp, Authenticating, Online}"
  shows "AppEvent (StateChanged Disconnected) \<in> set (cn_log c')"
proof -
  have "disconnect E c = Ret () c'"
    using assms(3,4) by (auto simp: network_change_step_def exec_defs split: exec.splits connection_type.splits dest!: disconnect_Err)
  then show ?thesis by (rule disconnect_reported [OF assms(1,2)])
qed

lemma disconnected_event_signals:
  "client_handle_event E alive enc signals (StateChanged Disconnected) c = Ret (True, [], signals\<lparr>cs_disconnected := True\<rparr>) c"
  by (simp add: client_handle_event_def ret_def)

section \<open>What a session leaves behind\<close>

lemma route_manager_new_fields:
  assumes "route_manager_new sync async mode peer_ip tun_index tun_peer_ip tun_dns_ip t = Inr (m :: ('r, 't) route_manager)"
  shows "rm_server_ip m = peer_ip" "rm_tun_dns_ip m = tun_dns_ip" "rm_table m = t" "owned_routes m = {}"
  using assms by (auto simp: route_manager_new_def owned_routes_def split: sum.splits)

lemma initialize_routes_Inl:
  assumes "initialize_routes S cfg peer_ip t = Some (Inl (e, t'))" and "builders_ok (se_routing S)" "table_ok (se_routing S) routes"
    and "mine (se_routing S) routes (managed_keys peer_ip (ss_tun_dns_ip cfg)) t = {}"
  shows "routes t' = routes t \<and> (\<forall>e'. e \<noteq> SessionTask e')"
proof -
  consider "t' = t" "\<forall>e'. e \<noteq> SessionTask e'" | tun_index m e1 left where "e = SessionRoutes e1"
    "route_manager_new (se_sync S) (se_async S) (ss_route_mode cfg) peer_ip tun_index (ss_tun_peer_ip cfg) (ss_tun_dns_ip cfg) t = Inr m"
    "route_manager_start (se_routing S) (Some m) = Some (Inl (e1, left))" "t' = (case left of None \<Rightarrow> t | Some t1 \<Rightarrow> t1)"
    using assms(1) by (auto simp: initialize_routes_def split: sum.splits option.splits)
  then show ?thesis
  proof cases
    case 2
    then show ?thesis
      using start_failed_restores [OF assms(2,3) _ _ 2(3)] assms(4) route_manager_new_fields [OF 2(2)] by auto
  qed simp
qed

lemma initialize_routes_Inr:
  assumes "initialize_routes S cfg peer_ip t = Some (Inr m)" and "builders_ok (se_routing S)" "table_ok (se_routing S) routes"
    and "K = managed_keys peer_ip (ss_tun_dns_ip cfg)" and "mine (se_routing S) routes K t = {}"
  shows "tidy (se_routing S) routes K m \<and> others (se_routing S) routes K (rm_table m) = routes t
    \<and> K = managed_keys (rm_server_ip m) (rm_tun_dns_ip m)"
proof -
  obtain tun_index m0 where
    m0: "route_manager_new (se_sync S) (se_async S) (ss_route_mode cfg) peer_ip tun_index (ss_tun_peer_ip cfg) (ss_tun_dns_ip cfg) t = Inr m0"
    and m: "install_routes (se_routing S) m0 = Ret () m"
    using assms(1) by (auto simp: initialize_routes_def route_manager_start_def split: sum.splits option.splits exec.splits)
  note f = route_manager_new_fields [OF m0]
  have "tidy_step (se_routing S) routes K m0 m"
    using steps_RetD [OF tidy_install [OF assms(2,3)] m] assms(4) f by simp
  moreover have "tidy (se_routing S) routes K m0" "others (se_routing S) routes K t = routes t"
    using assms(5) f by (auto simp: tidy_def mine_def others_def)
  ultimately show ?thesis using f assms(4) by (simp add: tidy_step_def)
qed

text \<open>
  A session whose routes are gone when it returns has left the table as the rest of the system made
  it, whether its task failed or not.
\<close>

lemma session_restores_routes:
  assumes ok: "builders_ok (se_routing S)" "table_ok (se_routing S) routes"
    and K: "K = managed_keys peer_ip (ss_tun_dns_ip cfg)" and clean: "mine (se_routing S) routes K t = {}"
    and envs: "\<forall>(f, g) \<in> set envs. \<forall>t. others (se_routing S) routes K (f t) = g (others (se_routing S) routes K t)
      \<and> mine (se_routing S) routes K (f t) \<subseteq> mine (se_routing S) routes K t"
    and run: "client_session S cfg peer_ip dns_server (map fst envs) task t w = Some (r, RoutesRemoved t', w')"
  shows "routes t' = (if (\<exists>cr. r = Inr cr) \<or> (\<exists>e. r = Inl (SessionTask e)) then fold (\<lambda>(_, g). g) envs (routes t) else routes t)"
proof -
  consider (early) e where "r = Inl (SessionIo e)" "t' = t"
    | (failed) e where "initialize_routes S cfg peer_ip t = Some (Inl (e, t'))" "r = Inl e"
    | (ran) m m' where "initialize_routes S cfg peer_ip t = Some (Inr m)" "route_run (se_routing S) (map fst envs) m = Some m'"
        "t' = cleanup_sync (se_routing S) m'" "(\<exists>cr. r = Inr cr) \<or> (\<exists>e. r = Inl (SessionTask e))"
    using run by (auto simp: client_session_def Let_def split: option.splits sum.splits prod.splits if_splits)
  then show ?thesis
  proof cases
    case failed
    then show ?thesis using initialize_routes_Inl [OF failed(1) ok] K clean by auto
  next
    case ran
    note m = initialize_routes_Inr [OF ran(1) ok K clean]
    then have "tidy (se_routing S) routes K m'" "others (se_routing S) routes K (rm_table m') = fold (\<lambda>(_, g). g) envs (routes t)"
      using route_run_tidy [OF ok _ _ envs, of m] ran(2) by auto
    then have "routes (rm_table m') - owned_routes m' = fold (\<lambda>(_, g). g) envs (routes t)" by (auto simp: tidy_def mine_def others_def)
    then show ?thesis using ran(3,4) routes_cleanup [OF ok(2)] by auto
  qed simp
qed

text \<open>Only a failing configuration of the name servers or a task that panicked leaves the coordinator running.\<close>

lemma session_left_running:
  assumes "client_session S cfg peer_ip dns_server events task t w = Some (r, CoordinatorRunning m, w')"
  shows "r = Inl SessionJoin \<or> (\<exists>e. r = Inl (SessionDns e))"
  using assms by (auto simp: client_session_def Let_def split: option.splits sum.splits prod.splits if_splits)

lemma set_then_dropped:
  assumes "\<And>i d. se_detect S i d = DirectFile" and "connection_set_dns S mode dns_server w = (Inr dm, w1)"
    and "w' = (case dm of None \<Rightarrow> w1 | Some m \<Rightarrow> dns_drop (se_dns S) m w1)"
  shows "w' = w \<or> (\<exists>d1. direct_set (de_fails (se_dns S)) dns_server (dw_fs w) = (Inr (), d1)
    \<and> dw_fs w' = snd (direct_reset (de_fails (se_dns S)) d1))"
  using assms
  by (auto simp: connection_set_dns_def set_dns_def dns_manager_new_def dns_drop_def reset_dns_def
      split: sum.splits prod.splits if_splits)

text \<open>
  On a system without a resolver service the original file is back when the session returns, unless it
  fails to set the name servers or to rename the backup.
\<close>

lemma session_restores_dns:
  assumes run: "client_session S cfg peer_ip dns_server events task t w = Some (r, left, w')" and "\<forall>e. r \<noteq> Inl (SessionDns e)"
    and direct: "\<And>i d. se_detect S i d = DirectFile" and "de_fails (se_dns S) (FsRename RESOLV_CONF_BACKUP RESOLV_CONF) = None"
    and orig: "fs_exists (dw_fs w) RESOLV_CONF" "\<not> generated_by_lightway RESOLV_CONF (dw_fs w)" "fs_ok (dw_fs w)"
  shows "w' = w \<or> (fs_names (dw_fs w') = (fs_names (dw_fs w))(RESOLV_CONF_BACKUP := None)
    \<and> (\<forall>i<fs_fresh (dw_fs w). fs_data (dw_fs w') i = fs_data (dw_fs w) i))"
proof -
  let ?F = "de_fails (se_dns S)"
  have "w' = w \<or> (\<exists>dm w1. connection_set_dns S (ss_dns_config_mode cfg) dns_server w = (Inr dm, w1)
      \<and> w' = (case dm of None \<Rightarrow> w1 | Some m \<Rightarrow> dns_drop (se_dns S) m w1))"
    using run assms(2) by (auto simp: client_session_def Let_def split: option.splits sum.splits prod.splits)
  then have "w' = w \<or> (\<exists>d1. direct_set ?F dns_server (dw_fs w) = (Inr (), d1) \<and> dw_fs w' = snd (direct_reset ?F d1))"
    using set_then_dropped [of S, OF direct] by blast
  then consider "w' = w" | d1 where "direct_set ?F dns_server (dw_fs w) = (Inr (), d1)" "dw_fs w' = snd (direct_reset ?F d1)" by blast
  then show ?thesis
  proof cases
    case 2
    then obtain d2 where d2: "direct_reset ?F d1 = (Inr (), d2)"
      using resolv_conf_reset [of ?F dns_server "dw_fs w" d1] orig assms(4) by blast
    from resolv_conf_restored [OF 2(1) d2 orig] d2 2(2) show ?thesis by simp
  qed simp
qed

section \<open>Reloading\<close>

text \<open>A reload that changes nothing asks for nothing, one that changes the setting asks for the new value.\<close>

lemma reload_requests:
  "config_reload_step (reloadable_delta (reloadable_from b) (reloadable_from a)) = (if a = b then [] else [b])"
  by (simp add: config_reload_step_def reloadable_delta_def reloadable_from_def)

text \<open>The outside MTU of a server's configuration does not reach its connection.\<close>

lemma server_outside_mtu_unused:
  "try_from_connection_config as_bytes lookup_host (c\<lparr>cg_outside_mtu := mtu\<rparr>) = try_from_connection_config as_bytes lookup_host c"
  by (simp add: try_from_connection_config_def cong: sum.case_cong list.case_cong option.case_cong)

end
