(* ===== verification/Spec2Isabelle.thy ===== *)
theory Spec2Isabelle
  imports Connection_Loop Connection_Queue Connection_Lane Connection_Session Server_Ip Server_Connections Keepalive Send_Queue Route_Manager
    Inside_Path Client_Tasks Client_Select Connection_Builder Server_Auth Server_Sockets
    Server_Batch Server_Stats Network_Monitor Aead_Pool Tun_Device Dns_Manager App_Config Client_Connect
begin

text \<open>
  Lightway, a VPN protocol in Rust: a verification development.

  \<^bold>\<open>The program.\<close> A client and a server exchange IP packets through a TLS or DTLS session over a TCP
  or UDP socket. The library crate lightway-core holds the protocol: the wire format, one connection
  as a state machine that owns a TLS session, and what a connection is made of (path MTU discovery,
  fragmentation, plugins, the socket adapter, the key update timer, GSO). The crate
  lightway-expresslane is a data path beside the TLS session with its own keys and replay window,
  lightway-boring the TLS session on BoringSSL. The binaries lightway-server and lightway-client put
  connections to work: the server routes datagrams to connections, assigns inside addresses and
  batches what it sends; the client chooses a server, installs routes, translates addresses and
  watches the connection with keepalives.

  \<^bold>\<open>Theories, from the bottom up.\<close> Paths are below src/.

  Shared vocabulary:
  \<^item> \<open>Prelude\<close>: machine integers, buffers, panics and results as types, list and word lemmas, the
    named collections of the development.
  \<^item> \<open>Exec_Monad\<close>: methods on \<open>&mut self\<close> that return a \<open>Result\<close>; the locale \<open>step_rel\<close> gives the
    rules by which a preorder on states is shown to hold across a composed method, also when it
    fails halfway.

  Wire format (lightway-core/src/wire, wire.rs, version.rs, borrowed_bytesmut.rs):
  \<^item> \<open>Version\<close>, \<open>Borrowed_Bytes\<close>: versions with their order, the borrowed cursor.
  \<^item> \<open>Wire_Codec\<close>: the contract of a codec as the locale \<open>wire_codec\<close>, with streams of values.
    \<open>Wire_Payloads\<close>, \<open>Wire_Auth\<close>, \<open>Expresslane_Types\<close> interpret it for every payload and
    \<open>Wire_Frame\<close> for the payloads of a frame; there the header, the frames and the decoding of a
    stream are proved to round trip and never to panic on foreign bytes.
  \<^item> \<open>Ip_Text\<close>, \<open>Key_Update\<close>, \<open>Plugin\<close>, \<open>Packet_Utils\<close>: the text of addresses and sizes, the
    key update timer, plugin chains, checksums and address rewriting.

  ExpressLane (lightway-expresslane/src):
  \<^item> \<open>Replay_Window\<close>: the bitmap refines a set of counters (locale \<open>replay_filter\<close>).
  \<^item> \<open>Expresslane_Session\<close>: framing, key slots and rotation, both receive paths, the exact validity
    flags, and the interleaving of receiver threads, no counter delivered twice.
  \<^item> \<open>Aead_Pool\<close>: the ciphers on BoringSSL and the pool that shares them (locale \<open>stateless_cipher\<close>); it
    implements the AEAD a session takes as a value, however its callers interleave.

  Parts of a connection (lightway-core/src/connection, gso.rs):
  \<^item> \<open>Dplpmtud\<close>: the search of RFC 8899, safe in every reachable state and converging.
  \<^item> \<open>Fragment_Map\<close>: splitting and reassembly in any order; the crate lru is the locale \<open>lru_cache\<close>,
    extended by \<open>fragment_cache\<close> and interpreted on a recency list.
  \<^item> \<open>Io_Adapter\<close>, \<open>Gso\<close>: what the TLS library writes reaches the socket exactly, for streams,
    datagrams and GSO batches; the segments of a superpacket.

  The connection (lightway-core/src/connection.rs, connection/expresslane.rs):
  \<^item> \<open>Connection_Core\<close>, \<open>Connection_Expresslane\<close>, \<open>Connection\<close>, \<open>Connection_Gso\<close>: \<open>conn\<close> is
    \<open>struct Connection\<close> and every method has its name in the source. The calls a connection makes
    on its application are a log; each answer is a function of the log.
  \<^item> \<open>Connection_Laws\<close>: the locales \<open>conn_quiet\<close>, \<open>conn_rel\<close> and \<open>conn_entry\<close>, each extending the one
    before, take a preorder with laws for the elementary steps and give it for every method, for
    every run of calls and for every reachable connection.
  \<^item> \<open>Connection_Props\<close> (life cycle, authorisation, event modes), \<open>Connection_Loop\<close> (the message
    loop ends), \<open>Connection_Queue\<close> (queue and plaintext stream), \<open>Connection_Lane\<close> (degraded lanes),
    \<open>Connection_Session\<close> (exchanges between the two ends): the invariants of every run, as
    interpretations of \<open>conn_invariant\<close> and of the locales above. \<open>Connection_Example\<close> is the
    concrete world the witnesses run in.
  \<^item> \<open>Tls_Session\<close>, \<open>Tls_Context\<close>: the session and the context of lightway-boring, and that a session
    keeps the contract the connection relies on.
  \<^item> \<open>Connection_Builder\<close>: contexts and connection builders (lightway-core/src/context.rs,
    connection/builders.rs); what they build is reachable in the model, clients verify their server
    and servers accept supported versions.

  The server (lightway-server/src):
  \<^item> \<open>Server_Auth\<close>: the password file, the token backend and the dispatch on credentials; what a
    connection passes inside needs credentials the operator accepted.
  \<^item> \<open>Server_Ip\<close>: address pools; no address is held twice over any run.
  \<^item> \<open>Server_Connections\<close>: the map by address and session id, roaming, rotation, eviction, the event
    task and the handling of a datagram, over every interleaving of packets and events.
  \<^item> \<open>Send_Queue\<close>: batch windows hand every datagram over once and in order.
  \<^item> \<open>Server_Sockets\<close>: a batch is a sequence of single receives, replies leave from the contacted
    address, the PROXY header is taken off exactly, and the task of a TCP connection.
    \<open>Server_Batch\<close>: the slots of a batch carry nothing over from one batch to the next.

  \<^item> \<open>Server_Stats\<close>: the classes of sessions by activity and the bytes of offloaded sessions.

  Devices and timers of both (lightway-app-utils/src):
  \<^item> \<open>App_Timers\<close>: the timer of the path MTU discovery, which ticks at most once per start and never
    early, and the task that ticks a connection.
  \<^item> \<open>Io_Uring\<close>, \<open>Tun_Device\<close>: the ring shared with the kernel, whose buffers are held while it may
    access them, and the framing of packets read from and written to a TUN device.
  \<^item> \<open>Network_Monitor\<close>: network transitions have both their causes and keep their distance.

  The client (lightway-client/src), and both ends together:
  \<^item> \<open>Keepalive\<close>, \<open>Route_Manager\<close>: the keepalive task; the routes and that they are taken back.
  \<^item> \<open>Inside_Path\<close>: the way of an inside packet from the application to the network behind the
    server and back, with the address translation of both ends.
  \<^item> \<open>Client_Sockets\<close>: the UDP and TCP sockets; which errors of the network a connection sees.
  \<^item> \<open>Dns_Manager\<close>: the name server settings on Linux, and that the original file comes back.
  \<^item> \<open>App_Config\<close>: the servers a client tries, and the checks of both configurations.
  \<^item> \<open>Client_Connect\<close>: \<open>connect\<close>, from the settings of a server to a connection that verifies it, the end of a
    connection's task, and what the session of a client leaves of its routes and name servers.
  \<^item> \<open>Client_Tasks\<close>, \<open>Client_Select\<close>: the tasks of a client, and the choice of its server.
  \<^item> This theory: what spans the path MTU estimate, fragmentation and the frame codec.

  \<^bold>\<open>How the code is rendered.\<close> A struct is a record, an enum a datatype, a method a function that
  takes the struct and returns it changed. \<open>Err\<close> is a value. Every \<open>assert!\<close>, \<open>unwrap\<close>,
  \<open>unreachable!\<close>, slice out of range and checked overflow is a branch of its own (\<open>None\<close> or \<open>Panic\<close>);
  the safety properties show which of them cannot be reached. Wrapping arithmetic is done on words.
  Times are nanoseconds and arguments. Tasks are modelled by one round of their loop and, where
  the order of rounds matters, by runs over any sequence of completed branches. Builds are Linux.

  \<^bold>\<open>Bounds and fuel.\<close> Only the message loop of a connection takes fuel, since the TLS library decides
  how much a read returns. \<open>Connection_Loop\<close> shows that one more than the unread data (measured by
  any number that reads lower) is enough and that more fuel changes nothing. All other loops are
  total functions. The number of rounds of the path MTU search and of kernel calls of a batch are
  bounded in their properties. Lengths and counters are bounded only where the code bounds them.

  \<^bold>\<open>Parameters.\<close> Code outside the repository is an argument: the TLS session (\<open>tls_ops\<close>) or BoringSSL
  (\<open>ssl_ops\<close>), the AEAD (\<open>aead_ops\<close>), the socket and \<open>sendmmsg\<close>, the crates lru, pnet_packet,
  internet_checksum, ipnet, rand and route_manager, the clock, and the answers of the application.
  What is assumed of one is a named predicate or a locale (\<open>tls_progress\<close>, \<open>tls_writes\<close>,
  \<open>ssl_progress\<close>, \<open>ssl_takes\<close>, \<open>builders_ok\<close>, \<open>table_ok\<close>, \<open>addr_view_ok\<close>, \<open>lru_cache\<close>, ...), and the
  witnesses give an instance that satisfies it. Most properties of a connection hold for every
  behaviour of its TLS session, peer and application.

  \<^bold>\<open>Not modelled.\<close> The WolfSSL backend; metrics; the parsing of command lines and configuration
  files, the mobile bindings and the name server settings of macOS and Windows; socket options, the set-up calls of an
  io_uring and the layout of ancillary data; the spawning and cancelling
  of tokio tasks. A mutex is taken for the length of a step, so data races and deadlocks are
  outside the model, the lock-free parts of an ExpressLane session excepted.
\<close>

section \<open>Fragmentation and the path estimate\<close>

lemma fragment_offsets:
  assumes "0 < mps" "8 dvd mps" "8 dvd off" "fragment_loop fid mps off data = Some frags" "g \<in> set frags"
  shows "8 dvd df_offset g \<and> length (df_data g) \<le> mps"
  using assms
proof (induction "length data" arbitrary: data off frags rule: less_induct)
  case less
  show ?case
  proof (cases "data = []")
    case False
    obtain rest where rest: "fragment_loop fid mps (off + mps) (drop mps data) = Some rest"
      "frags = \<lparr>df_id = fid, df_offset = off, df_more_fragments = (drop mps data \<noteq> []), df_data = take mps data\<rparr> # rest"
      using less.prems(4) fragment_loop_step [OF less.prems(1) False, of fid off] by (auto simp: bind_eq_Some_conv)
    have "length (drop mps data) < length data" using False less.prems(1) by simp
    then show ?thesis
      using less.hyps [OF _ less.prems(1,2) _ rest(1)] less.prems(2,3,5) rest(2) by (auto simp: dvd_add)
  qed (use less.prems in simp)
qed

lemma data_frame_length:
  assumes "length p < 2 ^ 16"
  shows "\<exists>b. frame_append_to_wire (Data \<lparr>data_data = p\<rparr>) [] = Some b \<and> length b = 3 + length p"
  using assms by (auto simp: frame_append_to_wire_def codec_defs)

lemma data_frag_frame_length:
  assumes "data_frag_ok g"
  shows "\<exists>b. frame_append_to_wire (DataFrag g) [] = Some b \<and> length b = 7 + length (df_data g)"
  using assms offset_mf_parts [of "df_offset g" "df_more_fragments g"]
  by (auto simp: frame_append_to_wire_def codec_defs data_frag_ok_def)


definition ex_dplpmtud :: dplpmtud where
  "ex_dplpmtud = (dp_new 15 1500)\<lparr>dp_state := DpSearching, dp_plpmtu := 15\<rparr>"


end
